(* ===== verification/Prelude.thy ===== *)
theory Prelude
  imports Main "HOL-Library.AList" "HOL-Library.Char_ord" "HOL-Library.List_Lexorder"
    "HOL-Library.Product_Lexorder"
begin

text \<open>
  Shared vocabulary of the development: Python exceptions as values of a sum type, the
  \<open>for\<close> loop over a list with exceptions, dictionaries as association lists with Python's
  insertion order, the first-occurrence deduplication of \<open>dict.fromkeys\<close>, decimal rendering
  of counters and the string facts behind the runtime's composite keys.
\<close>

named_theorems dict_simps "lookups after dictionary updates and deletions"
named_theorems res_simps "evaluation and inversion of exceptional results"

section \<open>Exceptions as values\<close>

text \<open>
  The exceptions the modelled code raises. \<open>OutOfFuel\<close> is no Python exception: it is the
  result of a fuelled definition whose bound was too small, and the component theories prove
  how much fuel rules it out.
\<close>

datatype py_error =
    KeyError string
  | ValueError string
  | TypeError string
  | IndexError string
  | RuntimeError string
  | OutOfFuel

type_synonym 'a res = "py_error + 'a"

definition bindR :: "'a res \<Rightarrow> ('a \<Rightarrow> 'b res) \<Rightarrow> 'b res" where
  "bindR m f = (case m of Inl e \<Rightarrow> Inl e | Inr x \<Rightarrow> f x)"

fun foldR :: "('s \<Rightarrow> 'x \<Rightarrow> 's res) \<Rightarrow> 's \<Rightarrow> 'x list \<Rightarrow> 's res" where
  "foldR f s [] = Inr s"
| "foldR f s (x # xs) = bindR (f s x) (\<lambda>s'. foldR f s' xs)"

fun mapR :: "('a \<Rightarrow> 'b res) \<Rightarrow> 'a list \<Rightarrow> 'b list res" where
  "mapR f [] = Inr []"
| "mapR f (x # xs) = bindR (f x) (\<lambda>y. bindR (mapR f xs) (\<lambda>ys. Inr (y # ys)))"

lemma bindR_simps [simp]:
  "bindR (Inl e) f = Inl e"
  "bindR (Inr x) f = f x"
  by (simp_all add: bindR_def)

lemma bindR_eq_Inr [res_simps]:
  "bindR m f = Inr y \<longleftrightarrow> (\<exists>x. m = Inr x \<and> f x = Inr y)"
  by (cases m) simp_all

lemma bindR_eq_Inl [res_simps]:
  "bindR m f = Inl e \<longleftrightarrow> m = Inl e \<or> (\<exists>x. m = Inr x \<and> f x = Inl e)"
  by (cases m) simp_all

lemma bindR_cong [fundef_cong]:
  "m = m' \<Longrightarrow> (\<And>x. m' = Inr x \<Longrightarrow> f x = f' x) \<Longrightarrow> bindR m f = bindR m' f'"
  by (cases m') simp_all

lemma bindR_assoc: "bindR (bindR m f) g = bindR m (\<lambda>x. bindR (f x) g)"
  by (cases m) simp_all

lemma foldR_append: "foldR f s (xs @ ys) = bindR (foldR f s xs) (\<lambda>s'. foldR f s' ys)"
  by (induction xs arbitrary: s) (simp_all add: bindR_assoc)

lemma foldR_cong [fundef_cong]:
  assumes "s = s'" and "xs = xs'" and "\<And>t x. x \<in> set xs' \<Longrightarrow> f t x = f' t x"
  shows "foldR f s xs = foldR f' s' xs'"
proof -
  from assms(3) have "foldR f s xs' = foldR f' s xs'"
    by (induction xs' arbitrary: s) (simp_all cong: bindR_cong)
  with assms(1,2) show ?thesis by simp
qed

text \<open>The loop rule: an invariant of the body is an invariant of the loop.\<close>

lemma foldR_invariant:
  assumes "foldR f s xs = Inr t" and "P s"
    and "\<And>u x u'. x \<in> set xs \<Longrightarrow> P u \<Longrightarrow> f u x = Inr u' \<Longrightarrow> P u'"
  shows "P t"
  using assms by (induction xs arbitrary: s) (auto simp: bindR_eq_Inr)

lemma foldR_no_error:
  assumes "P s"
    and "\<And>u x. x \<in> set xs \<Longrightarrow> P u \<Longrightarrow> f u x \<noteq> Inl e"
    and "\<And>u x u'. x \<in> set xs \<Longrightarrow> P u \<Longrightarrow> f u x = Inr u' \<Longrightarrow> P u'"
  shows "foldR f s xs \<noteq> Inl e"
  using assms
proof (induction xs arbitrary: s)
  case Nil
  then show ?case by simp
next
  case (Cons x xs)
  have "f s x \<noteq> Inl e" using Cons.prems(1,2) by simp
  moreover have "foldR f s' xs \<noteq> Inl e" if "f s x = Inr s'" for s'
  proof (rule Cons.IH)
    show "P s'" using Cons.prems(1,3) that by (meson list.set_intros(1))
    show "f u y \<noteq> Inl e" if "y \<in> set xs" "P u" for u y using Cons.prems(2) that by simp
    show "P u'" if "y \<in> set xs" "P u" "f u y = Inr u'" for u y u'
      using Cons.prems(3) that by (meson list.set_intros(2))
  qed
  ultimately show ?case by (auto simp: bindR_eq_Inl)
qed

section \<open>Dictionaries\<close>

text \<open>
  A Python dictionary is an association list: \<open>dict_set\<close> overwrites in place or appends, which
  is Python's insertion order, and \<open>dict_pop\<close> removes an entry.
\<close>

type_synonym 'v dict = "(string \<times> 'v) list"

definition dict_get :: "('k \<times> 'v) list \<Rightarrow> 'k \<Rightarrow> 'v option" where
  "dict_get d k = map_of d k"

definition dict_set :: "'k \<Rightarrow> 'v \<Rightarrow> ('k \<times> 'v) list \<Rightarrow> ('k \<times> 'v) list" where
  "dict_set k v d = AList.update k v d"

definition dict_pop :: "'k \<Rightarrow> ('k \<times> 'v) list \<Rightarrow> ('k \<times> 'v) list" where
  "dict_pop k d = AList.delete k d"

definition dict_keys :: "('k \<times> 'v) list \<Rightarrow> 'k list" where
  "dict_keys d = map fst d"

text \<open>The subscript \<open>d[k]\<close>, which raises \<open>KeyError\<close>, and \<open>d.get(k, default)\<close>.\<close>

definition dict_index :: "'v dict \<Rightarrow> string \<Rightarrow> 'v res" where
  "dict_index d k = (case dict_get d k of None \<Rightarrow> Inl (KeyError k) | Some v \<Rightarrow> Inr v)"

definition dict_get_default :: "('k \<times> 'v) list \<Rightarrow> 'k \<Rightarrow> 'v \<Rightarrow> 'v" where
  "dict_get_default d k v = (case dict_get d k of None \<Rightarrow> v | Some w \<Rightarrow> w)"

lemma dict_get_set [simp, dict_simps]:
  "dict_get (dict_set k v d) j = (if j = k then Some v else dict_get d j)"
  by (simp add: dict_get_def dict_set_def update_conv')

lemma dict_get_pop [simp, dict_simps]:
  "dict_get (dict_pop k d) j = (if j = k then None else dict_get d j)"
  by (simp add: dict_get_def dict_pop_def delete_conv')

lemma dict_get_Nil [simp, dict_simps]: "dict_get [] k = None"
  by (simp add: dict_get_def)

lemma dict_get_Cons [simp]: "dict_get ((j, v) # d) k = (if k = j then Some v else dict_get d k)"
  by (simp add: dict_get_def)

lemma dict_get_in_keys: "dict_get d k = Some v \<Longrightarrow> k \<in> set (dict_keys d)"
  by (force simp: dict_get_def dict_keys_def dest: map_of_SomeD)

lemma dict_get_None_iff: "dict_get d k = None \<longleftrightarrow> k \<notin> set (dict_keys d)"
  by (auto simp: dict_get_def dict_keys_def map_of_eq_None_iff)

lemma dict_get_mem: "dict_get d k = Some v \<Longrightarrow> (k, v) \<in> set d"
  by (simp add: dict_get_def map_of_SomeD)

lemma dict_keys_set: "set (dict_keys (dict_set k v d)) = insert k (set (dict_keys d))"
  by (simp add: dict_keys_def dict_set_def dom_update)

lemma distinct_dict_set: "distinct (dict_keys d) \<Longrightarrow> distinct (dict_keys (dict_set k v d))"
  by (simp add: dict_keys_def dict_set_def distinct_update)

lemma distinct_dict_pop: "distinct (dict_keys d) \<Longrightarrow> distinct (dict_keys (dict_pop k d))"
  by (simp add: dict_keys_def dict_pop_def distinct_delete)

lemma dict_set_not_Nil [simp]: "dict_set k v d \<noteq> []"
  by (simp add: dict_set_def update_nonempty)

lemma dict_index_eq_Inr [res_simps]: "dict_index d k = Inr v \<longleftrightarrow> dict_get d k = Some v"
  by (simp add: dict_index_def split: option.splits)

lemma dict_index_eq_Inl [res_simps]:
  "dict_index d k = Inl e \<longleftrightarrow> dict_get d k = None \<and> e = KeyError k"
  by (auto simp: dict_index_def split: option.splits)

lemma dict_index_not_fuel [simp]: "dict_index d k \<noteq> Inl OutOfFuel"
  by (simp add: dict_index_eq_Inl)

section \<open>Deduplication that keeps first occurrences\<close>

text \<open>\<open>tuple(dict.fromkeys(xs))\<close>.\<close>

fun uniq_first :: "'a list \<Rightarrow> 'a list" where
  "uniq_first [] = []"
| "uniq_first (x # xs) = x # filter (\<lambda>y. y \<noteq> x) (uniq_first xs)"

lemma set_uniq_first [simp]: "set (uniq_first xs) = set xs"
  by (induction xs) auto

lemma distinct_uniq_first [simp]: "distinct (uniq_first xs)"
  by (induction xs) auto

lemma uniq_first_distinct: "distinct xs \<Longrightarrow> uniq_first xs = xs"
  by (induction xs) (auto simp: filter_id_conv)

lemma length_uniq_first: "length (uniq_first xs) \<le> length xs"
  by (induction xs) (auto intro: order_trans [OF length_filter_le])

section \<open>Decimal rendering\<close>

definition digit_char :: "nat \<Rightarrow> char" where
  "digit_char d = char_of (48 + d)"

fun str_nat :: "nat \<Rightarrow> string" where
  "str_nat n = (if n < 10 then [digit_char n] else str_nat (n div 10) @ [digit_char (n mod 10)])"

declare str_nat.simps [simp del]

definition is_digit :: "char \<Rightarrow> bool" where
  "is_digit c \<longleftrightarrow> 48 \<le> (of_char c :: nat) \<and> (of_char c :: nat) \<le> 57"

lemma of_char_digit [simp]: "d < 10 \<Longrightarrow> (of_char (digit_char d) :: nat) = 48 + d"
  by (simp add: digit_char_def take_bit_nat_eq_self)

lemma str_nat_digits: "c \<in> set (str_nat n) \<Longrightarrow> is_digit c"
proof (induction n rule: str_nat.induct)
  case (1 n)
  show ?case
  proof (cases "n < 10")
    case True
    with "1.prems" show ?thesis by (simp add: str_nat.simps [of n] is_digit_def)
  next
    case False
    have "n mod 10 < 10" by simp
    with False "1" show ?thesis by (auto simp: str_nat.simps [of n] is_digit_def)
  qed
qed

lemma str_nat_not_Nil [simp]: "str_nat n \<noteq> []"
  by (simp add: str_nat.simps [of n])

lemma digit_char_inj: "a < 10 \<Longrightarrow> b < 10 \<Longrightarrow> digit_char a = digit_char b \<longleftrightarrow> a = b"
  by (metis add_left_cancel of_char_digit)

lemma str_nat_inj: "str_nat m = str_nat n \<Longrightarrow> m = n"
proof (induction m arbitrary: n rule: str_nat.induct)
  case (1 m)
  have len: "str_nat k = [c] \<Longrightarrow> k < 10" for k c
    by (subst (asm) str_nat.simps) (simp split: if_splits)
  show ?case
  proof (cases "m < 10")
    case True
    then have sm: "str_nat m = [digit_char m]" by (simp add: str_nat.simps [of m])
    with "1.prems" have "n < 10" by (metis len)
    with True sm "1.prems" show ?thesis by (simp add: str_nat.simps [of n] digit_char_inj)
  next
    case False
    then have "\<not> n < 10" using "1.prems" len by (metis str_nat.simps)
    with False "1.prems" have parts: "str_nat (m div 10) = str_nat (n div 10)"
      "digit_char (m mod 10) = digit_char (n mod 10)"
      by (simp_all add: str_nat.simps [of m] str_nat.simps [of n])
    have "m div 10 = n div 10" using "1.IH" [OF False] parts(1) by simp
    moreover have "m mod 10 = n mod 10" using parts(2) by (simp add: digit_char_inj)
    ultimately show ?thesis by (metis div_mult_mod_eq)
  qed
qed

lemma str_nat_no_sep: "\<not> is_digit c \<Longrightarrow> c \<notin> set (str_nat n)"
  using str_nat_digits by blast

text \<open>The characters \<open>str.strip\<close> removes, below 256.\<close>

definition is_space :: "char \<Rightarrow> bool" where
  "is_space c \<longleftrightarrow> (let n = of_char c :: nat in
     (9 \<le> n \<and> n \<le> 13) \<or> (28 \<le> n \<and> n \<le> 32) \<or> n = 133 \<or> n = 160)"

section \<open>Joining and splitting strings\<close>

fun join_str :: "string \<Rightarrow> string list \<Rightarrow> string" where
  "join_str sep [] = []"
| "join_str sep [x] = x"
| "join_str sep (x # y # ys) = x @ sep @ join_str sep (y # ys)"

text \<open>A separator that does not occur in the left parts determines where a string splits.\<close>

lemma append_sep_inj:
  assumes "a @ c # b = a' @ c # b'" and "c \<notin> set a" and "c \<notin> set a'"
  shows "a = a' \<and> b = b'"
  using assms by (induction a arbitrary: a') (auto simp: append_eq_Cons_conv Cons_eq_append_conv)

lemma sep_in_join: "length xs \<ge> 2 \<Longrightarrow> c \<in> set (join_str [c] xs)"
  by (induction "[c]" xs rule: join_str.induct) auto

lemma join_str_inj:
  assumes "join_str [c] xs = join_str [c] ys"
    and "\<forall>x \<in> set xs. c \<notin> set x \<and> x \<noteq> []" and "\<forall>y \<in> set ys. c \<notin> set y \<and> y \<noteq> []"
  shows "xs = ys"
  using assms
proof (induction "[c]" xs arbitrary: ys rule: join_str.induct)
  case 1
  then show ?case by (cases "([c], ys)" rule: join_str.cases) auto
next
  case (2 x)
  show ?case
  proof (cases "([c], ys)" rule: join_str.cases)
    case (3 sep y y' ys')
    then have "c \<in> set (join_str [c] ys)" using sep_in_join [of ys c] by simp
    with "2.prems" show ?thesis by simp
  qed (use "2.prems" in auto)
next
  case (3 x x' xs)
  have cin: "c \<in> set (join_str [c] (x # x' # xs))" using sep_in_join [of "x # x' # xs" c] by simp
  show ?case
  proof (cases "([c], ys)" rule: join_str.cases)
    case (1 sep)
    with "3.prems" show ?thesis by simp
  next
    case (2 sep y)
    with "3.prems" cin show ?thesis by auto
  next
    case (3 sep y y' ys')
    with "3.prems" have eq: "x @ c # join_str [c] (x' # xs) = y @ c # join_str [c] (y' # ys')"
      by simp
    have "c \<notin> set x" "c \<notin> set y" using "3.prems" 3 by auto
    with eq have xy: "x = y" and rest: "join_str [c] (x' # xs) = join_str [c] (y' # ys')"
      using append_sep_inj by metis+
    have "x' # xs = y' # ys'"
    proof (rule "3.hyps")
      show "join_str [c] (x' # xs) = join_str [c] (y' # ys')" by (rule rest)
      show "\<forall>x \<in> set (x' # xs). c \<notin> set x \<and> x \<noteq> []" using "3.prems"(2) by simp
      show "\<forall>y \<in> set (y' # ys'). c \<notin> set y \<and> y \<noteq> []" using "3.prems"(3) 3 by simp
    qed
    with xy 3 show ?thesis by simp
  qed
qed

text \<open>\<open>s.split(c, 1)[0]\<close>: the text before the first separator, or all of it.\<close>

definition before_first :: "char \<Rightarrow> string \<Rightarrow> string" where
  "before_first c s = takeWhile (\<lambda>x. x \<noteq> c) s"

lemma before_first_append: "c \<notin> set a \<Longrightarrow> before_first c (a @ c # b) = a"
  by (induction a) (auto simp: before_first_def)

lemma before_first_absent: "c \<notin> set a \<Longrightarrow> before_first c a = a"
  by (auto simp: before_first_def takeWhile_eq_all_conv)

section \<open>Positions in a list\<close>

text \<open>The position map \<open>{x: i for i, x in enumerate(xs)}\<close>: a repeated element keeps its last index.\<close>

definition enum_index :: "string list \<Rightarrow> nat dict" where
  "enum_index xs = foldl (\<lambda>d (i, x). dict_set x i d) [] (zip [0..<length xs] xs)"

text \<open>The longest common prefix length.\<close>

fun common_len :: "'a list \<Rightarrow> 'a list \<Rightarrow> nat" where
  "common_len (x # xs) (y # ys) = (if x = y then Suc (common_len xs ys) else 0)"
| "common_len _ _ = 0"

lemma common_len_take: "take (common_len xs ys) xs = take (common_len xs ys) ys"
  by (induction xs ys rule: common_len.induct) auto

lemma common_len_le: "common_len xs ys \<le> length xs" "common_len xs ys \<le> length ys"
  by (induction xs ys rule: common_len.induct) auto

end
