(* ===== verification/Values.thy ===== *)
theory Values
  imports Prelude
begin

text \<open>
  Python values as far as the runtime inspects them, and the error record it stores.
  \<open>PyOpaque\<close> stands for any other object, known only by identity; floats are not modelled.
  A \<open>PyDict\<close> is an association list in insertion order.
\<close>

datatype pyval =
    PyNone
  | PyBool bool
  | PyInt int
  | PyStr string
  | PyList "pyval list"
  | PyDict "(string \<times> pyval) list"
  | PyOpaque nat

text \<open>\<open>bool(v)\<close> for these values; an opaque object is true, Python's default.\<close>

fun py_truthy :: "pyval \<Rightarrow> bool" where
  "py_truthy PyNone = False"
| "py_truthy (PyBool b) = b"
| "py_truthy (PyInt i) = (i \<noteq> 0)"
| "py_truthy (PyStr s) = (s \<noteq> [])"
| "py_truthy (PyList xs) = (xs \<noteq> [])"
| "py_truthy (PyDict d) = (d \<noteq> [])"
| "py_truthy (PyOpaque n) = True"

text \<open>\<open>x or d\<close> on an optional string.\<close>

definition str_or :: "string option \<Rightarrow> string \<Rightarrow> string" where
  "str_or x d = (case x of Some (c # cs) \<Rightarrow> c # cs | _ \<Rightarrow> d)"

text \<open>An exception raised by user code: its type name and its message.\<close>

datatype user_exn = UserExn (exn_type: string) (exn_message: string)

text \<open>\<open>RuntimeErrorInfo\<close> of \<open>core/runtime/execution.py\<close>.\<close>

record runtime_error_info =
  err_code :: string
  err_message :: string
  err_detail :: "pyval dict"

definition mk_error :: "string \<Rightarrow> string \<Rightarrow> pyval dict \<Rightarrow> runtime_error_info" where
  "mk_error code msg detail = \<lparr>err_code = code, err_message = msg, err_detail = detail\<rparr>"

lemma err_code_mk_error [simp]: "err_code (mk_error c m d) = c"
  by (simp add: mk_error_def)

end
