(* ===== verification/Scheduler_Context.thy ===== *)
theory Scheduler_Context
  imports Values
begin

text \<open>
  The scheduler-owned cursor of one invocation: \<open>core/runtime/scheduler.py\<close> and the state
  literals of \<open>core/runtime/status.py\<close>. Execution scopes and the composite string keys built
  from them, the queue entries, and the operations of \<open>SchedulerContext\<close>. UUIDs are natural
  numbers; a wait payload
  is a dictionary of Python values. The records' serialised form is not part of this theory.
\<close>

section \<open>State literals\<close>

datatype invocation_state =
    InvCreated | InvRunning | InvWaiting | InvCompleted | InvFailed | InvCancelled | InvInterrupted

datatype node_state =
    NodeCreated | NodeReady | NodeRunning | NodeWaiting | NodeCompleted | NodeFailed
  | NodeSkipped | NodeCancelled | NodeInterrupted

datatype operator_state = OpRunning | OpCompleted | OpFailed | OpInterrupted

datatype operator_reason = ReasonNormal | ReasonRetry | ReasonFallback | ReasonRecovery

datatype edge_evaluation_state = EvalSelected | EvalSkipped | EvalFailed

datatype edge_resolution_state = Selected | Skipped

datatype execution_mode = ModeNormal | ModeRecovery

section \<open>Scopes and composite keys\<close>

type_synonym uuid = nat

datatype loop_iteration = LoopIteration (frame_region: string) (frame_iteration: nat)

type_synonym execution_scope = "loop_iteration list"

definition frame_key :: "loop_iteration \<Rightarrow> string" where
  "frame_key f = frame_region f @ '':'' @ str_nat (frame_iteration f)"

definition execution_scope_key :: "execution_scope \<Rightarrow> string" where
  "execution_scope_key scope =
     (if scope = [] then ''root'' else join_str ''/'' (map frame_key scope))"

definition node_instance_key :: "string \<Rightarrow> execution_scope \<Rightarrow> string" where
  "node_instance_key node_id scope =
     (if scope = [] then node_id else node_id @ ''@'' @ execution_scope_key scope)"

definition edge_occurrence_key :: "string \<Rightarrow> execution_scope \<Rightarrow> string" where
  "edge_occurrence_key edge_id scope =
     (if scope = [] then edge_id else edge_id @ ''@'' @ execution_scope_key scope)"

text \<open>The key of \<open>loop_boundary_resolutions\<close>.\<close>

definition loop_boundary_key :: "string \<Rightarrow> execution_scope \<Rightarrow> string \<Rightarrow> string" where
  "loop_boundary_key loop_region_id loop_scope edge_id =
     loop_region_id @ ''@'' @ execution_scope_key loop_scope @ '':'' @ edge_id"

section \<open>Queue entries\<close>

datatype edge_activation = EdgeActivation
  (act_edge_id: string) (act_source_node_id: string) (act_source_execution_id: uuid)

record edge_resolution =
  er_edge_id :: string
  er_state :: edge_resolution_state
  er_activation :: "edge_activation option"
  er_scope :: execution_scope

record node_request =
  rq_node_id :: string
  rq_activations :: "edge_activation list"
  rq_scope :: execution_scope
  rq_idempotency_key :: "string option"
  rq_recovery_of :: "uuid option"
  rq_recovery_attempt :: nat

definition source_execution_ids :: "node_request \<Rightarrow> uuid list" where
  "source_execution_ids r = map act_source_execution_id (rq_activations r)"

record waiting_execution =
  we_wait_key :: string
  we_node_execution_id :: uuid
  we_node_id :: string
  we_wait_type :: "string option"
  we_payload :: "pyval dict"

record node_transition =
  tr_node_execution_id :: uuid
  tr_node_id :: string
  tr_state :: node_state

section \<open>The cursor\<close>

record scheduler_context =
  ready_queue :: "node_request list"
  waiting_executions :: "waiting_execution dict"
  transition_queue :: "node_transition list"
  edge_resolutions :: "edge_resolution dict"
  loop_boundary_resolutions :: "edge_resolution dict"
  scheduled_node_instances :: "string set"
  skipped_node_instances :: "string set"
  entered_loop_instances :: "string set"
  exited_loop_instances :: "string set"
  entry_paths_initialized :: bool

definition empty_context :: "scheduler_context" where
  "empty_context = \<lparr>ready_queue = [], waiting_executions = [], transition_queue = [],
     edge_resolutions = [], loop_boundary_resolutions = [], scheduled_node_instances = {},
     skipped_node_instances = {}, entered_loop_instances = {}, exited_loop_instances = {},
     entry_paths_initialized = False\<rparr>"

definition mk_request ::
  "string \<Rightarrow> edge_activation list \<Rightarrow> execution_scope \<Rightarrow> string option \<Rightarrow> uuid option \<Rightarrow> nat
   \<Rightarrow> node_request" where
  "mk_request node_id acts scope idem recovery_of attempt =
     \<lparr>rq_node_id = node_id, rq_activations = acts, rq_scope = scope, rq_idempotency_key = idem,
      rq_recovery_of = recovery_of, rq_recovery_attempt = attempt\<rparr>"

definition enqueue_request :: "node_request \<Rightarrow> scheduler_context \<Rightarrow> scheduler_context" where
  "enqueue_request r c = c\<lparr>ready_queue := ready_queue c @ [r]\<rparr>"

text \<open>\<open>enqueue_ready\<close> with its default arguments, the form every scheduler rule uses.\<close>

definition enqueue_ready ::
  "string \<Rightarrow> edge_activation list \<Rightarrow> execution_scope \<Rightarrow> scheduler_context
   \<Rightarrow> scheduler_context" where
  "enqueue_ready node_id acts scope c =
     enqueue_request (mk_request node_id acts scope None None 0) c"

definition resolve_edge ::
  "string \<Rightarrow> edge_resolution_state \<Rightarrow> edge_activation option \<Rightarrow> execution_scope
   \<Rightarrow> scheduler_context \<Rightarrow> scheduler_context res" where
  "resolve_edge edge_id st act scope c =
     (let key = edge_occurrence_key edge_id scope in
      case dict_get (edge_resolutions c) key of
        Some existing \<Rightarrow>
          if er_state existing \<noteq> st \<or> er_activation existing \<noteq> act
          then Inl (ValueError ''Edge already resolved with different state'')
          else Inr c
      | None \<Rightarrow>
          if st = Selected \<and> act = None
          then Inl (ValueError ''Selected edge resolution requires an activation.'')
          else if st = Skipped \<and> act \<noteq> None
          then Inl (ValueError ''Skipped edge resolution cannot carry an activation.'')
          else Inr (c\<lparr>edge_resolutions := dict_set key
                 \<lparr>er_edge_id = edge_id, er_state = st, er_activation = act, er_scope = scope\<rparr>
                 (edge_resolutions c)\<rparr>))"

definition resolve_loop_boundary ::
  "string \<Rightarrow> execution_scope \<Rightarrow> string \<Rightarrow> edge_resolution_state \<Rightarrow> edge_activation option
   \<Rightarrow> scheduler_context \<Rightarrow> scheduler_context res" where
  "resolve_loop_boundary loop_region_id loop_scope edge_id st act c =
     (let key = loop_boundary_key loop_region_id loop_scope edge_id in
      case dict_get (loop_boundary_resolutions c) key of
        Some existing \<Rightarrow>
          if er_state existing \<noteq> st \<or> er_activation existing \<noteq> act
          then Inl (ValueError ''Loop boundary already resolved with different state'')
          else Inr c
      | None \<Rightarrow>
          if st = Selected \<and> act = None
          then Inl (ValueError ''Selected loop boundary requires an activation.'')
          else if st = Skipped \<and> act \<noteq> None
          then Inl (ValueError ''Skipped loop boundary cannot carry an activation.'')
          else Inr (c\<lparr>loop_boundary_resolutions := dict_set key
                 \<lparr>er_edge_id = edge_id, er_state = st, er_activation = act, er_scope = loop_scope\<rparr>
                 (loop_boundary_resolutions c)\<rparr>))"

definition pop_ready ::
  "scheduler_context \<Rightarrow> node_request option \<times> scheduler_context" where
  "pop_ready c = (case ready_queue c of
      [] \<Rightarrow> (None, c)
    | r # rs \<Rightarrow> (Some r, c\<lparr>ready_queue := rs\<rparr>))"

text \<open>\<open>while queue and (limit is None or len(out) < limit)\<close>: the drained prefix and the rest.\<close>

fun drain_loop :: "nat option \<Rightarrow> 'a list \<Rightarrow> 'a list \<Rightarrow> 'a list \<times> 'a list" where
  "drain_loop limit out [] = (out, [])"
| "drain_loop limit out (x # q) =
     (if (case limit of None \<Rightarrow> True | Some n \<Rightarrow> length out < n)
      then drain_loop limit (out @ [x]) q else (out, x # q))"

definition drain_ready ::
  "nat option \<Rightarrow> scheduler_context \<Rightarrow> node_request list \<times> scheduler_context" where
  "drain_ready limit c =
     (let (out, q) = drain_loop limit [] (ready_queue c) in (out, c\<lparr>ready_queue := q\<rparr>))"

definition add_waiting_execution ::
  "string \<Rightarrow> uuid \<Rightarrow> string \<Rightarrow> string option \<Rightarrow> pyval dict \<Rightarrow> scheduler_context
   \<Rightarrow> scheduler_context res" where
  "add_waiting_execution wait_key exec_id node_id wait_type payload c =
     (if dict_get (waiting_executions c) wait_key \<noteq> None
      then Inl (ValueError (''Duplicate active wait key: '' @ wait_key))
      else Inr (c\<lparr>waiting_executions := dict_set wait_key
             \<lparr>we_wait_key = wait_key, we_node_execution_id = exec_id, we_node_id = node_id,
              we_wait_type = wait_type, we_payload = payload\<rparr> (waiting_executions c)\<rparr>))"

definition remove_waiting_execution ::
  "string \<Rightarrow> scheduler_context \<Rightarrow> (waiting_execution \<times> scheduler_context) res" where
  "remove_waiting_execution wait_key c =
     bindR (dict_index (waiting_executions c) wait_key)
       (\<lambda>w. Inr (w, c\<lparr>waiting_executions := dict_pop wait_key (waiting_executions c)\<rparr>))"

definition enqueue_transition ::
  "uuid \<Rightarrow> string \<Rightarrow> node_state \<Rightarrow> scheduler_context \<Rightarrow> scheduler_context" where
  "enqueue_transition exec_id node_id st c =
     c\<lparr>transition_queue := transition_queue c @
         [\<lparr>tr_node_execution_id = exec_id, tr_node_id = node_id, tr_state = st\<rparr>]\<rparr>"

definition pop_transition ::
  "scheduler_context \<Rightarrow> node_transition option \<times> scheduler_context" where
  "pop_transition c = (case transition_queue c of
      [] \<Rightarrow> (None, c)
    | t # ts \<Rightarrow> (Some t, c\<lparr>transition_queue := ts\<rparr>))"

definition drain_transitions ::
  "nat option \<Rightarrow> scheduler_context \<Rightarrow> node_transition list \<times> scheduler_context" where
  "drain_transitions limit c =
     (let (out, q) = drain_loop limit [] (transition_queue c) in (out, c\<lparr>transition_queue := q\<rparr>))"

section \<open>Lemmas\<close>

subsection \<open>Keys\<close>

definition clean_region :: "string \<Rightarrow> bool" where
  "clean_region r \<longleftrightarrow> CHR '':'' \<notin> set r \<and> CHR ''/'' \<notin> set r"

definition clean_scope :: "execution_scope \<Rightarrow> bool" where
  "clean_scope s \<longleftrightarrow> (\<forall>f \<in> set s. clean_region (frame_region f))"

definition clean_id :: "string \<Rightarrow> bool" where
  "clean_id i \<longleftrightarrow> CHR ''@'' \<notin> set i"

lemma separators_not_digits [simp]:
  "\<not> is_digit (CHR '':'')" "\<not> is_digit (CHR ''/'')" "\<not> is_digit (CHR ''@'')"
  by (simp_all add: is_digit_def)

lemma frame_key_inj:
  assumes "frame_key f = frame_key g" and "clean_region (frame_region f)"
    and "clean_region (frame_region g)"
  shows "f = g"
proof -
  have "frame_region f @ CHR '':'' # str_nat (frame_iteration f)
      = frame_region g @ CHR '':'' # str_nat (frame_iteration g)"
    using assms(1) by (simp add: frame_key_def)
  then have "frame_region f = frame_region g" "str_nat (frame_iteration f) = str_nat (frame_iteration g)"
    using append_sep_inj assms(2,3) by (metis clean_region_def)+
  then show ?thesis by (simp add: loop_iteration.expand str_nat_inj)
qed

lemma frame_key_sep: "clean_region (frame_region f) \<Longrightarrow> CHR ''/'' \<notin> set (frame_key f)"
  by (simp add: frame_key_def clean_region_def str_nat_no_sep)

lemma frame_key_colon: "CHR '':'' \<in> set (frame_key f)"
  by (simp add: frame_key_def)

lemma frame_key_not_Nil [simp]: "frame_key f \<noteq> []"
  by (simp add: frame_key_def)

lemma scope_join_inj:
  assumes "join_str ''/'' (map frame_key s) = join_str ''/'' (map frame_key t)"
    and "clean_scope s" and "clean_scope t"
  shows "s = t"
proof -
  have "map frame_key s = map frame_key t"
    by (rule join_str_inj [OF assms(1)])
      (use assms(2,3) in \<open>auto simp: clean_scope_def frame_key_sep\<close>)
  then show ?thesis
    by (rule list.inj_map_strong [rotated])
      (use assms(2,3) in \<open>auto simp: clean_scope_def frame_key_inj\<close>)
qed

lemma join_colon: "s \<noteq> [] \<Longrightarrow> CHR '':'' \<in> set (join_str ''/'' (map frame_key s))"
  by (cases "(''/'', map frame_key s)" rule: join_str.cases) (auto simp: frame_key_colon)

lemma execution_scope_key_inj:
  assumes "execution_scope_key s = execution_scope_key t" and "clean_scope s" and "clean_scope t"
  shows "s = t"
proof -
  have root: "x \<noteq> [] \<Longrightarrow> join_str ''/'' (map frame_key x) \<noteq> ''root''" for x
    using join_colon [of x] by auto
  show ?thesis
    using assms root [of s] root [of t]
    by (auto simp: execution_scope_key_def scope_join_inj split: if_splits)
qed

lemma occurrence_key_inj:
  assumes "(if s = [] then a else a @ ''@'' @ execution_scope_key s)
         = (if t = [] then b else b @ ''@'' @ execution_scope_key t)"
    and "clean_id a" and "clean_id b" and "clean_scope s" and "clean_scope t"
  shows "a = b \<and> s = t"
proof (cases "s = []")
  case True
  with assms show ?thesis by (auto simp: clean_id_def split: if_splits)
next
  case False
  with assms have tne: "t \<noteq> []" by (auto simp: clean_id_def split: if_splits)
  with False assms(1) have "a @ CHR ''@'' # execution_scope_key s
      = b @ CHR ''@'' # execution_scope_key t" by simp
  then have "a = b" "execution_scope_key s = execution_scope_key t"
    using append_sep_inj assms(2,3) by (metis clean_id_def)+
  with assms(4,5) show ?thesis by (simp add: execution_scope_key_inj)
qed

lemma node_instance_key_inj:
  assumes "node_instance_key a s = node_instance_key b t"
    and "clean_id a" and "clean_id b" and "clean_scope s" and "clean_scope t"
  shows "a = b \<and> s = t"
  using assms by (intro occurrence_key_inj) (simp_all add: node_instance_key_def)

lemma edge_occurrence_key_inj:
  assumes "edge_occurrence_key a s = edge_occurrence_key b t"
    and "clean_id a" and "clean_id b" and "clean_scope s" and "clean_scope t"
  shows "a = b \<and> s = t"
  using assms by (intro occurrence_key_inj) (simp_all add: edge_occurrence_key_def)

lemma node_instance_key_node_id:
  "clean_id n \<Longrightarrow> before_first (CHR ''@'') (node_instance_key n s) = n"
  by (simp add: node_instance_key_def clean_id_def before_first_append before_first_absent)

subsection \<open>Queues\<close>

lemma drain_loop_None: "drain_loop None out q = (out @ q, [])"
  by (induction q arbitrary: out) simp_all

lemma drain_loop_Some:
  "drain_loop (Some n) out q = (out @ take (n - length out) q, drop (n - length out) q)"
  by (induction q arbitrary: out) (auto simp: not_less Suc_diff_le simp flip: Suc_diff_Suc)

lemma drain_ready_None [simp]: "drain_ready None c = (ready_queue c, c\<lparr>ready_queue := []\<rparr>)"
  by (simp add: drain_ready_def drain_loop_None)

lemma drain_transitions_None [simp]:
  "drain_transitions None c = (transition_queue c, c\<lparr>transition_queue := []\<rparr>)"
  by (simp add: drain_transitions_def drain_loop_None)

subsection \<open>Resolutions only grow\<close>

definition map_extends :: "('k \<times> 'v) list \<Rightarrow> ('k \<times> 'v) list \<Rightarrow> bool" where
  "map_extends d d' \<longleftrightarrow> (\<forall>k v. dict_get d k = Some v \<longrightarrow> dict_get d' k = Some v)"

lemma map_extends_refl [simp]: "map_extends d d"
  by (simp add: map_extends_def)

lemma map_extends_trans [trans]: "map_extends a b \<Longrightarrow> map_extends b c \<Longrightarrow> map_extends a c"
  by (simp add: map_extends_def)

lemma map_extends_set: "dict_get d k = None \<Longrightarrow> map_extends d (dict_set k v d)"
  by (auto simp: map_extends_def)

definition cursor_extends :: "scheduler_context \<Rightarrow> scheduler_context \<Rightarrow> bool" where
  "cursor_extends c c' \<longleftrightarrow>
     map_extends (edge_resolutions c) (edge_resolutions c')
     \<and> map_extends (loop_boundary_resolutions c) (loop_boundary_resolutions c')
     \<and> scheduled_node_instances c \<subseteq> scheduled_node_instances c'
     \<and> skipped_node_instances c \<subseteq> skipped_node_instances c'
     \<and> entered_loop_instances c \<subseteq> entered_loop_instances c'
     \<and> exited_loop_instances c \<subseteq> exited_loop_instances c'
     \<and> (\<exists>rs. ready_queue c' = ready_queue c @ rs)"

lemma cursor_extends_refl [simp]: "cursor_extends c c"
  by (simp add: cursor_extends_def)

lemma cursor_extends_trans [trans]:
  "cursor_extends a b \<Longrightarrow> cursor_extends b c \<Longrightarrow> cursor_extends a c"
  unfolding cursor_extends_def by (auto intro: map_extends_trans)

text \<open>A successful \<open>resolve_edge\<close> leaves exactly the requested state under the occurrence's key.\<close>

lemma resolve_edge_lookup:
  assumes "resolve_edge e st act scope c = Inr c'"
  shows "\<exists>r. dict_get (edge_resolutions c') (edge_occurrence_key e scope) = Some r
         \<and> er_state r = st \<and> er_activation r = act"
  using assms by (auto simp: resolve_edge_def Let_def split: option.splits if_splits)

lemma resolve_edge_frame:
  assumes "resolve_edge e st act scope c = Inr c'"
  shows "\<exists>d. c' = c\<lparr>edge_resolutions := d\<rparr> \<and> map_extends (edge_resolutions c) d
     \<and> (\<forall>k. k \<noteq> edge_occurrence_key e scope \<longrightarrow> dict_get d k = dict_get (edge_resolutions c) k)"
proof (cases "dict_get (edge_resolutions c) (edge_occurrence_key e scope)")
  case None
  with assms obtain r where
    "c' = c\<lparr>edge_resolutions := dict_set (edge_occurrence_key e scope) r (edge_resolutions c)\<rparr>"
    by (auto simp: resolve_edge_def Let_def split: if_splits)
  with None show ?thesis by (auto intro: map_extends_set)
next
  case (Some r)
  with assms have "c' = c" by (auto simp: resolve_edge_def Let_def split: if_splits)
  then show ?thesis by (intro exI [of _ "edge_resolutions c"]) simp
qed

lemma resolve_loop_boundary_lookup:
  assumes "resolve_loop_boundary l ls e st act c = Inr c'"
  shows "\<exists>r. dict_get (loop_boundary_resolutions c') (loop_boundary_key l ls e) = Some r
         \<and> er_state r = st \<and> er_activation r = act"
  using assms by (auto simp: resolve_loop_boundary_def Let_def split: option.splits if_splits)

lemma resolve_loop_boundary_frame:
  assumes "resolve_loop_boundary l ls e st act c = Inr c'"
  shows "\<exists>d. c' = c\<lparr>loop_boundary_resolutions := d\<rparr>
     \<and> map_extends (loop_boundary_resolutions c) d
     \<and> (\<forall>k. k \<noteq> loop_boundary_key l ls e
          \<longrightarrow> dict_get d k = dict_get (loop_boundary_resolutions c) k)"
proof (cases "dict_get (loop_boundary_resolutions c) (loop_boundary_key l ls e)")
  case None
  with assms obtain r where
    "c' = c\<lparr>loop_boundary_resolutions :=
       dict_set (loop_boundary_key l ls e) r (loop_boundary_resolutions c)\<rparr>"
    by (auto simp: resolve_loop_boundary_def Let_def split: if_splits)
  with None show ?thesis by (auto intro: map_extends_set)
next
  case (Some r)
  with assms have "c' = c" by (auto simp: resolve_loop_boundary_def Let_def split: if_splits)
  then show ?thesis by (intro exI [of _ "loop_boundary_resolutions c"]) simp
qed

lemma resolve_edge_extends: "resolve_edge e st act scope c = Inr c' \<Longrightarrow> cursor_extends c c'"
  by (drule resolve_edge_frame) (auto simp: cursor_extends_def)

lemma resolve_loop_boundary_extends:
  "resolve_loop_boundary l ls e st act c = Inr c' \<Longrightarrow> cursor_extends c c'"
  by (drule resolve_loop_boundary_frame) (auto simp: cursor_extends_def)

lemma resolve_edge_not_fuel [simp]: "resolve_edge e st act scope c \<noteq> Inl OutOfFuel"
  by (simp add: resolve_edge_def Let_def split: option.splits)

lemma resolve_loop_boundary_not_fuel [simp]:
  "resolve_loop_boundary l ls e st act c \<noteq> Inl OutOfFuel"
  by (simp add: resolve_loop_boundary_def Let_def split: option.splits)

end
