(* ===== verification/Executions.thy ===== *)
theory Executions
  imports Scheduler_Context
begin

text \<open>
  The execution history below an invocation: \<open>core/runtime/execution.py\<close>. Operator
  executions (direct attempts and the bounded summary of a map or replication), edge
  evaluations and node executions, with every state-changing method. Creation and update
  timestamps are bookkeeping that no operation reads and are left out; start and end
  timestamps are kept because the runtime limit reads them, and a method that reads the clock
  takes its value as the argument \<open>now\<close>. Identifiers drawn from \<open>uuid4\<close> are arguments.
\<close>

definition uuid_str :: "uuid \<Rightarrow> string" where
  "uuid_str u = str_nat u"

section \<open>Resource usage\<close>

record resource_usage =
  duration_ns :: nat
  execution_ns :: nat
  concurrency_wait_ns :: nat
  thread_pool_queue_ns :: nat
  retry_backoff_ns :: nat
  stream_consumption_ns :: nat
  stream_reduction_ns :: nat

definition no_usage :: resource_usage where
  "no_usage = \<lparr>duration_ns = 0, execution_ns = 0, concurrency_wait_ns = 0,
     thread_pool_queue_ns = 0, retry_backoff_ns = 0, stream_consumption_ns = 0,
     stream_reduction_ns = 0\<rparr>"

definition duration_ms :: "resource_usage \<Rightarrow> nat" where
  "duration_ms u = duration_ns u div 1000000"

definition usage_add :: "resource_usage \<Rightarrow> resource_usage \<Rightarrow> resource_usage" where
  "usage_add u d =
     \<lparr>duration_ns = duration_ns u + duration_ns d,
      execution_ns = execution_ns u + execution_ns d,
      concurrency_wait_ns = concurrency_wait_ns u + concurrency_wait_ns d,
      thread_pool_queue_ns = thread_pool_queue_ns u + thread_pool_queue_ns d,
      retry_backoff_ns = retry_backoff_ns u + retry_backoff_ns d,
      stream_consumption_ns = stream_consumption_ns u + stream_consumption_ns d,
      stream_reduction_ns = stream_reduction_ns u + stream_reduction_ns d\<rparr>"

section \<open>Operator executions\<close>

record direct_execution =
  de_operator_id :: string
  de_sequence :: nat
  de_reason :: operator_reason
  de_id :: uuid
  de_state :: operator_state
  de_input :: pyval
  de_output :: pyval
  de_error :: "runtime_error_info option"
  de_usage :: resource_usage
  de_started_at_ms :: int
  de_ended_at_ms :: "int option"
  de_streaming :: bool
  de_stream_chunk_count :: nat

definition new_direct ::
  "uuid \<Rightarrow> int \<Rightarrow> string \<Rightarrow> nat \<Rightarrow> operator_reason \<Rightarrow> pyval \<Rightarrow> direct_execution" where
  "new_direct uid now op_id sequence reason inp =
     \<lparr>de_operator_id = op_id, de_sequence = sequence, de_reason = reason, de_id = uid,
      de_state = OpRunning, de_input = inp, de_output = PyNone, de_error = None,
      de_usage = no_usage, de_started_at_ms = now, de_ended_at_ms = None,
      de_streaming = False, de_stream_chunk_count = 0\<rparr>"

definition direct_completed :: "int \<Rightarrow> pyval \<Rightarrow> direct_execution \<Rightarrow> direct_execution" where
  "direct_completed now out d =
     d\<lparr>de_state := OpCompleted, de_output := out, de_error := None, de_ended_at_ms := Some now\<rparr>"

definition direct_failed ::
  "int \<Rightarrow> runtime_error_info \<Rightarrow> direct_execution \<Rightarrow> direct_execution" where
  "direct_failed now e d =
     d\<lparr>de_state := OpFailed, de_error := Some e, de_ended_at_ms := Some now\<rparr>"

definition direct_interrupted ::
  "int \<Rightarrow> runtime_error_info \<Rightarrow> direct_execution \<Rightarrow> direct_execution" where
  "direct_interrupted now e d =
     d\<lparr>de_state := OpInterrupted, de_error := Some e, de_ended_at_ms := Some now\<rparr>"

record failure_sample =
  fs_code :: string
  fs_message :: string
  fs_operator_id :: string

record parallel_summary =
  ps_call_count :: nat
  ps_attempt_count :: nat
  ps_success_count :: nat
  ps_failure_count :: nat
  ps_cancelled_count :: nat
  ps_retry_count :: nat
  ps_fallback_count :: nat
  ps_total_duration_ns :: nat
  ps_min_duration_ns :: "nat option"
  ps_max_duration_ns :: "nat option"
  ps_peak_parallelism :: nat
  ps_streaming_call_count :: nat
  ps_stream_chunk_count :: nat
  ps_stream_consumption_ns :: nat
  ps_stream_reduction_ns :: nat
  ps_failure_samples :: "failure_sample list"

datatype parallel_kind = KindMap | KindReplication

record parallel_execution =
  pe_kind :: parallel_kind
  pe_summary :: parallel_summary
  pe_operator_ids :: "string list"
  pe_id :: uuid
  pe_state :: operator_state
  pe_error :: "runtime_error_info option"
  pe_started_at_ms :: int
  pe_ended_at_ms :: "int option"

datatype operator_execution = Direct direct_execution | Parallel parallel_execution

fun oe_id :: "operator_execution \<Rightarrow> uuid" where
  "oe_id (Direct d) = de_id d"
| "oe_id (Parallel p) = pe_id p"

fun oe_state :: "operator_execution \<Rightarrow> operator_state" where
  "oe_state (Direct d) = de_state d"
| "oe_state (Parallel p) = pe_state p"

fun attempt_count :: "operator_execution \<Rightarrow> nat" where
  "attempt_count (Direct d) = 1"
| "attempt_count (Parallel p) = ps_attempt_count (pe_summary p)"

text \<open>The body of the loops in \<open>mark_cancelled\<close> and \<open>mark_interrupted\<close>.\<close>

fun interrupt_running :: "int \<Rightarrow> runtime_error_info option \<Rightarrow> operator_execution \<Rightarrow> operator_execution"
where
  "interrupt_running now e (Direct d) =
     (if de_state d = OpRunning
      then Direct (d\<lparr>de_state := OpInterrupted, de_error := e, de_ended_at_ms := Some now\<rparr>)
      else Direct d)"
| "interrupt_running now e (Parallel p) =
     (if pe_state p = OpRunning
      then Parallel (p\<lparr>pe_state := OpInterrupted, pe_error := e, pe_ended_at_ms := Some now\<rparr>)
      else Parallel p)"

section \<open>Edge evaluations\<close>

record edge_evaluation =
  ee_edge_id :: string
  ee_target_node_id :: string
  ee_state :: edge_evaluation_state
  ee_selected :: bool
  ee_reason :: "string option"

section \<open>Node executions\<close>

record node_execution =
  ne_node_id :: string
  ne_sequence :: nat
  ne_id :: uuid
  ne_state :: node_state
  ne_input :: pyval
  ne_output :: pyval
  ne_error :: "runtime_error_info option"
  ne_idempotency_key :: "string option"
  ne_recovery_of :: "uuid option"
  ne_recovery_attempt :: nat
  ne_base_invocation_revision :: nat
  ne_base_session_revision :: nat
  ne_incoming_activations :: "edge_activation list"
  ne_scope :: execution_scope
  ne_operator_executions :: "operator_execution list"
  ne_edge_evaluations :: "edge_evaluation list"
  ne_usage :: resource_usage
  ne_started_at_ms :: "int option"
  ne_ended_at_ms :: "int option"

definition mark_ready :: "node_execution \<Rightarrow> node_execution" where
  "mark_ready n = n\<lparr>ne_state := NodeReady\<rparr>"

definition node_mark_running :: "int \<Rightarrow> pyval \<Rightarrow> node_execution \<Rightarrow> node_execution" where
  "node_mark_running now inp n =
     n\<lparr>ne_state := NodeRunning, ne_input := inp, ne_started_at_ms := Some now\<rparr>"

definition node_mark_waiting :: "string option \<Rightarrow> node_execution \<Rightarrow> node_execution" where
  "node_mark_waiting reason n =
     (let n' = n\<lparr>ne_state := NodeWaiting\<rparr> in
      case reason of
        Some r \<Rightarrow> if r \<noteq> [] then n'\<lparr>ne_error := Some (mk_error ''NODE_WAITING'' r [])\<rparr> else n'
      | None \<Rightarrow> n')"

definition node_mark_completed :: "int \<Rightarrow> pyval \<Rightarrow> node_execution \<Rightarrow> node_execution" where
  "node_mark_completed now out n =
     n\<lparr>ne_state := NodeCompleted, ne_output := out, ne_error := None, ne_ended_at_ms := Some now\<rparr>"

definition node_mark_failed :: "int \<Rightarrow> runtime_error_info \<Rightarrow> node_execution \<Rightarrow> node_execution" where
  "node_mark_failed now e n =
     n\<lparr>ne_state := NodeFailed, ne_error := Some e, ne_ended_at_ms := Some now\<rparr>"

definition node_mark_cancelled ::
  "int \<Rightarrow> runtime_error_info option \<Rightarrow> node_execution \<Rightarrow> node_execution" where
  "node_mark_cancelled now e n =
     n\<lparr>ne_state := NodeCancelled, ne_error := e, ne_ended_at_ms := Some now,
       ne_operator_executions := map (interrupt_running now e) (ne_operator_executions n)\<rparr>"

definition default_interrupt_error :: runtime_error_info where
  "default_interrupt_error =
     mk_error ''NODE_INTERRUPTED'' ''Node execution was interrupted before completion.'' []"

definition node_mark_interrupted ::
  "int \<Rightarrow> runtime_error_info option \<Rightarrow> node_execution \<Rightarrow> node_execution" where
  "node_mark_interrupted now e n =
     (let err = (case e of Some x \<Rightarrow> x | None \<Rightarrow> default_interrupt_error) in
      n\<lparr>ne_state := NodeInterrupted, ne_error := Some err, ne_ended_at_ms := Some now,
        ne_operator_executions :=
          map (interrupt_running now (Some err)) (ne_operator_executions n)\<rparr>)"

definition add_edge_evaluation ::
  "string \<Rightarrow> string \<Rightarrow> edge_evaluation_state \<Rightarrow> bool \<Rightarrow> string option
   \<Rightarrow> node_execution \<Rightarrow> node_execution" where
  "add_edge_evaluation edge_id target st selected reason n =
     n\<lparr>ne_edge_evaluations := ne_edge_evaluations n @
        [\<lparr>ee_edge_id = edge_id, ee_target_node_id = target, ee_state = st,
          ee_selected = selected, ee_reason = reason\<rparr>]\<rparr>"

section \<open>Lemmas\<close>

definition active_state :: "node_state \<Rightarrow> bool" where
  "active_state s \<longleftrightarrow> s \<in> {NodeCreated, NodeReady, NodeRunning, NodeWaiting}"

lemma active_state_simps [simp]:
  "active_state NodeCreated" "active_state NodeReady" "active_state NodeRunning"
  "active_state NodeWaiting" "\<not> active_state NodeCompleted" "\<not> active_state NodeFailed"
  "\<not> active_state NodeSkipped" "\<not> active_state NodeCancelled" "\<not> active_state NodeInterrupted"
  by (simp_all add: active_state_def)

named_theorems node_mark_defs "the marking methods of a node execution"

lemmas [node_mark_defs] = mark_ready_def node_mark_running_def node_mark_waiting_def
  node_mark_completed_def node_mark_failed_def node_mark_cancelled_def node_mark_interrupted_def
  add_edge_evaluation_def Let_def

text \<open>No marking method changes the identity of an execution or where it runs.\<close>

definition same_identity :: "node_execution \<Rightarrow> node_execution \<Rightarrow> bool" where
  "same_identity n m \<longleftrightarrow> ne_id m = ne_id n \<and> ne_node_id m = ne_node_id n
     \<and> ne_sequence m = ne_sequence n \<and> ne_scope m = ne_scope n
     \<and> ne_incoming_activations m = ne_incoming_activations n
     \<and> ne_recovery_attempt m = ne_recovery_attempt n"

lemma same_identity_refl [simp]: "same_identity n n"
  by (simp add: same_identity_def)

lemma same_identity_trans [trans]: "same_identity a b \<Longrightarrow> same_identity b c \<Longrightarrow> same_identity a c"
  by (simp add: same_identity_def)

lemma marks_same_identity [simp]:
  "same_identity n (mark_ready n)"
  "same_identity n (node_mark_running now inp n)"
  "same_identity n (node_mark_waiting r n)"
  "same_identity n (node_mark_completed now out n)"
  "same_identity n (node_mark_failed now e n)"
  "same_identity n (node_mark_cancelled now eo n)"
  "same_identity n (node_mark_interrupted now eo n)"
  "same_identity n (add_edge_evaluation ed t st sel r n)"
  by (auto simp: same_identity_def node_mark_defs split: option.splits)

lemma interrupt_running_state [simp]: "oe_state (interrupt_running now e x) \<noteq> OpRunning"
  by (cases x) auto

lemma interrupt_running_attempts [simp]: "attempt_count (interrupt_running now e x) = attempt_count x"
  by (cases x) auto

lemma usage_add_no_usage [simp]: "usage_add u no_usage = u" "usage_add no_usage u = u"
  by (simp_all add: usage_add_def no_usage_def)

lemma usage_add_assoc: "usage_add (usage_add a b) c = usage_add a (usage_add b c)"
  by (simp add: usage_add_def)

end
