(* ===== verification/Outputs.thy ===== *)
theory Outputs
  imports Executions
begin

text \<open>
  The index of completed node outputs and the views handed to hooks:
  \<open>core/runtime/output.py\<close>. \<open>deepcopy\<close> is the identity on values. The index appends in
  completion order; a view fixes the sequence number of the entry that completed last.
\<close>

record output_entry =
  oe_node_execution_id :: uuid
  oe_node_id :: string
  oe_sequence :: nat
  oe_scope :: execution_scope
  oe_value :: pyval

record output_index =
  ox_timeline :: "output_entry list"
  ox_by_node_id :: "output_entry list dict"

definition empty_index :: output_index where
  "empty_index = \<lparr>ox_timeline = [], ox_by_node_id = []\<rparr>"

definition entry_of :: "node_execution \<Rightarrow> output_entry" where
  "entry_of n = \<lparr>oe_node_execution_id = ne_id n, oe_node_id = ne_node_id n,
     oe_sequence = ne_sequence n, oe_scope = ne_scope n, oe_value = ne_output n\<rparr>"

definition index_add :: "node_execution \<Rightarrow> output_index \<Rightarrow> output_index" where
  "index_add n ix =
     (let e = entry_of n in
      ix\<lparr>ox_timeline := ox_timeline ix @ [e],
         ox_by_node_id := dict_set (oe_node_id e)
           (dict_get_default (ox_by_node_id ix) (oe_node_id e) [] @ [e]) (ox_by_node_id ix)\<rparr>)"

text \<open>\<open>OutputIndex.__init__\<close>: the completed executions in sequence order.\<close>

definition index_of :: "node_execution list \<Rightarrow> output_index" where
  "index_of xs = foldl (\<lambda>ix n. if ne_state n = NodeCompleted then index_add n ix else ix)
     empty_index (sort_key ne_sequence xs)"

record output_view =
  ov_index :: output_index
  ov_through_sequence :: nat
  ov_aliases :: "string dict"

definition index_view :: "string dict \<Rightarrow> output_index \<Rightarrow> output_view" where
  "index_view aliases ix =
     \<lparr>ov_index = ix,
      ov_through_sequence = (if ox_timeline ix = [] then 0 else oe_sequence (last (ox_timeline ix))),
      ov_aliases = aliases\<rparr>"

definition resolve_node_id :: "output_view \<Rightarrow> string \<Rightarrow> string" where
  "resolve_node_id v n = dict_get_default (ov_aliases v) n n"

text \<open>The loop over the reversed bucket: the last entry within the view.\<close>

definition latest_entry :: "output_view \<Rightarrow> string \<Rightarrow> output_entry option" where
  "latest_entry v n =
     find (\<lambda>e. oe_sequence e \<le> ov_through_sequence v)
       (rev (dict_get_default (ox_by_node_id (ov_index v)) (resolve_node_id v n) []))"

definition view_has :: "output_view \<Rightarrow> string \<Rightarrow> bool" where
  "view_has v n \<longleftrightarrow> latest_entry v n \<noteq> None"

definition view_latest :: "output_view \<Rightarrow> string \<Rightarrow> pyval option \<Rightarrow> pyval res" where
  "view_latest v n dflt =
     (case latest_entry v n of
        Some e \<Rightarrow> Inr (oe_value e)
      | None \<Rightarrow> (case dflt of
          Some d \<Rightarrow> Inr d
        | None \<Rightarrow> Inl (KeyError (''No output found for node: '' @ n))))"

definition view_all :: "output_view \<Rightarrow> string \<Rightarrow> pyval list" where
  "view_all v n = map oe_value
     (filter (\<lambda>e. oe_sequence e \<le> ov_through_sequence v)
       (dict_get_default (ox_by_node_id (ov_index v)) (resolve_node_id v n) []))"

definition view_timeline :: "output_view \<Rightarrow> string list option \<Rightarrow> output_entry list" where
  "view_timeline v node_ids =
     filter (\<lambda>e. oe_sequence e \<le> ov_through_sequence v \<and>
        (case node_ids of None \<Rightarrow> True
         | Some ns \<Rightarrow> oe_node_id e \<in> resolve_node_id v ` set ns))
       (ox_timeline (ov_index v))"

definition view_scoped :: "output_view \<Rightarrow> string dict \<Rightarrow> output_view" where
  "view_scoped v aliases =
     (if aliases = [] then v
      else v\<lparr>ov_aliases := foldl (\<lambda>d (k, x). dict_set k x d) (ov_aliases v) aliases\<rparr>)"

section \<open>The per-node buckets are the timeline, filtered\<close>

definition index_ok :: "output_index \<Rightarrow> bool" where
  "index_ok ix \<longleftrightarrow> (\<forall>n. dict_get_default (ox_by_node_id ix) n []
     = filter (\<lambda>e. oe_node_id e = n) (ox_timeline ix))"

lemma index_ok_empty [simp]: "index_ok empty_index"
  by (simp add: index_ok_def empty_index_def dict_get_default_def)

lemma index_ok_add: "index_ok ix \<Longrightarrow> index_ok (index_add n ix)"
  by (auto simp: index_ok_def index_add_def Let_def dict_get_default_def)

lemma index_add_timeline [simp]: "ox_timeline (index_add n ix) = ox_timeline ix @ [entry_of n]"
  by (simp add: index_add_def Let_def)

lemma foldl_index_timeline:
  "ox_timeline (foldl (\<lambda>ix n. if ne_state n = NodeCompleted then index_add n ix else ix) ix xs)
   = ox_timeline ix @ map entry_of (filter (\<lambda>n. ne_state n = NodeCompleted) xs)"
  by (induction xs arbitrary: ix) auto

lemma index_ok_index_of: "index_ok (index_of xs)"
proof -
  have "index_ok ix \<Longrightarrow>
    index_ok (foldl (\<lambda>ix n. if ne_state n = NodeCompleted then index_add n ix else ix) ix ys)" for ix ys
    by (induction ys arbitrary: ix) (auto intro: index_ok_add)
  then show ?thesis by (simp add: index_of_def)
qed

lemma index_of_timeline:
  "ox_timeline (index_of xs)
   = map entry_of (filter (\<lambda>n. ne_state n = NodeCompleted) (sort_key ne_sequence xs))"
  by (simp add: index_of_def foldl_index_timeline empty_index_def)

lemma view_all_timeline:
  assumes "index_ok (ov_index v)"
  shows "view_all v n = map oe_value (view_timeline v (Some [n]))"
  using assms by (simp add: view_all_def view_timeline_def index_ok_def conj_commute)

lemma find_rev_last: "find P (rev xs) = (if filter P xs = [] then None else Some (last (filter P xs)))"
  by (induction xs rule: rev_induct) (auto simp: last_append filter_empty_conv)

lemma view_latest_last_all:
  "view_latest v n None = (if view_all v n = [] then Inl (KeyError (''No output found for node: '' @ n))
     else Inr (last (view_all v n)))"
  by (auto simp: view_latest_def view_all_def latest_entry_def find_rev_last last_map)

text \<open>An index rebuilt from records is sorted by sequence, so its view hides nothing.\<close>

lemma sorted_timeline_visible:
  assumes "sorted (map oe_sequence (ox_timeline ix))"
  shows "view_timeline (index_view al ix) None = ox_timeline ix"
proof (cases "ox_timeline ix" rule: rev_cases)
  case Nil
  then show ?thesis by (simp add: view_timeline_def index_view_def)
next
  case (snoc ys y)
  with assms show ?thesis
    by (auto simp: view_timeline_def index_view_def sorted_append intro!: filter_True)
qed

lemma rebuilt_view_complete:
  "view_timeline (index_view al (index_of xs)) None = ox_timeline (index_of xs)"
proof (rule sorted_timeline_visible)
  have "sorted (map ne_sequence (filter P (sort_key ne_sequence xs)))" for P
    by (rule sorted_filter) simp
  then show "sorted (map oe_sequence (ox_timeline (index_of xs)))"
    by (simp add: index_of_timeline entry_of_def comp_def)
qed

end
