(* ===== verification/Workflow_IR.thy ===== *)
theory Workflow_IR
  imports Outputs
begin

text \<open>
  The compiled workflow the runtime consumes: \<open>core/compiler/workflow_ir.py\<close> with the policies
  of \<open>core/workflow/policy.py\<close> and the hook contexts of \<open>core/runtime/context.py\<close>. Hooks
  authored by users (conditions, mappings, bindings) and contract validators are functions
  stored in the IR: what they compute is a parameter of every definition that calls them.
  Names, descriptions and versions are display data and left out, and so is the metadata except
  for the stream of user events an agent node is marked with. The mappings of stream chunks to
  user events are in the normal form \<open>normalize_user_event_mappings\<close> gives them.
\<close>

section \<open>Policies\<close>

datatype failure_mode = FailFast | ContinueActiveBranches

datatype selection_mode = SelDefault | SelPriority | SelFirstAvailable

record selection_policy =
  sp_mode :: selection_mode
  sp_allow_fallback :: bool
  sp_preferred :: "string list"
  sp_excluded :: "string list"

datatype recovery_mode = RecNever | RecReplaySafe | RecIdempotent

record recovery_policy =
  rec_mode :: recovery_mode
  rec_max_attempts :: nat

datatype backoff_mode = BackoffFixed | BackoffLinear | BackoffExponential

datatype jitter_mode = JitterNone | JitterFull | JitterEqual

record backoff_policy =
  bo_mode :: backoff_mode
  bo_initial_delay_ms :: int
  bo_max_delay_ms :: "int option"
  bo_multiplier :: int
  bo_jitter :: jitter_mode

record retry_policy =
  rt_max_attempts :: int
  rt_backoff :: "backoff_policy option"

record resource_policy =
  rs_max_node_executions :: "int option"
  rs_max_operator_attempts :: "int option"
  rs_max_runtime_ms :: "int option"

section \<open>Hook contexts\<close>

text \<open>\<open>RuntimeContext\<close>: user data with the revision bookkeeping of output bindings.\<close>

record runtime_context =
  ctx_data :: "pyval dict"
  ctx_metadata :: "pyval dict"
  ctx_revision :: nat
  ctx_path_revisions :: "nat dict"

definition empty_runtime_context :: runtime_context where
  "empty_runtime_context =
     \<lparr>ctx_data = [], ctx_metadata = [], ctx_revision = 0, ctx_path_revisions = []\<rparr>"

record context_snapshot =
  cs_data :: "pyval dict"
  cs_metadata :: "pyval dict"

definition capture_context :: "runtime_context \<Rightarrow> context_snapshot" where
  "capture_context c = \<lparr>cs_data = ctx_data c, cs_metadata = ctx_metadata c\<rparr>"

record hook_context =
  hc_invocation_input :: "pyval dict"
  hc_invocation_context :: context_snapshot
  hc_session_context :: context_snapshot
  hc_outputs :: output_view

definition capture_hook_context ::
  "pyval dict \<Rightarrow> runtime_context \<Rightarrow> runtime_context \<Rightarrow> output_view \<Rightarrow> hook_context" where
  "capture_hook_context inp ictx sctx outs =
     \<lparr>hc_invocation_input = inp, hc_invocation_context = capture_context ictx,
      hc_session_context = capture_context sctx, hc_outputs = outs\<rparr>"

record condition_context = hook_context +
  cc_edge_id :: string
  cc_source_node_id :: string
  cc_target_node_id :: string
  cc_source_output :: pyval

definition condition_context_create ::
  "pyval dict \<Rightarrow> runtime_context \<Rightarrow> runtime_context \<Rightarrow> output_view \<Rightarrow> string \<Rightarrow> string \<Rightarrow> string
   \<Rightarrow> pyval \<Rightarrow> condition_context" where
  "condition_context_create inp ictx sctx outs edge_id source target source_output =
     \<lparr>hc_invocation_input = inp, hc_invocation_context = capture_context ictx,
      hc_session_context = capture_context sctx, hc_outputs = outs, cc_edge_id = edge_id,
      cc_source_node_id = source, cc_target_node_id = target, cc_source_output = source_output\<rparr>"

record incoming_output =
  io_edge_id :: string
  io_source_node_id :: string
  io_source_execution_id :: uuid
  io_value :: pyval

record input_mapping_context = hook_context +
  im_node_id :: string
  im_workflow_path :: "string list"
  im_incoming :: "incoming_output list"

record map_selection_context = hook_context +
  ms_node_id :: string
  ms_input :: pyval

text \<open>\<open>MapAggregationContext\<close> and \<open>ReplicationAggregationContext\<close>, which differ only in a name.\<close>

record aggregation_context = hook_context +
  ag_node_id :: string
  ag_outputs :: "pyval list"

text \<open>The binding hook mutates two detached contexts; as a function it returns them.\<close>

record output_binding_context =
  ob_invocation_input :: "pyval dict"
  ob_invocation_context :: runtime_context
  ob_session_context :: runtime_context
  ob_outputs :: output_view
  ob_node_id :: string
  ob_output :: pyval
  ob_workflow_path :: "string list"

section \<open>Nodes and edges\<close>

datatype edge_condition =
    NoCondition
  | StringCondition string
  | NotCallableCondition
  | CallableCondition "condition_context \<Rightarrow> user_exn + bool"

text \<open>
  A registered implementation: the contract is the validation of a call's output, \<open>None\<close> when
  it passes. A callable binding carries the operator \<open>Operator.from_callable\<close> wraps it in.
\<close>

record operator =
  op_id :: string
  op_capability_id :: "string option"
  op_priority :: int
  op_enabled :: bool
  op_is_async :: bool
  op_output_contract :: "pyval \<Rightarrow> user_exn option"

datatype capability_binding =
    BindOperator operator
  | BindCallable operator
  | BindCapabilityRef string
  | BindOperatorRef string
  | BindSystemCommand string bool

record map_policy =
  mp_item_selector :: "(map_selection_context \<Rightarrow> user_exn + pyval) option"
  mp_output_aggregator :: "(aggregation_context \<Rightarrow> user_exn + pyval) option"
  mp_max_parallelism :: "int option"

record replication_policy =
  rp_count :: int
  rp_output_aggregator :: "(aggregation_context \<Rightarrow> user_exn + pyval) option"
  rp_max_parallelism :: "int option"

record node_policy =
  np_selection :: "selection_policy option"
  np_retry :: "retry_policy option"
  np_recovery :: "recovery_policy option"
  np_timeout_ms :: "int option"
  np_resource :: "resource_policy option"
  np_replication :: "replication_policy option"
  np_max_concurrency :: "int option"

record node_ir =
  nd_id :: string
  nd_local_id :: "string option"
  nd_scope_node_ids :: "string dict"
  nd_workflow_path :: "string list"
  nd_capability :: capability_binding
  nd_parameters :: "string list"
  nd_input_contract :: "pyval dict \<Rightarrow> user_exn + pyval dict"
  nd_input_schema :: pyval
  nd_operator_output_contract :: "pyval \<Rightarrow> user_exn option"
  nd_output_contract :: "pyval \<Rightarrow> user_exn option"
  nd_input_plan :: "(input_mapping_context \<Rightarrow> user_exn + pyval) option"
  nd_output_binding ::
    "(output_binding_context \<Rightarrow> user_exn + runtime_context \<times> runtime_context) option"
  nd_policy :: "node_policy option"
  nd_stream_mappings :: "(string \<times> (pyval \<Rightarrow> user_exn + pyval option)) list"
  nd_event_stream :: "string option"
  nd_entry :: bool
  nd_exit :: bool

record edge_ir =
  ed_id :: string
  ed_local_id :: "string option"
  ed_local_from_node :: "string option"
  ed_local_to_node :: "string option"
  ed_scope_node_ids :: "string dict"
  ed_workflow_path :: "string list"
  ed_from_node :: string
  ed_to_node :: string
  ed_condition :: edge_condition
  ed_map_policy :: "map_policy option"
  ed_order :: nat

section \<open>Loop regions and the graph\<close>

record loop_region_ir =
  lr_id :: string
  lr_node_ids :: "string list"
  lr_header_node_id :: string
  lr_internal_edge_ids :: "string list"
  lr_external_entry_edge_ids :: "string list"
  lr_back_edge_ids :: "string list"
  lr_exit_edge_ids :: "string list"
  lr_parent :: "string option"
  lr_children :: "string list"
  lr_depth :: nat

record graph_ir =
  gr_outgoing_edges :: "string list dict"
  gr_incoming_edges :: "string list dict"
  gr_predecessors :: "string list dict"
  gr_successors :: "string list dict"
  gr_loop_regions :: "loop_region_ir dict"
  gr_node_loop_stacks :: "string list dict"

record workflow_ir =
  wf_workflow_id :: string
  wf_definition_hash :: string
  wf_failure_mode :: failure_mode
  wf_nodes :: "node_ir dict"
  wf_edges :: "edge_ir dict"
  wf_graph :: graph_ir
  wf_entry_node_ids :: "string list"
  wf_exit_node_ids :: "string list"

abbreviation outgoing_of :: "workflow_ir \<Rightarrow> string \<Rightarrow> string list" where
  "outgoing_of W n \<equiv> dict_get_default (gr_outgoing_edges (wf_graph W)) n []"

abbreviation incoming_of :: "workflow_ir \<Rightarrow> string \<Rightarrow> string list" where
  "incoming_of W n \<equiv> dict_get_default (gr_incoming_edges (wf_graph W)) n []"

abbreviation loop_stack_of :: "workflow_ir \<Rightarrow> string \<Rightarrow> string list" where
  "loop_stack_of W n \<equiv> dict_get_default (gr_node_loop_stacks (wf_graph W)) n []"

abbreviation region_of :: "workflow_ir \<Rightarrow> string \<Rightarrow> loop_region_ir res" where
  "region_of W rid \<equiv> dict_index (gr_loop_regions (wf_graph W)) rid"

abbreviation edge_of :: "workflow_ir \<Rightarrow> string \<Rightarrow> edge_ir res" where
  "edge_of W eid \<equiv> dict_index (wf_edges W) eid"

section \<open>Well-formed compiled graphs\<close>

text \<open>
  What the compiler's loop analysis establishes and the scheduler relies on: the indexes agree
  with the edges, every node's loop stack lists the regions that contain it from the outside
  in, a region is entered at its header only, and its back and exit edges are the edges from
  its body to the header and out of the body. Executable, so that an instance is checked by
  evaluation.
\<close>

definition region_ok :: "workflow_ir \<Rightarrow> string \<Rightarrow> loop_region_ir \<Rightarrow> bool" where
  "region_ok W rid r \<longleftrightarrow>
     lr_id r = rid \<and> clean_region rid
     \<and> lr_header_node_id r \<in> set (lr_node_ids r)
     \<and> set (lr_node_ids r) \<subseteq> set (dict_keys (wf_nodes W))
     \<and> loop_stack_of W (lr_header_node_id r) \<noteq> []
     \<and> last (loop_stack_of W (lr_header_node_id r)) = rid
     \<and> lr_depth r + 1 = length (loop_stack_of W (lr_header_node_id r))
     \<and> (\<forall>n \<in> set (lr_node_ids r). take (lr_depth r + 1) (loop_stack_of W n)
          = loop_stack_of W (lr_header_node_id r))
     \<and> (\<forall>(eid, e) \<in> set (wf_edges W).
          (eid \<in> set (lr_back_edge_ids r) \<longleftrightarrow>
             ed_from_node e \<in> set (lr_node_ids r) \<and> ed_to_node e = lr_header_node_id r)
        \<and> (eid \<in> set (lr_exit_edge_ids r) \<longleftrightarrow>
             ed_from_node e \<in> set (lr_node_ids r) \<and> ed_to_node e \<notin> set (lr_node_ids r))
        \<and> (eid \<in> set (lr_external_entry_edge_ids r) \<longleftrightarrow>
             ed_from_node e \<notin> set (lr_node_ids r) \<and> ed_to_node e \<in> set (lr_node_ids r))
        \<and> (ed_from_node e \<notin> set (lr_node_ids r) \<and> ed_to_node e \<in> set (lr_node_ids r)
             \<longrightarrow> ed_to_node e = lr_header_node_id r))
     \<and> set (lr_back_edge_ids r) \<subseteq> set (dict_keys (wf_edges W))
     \<and> set (lr_exit_edge_ids r) \<subseteq> set (dict_keys (wf_edges W))
     \<and> set (lr_external_entry_edge_ids r) \<subseteq> set (dict_keys (wf_edges W))
     \<and> lr_back_edge_ids r \<noteq> []"

definition node_ok :: "workflow_ir \<Rightarrow> string \<Rightarrow> bool" where
  "node_ok W n \<longleftrightarrow>
     clean_id n \<and> distinct (loop_stack_of W n)
     \<and> outgoing_of W n = map fst (filter (\<lambda>(eid, e). ed_from_node e = n) (wf_edges W))
     \<and> incoming_of W n = map fst (filter (\<lambda>(eid, e). ed_to_node e = n) (wf_edges W))
     \<and> (\<forall>rid \<in> set (loop_stack_of W n). \<exists>r \<in> set (map snd (gr_loop_regions (wf_graph W))).
          lr_id r = rid \<and> n \<in> set (lr_node_ids r))"

definition wf_ir :: "workflow_ir \<Rightarrow> bool" where
  "wf_ir W \<longleftrightarrow>
     distinct (dict_keys (wf_nodes W)) \<and> distinct (dict_keys (wf_edges W))
     \<and> distinct (dict_keys (gr_loop_regions (wf_graph W)))
     \<and> (\<forall>(n, nd) \<in> set (wf_nodes W). nd_id nd = n)
     \<and> (\<forall>(eid, e) \<in> set (wf_edges W). ed_id e = eid \<and> clean_id eid
          \<and> ed_from_node e \<in> set (dict_keys (wf_nodes W))
          \<and> ed_to_node e \<in> set (dict_keys (wf_nodes W)))
     \<and> (\<forall>n \<in> set (dict_keys (wf_nodes W)). node_ok W n)
     \<and> (\<forall>(rid, r) \<in> set (gr_loop_regions (wf_graph W)). region_ok W rid r
          \<and> (\<forall>n \<in> set (dict_keys (wf_nodes W)).
               n \<in> set (lr_node_ids r) \<longleftrightarrow> rid \<in> set (loop_stack_of W n)))
     \<and> dict_keys (gr_node_loop_stacks (wf_graph W)) = uniq_first (dict_keys (gr_node_loop_stacks (wf_graph W)))
     \<and> set (dict_keys (gr_node_loop_stacks (wf_graph W))) \<subseteq> set (dict_keys (wf_nodes W))
     \<and> set (wf_entry_node_ids W) \<subseteq> set (dict_keys (wf_nodes W))
     \<and> set (wf_exit_node_ids W) \<subseteq> set (dict_keys (wf_nodes W))
     \<and> (\<forall>n \<in> set (wf_entry_node_ids W). incoming_of W n = [])"

end
