(* ===== verification/Invocations.thy ===== *)
theory Invocations
  imports Workflow_IR
begin

text \<open>
  One workflow invocation and its state-changing methods: \<open>core/runtime/invocation.py\<close>. The
  worker mailbox of an invocation is modelled in the theory of the executor. \<open>uuid4\<close> is the
  argument \<open>uid\<close>, the clock the argument \<open>now\<close>; creation and update timestamps are left out.
\<close>

datatype event_mode = EvMinimal | EvStandard | EvFull

record invocation =
  inv_id :: uuid
  inv_workflow_id :: string
  inv_definition_hash :: "string option"
  inv_entry_node_id :: string
  inv_state :: invocation_state
  inv_input :: "pyval dict"
  inv_context :: runtime_context
  inv_result :: "pyval dict option"
  inv_scheduler :: scheduler_context
  inv_node_executions :: "node_execution list"
  inv_output_index :: output_index
  inv_execution_mode :: execution_mode
  inv_event_mode :: event_mode
  inv_event_sequence :: nat
  inv_error :: "runtime_error_info option"
  inv_deferred_error :: "runtime_error_info option"
  inv_deferred_terminal_state :: "invocation_state option"

text \<open>\<open>Invocation.__init__\<close> for a fresh invocation: the entry request is queued.\<close>

definition new_invocation ::
  "uuid \<Rightarrow> string \<Rightarrow> string option \<Rightarrow> string \<Rightarrow> pyval dict \<Rightarrow> event_mode \<Rightarrow> invocation" where
  "new_invocation uid workflow_id def_hash entry inp mode =
     \<lparr>inv_id = uid, inv_workflow_id = workflow_id, inv_definition_hash = def_hash,
      inv_entry_node_id = entry, inv_state = InvCreated, inv_input = inp,
      inv_context = empty_runtime_context, inv_result = None,
      inv_scheduler = enqueue_ready entry [] [] empty_context,
      inv_node_executions = [], inv_output_index = index_of [],
      inv_execution_mode = ModeNormal, inv_event_mode = mode, inv_event_sequence = 0,
      inv_error = None, inv_deferred_error = None, inv_deferred_terminal_state = None\<rparr>"

definition inv_outputs :: "invocation \<Rightarrow> output_view" where
  "inv_outputs i = index_view [] (inv_output_index i)"

abbreviation on_scheduler ::
  "(scheduler_context \<Rightarrow> scheduler_context) \<Rightarrow> invocation \<Rightarrow> invocation" where
  "on_scheduler f i \<equiv> i\<lparr>inv_scheduler := f (inv_scheduler i)\<rparr>"

definition on_scheduler_res ::
  "(scheduler_context \<Rightarrow> scheduler_context res) \<Rightarrow> invocation \<Rightarrow> invocation res" where
  "on_scheduler_res f i = bindR (f (inv_scheduler i)) (\<lambda>c. Inr (i\<lparr>inv_scheduler := c\<rparr>))"

section \<open>Lifecycle\<close>

definition mark_running :: "invocation \<Rightarrow> invocation" where
  "mark_running i = i\<lparr>inv_state := InvRunning\<rparr>"

definition next_event_sequence :: "invocation \<Rightarrow> nat \<times> invocation" where
  "next_event_sequence i =
     (Suc (inv_event_sequence i), i\<lparr>inv_event_sequence := Suc (inv_event_sequence i)\<rparr>)"

definition mark_waiting :: "invocation \<Rightarrow> invocation" where
  "mark_waiting i = i\<lparr>inv_state := InvWaiting\<rparr>"

definition mark_completed :: "pyval dict option \<Rightarrow> invocation \<Rightarrow> invocation" where
  "mark_completed result i =
     i\<lparr>inv_state := InvCompleted, inv_result := result, inv_error := None,
       inv_deferred_error := None, inv_deferred_terminal_state := None\<rparr>"

definition mark_failed :: "runtime_error_info \<Rightarrow> invocation \<Rightarrow> invocation" where
  "mark_failed e i =
     i\<lparr>inv_state := InvFailed, inv_error := Some e,
       inv_deferred_error := None, inv_deferred_terminal_state := None\<rparr>"

definition mark_cancelled :: "invocation \<Rightarrow> invocation" where
  "mark_cancelled i =
     i\<lparr>inv_state := InvCancelled, inv_deferred_error := None, inv_deferred_terminal_state := None\<rparr>"

definition mark_interrupted :: "runtime_error_info option \<Rightarrow> invocation \<Rightarrow> invocation" where
  "mark_interrupted e i =
     i\<lparr>inv_state := InvInterrupted,
       inv_error := Some (case e of Some x \<Rightarrow> x
         | None \<Rightarrow> mk_error ''INVOCATION_INTERRUPTED''
             ''Invocation could not be recovered after process loss.'' []),
       inv_deferred_error := None, inv_deferred_terminal_state := None\<rparr>"

definition defer_terminal ::
  "runtime_error_info \<Rightarrow> invocation_state \<Rightarrow> invocation \<Rightarrow> invocation res" where
  "defer_terminal e st i =
     (if st \<notin> {InvFailed, InvInterrupted}
      then Inl (ValueError ''Deferred terminal state must be failed or interrupted.'')
      else Inr (i\<lparr>inv_deferred_error := Some e, inv_deferred_terminal_state := Some st\<rparr>))"

section \<open>Node executions\<close>

definition get_node_execution :: "uuid \<Rightarrow> invocation \<Rightarrow> node_execution option" where
  "get_node_execution uid i = find (\<lambda>n. ne_id n = uid) (inv_node_executions i)"

definition latest_node_execution :: "string \<Rightarrow> invocation \<Rightarrow> node_execution option" where
  "latest_node_execution node_id i =
     find (\<lambda>n. ne_node_id n = node_id) (rev (inv_node_executions i))"

definition count_node_executions :: "string \<Rightarrow> invocation \<Rightarrow> nat" where
  "count_node_executions node_id i =
     length (filter (\<lambda>n. ne_node_id n = node_id) (inv_node_executions i))"

definition count_operator_attempts :: "string \<Rightarrow> invocation \<Rightarrow> nat" where
  "count_operator_attempts node_id i =
     sum_list (map attempt_count (concat (map ne_operator_executions
       (filter (\<lambda>n. ne_node_id n = node_id) (inv_node_executions i)))))"

definition node_runtime_ms :: "node_execution \<Rightarrow> int" where
  "node_runtime_ms n =
     (if duration_ms (ne_usage n) \<noteq> 0 then int (duration_ms (ne_usage n))
      else case (ne_started_at_ms n, ne_ended_at_ms n) of
        (Some s, Some e) \<Rightarrow> max 0 (e - s)
      | _ \<Rightarrow> 0)"

definition sum_node_runtime_ms :: "string \<Rightarrow> invocation \<Rightarrow> int" where
  "sum_node_runtime_ms node_id i =
     sum_list (map node_runtime_ms (filter (\<lambda>n. ne_node_id n = node_id) (inv_node_executions i)))"

definition create_node_execution ::
  "uuid \<Rightarrow> node_request \<Rightarrow> pyval \<Rightarrow> invocation \<Rightarrow> node_execution \<times> invocation" where
  "create_node_execution uid r inp i =
     (let n = mark_ready
        \<lparr>ne_node_id = rq_node_id r, ne_sequence = length (inv_node_executions i) + 1, ne_id = uid,
         ne_state = NodeCreated, ne_input = inp, ne_output = PyNone, ne_error = None,
         ne_idempotency_key = rq_idempotency_key r, ne_recovery_of = rq_recovery_of r,
         ne_recovery_attempt = rq_recovery_attempt r, ne_base_invocation_revision = 0,
         ne_base_session_revision = 0, ne_incoming_activations = rq_activations r,
         ne_scope = rq_scope r, ne_operator_executions = [], ne_edge_evaluations = [],
         ne_usage = no_usage, ne_started_at_ms = None, ne_ended_at_ms = None\<rparr>
      in (n, i\<lparr>inv_node_executions := inv_node_executions i @ [n]\<rparr>))"

text \<open>Mutating the execution object that \<open>get_node_execution\<close> returns.\<close>

fun update_first :: "('a \<Rightarrow> bool) \<Rightarrow> ('a \<Rightarrow> 'a) \<Rightarrow> 'a list \<Rightarrow> 'a list" where
  "update_first P f [] = []"
| "update_first P f (x # xs) = (if P x then f x # xs else x # update_first P f xs)"

definition update_execution :: "uuid \<Rightarrow> (node_execution \<Rightarrow> node_execution) \<Rightarrow> invocation \<Rightarrow> invocation"
where
  "update_execution uid f i =
     i\<lparr>inv_node_executions := update_first (\<lambda>n. ne_id n = uid) f (inv_node_executions i)\<rparr>"

definition require_node_execution :: "uuid \<Rightarrow> invocation \<Rightarrow> node_execution res" where
  "require_node_execution uid i =
     (case get_node_execution uid i of
        None \<Rightarrow> Inl (KeyError (''Unknown node execution: '' @ uuid_str uid))
      | Some n \<Rightarrow> Inr n)"

text \<open>The transition every finalising method appends, with the state the execution now has.\<close>

definition expose_transition :: "node_execution \<Rightarrow> invocation \<Rightarrow> invocation" where
  "expose_transition n i =
     on_scheduler (enqueue_transition (ne_id n) (ne_node_id n) (ne_state n)) i"

definition mark_node_running :: "int \<Rightarrow> uuid \<Rightarrow> pyval \<Rightarrow> invocation \<Rightarrow> invocation res" where
  "mark_node_running now uid inp i =
     bindR (require_node_execution uid i)
       (\<lambda>n. Inr (mark_running (update_execution uid (node_mark_running now inp) i)))"

definition mark_node_completed :: "int \<Rightarrow> uuid \<Rightarrow> pyval \<Rightarrow> invocation \<Rightarrow> invocation res" where
  "mark_node_completed now uid out i =
     bindR (require_node_execution uid i)
       (\<lambda>n. let n' = node_mark_completed now out n;
                i1 = update_execution uid (node_mark_completed now out) i;
                i2 = i1\<lparr>inv_output_index := index_add n' (inv_output_index i1)\<rparr>
            in Inr (expose_transition n' i2))"

definition mark_node_failed :: "int \<Rightarrow> uuid \<Rightarrow> runtime_error_info \<Rightarrow> invocation \<Rightarrow> invocation res" where
  "mark_node_failed now uid e i =
     bindR (require_node_execution uid i)
       (\<lambda>n. Inr (expose_transition (node_mark_failed now e n)
                  (update_execution uid (node_mark_failed now e) i)))"

definition mark_node_waiting ::
  "uuid \<Rightarrow> string \<Rightarrow> string option \<Rightarrow> pyval dict \<Rightarrow> string option \<Rightarrow> pyval \<Rightarrow> invocation
   \<Rightarrow> invocation res" where
  "mark_node_waiting uid wait_key wait_type payload reason pending_output i =
     bindR (require_node_execution uid i)
       (\<lambda>n. let f = (\<lambda>m. node_mark_waiting reason (m\<lparr>ne_output := pending_output\<rparr>));
                i1 = update_execution uid f i
            in bindR (on_scheduler_res
                  (add_waiting_execution wait_key (ne_id n) (ne_node_id n) wait_type payload) i1)
                 (\<lambda>i2. Inr (expose_transition (f n) i2)))"

definition resume_waiting_node :: "int \<Rightarrow> string \<Rightarrow> pyval \<Rightarrow> invocation \<Rightarrow> invocation res" where
  "resume_waiting_node now wait_key out i =
     bindR (remove_waiting_execution wait_key (inv_scheduler i))
       (\<lambda>(w, c). let i1 = i\<lparr>inv_scheduler := c\<rparr> in
          bindR (require_node_execution (we_node_execution_id w) i1)
            (\<lambda>n. let i2 = update_execution (we_node_execution_id w) (node_mark_completed now out) i1;
                     i3 = expose_transition (node_mark_completed now out n) i2
                 in Inr (if waiting_executions (inv_scheduler i3) = [] then mark_running i3 else i3)))"

definition worker_lost_error :: runtime_error_info where
  "worker_lost_error =
     mk_error ''WORKER_LOST'' ''Node execution was running when runtime recovery started.'' []"

definition recover_interrupted_executions ::
  "int \<Rightarrow> invocation \<Rightarrow> node_execution list \<times> invocation" where
  "recover_interrupted_executions now i =
     (let f = node_mark_interrupted now (Some worker_lost_error);
          hit = filter (\<lambda>n. ne_state n = NodeRunning) (inv_node_executions i);
          i1 = i\<lparr>inv_node_executions :=
                 map (\<lambda>n. if ne_state n = NodeRunning then f n else n) (inv_node_executions i)\<rparr>
      in (map f hit, if hit = [] then i1 else i1\<lparr>inv_state := InvInterrupted\<rparr>))"

definition clear_queues :: "scheduler_context \<Rightarrow> scheduler_context" where
  "clear_queues c = c\<lparr>ready_queue := [], waiting_executions := [], transition_queue := []\<rparr>"

definition cancel_active_node_executions :: "int \<Rightarrow> runtime_error_info \<Rightarrow> invocation \<Rightarrow> invocation"
where
  "cancel_active_node_executions now reason i =
     on_scheduler clear_queues (i\<lparr>inv_node_executions :=
       map (\<lambda>n. if ne_state n \<in> {NodeCreated, NodeReady, NodeRunning, NodeWaiting}
                then node_mark_cancelled now (Some reason) n else n) (inv_node_executions i)\<rparr>)"

definition interrupt_active_node_executions ::
  "int \<Rightarrow> runtime_error_info \<Rightarrow> invocation \<Rightarrow> invocation" where
  "interrupt_active_node_executions now reason i =
     on_scheduler clear_queues (i\<lparr>inv_node_executions :=
       map (\<lambda>n. if ne_state n \<in> {NodeCreated, NodeReady, NodeRunning, NodeWaiting}
                then node_mark_interrupted now (Some reason) n else n) (inv_node_executions i)\<rparr>)"

section \<open>Lemmas\<close>

named_theorems inv_mark_defs "the marking methods of an invocation"

lemmas [inv_mark_defs] = mark_running_def mark_waiting_def mark_completed_def mark_failed_def
  mark_cancelled_def mark_interrupted_def

lemma length_update_first [simp]: "length (update_first P f xs) = length xs"
  by (induction xs) auto

lemma map_update_first: "(\<And>x. g (f x) = g x) \<Longrightarrow> map g (update_first P f xs) = map g xs"
  by (induction xs) auto

lemma find_update_first:
  assumes "\<And>x. P (f x) \<longleftrightarrow> P x"
  shows "find P (update_first P f xs) = map_option f (find P xs)"
  using assms by (induction xs) auto

lemma find_update_first_other:
  assumes "\<And>x. Q (f x) \<longleftrightarrow> Q x" and "\<And>x. P x \<Longrightarrow> \<not> Q x"
  shows "find Q (update_first P f xs) = find Q xs"
  using assms by (induction xs) auto

lemma set_update_first: "set (update_first P f xs) \<subseteq> set xs \<union> f ` {x \<in> set xs. P x}"
  by (induction xs) auto

lemma on_scheduler_res_eq_Inr:
  "on_scheduler_res f i = Inr j \<longleftrightarrow> (\<exists>c. f (inv_scheduler i) = Inr c \<and> j = i\<lparr>inv_scheduler := c\<rparr>)"
  by (auto simp: on_scheduler_res_def bindR_eq_Inr)

lemma get_update_execution:
  assumes "\<And>n. ne_id (f n) = ne_id n"
  shows "get_node_execution u (update_execution uid f i)
       = (if u = uid then map_option f (get_node_execution u i) else get_node_execution u i)"
  using assms by (auto simp: get_node_execution_def update_execution_def find_update_first
      intro!: find_update_first_other)

lemma get_node_execution_id: "get_node_execution u i = Some n \<Longrightarrow> ne_id n = u"
  by (auto simp: get_node_execution_def find_Some_iff)

text \<open>
  The history invariant: sequence numbers are the positions, identifiers are distinct.
\<close>

definition history_ok :: "invocation \<Rightarrow> bool" where
  "history_ok i \<longleftrightarrow>
     map ne_sequence (inv_node_executions i) = [1..<length (inv_node_executions i) + 1]
     \<and> distinct (map ne_id (inv_node_executions i))"

lemma history_ok_update:
  assumes "history_ok i" and "\<And>n. same_identity n (f n)"
  shows "history_ok (update_execution uid f i)"
  using assms by (simp add: history_ok_def update_execution_def same_identity_def map_update_first)

lemma history_ok_create:
  assumes "history_ok i" and "uid \<notin> set (map ne_id (inv_node_executions i))"
  shows "history_ok (snd (create_node_execution uid r inp i))"
  using assms by (auto simp: history_ok_def create_node_execution_def Let_def mark_ready_def)

lemma cancel_active_none_active:
  "n \<in> set (inv_node_executions (cancel_active_node_executions now e i)) \<Longrightarrow>
     \<not> active_state (ne_state n)"
  by (auto simp: cancel_active_node_executions_def node_mark_cancelled_def active_state_def)

lemma interrupt_active_none_active:
  "n \<in> set (inv_node_executions (interrupt_active_node_executions now e i)) \<Longrightarrow>
     \<not> active_state (ne_state n)"
  by (auto simp: interrupt_active_node_executions_def node_mark_interrupted_def active_state_def
      Let_def)

lemma cancel_active_queues [simp]:
  "ready_queue (inv_scheduler (cancel_active_node_executions now e i)) = []"
  "waiting_executions (inv_scheduler (cancel_active_node_executions now e i)) = []"
  "transition_queue (inv_scheduler (cancel_active_node_executions now e i)) = []"
  by (simp_all add: cancel_active_node_executions_def clear_queues_def)

lemma interrupt_active_queues [simp]:
  "ready_queue (inv_scheduler (interrupt_active_node_executions now e i)) = []"
  "waiting_executions (inv_scheduler (interrupt_active_node_executions now e i)) = []"
  "transition_queue (inv_scheduler (interrupt_active_node_executions now e i)) = []"
  by (simp_all add: interrupt_active_node_executions_def clear_queues_def)

end
