(* ===== verification/Records.thy ===== *)
theory Records
  imports Invocations
begin

text \<open>
  The record form of the runtime's state: the \<open>to_record\<close> and \<open>from_record\<close> methods of
  \<open>core/runtime/scheduler.py\<close>, \<open>execution.py\<close>, \<open>context.py\<close> and \<open>invocation.py\<close>. A record is a
  Python value; reading one may raise. The keys of fields that are not in the model (identifiers
  and timestamps of edge evaluations, creation and update timestamps, revision and version of
  the workflow) are left out. Reading is modelled on fields of the type the writers produce:
  a field of another type is a \<open>TypeError\<close> here. The locale \<open>codec\<close> is the interface of a
  writer and its reader; each pair of the code is an interpretation.
\<close>

section \<open>Reading and writing fields\<close>

definition rec_get :: "pyval \<Rightarrow> string \<Rightarrow> pyval res" where
  "rec_get r k = (case r of PyDict d \<Rightarrow> dict_index d k | _ \<Rightarrow> Inl (TypeError ''not a mapping''))"

definition rec_get_default :: "pyval \<Rightarrow> string \<Rightarrow> pyval \<Rightarrow> pyval res" where
  "rec_get_default r k v = (case r of PyDict d \<Rightarrow> Inr (dict_get_default d k v)
     | _ \<Rightarrow> Inl (TypeError ''not a mapping''))"

fun as_str :: "pyval \<Rightarrow> string res" where
  "as_str (PyStr s) = Inr s"
| "as_str _ = Inl (TypeError ''str'')"

fun as_nat :: "pyval \<Rightarrow> nat res" where
  "as_nat (PyInt i) = (if i < 0 then Inl (TypeError ''int'') else Inr (nat i))"
| "as_nat _ = Inl (TypeError ''int'')"

fun as_int :: "pyval \<Rightarrow> int res" where
  "as_int (PyInt i) = Inr i"
| "as_int _ = Inl (TypeError ''int'')"

fun as_bool :: "pyval \<Rightarrow> bool res" where
  "as_bool (PyBool b) = Inr b"
| "as_bool _ = Inl (TypeError ''bool'')"

fun as_list :: "pyval \<Rightarrow> pyval list res" where
  "as_list (PyList xs) = Inr xs"
| "as_list _ = Inl (TypeError ''list'')"

fun as_dict :: "pyval \<Rightarrow> pyval dict res" where
  "as_dict (PyDict d) = Inr d"
| "as_dict _ = Inl (TypeError ''dict'')"

definition py_nat :: "nat \<Rightarrow> pyval" where
  "py_nat n = PyInt (int n)"

lemma as_nat_py_nat [simp]: "as_nat (py_nat n) = Inr n"
  by (simp add: py_nat_def)

lemma py_nat_not_None [simp]: "py_nat n \<noteq> PyNone"
  by (simp add: py_nat_def)

definition enc_opt :: "('a \<Rightarrow> pyval) \<Rightarrow> 'a option \<Rightarrow> pyval" where
  "enc_opt f x = (case x of None \<Rightarrow> PyNone | Some v \<Rightarrow> f v)"

definition dec_opt :: "(pyval \<Rightarrow> 'a res) \<Rightarrow> pyval \<Rightarrow> 'a option res" where
  "dec_opt f v = (if v = PyNone then Inr None else bindR (f v) (\<lambda>x. Inr (Some x)))"

definition enc_list :: "('a \<Rightarrow> pyval) \<Rightarrow> 'a list \<Rightarrow> pyval" where
  "enc_list f xs = PyList (map f xs)"

definition dec_list :: "(pyval \<Rightarrow> 'a res) \<Rightarrow> pyval \<Rightarrow> 'a list res" where
  "dec_list f v = bindR (as_list v) (mapR f)"

definition enc_dict :: "('a \<Rightarrow> pyval) \<Rightarrow> 'a dict \<Rightarrow> pyval" where
  "enc_dict f d = PyDict (map (\<lambda>(k, v). (k, f v)) d)"

definition dec_dict :: "(pyval \<Rightarrow> 'a res) \<Rightarrow> pyval \<Rightarrow> 'a dict res" where
  "dec_dict f v = bindR (as_dict v)
     (mapR (\<lambda>(k, x). bindR (f x) (\<lambda>y. Inr (k, y))))"

text \<open>\<open>str(uuid)\<close> and \<open>UUID(text)\<close> over decimal text.\<close>

definition digit_value :: "char \<Rightarrow> nat" where
  "digit_value c = of_char c - 48"

definition parse_nat :: "string \<Rightarrow> nat" where
  "parse_nat s = foldl (\<lambda>n c. 10 * n + digit_value c) 0 s"

definition enc_uuid :: "uuid \<Rightarrow> pyval" where
  "enc_uuid u = PyStr (uuid_str u)"

definition dec_uuid :: "pyval \<Rightarrow> uuid res" where
  "dec_uuid v = bindR (as_str v)
     (\<lambda>s. if s \<noteq> [] \<and> list_all is_digit s then Inr (parse_nat s)
          else Inl (ValueError ''badly formed hexadecimal UUID string''))"

lemma parse_str_nat: "parse_nat (str_nat n) = n"
proof (induction n rule: str_nat.induct)
  case (1 n)
  show ?case
  proof (cases "n < 10")
    case True
    then show ?thesis by (simp add: str_nat.simps [of n] parse_nat_def digit_value_def)
  next
    case False
    have "parse_nat (str_nat (n div 10) @ [digit_char (n mod 10)])
        = 10 * parse_nat (str_nat (n div 10)) + n mod 10"
      by (simp add: parse_nat_def digit_value_def)
    with False 1 show ?thesis by (simp add: str_nat.simps [of n])
  qed
qed

lemma uuid_digits: "list_all is_digit (str_nat n)"
  using str_nat_digits by (simp add: list_all_iff)

section \<open>Writers and readers\<close>

locale codec =
  fixes enc :: "'a \<Rightarrow> pyval"
    and dec :: "pyval \<Rightarrow> 'a res"
    and ok :: "'a \<Rightarrow> bool"
  assumes round_trip: "ok x \<Longrightarrow> dec (enc x) = Inr x"
begin

lemma mapR_round_trip: "list_all ok xs \<Longrightarrow> mapR dec (map enc xs) = Inr xs"
  by (induction xs) (auto simp: round_trip)

lemma list_round_trip: "list_all ok xs \<Longrightarrow> dec_list dec (enc_list enc xs) = Inr xs"
  by (simp add: dec_list_def enc_list_def mapR_round_trip)

lemma dict_round_trip:
  assumes "list_all (\<lambda>(k, v). ok v) d"
  shows "dec_dict dec (enc_dict enc d) = Inr d"
proof -
  have "mapR (\<lambda>(k, x). bindR (dec x) (\<lambda>y. Inr (k, y))) (map (\<lambda>(k, v). (k, enc v)) d) = Inr d"
    using assms by (induction d) (auto simp: round_trip)
  then show ?thesis by (simp add: dec_dict_def enc_dict_def)
qed

lemma enc_inj: "ok x \<Longrightarrow> ok y \<Longrightarrow> enc x = enc y \<Longrightarrow> x = y"
  by (metis round_trip sum.inject(2))

end

locale value_codec = codec +
  assumes enc_not_None: "ok x \<Longrightarrow> enc x \<noteq> PyNone"
begin

lemma option_round_trip: "pred_option ok x \<Longrightarrow> dec_opt dec (enc_opt enc x) = Inr x"
  by (cases x) (simp_all add: dec_opt_def enc_opt_def round_trip enc_not_None)

end

interpretation uuid: value_codec enc_uuid dec_uuid "\<lambda>_. True"
  by unfold_locales (simp_all add: enc_uuid_def dec_uuid_def uuid_str_def uuid_digits parse_str_nat)

interpretation str: value_codec PyStr as_str "\<lambda>_. True"
  by unfold_locales simp_all

interpretation int: value_codec PyInt as_int "\<lambda>_. True"
  by unfold_locales simp_all

interpretation nat: value_codec py_nat as_nat "\<lambda>_. True"
  by unfold_locales simp_all

lemma pred_option_True [simp]: "pred_option (\<lambda>_. True) x"
  by (cases x) simp_all

lemma list_all_True [simp]: "list_all (\<lambda>_. True) xs" "list_all (\<lambda>(k, v). True) ys"
  by (simp_all add: list_all_iff case_prod_unfold)

named_theorems record_defs "field access of records"

lemmas [record_defs] = rec_get_def rec_get_default_def dict_get_default_def dict_index_def

section \<open>State literals\<close>

fun node_state_str :: "node_state \<Rightarrow> string" where
  "node_state_str NodeCreated = ''created''"
| "node_state_str NodeReady = ''ready''"
| "node_state_str NodeRunning = ''running''"
| "node_state_str NodeWaiting = ''waiting''"
| "node_state_str NodeCompleted = ''completed''"
| "node_state_str NodeFailed = ''failed''"
| "node_state_str NodeSkipped = ''skipped''"
| "node_state_str NodeCancelled = ''cancelled''"
| "node_state_str NodeInterrupted = ''interrupted''"

fun invocation_state_str :: "invocation_state \<Rightarrow> string" where
  "invocation_state_str InvCreated = ''created''"
| "invocation_state_str InvRunning = ''running''"
| "invocation_state_str InvWaiting = ''waiting''"
| "invocation_state_str InvCompleted = ''completed''"
| "invocation_state_str InvFailed = ''failed''"
| "invocation_state_str InvCancelled = ''cancelled''"
| "invocation_state_str InvInterrupted = ''interrupted''"

fun operator_state_str :: "operator_state \<Rightarrow> string" where
  "operator_state_str OpRunning = ''running''"
| "operator_state_str OpCompleted = ''completed''"
| "operator_state_str OpFailed = ''failed''"
| "operator_state_str OpInterrupted = ''interrupted''"

fun operator_reason_str :: "operator_reason \<Rightarrow> string" where
  "operator_reason_str ReasonNormal = ''normal''"
| "operator_reason_str ReasonRetry = ''retry''"
| "operator_reason_str ReasonFallback = ''fallback''"
| "operator_reason_str ReasonRecovery = ''recovery''"

fun parallel_kind_str :: "parallel_kind \<Rightarrow> string" where
  "parallel_kind_str KindMap = ''map''"
| "parallel_kind_str KindReplication = ''replication''"

fun evaluation_state_str :: "edge_evaluation_state \<Rightarrow> string" where
  "evaluation_state_str EvalSelected = ''selected''"
| "evaluation_state_str EvalSkipped = ''skipped''"
| "evaluation_state_str EvalFailed = ''failed''"

fun resolution_state_str :: "edge_resolution_state \<Rightarrow> string" where
  "resolution_state_str Selected = ''selected''"
| "resolution_state_str Skipped = ''skipped''"

fun execution_mode_str :: "execution_mode \<Rightarrow> string" where
  "execution_mode_str ModeNormal = ''normal''"
| "execution_mode_str ModeRecovery = ''recovery''"

fun event_mode_str :: "event_mode \<Rightarrow> string" where
  "event_mode_str EvMinimal = ''minimal''"
| "event_mode_str EvStandard = ''standard''"
| "event_mode_str EvFull = ''full''"

text \<open>A literal is read back by its text; an unknown text is an error.\<close>

definition read_literal :: "('a \<Rightarrow> string) \<Rightarrow> 'a list \<Rightarrow> pyval \<Rightarrow> 'a res" where
  "read_literal text values v = bindR (as_str v)
     (\<lambda>s. case find (\<lambda>x. text x = s) values of
        Some x \<Rightarrow> Inr x | None \<Rightarrow> Inl (ValueError ''unknown literal''))"

definition node_states :: "node_state list" where
  "node_states = [NodeCreated, NodeReady, NodeRunning, NodeWaiting, NodeCompleted, NodeFailed,
     NodeSkipped, NodeCancelled, NodeInterrupted]"

definition invocation_states :: "invocation_state list" where
  "invocation_states = [InvCreated, InvRunning, InvWaiting, InvCompleted, InvFailed, InvCancelled,
     InvInterrupted]"

definition operator_states :: "operator_state list" where
  "operator_states = [OpRunning, OpCompleted, OpFailed, OpInterrupted]"

definition operator_reasons :: "operator_reason list" where
  "operator_reasons = [ReasonNormal, ReasonRetry, ReasonFallback, ReasonRecovery]"

interpretation node_state: value_codec "\<lambda>s. PyStr (node_state_str s)"
  "read_literal node_state_str node_states" "\<lambda>_. True"
  by unfold_locales (case_tac x; simp add: read_literal_def node_states_def)+

interpretation invocation_state: value_codec "\<lambda>s. PyStr (invocation_state_str s)"
  "read_literal invocation_state_str invocation_states" "\<lambda>_. True"
  by unfold_locales (case_tac x; simp add: read_literal_def invocation_states_def)+

interpretation operator_state: value_codec "\<lambda>s. PyStr (operator_state_str s)"
  "read_literal operator_state_str operator_states" "\<lambda>_. True"
  by unfold_locales (case_tac x; simp add: read_literal_def operator_states_def)+

interpretation operator_reason: value_codec "\<lambda>s. PyStr (operator_reason_str s)"
  "read_literal operator_reason_str operator_reasons" "\<lambda>_. True"
  by unfold_locales (case_tac x; simp add: read_literal_def operator_reasons_def)+

interpretation parallel_kind: value_codec "\<lambda>s. PyStr (parallel_kind_str s)"
  "read_literal parallel_kind_str [KindMap, KindReplication]" "\<lambda>_. True"
  by unfold_locales (case_tac x; simp add: read_literal_def)+

interpretation evaluation_state: value_codec "\<lambda>s. PyStr (evaluation_state_str s)"
  "read_literal evaluation_state_str [EvalSelected, EvalSkipped, EvalFailed]" "\<lambda>_. True"
  by unfold_locales (case_tac x; simp add: read_literal_def)+

interpretation resolution_state: value_codec "\<lambda>s. PyStr (resolution_state_str s)"
  "read_literal resolution_state_str [Selected, Skipped]" "\<lambda>_. True"
  by unfold_locales (case_tac x; simp add: read_literal_def)+

interpretation execution_mode: value_codec "\<lambda>s. PyStr (execution_mode_str s)"
  "read_literal execution_mode_str [ModeNormal, ModeRecovery]" "\<lambda>_. True"
  by unfold_locales (case_tac x; simp add: read_literal_def)+

interpretation event_mode: value_codec "\<lambda>s. PyStr (event_mode_str s)"
  "read_literal event_mode_str [EvMinimal, EvStandard, EvFull]" "\<lambda>_. True"
  by unfold_locales (case_tac x; simp add: read_literal_def)+

section \<open>The scheduler's records\<close>

definition frame_to_record :: "loop_iteration \<Rightarrow> pyval" where
  "frame_to_record f = PyDict [(''loop_region_id'', PyStr (frame_region f)),
     (''iteration'', py_nat (frame_iteration f))]"

definition frame_from_record :: "pyval \<Rightarrow> loop_iteration res" where
  "frame_from_record r =
     bindR (bindR (rec_get r ''loop_region_id'') as_str) (\<lambda>rid.
     bindR (bindR (rec_get r ''iteration'') as_nat) (\<lambda>k. Inr (LoopIteration rid k)))"

definition activation_to_record :: "edge_activation \<Rightarrow> pyval" where
  "activation_to_record a = PyDict [(''edge_id'', PyStr (act_edge_id a)),
     (''source_node_id'', PyStr (act_source_node_id a)),
     (''source_execution_id'', enc_uuid (act_source_execution_id a))]"

definition activation_from_record :: "pyval \<Rightarrow> edge_activation res" where
  "activation_from_record r =
     bindR (bindR (rec_get r ''edge_id'') as_str) (\<lambda>e.
     bindR (bindR (rec_get r ''source_node_id'') as_str) (\<lambda>n.
     bindR (bindR (rec_get r ''source_execution_id'') dec_uuid) (\<lambda>u.
       Inr (EdgeActivation e n u))))"

interpretation frame: value_codec frame_to_record frame_from_record "\<lambda>_. True"
  by unfold_locales (simp_all add: frame_to_record_def frame_from_record_def record_defs)

interpretation activation: value_codec activation_to_record activation_from_record "\<lambda>_. True"
  by unfold_locales
    (simp_all add: activation_to_record_def activation_from_record_def record_defs uuid.round_trip)

definition resolution_to_record :: "edge_resolution \<Rightarrow> pyval" where
  "resolution_to_record r = PyDict [(''edge_id'', PyStr (er_edge_id r)),
     (''state'', PyStr (resolution_state_str (er_state r))),
     (''activation'', enc_opt activation_to_record (er_activation r)),
     (''scope'', enc_list frame_to_record (er_scope r))]"

definition resolution_from_record :: "pyval \<Rightarrow> edge_resolution res" where
  "resolution_from_record r =
     bindR (bindR (rec_get_default r ''activation'' PyNone) (dec_opt activation_from_record)) (\<lambda>act.
     bindR (bindR (rec_get r ''edge_id'') as_str) (\<lambda>e.
     bindR (bindR (rec_get r ''state'') (read_literal resolution_state_str [Selected, Skipped])) (\<lambda>st.
     bindR (bindR (rec_get_default r ''scope'' (PyList [])) (dec_list frame_from_record)) (\<lambda>s.
       Inr \<lparr>er_edge_id = e, er_state = st, er_activation = act, er_scope = s\<rparr>))))"

definition request_to_record :: "node_request \<Rightarrow> pyval" where
  "request_to_record r = PyDict [(''node_id'', PyStr (rq_node_id r)),
     (''activations'', enc_list activation_to_record (rq_activations r)),
     (''execution_scope'', enc_list frame_to_record (rq_scope r)),
     (''idempotency_key'', enc_opt PyStr (rq_idempotency_key r)),
     (''recovery_of_execution_id'', enc_opt enc_uuid (rq_recovery_of r)),
     (''recovery_attempt'', py_nat (rq_recovery_attempt r))]"

definition request_from_record :: "pyval \<Rightarrow> node_request res" where
  "request_from_record r =
     bindR (bindR (rec_get r ''node_id'') as_str) (\<lambda>n.
     bindR (bindR (rec_get_default r ''activations'' (PyList [])) (dec_list activation_from_record)) (\<lambda>acts.
     bindR (bindR (rec_get_default r ''execution_scope'' (PyList [])) (dec_list frame_from_record)) (\<lambda>s.
     bindR (bindR (rec_get_default r ''idempotency_key'' PyNone) (dec_opt as_str)) (\<lambda>key.
     bindR (bindR (rec_get_default r ''recovery_of_execution_id'' PyNone) (dec_opt dec_uuid)) (\<lambda>u.
     bindR (bindR (rec_get_default r ''recovery_attempt'' (PyInt 0)) as_nat) (\<lambda>k.
       Inr (mk_request n acts s key u k)))))))"

definition waiting_to_record :: "waiting_execution \<Rightarrow> pyval" where
  "waiting_to_record w = PyDict [(''wait_key'', PyStr (we_wait_key w)),
     (''node_execution_id'', enc_uuid (we_node_execution_id w)),
     (''node_id'', PyStr (we_node_id w)), (''wait_type'', enc_opt PyStr (we_wait_type w)),
     (''payload'', PyDict (we_payload w))]"

definition waiting_from_record :: "pyval \<Rightarrow> waiting_execution res" where
  "waiting_from_record r =
     bindR (bindR (rec_get r ''wait_key'') as_str) (\<lambda>key.
     bindR (bindR (rec_get r ''node_execution_id'') dec_uuid) (\<lambda>u.
     bindR (bindR (rec_get r ''node_id'') as_str) (\<lambda>n.
     bindR (bindR (rec_get_default r ''wait_type'' PyNone) (dec_opt as_str)) (\<lambda>t.
     bindR (bindR (rec_get_default r ''payload'' (PyDict [])) as_dict) (\<lambda>p.
       Inr \<lparr>we_wait_key = key, we_node_execution_id = u, we_node_id = n, we_wait_type = t,
            we_payload = p\<rparr>)))))"

definition transition_to_record :: "node_transition \<Rightarrow> pyval" where
  "transition_to_record t = PyDict [(''node_execution_id'', enc_uuid (tr_node_execution_id t)),
     (''node_id'', PyStr (tr_node_id t)), (''state'', PyStr (node_state_str (tr_state t)))]"

definition transition_from_record :: "pyval \<Rightarrow> node_transition res" where
  "transition_from_record r =
     bindR (bindR (rec_get r ''node_execution_id'') dec_uuid) (\<lambda>u.
     bindR (bindR (rec_get r ''node_id'') as_str) (\<lambda>n.
     bindR (bindR (rec_get r ''state'') (read_literal node_state_str node_states)) (\<lambda>st.
       Inr \<lparr>tr_node_execution_id = u, tr_node_id = n, tr_state = st\<rparr>)))"

lemmas codec_round_trips = uuid.round_trip uuid.option_round_trip str.option_round_trip
  nat.option_round_trip int.option_round_trip frame.list_round_trip activation.list_round_trip
  activation.option_round_trip str.list_round_trip node_state.round_trip resolution_state.round_trip

interpretation resolution: value_codec resolution_to_record resolution_from_record "\<lambda>_. True"
  by unfold_locales (simp_all add: resolution_to_record_def resolution_from_record_def record_defs
      codec_round_trips)

interpretation request: value_codec request_to_record request_from_record "\<lambda>_. True"
  by unfold_locales (simp_all add: request_to_record_def request_from_record_def record_defs
      codec_round_trips mk_request_def)

interpretation waiting: value_codec waiting_to_record waiting_from_record "\<lambda>_. True"
  by unfold_locales (simp_all add: waiting_to_record_def waiting_from_record_def record_defs
      codec_round_trips)

interpretation transition: value_codec transition_to_record transition_from_record "\<lambda>_. True"
  by unfold_locales (simp_all add: transition_to_record_def transition_from_record_def record_defs
      codec_round_trips)

text \<open>\<open>sorted(set)\<close> of strings.\<close>

definition enc_set :: "string set \<Rightarrow> pyval" where
  "enc_set s = PyList (map PyStr (sorted_list_of_set s))"

definition dec_set :: "pyval \<Rightarrow> string set res" where
  "dec_set v = bindR (dec_list as_str v) (\<lambda>xs. Inr (set xs))"

interpretation string_set: value_codec enc_set dec_set finite
  by unfold_locales (use str.list_round_trip in \<open>auto simp: enc_set_def dec_set_def enc_list_def\<close>)

definition context_to_record :: "scheduler_context \<Rightarrow> pyval" where
  "context_to_record c = PyDict [(''ready_queue'', enc_list request_to_record (ready_queue c)),
     (''waiting_executions'', enc_dict waiting_to_record (waiting_executions c)),
     (''transition_queue'', enc_list transition_to_record (transition_queue c)),
     (''edge_resolutions'', enc_dict resolution_to_record (edge_resolutions c)),
     (''loop_boundary_resolutions'', enc_dict resolution_to_record (loop_boundary_resolutions c)),
     (''scheduled_node_instances'', enc_set (scheduled_node_instances c)),
     (''skipped_node_instances'', enc_set (skipped_node_instances c)),
     (''entered_loop_instances'', enc_set (entered_loop_instances c)),
     (''exited_loop_instances'', enc_set (exited_loop_instances c)),
     (''entry_paths_initialized'', PyBool (entry_paths_initialized c))]"

text \<open>\<open>None\<close> reads as the empty record, and \<open>waiting_nodes\<close> is the older name of a key.\<close>

definition context_from_record :: "pyval \<Rightarrow> scheduler_context res" where
  "context_from_record r0 =
     (let r = (if py_truthy r0 then r0 else PyDict []) in
     bindR (rec_get_default r ''waiting_executions'' PyNone) (\<lambda>w0.
     bindR (if w0 = PyNone then rec_get_default r ''waiting_nodes'' (PyDict []) else Inr w0) (\<lambda>w1.
     bindR (bindR (rec_get_default r ''ready_queue'' (PyList [])) (dec_list request_from_record)) (\<lambda>rq.
     bindR (dec_dict waiting_from_record w1) (\<lambda>w.
     bindR (bindR (rec_get_default r ''transition_queue'' (PyList [])) (dec_list transition_from_record)) (\<lambda>tq.
     bindR (bindR (rec_get_default r ''edge_resolutions'' (PyDict [])) (dec_dict resolution_from_record)) (\<lambda>er.
     bindR (bindR (rec_get_default r ''loop_boundary_resolutions'' (PyDict [])) (dec_dict resolution_from_record)) (\<lambda>br.
     bindR (bindR (rec_get_default r ''scheduled_node_instances'' (PyList [])) dec_set) (\<lambda>s1.
     bindR (bindR (rec_get_default r ''skipped_node_instances'' (PyList [])) dec_set) (\<lambda>s2.
     bindR (bindR (rec_get_default r ''entered_loop_instances'' (PyList [])) dec_set) (\<lambda>s3.
     bindR (bindR (rec_get_default r ''exited_loop_instances'' (PyList [])) dec_set) (\<lambda>s4.
     bindR (rec_get_default r ''entry_paths_initialized'' (PyBool False)) (\<lambda>b.
       Inr \<lparr>ready_queue = rq, waiting_executions = w, transition_queue = tq, edge_resolutions = er,
            loop_boundary_resolutions = br, scheduled_node_instances = s1,
            skipped_node_instances = s2, entered_loop_instances = s3, exited_loop_instances = s4,
            entry_paths_initialized = py_truthy b\<rparr>)))))))))))))"

definition finite_cursor :: "scheduler_context \<Rightarrow> bool" where
  "finite_cursor c \<longleftrightarrow> finite (scheduled_node_instances c) \<and> finite (skipped_node_instances c)
     \<and> finite (entered_loop_instances c) \<and> finite (exited_loop_instances c)"

interpretation cursor: value_codec context_to_record context_from_record finite_cursor
proof
  fix c assume "finite_cursor c"
  then show "context_from_record (context_to_record c) = Inr c"
    by (simp add: context_to_record_def context_from_record_def record_defs finite_cursor_def Let_def
        request.list_round_trip waiting.dict_round_trip transition.list_round_trip
        resolution.dict_round_trip string_set.round_trip)
      (simp add: enc_dict_def)
qed (simp add: context_to_record_def)

section \<open>The records of an execution\<close>

definition error_to_record :: "runtime_error_info \<Rightarrow> pyval" where
  "error_to_record e = PyDict [(''code'', PyStr (err_code e)), (''message'', PyStr (err_message e)),
     (''detail'', PyDict (err_detail e))]"

text \<open>\<open>None\<close> reads as \<open>None\<close>: the reader of an optional error.\<close>

definition error_from_record :: "pyval \<Rightarrow> runtime_error_info res" where
  "error_from_record r =
     bindR (bindR (rec_get r ''code'') as_str) (\<lambda>c.
     bindR (bindR (rec_get r ''message'') as_str) (\<lambda>m.
     bindR (bindR (rec_get_default r ''detail'' (PyDict [])) as_dict) (\<lambda>d. Inr (mk_error c m d))))"

interpretation error: value_codec error_to_record error_from_record "\<lambda>_. True"
  by unfold_locales (simp_all add: error_to_record_def error_from_record_def record_defs mk_error_def)

definition usage_to_record :: "resource_usage \<Rightarrow> pyval" where
  "usage_to_record x = PyDict [(''duration_ns'', py_nat (duration_ns x)),
     (''execution_ns'', py_nat (execution_ns x)),
     (''concurrency_wait_ns'', py_nat (concurrency_wait_ns x)),
     (''thread_pool_queue_ns'', py_nat (thread_pool_queue_ns x)),
     (''retry_backoff_ns'', py_nat (retry_backoff_ns x)),
     (''stream_consumption_ns'', py_nat (stream_consumption_ns x)),
     (''stream_reduction_ns'', py_nat (stream_reduction_ns x))]"

definition usage_from_record :: "pyval \<Rightarrow> resource_usage res" where
  "usage_from_record r0 =
     (let r = (if py_truthy r0 then r0 else PyDict []) in
     bindR (bindR (rec_get_default r ''duration_ns'' (PyInt 0)) as_nat) (\<lambda>duration_ns0.
     bindR (bindR (rec_get_default r ''execution_ns'' (PyInt 0)) as_nat) (\<lambda>execution_ns0.
     bindR (bindR (rec_get_default r ''concurrency_wait_ns'' (PyInt 0)) as_nat) (\<lambda>concurrency_wait_ns0.
     bindR (bindR (rec_get_default r ''thread_pool_queue_ns'' (PyInt 0)) as_nat) (\<lambda>thread_pool_queue_ns0.
     bindR (bindR (rec_get_default r ''retry_backoff_ns'' (PyInt 0)) as_nat) (\<lambda>retry_backoff_ns0.
     bindR (bindR (rec_get_default r ''stream_consumption_ns'' (PyInt 0)) as_nat) (\<lambda>stream_consumption_ns0.
     bindR (bindR (rec_get_default r ''stream_reduction_ns'' (PyInt 0)) as_nat) (\<lambda>stream_reduction_ns0.
       Inr \<lparr>duration_ns = duration_ns0, execution_ns = execution_ns0, concurrency_wait_ns = concurrency_wait_ns0, thread_pool_queue_ns = thread_pool_queue_ns0, retry_backoff_ns = retry_backoff_ns0, stream_consumption_ns = stream_consumption_ns0, stream_reduction_ns = stream_reduction_ns0\<rparr>))))))))"

interpretation usage: value_codec usage_to_record usage_from_record "\<lambda>_. True"
  by unfold_locales (simp_all add: usage_to_record_def usage_from_record_def record_defs Let_def)

text \<open>\<open>coerce_timestamp_ms(v) or utc_timestamp_ms()\<close>: a missing or zero start reads as the clock.\<close>

definition start_or_now :: "int \<Rightarrow> int option \<Rightarrow> int" where
  "start_or_now now t = (case t of None \<Rightarrow> now | Some s \<Rightarrow> if s = 0 then now else s)"

definition direct_to_record :: "direct_execution \<Rightarrow> pyval" where
  "direct_to_record d = PyDict [(''type'', PyStr ''direct''), (''id'', enc_uuid (de_id d)),
     (''operator_id'', PyStr (de_operator_id d)), (''sequence'', py_nat (de_sequence d)),
     (''reason'', PyStr (operator_reason_str (de_reason d))),
     (''state'', PyStr (operator_state_str (de_state d))),
     (''input'', de_input d), (''output'', de_output d),
     (''error'', enc_opt error_to_record (de_error d)),
     (''resource_usage'', usage_to_record (de_usage d)),
     (''started_at_ms'', PyInt (de_started_at_ms d)),
     (''ended_at_ms'', enc_opt PyInt (de_ended_at_ms d)),
     (''streaming'', PyBool (de_streaming d)),
     (''stream_chunk_count'', py_nat (de_stream_chunk_count d))]"

definition direct_from_record :: "int \<Rightarrow> pyval \<Rightarrow> direct_execution res" where
  "direct_from_record now r =
     bindR (bindR (rec_get r ''id'') dec_uuid) (\<lambda>uid.
     bindR (bindR (rec_get r ''operator_id'') as_str) (\<lambda>op.
     bindR (bindR (rec_get r ''sequence'') as_nat) (\<lambda>k.
     bindR (bindR (rec_get_default r ''reason'' (PyStr ''normal''))
              (read_literal operator_reason_str operator_reasons)) (\<lambda>reason.
     bindR (bindR (rec_get r ''state'') (read_literal operator_state_str operator_states)) (\<lambda>st.
     bindR (rec_get_default r ''input'' PyNone) (\<lambda>inp.
     bindR (rec_get_default r ''output'' PyNone) (\<lambda>out.
     bindR (bindR (rec_get_default r ''error'' PyNone) (dec_opt error_from_record)) (\<lambda>err.
     bindR (bindR (rec_get_default r ''resource_usage'' PyNone) usage_from_record) (\<lambda>u.
     bindR (bindR (rec_get_default r ''started_at_ms'' PyNone) (dec_opt as_int)) (\<lambda>t0.
     bindR (bindR (rec_get_default r ''ended_at_ms'' PyNone) (dec_opt as_int)) (\<lambda>t1.
     bindR (rec_get_default r ''streaming'' (PyBool False)) (\<lambda>sm.
     bindR (bindR (rec_get_default r ''stream_chunk_count'' (PyInt 0)) as_nat) (\<lambda>chunks.
       Inr \<lparr>de_operator_id = op, de_sequence = k, de_reason = reason, de_id = uid, de_state = st,
            de_input = inp, de_output = out, de_error = err, de_usage = u,
            de_started_at_ms = start_or_now now t0, de_ended_at_ms = t1,
            de_streaming = py_truthy sm, de_stream_chunk_count = chunks\<rparr>)))))))))))))"

definition sample_to_record :: "failure_sample \<Rightarrow> pyval" where
  "sample_to_record f = PyDict [(''code'', PyStr (fs_code f)), (''message'', PyStr (fs_message f)),
     (''operator_id'', PyStr (fs_operator_id f))]"

definition sample_from_record :: "pyval \<Rightarrow> failure_sample res" where
  "sample_from_record r =
     bindR (bindR (rec_get r ''code'') as_str) (\<lambda>c.
     bindR (bindR (rec_get r ''message'') as_str) (\<lambda>m.
     bindR (bindR (rec_get r ''operator_id'') as_str) (\<lambda>op.
       Inr \<lparr>fs_code = c, fs_message = m, fs_operator_id = op\<rparr>)))"

interpretation failure_sample: value_codec sample_to_record sample_from_record "\<lambda>_. True"
  by unfold_locales (simp_all add: sample_to_record_def sample_from_record_def record_defs)

definition summary_to_record :: "parallel_summary \<Rightarrow> pyval" where
  "summary_to_record x = PyDict [(''call_count'', py_nat (ps_call_count x)),
     (''attempt_count'', py_nat (ps_attempt_count x)),
     (''success_count'', py_nat (ps_success_count x)),
     (''failure_count'', py_nat (ps_failure_count x)),
     (''cancelled_count'', py_nat (ps_cancelled_count x)),
     (''retry_count'', py_nat (ps_retry_count x)),
     (''fallback_count'', py_nat (ps_fallback_count x)),
     (''total_duration_ns'', py_nat (ps_total_duration_ns x)),
     (''min_duration_ns'', enc_opt py_nat (ps_min_duration_ns x)),
     (''max_duration_ns'', enc_opt py_nat (ps_max_duration_ns x)),
     (''peak_parallelism'', py_nat (ps_peak_parallelism x)),
     (''streaming_call_count'', py_nat (ps_streaming_call_count x)),
     (''stream_chunk_count'', py_nat (ps_stream_chunk_count x)),
     (''stream_consumption_ns'', py_nat (ps_stream_consumption_ns x)),
     (''stream_reduction_ns'', py_nat (ps_stream_reduction_ns x)),
     (''failure_samples'', enc_list sample_to_record (ps_failure_samples x))]"

text \<open>A missing \<open>attempt_count\<close> is read from \<open>call_count\<close>.\<close>

definition summary_from_record :: "pyval \<Rightarrow> parallel_summary res" where
  "summary_from_record r0 =
     (let r = (if py_truthy r0 then r0 else PyDict []) in
     bindR (bindR (rec_get_default r ''call_count'' (PyInt 0)) as_nat) (\<lambda>call_count0.
     bindR (rec_get_default r ''call_count'' (PyInt 0)) (\<lambda>calls.
     bindR (bindR (rec_get_default r ''attempt_count'' calls) as_nat) (\<lambda>attempt_count0.
     bindR (bindR (rec_get_default r ''success_count'' (PyInt 0)) as_nat) (\<lambda>success_count0.
     bindR (bindR (rec_get_default r ''failure_count'' (PyInt 0)) as_nat) (\<lambda>failure_count0.
     bindR (bindR (rec_get_default r ''cancelled_count'' (PyInt 0)) as_nat) (\<lambda>cancelled_count0.
     bindR (bindR (rec_get_default r ''retry_count'' (PyInt 0)) as_nat) (\<lambda>retry_count0.
     bindR (bindR (rec_get_default r ''fallback_count'' (PyInt 0)) as_nat) (\<lambda>fallback_count0.
     bindR (bindR (rec_get_default r ''total_duration_ns'' (PyInt 0)) as_nat) (\<lambda>total_duration_ns0.
     bindR (bindR (rec_get_default r ''min_duration_ns'' PyNone) (dec_opt as_nat)) (\<lambda>min_duration_ns0.
     bindR (bindR (rec_get_default r ''max_duration_ns'' PyNone) (dec_opt as_nat)) (\<lambda>max_duration_ns0.
     bindR (bindR (rec_get_default r ''peak_parallelism'' (PyInt 0)) as_nat) (\<lambda>peak_parallelism0.
     bindR (bindR (rec_get_default r ''streaming_call_count'' (PyInt 0)) as_nat) (\<lambda>streaming_call_count0.
     bindR (bindR (rec_get_default r ''stream_chunk_count'' (PyInt 0)) as_nat) (\<lambda>stream_chunk_count0.
     bindR (bindR (rec_get_default r ''stream_consumption_ns'' (PyInt 0)) as_nat) (\<lambda>stream_consumption_ns0.
     bindR (bindR (rec_get_default r ''stream_reduction_ns'' (PyInt 0)) as_nat) (\<lambda>stream_reduction_ns0.
     bindR (bindR (rec_get_default r ''failure_samples'' (PyList [])) (dec_list sample_from_record)) (\<lambda>fs.
       Inr \<lparr>ps_call_count = call_count0,
            ps_attempt_count = attempt_count0,
            ps_success_count = success_count0,
            ps_failure_count = failure_count0,
            ps_cancelled_count = cancelled_count0,
            ps_retry_count = retry_count0,
            ps_fallback_count = fallback_count0,
            ps_total_duration_ns = total_duration_ns0,
            ps_min_duration_ns = min_duration_ns0,
            ps_max_duration_ns = max_duration_ns0,
            ps_peak_parallelism = peak_parallelism0,
            ps_streaming_call_count = streaming_call_count0,
            ps_stream_chunk_count = stream_chunk_count0,
            ps_stream_consumption_ns = stream_consumption_ns0,
            ps_stream_reduction_ns = stream_reduction_ns0,
            ps_failure_samples = fs\<rparr>))))))))))))))))))"

interpretation summary: value_codec summary_to_record summary_from_record "\<lambda>_. True"
  by unfold_locales (simp_all add: summary_to_record_def summary_from_record_def record_defs Let_def
      nat.option_round_trip failure_sample.list_round_trip)

definition parallel_to_record :: "parallel_execution \<Rightarrow> pyval" where
  "parallel_to_record p = PyDict [(''type'', PyStr ''parallel''), (''id'', enc_uuid (pe_id p)),
     (''kind'', PyStr (parallel_kind_str (pe_kind p))),
     (''state'', PyStr (operator_state_str (pe_state p))),
     (''summary'', summary_to_record (pe_summary p)),
     (''operator_ids'', enc_list PyStr (pe_operator_ids p)),
     (''error'', enc_opt error_to_record (pe_error p)),
     (''started_at_ms'', PyInt (pe_started_at_ms p)),
     (''ended_at_ms'', enc_opt PyInt (pe_ended_at_ms p))]"

definition parallel_from_record :: "int \<Rightarrow> pyval \<Rightarrow> parallel_execution res" where
  "parallel_from_record now r =
     bindR (bindR (rec_get r ''id'') dec_uuid) (\<lambda>uid.
     bindR (bindR (rec_get r ''kind'') (read_literal parallel_kind_str [KindMap, KindReplication])) (\<lambda>kd.
     bindR (bindR (rec_get r ''state'') (read_literal operator_state_str operator_states)) (\<lambda>st.
     bindR (bindR (rec_get_default r ''summary'' PyNone) summary_from_record) (\<lambda>sm.
     bindR (bindR (rec_get_default r ''operator_ids'' (PyList [])) (dec_list as_str)) (\<lambda>ops.
     bindR (bindR (rec_get_default r ''error'' PyNone) (dec_opt error_from_record)) (\<lambda>err.
     bindR (bindR (rec_get_default r ''started_at_ms'' PyNone) (dec_opt as_int)) (\<lambda>t0.
     bindR (bindR (rec_get_default r ''ended_at_ms'' PyNone) (dec_opt as_int)) (\<lambda>t1.
       Inr \<lparr>pe_kind = kd, pe_summary = sm, pe_operator_ids = ops, pe_id = uid, pe_state = st,
            pe_error = err, pe_started_at_ms = start_or_now now t0, pe_ended_at_ms = t1\<rparr>))))))))"

fun operator_to_record :: "operator_execution \<Rightarrow> pyval" where
  "operator_to_record (Direct d) = direct_to_record d"
| "operator_to_record (Parallel p) = parallel_to_record p"

definition operator_execution_from_record :: "int \<Rightarrow> pyval \<Rightarrow> operator_execution res" where
  "operator_execution_from_record now r =
     bindR (rec_get_default r ''type'' PyNone) (\<lambda>t.
       if t = PyStr ''parallel'' then bindR (parallel_from_record now r) (\<lambda>p. Inr (Parallel p))
       else bindR (direct_from_record now r) (\<lambda>d. Inr (Direct d)))"

text \<open>A start time of zero does not survive: it reads as the current time.\<close>

fun operator_started :: "operator_execution \<Rightarrow> bool" where
  "operator_started (Direct d) = (de_started_at_ms d \<noteq> 0)"
| "operator_started (Parallel p) = (pe_started_at_ms p \<noteq> 0)"

lemma start_or_now_Some [simp]: "t \<noteq> 0 \<Longrightarrow> start_or_now now (Some t) = t"
  by (simp add: start_or_now_def)

lemma start_round_trip: "dec_opt as_int (PyInt t) = Inr (Some t)"
  by (simp add: dec_opt_def)

lemma direct_round_trip:
  "de_started_at_ms d \<noteq> 0 \<Longrightarrow> direct_from_record now (direct_to_record d) = Inr d"
  by (simp add: direct_to_record_def direct_from_record_def record_defs uuid.round_trip
      operator_reason.round_trip operator_state.round_trip error.option_round_trip usage.round_trip
      start_round_trip int.option_round_trip)

lemma parallel_round_trip:
  "pe_started_at_ms p \<noteq> 0 \<Longrightarrow> parallel_from_record now (parallel_to_record p) = Inr p"
  by (simp add: parallel_to_record_def parallel_from_record_def record_defs uuid.round_trip
      parallel_kind.round_trip operator_state.round_trip error.option_round_trip summary.round_trip
      str.list_round_trip start_round_trip int.option_round_trip)

lemma operator_record_type:
  "rec_get_default (direct_to_record d) ''type'' v = Inr (PyStr ''direct'')"
  "rec_get_default (parallel_to_record p) ''type'' v = Inr (PyStr ''parallel'')"
  by (simp_all add: direct_to_record_def parallel_to_record_def record_defs)

interpretation operator: codec operator_to_record "operator_execution_from_record now" operator_started
  for now
proof
  fix x assume "operator_started x"
  then show "operator_execution_from_record now (operator_to_record x) = Inr x"
    by (cases x) (simp_all add: operator_execution_from_record_def direct_round_trip
        parallel_round_trip operator_record_type)
qed

definition evaluation_to_record :: "edge_evaluation \<Rightarrow> pyval" where
  "evaluation_to_record e = PyDict [(''edge_id'', PyStr (ee_edge_id e)),
     (''target_node_id'', PyStr (ee_target_node_id e)),
     (''state'', PyStr (evaluation_state_str (ee_state e))),
     (''selected'', PyBool (ee_selected e)), (''reason'', enc_opt PyStr (ee_reason e))]"

definition evaluation_from_record :: "pyval \<Rightarrow> edge_evaluation res" where
  "evaluation_from_record r =
     bindR (bindR (rec_get r ''edge_id'') as_str) (\<lambda>e.
     bindR (bindR (rec_get r ''target_node_id'') as_str) (\<lambda>n.
     bindR (bindR (rec_get r ''state'')
              (read_literal evaluation_state_str [EvalSelected, EvalSkipped, EvalFailed])) (\<lambda>st.
     bindR (rec_get r ''selected'') (\<lambda>sel.
     bindR (bindR (rec_get_default r ''reason'' PyNone) (dec_opt as_str)) (\<lambda>re.
       Inr \<lparr>ee_edge_id = e, ee_target_node_id = n, ee_state = st, ee_selected = py_truthy sel,
            ee_reason = re\<rparr>)))))"

interpretation evaluation: value_codec evaluation_to_record evaluation_from_record "\<lambda>_. True"
  by unfold_locales (simp_all add: evaluation_to_record_def evaluation_from_record_def record_defs
      evaluation_state.round_trip str.option_round_trip)

definition execution_to_record :: "uuid \<Rightarrow> node_execution \<Rightarrow> pyval" where
  "execution_to_record invocation_id n = PyDict [(''id'', enc_uuid (ne_id n)),
     (''invocation_id'', enc_uuid invocation_id), (''node_id'', PyStr (ne_node_id n)),
     (''sequence'', py_nat (ne_sequence n)), (''state'', PyStr (node_state_str (ne_state n))),
     (''input'', ne_input n), (''output'', ne_output n),
     (''error'', enc_opt error_to_record (ne_error n)),
     (''idempotency_key'', enc_opt PyStr (ne_idempotency_key n)),
     (''recovery_of_execution_id'', enc_opt enc_uuid (ne_recovery_of n)),
     (''recovery_attempt'', py_nat (ne_recovery_attempt n)),
     (''base_invocation_context_revision'', py_nat (ne_base_invocation_revision n)),
     (''base_session_context_revision'', py_nat (ne_base_session_revision n)),
     (''incoming_activations'', enc_list activation_to_record (ne_incoming_activations n)),
     (''execution_scope'', enc_list frame_to_record (ne_scope n)),
     (''operator_executions'', enc_list operator_to_record (ne_operator_executions n)),
     (''edge_evaluations'', enc_list evaluation_to_record (ne_edge_evaluations n)),
     (''resource_usage'', usage_to_record (ne_usage n)),
     (''started_at_ms'', enc_opt PyInt (ne_started_at_ms n)),
     (''ended_at_ms'', enc_opt PyInt (ne_ended_at_ms n))]"

definition execution_from_record :: "int \<Rightarrow> pyval \<Rightarrow> node_execution res" where
  "execution_from_record now r =
     bindR (bindR (rec_get r ''id'') dec_uuid) (\<lambda>uid.
     bindR (bindR (rec_get r ''node_id'') as_str) (\<lambda>n.
     bindR (bindR (rec_get r ''sequence'') as_nat) (\<lambda>k.
     bindR (bindR (rec_get r ''state'') (read_literal node_state_str node_states)) (\<lambda>st.
     bindR (rec_get_default r ''input'' PyNone) (\<lambda>inp.
     bindR (rec_get_default r ''output'' PyNone) (\<lambda>out.
     bindR (bindR (rec_get_default r ''error'' PyNone) (dec_opt error_from_record)) (\<lambda>err.
     bindR (bindR (rec_get_default r ''idempotency_key'' PyNone) (dec_opt as_str)) (\<lambda>key.
     bindR (bindR (rec_get_default r ''recovery_of_execution_id'' PyNone) (dec_opt dec_uuid)) (\<lambda>ro.
     bindR (bindR (rec_get_default r ''recovery_attempt'' (PyInt 0)) as_nat) (\<lambda>ra.
     bindR (bindR (rec_get_default r ''base_invocation_context_revision'' (PyInt 0)) as_nat) (\<lambda>bi.
     bindR (bindR (rec_get_default r ''base_session_context_revision'' (PyInt 0)) as_nat) (\<lambda>bs.
     bindR (bindR (rec_get_default r ''incoming_activations'' (PyList [])) (dec_list activation_from_record)) (\<lambda>acts.
     bindR (bindR (rec_get_default r ''execution_scope'' (PyList [])) (dec_list frame_from_record)) (\<lambda>sc.
     bindR (bindR (rec_get_default r ''operator_executions'' (PyList []))
              (dec_list (operator_execution_from_record now))) (\<lambda>ops.
     bindR (bindR (rec_get_default r ''edge_evaluations'' (PyList [])) (dec_list evaluation_from_record)) (\<lambda>evs.
     bindR (bindR (rec_get_default r ''resource_usage'' PyNone) usage_from_record) (\<lambda>u.
     bindR (bindR (rec_get_default r ''started_at_ms'' PyNone) (dec_opt as_int)) (\<lambda>t0.
     bindR (bindR (rec_get_default r ''ended_at_ms'' PyNone) (dec_opt as_int)) (\<lambda>t1.
       Inr \<lparr>ne_node_id = n, ne_sequence = k, ne_id = uid, ne_state = st, ne_input = inp,
            ne_output = out, ne_error = err, ne_idempotency_key = key, ne_recovery_of = ro,
            ne_recovery_attempt = ra, ne_base_invocation_revision = bi,
            ne_base_session_revision = bs, ne_incoming_activations = acts, ne_scope = sc,
            ne_operator_executions = ops, ne_edge_evaluations = evs, ne_usage = u,
            ne_started_at_ms = t0, ne_ended_at_ms = t1\<rparr>)))))))))))))))))))"

definition operators_started :: "node_execution \<Rightarrow> bool" where
  "operators_started n \<longleftrightarrow> list_all operator_started (ne_operator_executions n)"

interpretation execution: codec "execution_to_record uid" "execution_from_record now" operators_started
  for uid now
proof
  fix n assume "operators_started n"
  then show "execution_from_record now (execution_to_record uid n) = Inr n"
    by (simp add: execution_to_record_def execution_from_record_def record_defs operators_started_def
        codec_round_trips error.option_round_trip operator.list_round_trip evaluation.list_round_trip
        usage.round_trip)
qed

section \<open>The records of a context and of an invocation\<close>

definition runtime_context_to_record :: "runtime_context \<Rightarrow> pyval" where
  "runtime_context_to_record c = PyDict [(''data'', PyDict (ctx_data c)),
     (''metadata'', PyDict (ctx_metadata c)), (''revision'', py_nat (ctx_revision c)),
     (''path_revisions'', enc_dict py_nat (ctx_path_revisions c))]"

definition runtime_context_from_record :: "pyval \<Rightarrow> runtime_context res" where
  "runtime_context_from_record r =
     bindR (bindR (rec_get_default r ''data'' (PyDict [])) as_dict) (\<lambda>d.
     bindR (bindR (rec_get_default r ''metadata'' (PyDict [])) as_dict) (\<lambda>m.
     bindR (bindR (rec_get_default r ''revision'' (PyInt 0)) as_nat) (\<lambda>k.
     bindR (bindR (rec_get_default r ''path_revisions'' (PyDict [])) (dec_dict as_nat)) (\<lambda>p.
       Inr \<lparr>ctx_data = d, ctx_metadata = m, ctx_revision = k, ctx_path_revisions = p\<rparr>))))"

interpretation runtime_context:
  value_codec runtime_context_to_record runtime_context_from_record "\<lambda>_. True"
  by unfold_locales (simp_all add: runtime_context_to_record_def runtime_context_from_record_def
      record_defs nat.dict_round_trip)

definition invocation_to_record :: "uuid \<Rightarrow> invocation \<Rightarrow> pyval" where
  "invocation_to_record session_id i = PyDict [(''id'', enc_uuid (inv_id i)),
     (''session_id'', enc_uuid session_id), (''workflow_id'', PyStr (inv_workflow_id i)),
     (''workflow_definition_hash'', enc_opt PyStr (inv_definition_hash i)),
     (''entry_node_id'', PyStr (inv_entry_node_id i)),
     (''state'', PyStr (invocation_state_str (inv_state i))),
     (''execution_mode'', PyStr (execution_mode_str (inv_execution_mode i))),
     (''event_mode'', PyStr (event_mode_str (inv_event_mode i))),
     (''event_sequence'', py_nat (inv_event_sequence i)),
     (''input'', PyDict (inv_input i)), (''context'', runtime_context_to_record (inv_context i)),
     (''result'', enc_opt PyDict (inv_result i)),
     (''scheduler'', context_to_record (inv_scheduler i)),
     (''error'', enc_opt error_to_record (inv_error i)),
     (''deferred_error'', enc_opt error_to_record (inv_deferred_error i)),
     (''deferred_terminal_state'',
        enc_opt (\<lambda>s. PyStr (invocation_state_str s)) (inv_deferred_terminal_state i))]"

text \<open>
  \<open>Invocation.from_record\<close> and the part of \<open>__init__\<close> it runs: no entry request is queued, and
  the output index is rebuilt from the node executions.
\<close>

definition invocation_from_record :: "pyval \<Rightarrow> node_execution list \<Rightarrow> invocation res" where
  "invocation_from_record r executions =
     bindR (bindR (rec_get r ''id'') dec_uuid) (\<lambda>uid.
     bindR (bindR (rec_get r ''workflow_id'') as_str) (\<lambda>wid.
     bindR (bindR (rec_get_default r ''workflow_definition_hash'' PyNone) (dec_opt as_str)) (\<lambda>hash.
     bindR (bindR (rec_get r ''entry_node_id'') as_str) (\<lambda>entry.
     bindR (bindR (rec_get r ''state'') (read_literal invocation_state_str invocation_states)) (\<lambda>st.
     bindR (bindR (rec_get_default r ''execution_mode'' (PyStr ''normal''))
              (read_literal execution_mode_str [ModeNormal, ModeRecovery])) (\<lambda>mode.
     bindR (bindR (rec_get r ''event_mode'') (read_literal event_mode_str [EvMinimal, EvStandard, EvFull])) (\<lambda>ev.
     bindR (bindR (rec_get_default r ''event_sequence'' (PyInt 0)) as_nat) (\<lambda>k.
     bindR (bindR (rec_get_default r ''input'' (PyDict [])) as_dict) (\<lambda>inp.
     bindR (rec_get_default r ''data'' (PyDict [])) (\<lambda>legacy.
     bindR (bindR (rec_get_default r ''context'' (PyDict [(''data'', legacy)]))
              runtime_context_from_record) (\<lambda>ctx.
     bindR (bindR (rec_get_default r ''result'' PyNone) (dec_opt as_dict)) (\<lambda>res.
     bindR (bindR (rec_get_default r ''scheduler'' PyNone) context_from_record) (\<lambda>c.
     bindR (bindR (rec_get_default r ''error'' PyNone) (dec_opt error_from_record)) (\<lambda>err.
     bindR (bindR (rec_get_default r ''deferred_error'' PyNone) (dec_opt error_from_record)) (\<lambda>derr.
     bindR (bindR (rec_get_default r ''deferred_terminal_state'' PyNone)
              (dec_opt (read_literal invocation_state_str invocation_states))) (\<lambda>dst.
       Inr \<lparr>inv_id = uid, inv_workflow_id = wid, inv_definition_hash = hash, inv_entry_node_id = entry,
            inv_state = st, inv_input = inp, inv_context = ctx, inv_result = res, inv_scheduler = c,
            inv_node_executions = executions, inv_output_index = index_of executions,
            inv_execution_mode = mode, inv_event_mode = ev, inv_event_sequence = k, inv_error = err,
            inv_deferred_error = derr, inv_deferred_terminal_state = dst\<rparr>))))))))))))))))"

interpretation dict: value_codec PyDict as_dict "\<lambda>_. True"
  by unfold_locales simp_all

lemma invocation_round_trip_fields:
  assumes "finite_cursor (inv_scheduler i)"
  shows "invocation_from_record (invocation_to_record sid i) (inv_node_executions i)
     = Inr (i\<lparr>inv_output_index := index_of (inv_node_executions i)\<rparr>)"
  using assms
  by (simp add: invocation_to_record_def invocation_from_record_def record_defs codec_round_trips
      invocation_state.round_trip execution_mode.round_trip event_mode.round_trip
      runtime_context.round_trip dict.option_round_trip cursor.round_trip error.option_round_trip
      invocation_state.option_round_trip)

text \<open>What the store keeps of an invocation: its record and those of its node executions.\<close>

definition restore_invocation :: "int \<Rightarrow> pyval \<Rightarrow> pyval list \<Rightarrow> invocation res" where
  "restore_invocation now r executions =
     bindR (mapR (execution_from_record now) executions) (invocation_from_record r)"



end
