(* ===== verification/Python_Equality.thy ===== *)
theory Python_Equality
  imports Values
begin

text \<open>
  Equality of the values the runtime stores, shared by the contexts, which look for the locations
  a binding changed, and by the state trees, which record the changes of an event.
\<close>

text \<open>
  \<open>==\<close> of Python: booleans compare as integers and the order of a dictionary is irrelevant.
\<close>

definition int_of_bool :: "bool \<Rightarrow> int" where
  "int_of_bool b = (if b then 1 else 0)"

lemma dict_get_size: "dict_get d k = Some v \<Longrightarrow> size v < size (PyDict d)"
proof -
  assume "dict_get d k = Some v"
  then have "(k, v) \<in> set d" by (rule dict_get_mem)
  then show ?thesis by (induction d) auto
qed

function (sequential) py_eq :: "pyval \<Rightarrow> pyval \<Rightarrow> bool" where
  "py_eq (PyBool b) (PyInt j) = (int_of_bool b = j)"
| "py_eq (PyInt i) (PyBool c) = (i = int_of_bool c)"
| "py_eq (PyList xs) (PyList ys) = list_all2 py_eq xs ys"
| "py_eq (PyDict d) (PyDict e) =
     (set (dict_keys d) = set (dict_keys e)
      \<and> (\<forall>k \<in> set (dict_keys d). case dict_get d k of None \<Rightarrow> True
           | Some v \<Rightarrow> (case dict_get e k of None \<Rightarrow> False | Some w \<Rightarrow> py_eq v w)))"
| "py_eq v w = (v = w)"
  by pat_completeness auto

termination
proof (relation "measure (size \<circ> fst)", goal_cases)
  case (2 xs ys v w)
  then show ?case by (induction xs) auto
qed (use dict_get_size in auto)

lemma list_size_py: "x \<in> set xs \<Longrightarrow> size x < size (PyList xs)"
  by (induction xs) auto

lemma py_eq_refl [simp]: "py_eq v v"
proof (induction "size v" arbitrary: v rule: less_induct)
  case less
  show ?case
  proof (cases v)
    case (PyList xs)
    have "py_eq x x" if "x \<in> set xs" for x
      by (rule less) (use list_size_py [OF that] PyList in simp)
    with PyList show ?thesis by (simp add: list.rel_refl_strong)
  next
    case (PyDict d)
    have "py_eq x x" if "dict_get d k = Some x" for k x
      by (rule less) (use dict_get_size [OF that] PyDict in simp)
    with PyDict show ?thesis by (auto split: option.splits)
  qed simp_all
qed

lemma py_eq_dict_iff:
  "py_eq (PyDict d) (PyDict e) \<longleftrightarrow>
     (\<forall>k. case dict_get e k of None \<Rightarrow> dict_get d k = None
        | Some w \<Rightarrow> (\<exists>v. dict_get d k = Some v \<and> py_eq v w))"
proof
  assume "py_eq (PyDict d) (PyDict e)"
  then have keys: "set (dict_keys d) = set (dict_keys e)"
    and vals: "\<And>k v. dict_get d k = Some v \<Longrightarrow> \<exists>w. dict_get e k = Some w \<and> py_eq v w"
    by (fastforce dest: dict_get_in_keys split: option.splits)+
  show "\<forall>k. case dict_get e k of None \<Rightarrow> dict_get d k = None
      | Some w \<Rightarrow> (\<exists>v. dict_get d k = Some v \<and> py_eq v w)"
  proof
    fix k
    show "case dict_get e k of None \<Rightarrow> dict_get d k = None
      | Some w \<Rightarrow> (\<exists>v. dict_get d k = Some v \<and> py_eq v w)"
      using keys vals [of k] dict_get_None_iff [of d k] dict_get_None_iff [of e k]
      by (cases "dict_get d k"; cases "dict_get e k") auto
  qed
next
  assume all: "\<forall>k. case dict_get e k of None \<Rightarrow> dict_get d k = None
        | Some w \<Rightarrow> (\<exists>v. dict_get d k = Some v \<and> py_eq v w)"
  have "k \<in> set (dict_keys d) \<longleftrightarrow> k \<in> set (dict_keys e)" for k
    using spec [OF all, of k] dict_get_None_iff [of d k] dict_get_None_iff [of e k]
    by (auto split: option.splits)
  moreover have "case dict_get d k of None \<Rightarrow> True
      | Some v \<Rightarrow> (case dict_get e k of None \<Rightarrow> False | Some w \<Rightarrow> py_eq v w)" for k
    using spec [OF all, of k] by (auto split: option.splits)
  ultimately show "py_eq (PyDict d) (PyDict e)" by auto
qed

lemma py_eq_dictD:
  assumes "py_eq v (PyDict e)"
  shows "\<exists>d. v = PyDict d"
  using assms by (cases v) auto

lemma py_eq_list_iff: "py_eq (PyList xs) (PyList ys) \<longleftrightarrow> list_all2 py_eq xs ys"
  by simp

lemma py_eq_sym: "py_eq a b \<Longrightarrow> py_eq b a"
proof (induction a b rule: py_eq.induct)
  case (3 xs ys)
  then show ?case by (simp add: list_all2_conv_all_nth)
next
  case (4 d e)
  have "case dict_get d k of None \<Rightarrow> dict_get e k = None
      | Some v \<Rightarrow> (\<exists>w. dict_get e k = Some w \<and> py_eq w v)" for k
    using spec [OF "4.prems" [unfolded py_eq_dict_iff], of k] "4.IH" [of k]
      dict_get_in_keys [of d k] by (auto split: option.splits)
  then show ?case unfolding py_eq_dict_iff by blast
qed auto

end
