(* ===== verification/State_Trees.thy ===== *)
theory State_Trees
  imports Records Python_Equality
begin

text \<open>
  Edits of the runtime's state tree: \<open>StateOperation\<close> of \<open>core/runtime/event.py\<close>, and the
  functions of \<open>core/runtime/snapshot.py\<close> that find the edits between two trees
  (\<open>_diff_state_value\<close>) and apply them (\<open>apply_state_operations\<close>). The comparison is Python's
  \<open>==\<close>, for which \<open>True\<close> is \<open>1\<close> and the order of a dictionary's keys does not matter.
  Copy on write is the identity on values: the operations a difference consists of never shift
  the positions of a list, so an owned path always names the same container.
\<close>

section \<open>Operations\<close>

declare py_eq.simps(3,4) [simp del]

text \<open>Values Python can hold: the keys of every dictionary are distinct.\<close>

fun wf_value :: "pyval \<Rightarrow> bool" where
  "wf_value (PyDict d) = (distinct (map fst d) \<and> (\<forall>(k, v) \<in> set d. wf_value v))"
| "wf_value (PyList xs) = (\<forall>x \<in> set xs. wf_value x)"
| "wf_value _ = True"

lemma dict_get_distinct: "distinct (dict_keys d) \<Longrightarrow> (k, v) \<in> set d \<Longrightarrow> dict_get d k = Some v"
  by (simp add: dict_get_def dict_keys_def)

datatype path_segment = SegKey string | SegIndex nat

datatype operation_kind = KindAdd | KindReplace | KindRemove

record state_operation =
  so_kind :: operation_kind
  so_path :: "path_segment list"
  so_value :: pyval

definition add_op :: "path_segment list \<Rightarrow> pyval \<Rightarrow> state_operation" where
  "add_op p v = \<lparr>so_kind = KindAdd, so_path = p, so_value = v\<rparr>"

definition replace_op :: "path_segment list \<Rightarrow> pyval \<Rightarrow> state_operation" where
  "replace_op p v = \<lparr>so_kind = KindReplace, so_path = p, so_value = v\<rparr>"

definition remove_op :: "path_segment list \<Rightarrow> state_operation" where
  "remove_op p = \<lparr>so_kind = KindRemove, so_path = p, so_value = PyNone\<rparr>"

subsection \<open>The difference of two values\<close>

definition removed_keys :: "(string \<times> pyval) list \<Rightarrow> (string \<times> pyval) list \<Rightarrow> string list" where
  "removed_keys d e = sort (filter (\<lambda>k. k \<notin> set (dict_keys e)) (dict_keys d))"

definition shared_keys :: "(string \<times> pyval) list \<Rightarrow> (string \<times> pyval) list \<Rightarrow> string list" where
  "shared_keys d e = sort (filter (\<lambda>k. k \<in> set (dict_keys e)) (dict_keys d))"

definition value_of :: "(string \<times> pyval) list \<Rightarrow> string \<Rightarrow> pyval" where
  "value_of d k = dict_get_default d k PyNone"

lemma value_of_smaller: "k \<in> set (shared_keys d e) \<Longrightarrow> size (value_of d k) < size (PyDict d)"
proof -
  assume "k \<in> set (shared_keys d e)"
  then obtain v where v: "dict_get d k = Some v"
    by (metis (no_types) dict_get_None_iff filter_is_subset not_None_eq set_sort shared_keys_def subsetD)
  have "(k, v) \<in> set d" using v by (rule dict_get_mem)
  then have "size v < size (PyDict d)"
    by (induction d) (auto simp: less_Suc_eq_le)
  then show ?thesis by (simp add: value_of_def dict_get_default_def v)
qed

function diff_state_value :: "path_segment list \<Rightarrow> pyval \<Rightarrow> pyval \<Rightarrow> state_operation list" where
  "diff_state_value path previous current =
     (if py_eq previous current then []
      else case (previous, current) of
        (PyDict d, PyDict e) \<Rightarrow>
          map (\<lambda>k. remove_op (path @ [SegKey k])) (removed_keys d e)
          @ map (\<lambda>k. add_op (path @ [SegKey k]) (value_of e k)) (removed_keys e d)
          @ concat (map (\<lambda>k. diff_state_value (path @ [SegKey k]) (value_of d k) (value_of e k)) (shared_keys d e))
      | (PyList xs, PyList ys) \<Rightarrow>
          if length xs \<le> length ys \<and> py_eq (PyList (take (length xs) ys)) (PyList xs)
          then map (\<lambda>i. add_op (path @ [SegIndex i]) (ys ! i)) [length xs..<length ys]
          else [replace_op path current]
      | _ \<Rightarrow> [replace_op path current])"
  by pat_completeness auto

termination
  by (relation "measure (\<lambda>(path, previous, current). size previous)") (auto dest: value_of_smaller)

declare diff_state_value.simps [simp del]

subsection \<open>Applying operations\<close>

fun child_at :: "pyval \<Rightarrow> path_segment \<Rightarrow> pyval res" where
  "child_at (PyDict d) (SegKey k) = dict_index d k"
| "child_at (PyList xs) (SegIndex n) = (if n < length xs then Inr (xs ! n) else Inl (IndexError ''list index out of range''))"
| "child_at (PyDict d) (SegIndex n) = Inl (KeyError (str_nat n))"
| "child_at _ _ = Inl (TypeError ''indices'')"

fun set_child :: "pyval \<Rightarrow> path_segment \<Rightarrow> pyval \<Rightarrow> pyval" where
  "set_child (PyDict d) (SegKey k) v = PyDict (dict_set k v d)"
| "set_child (PyList xs) (SegIndex n) v = PyList (xs[n := v])"
| "set_child p _ _ = p"

fun is_container :: "pyval \<Rightarrow> bool" where
  "is_container (PyDict _) = True"
| "is_container (PyList _) = True"
| "is_container _ = False"

text \<open>
  \<open>_apply_operation_to_parent\<close>. A key applied to a list goes through \<open>int\<close>, which is modelled on
  decimal text; an index applied to a dictionary would be a key that is not a string, which the
  state trees do not have.
\<close>

fun leaf_index :: "path_segment \<Rightarrow> nat res" where
  "leaf_index (SegIndex n) = Inr n"
| "leaf_index (SegKey s) = (if s \<noteq> [] \<and> list_all is_digit s then Inr (parse_nat s)
     else Inl (ValueError ''invalid literal for int()''))"

fun apply_to_parent :: "operation_kind \<Rightarrow> path_segment \<Rightarrow> pyval \<Rightarrow> pyval \<Rightarrow> pyval res" where
  "apply_to_parent KindRemove leaf v (PyList xs) = bindR (leaf_index leaf)
     (\<lambda>n. if n < length xs then Inr (PyList (take n xs @ drop (Suc n) xs)) else Inl (IndexError ''pop index out of range''))"
| "apply_to_parent KindAdd leaf v (PyList xs) = bindR (leaf_index leaf) (\<lambda>n. Inr (PyList (take n xs @ [v] @ drop n xs)))"
| "apply_to_parent KindReplace leaf v (PyList xs) = bindR (leaf_index leaf)
     (\<lambda>n. if n < length xs then Inr (PyList (xs[n := v])) else Inl (IndexError ''list assignment index out of range''))"
| "apply_to_parent KindRemove (SegKey k) v (PyDict d) =
     (if dict_get d k = None then Inl (KeyError k) else Inr (PyDict (dict_pop k d)))"
| "apply_to_parent KindAdd (SegKey k) v (PyDict d) = Inr (PyDict (dict_set k v d))"
| "apply_to_parent KindReplace (SegKey k) v (PyDict d) = Inr (PyDict (dict_set k v d))"
| "apply_to_parent _ _ _ _ = Inl (TypeError ''not a container'')"

text \<open>\<open>_copy_on_write_parent\<close> walks to the parent; every container on the way is replaced by its
  edited copy.\<close>

fun edit_below :: "path_segment list \<Rightarrow> (pyval \<Rightarrow> pyval res) \<Rightarrow> pyval \<Rightarrow> pyval res" where
  "edit_below [] f v = f v"
| "edit_below (s # ss) f v = bindR (child_at v s)
     (\<lambda>c. if is_container c then bindR (edit_below ss f c) (\<lambda>c'. Inr (set_child v s c'))
          else Inl (ValueError ''State operation traverses a non-container value''))"

definition apply_operation :: "pyval \<Rightarrow> state_operation \<Rightarrow> pyval res" where
  "apply_operation root op =
     (if so_path op = [] then
        (case so_kind op of
           KindRemove \<Rightarrow> Inr (PyDict [])
         | _ \<Rightarrow> (case so_value op of PyDict d \<Rightarrow> Inr (PyDict d)
                 | _ \<Rightarrow> Inl (ValueError ''Root state replacement must be a mapping.'')))
      else edit_below (butlast (so_path op)) (apply_to_parent (so_kind op) (last (so_path op)) (so_value op)) root)"

definition apply_state_operations :: "pyval \<Rightarrow> state_operation list \<Rightarrow> pyval res" where
  "apply_state_operations state ops = foldR apply_operation state ops"

section \<open>Differences are relative to their path\<close>

definition prefixed :: "path_segment list \<Rightarrow> state_operation \<Rightarrow> state_operation" where
  "prefixed p op = op\<lparr>so_path := p @ so_path op\<rparr>"

lemma prefixed_ops [simp]:
  "prefixed p (add_op q v) = add_op (p @ q) v" "prefixed p (replace_op q v) = replace_op (p @ q) v"
  "prefixed p (remove_op q) = remove_op (p @ q)"
  by (simp_all add: prefixed_def add_op_def replace_op_def remove_op_def)

lemma so_path_ops [simp]:
  "so_path (add_op q v) = q" "so_path (replace_op q v) = q" "so_path (remove_op q) = q"
  "so_path (prefixed p op) = p @ so_path op"
  by (simp_all add: prefixed_def add_op_def replace_op_def remove_op_def)

lemma diff_equal: "py_eq a b \<Longrightarrow> diff_state_value p a b = []"
  by (simp add: diff_state_value.simps)

lemma diff_dicts:
  "\<not> py_eq (PyDict d) (PyDict e) \<Longrightarrow> diff_state_value p (PyDict d) (PyDict e)
   = map (\<lambda>k. remove_op (p @ [SegKey k])) (removed_keys d e)
     @ map (\<lambda>k. add_op (p @ [SegKey k]) (value_of e k)) (removed_keys e d)
     @ concat (map (\<lambda>k. diff_state_value (p @ [SegKey k]) (value_of d k) (value_of e k)) (shared_keys d e))"
  by (simp add: diff_state_value.simps [of _ "PyDict d"])

definition list_extends :: "pyval \<Rightarrow> pyval \<Rightarrow> bool" where
  "list_extends a b \<longleftrightarrow> (case (a, b) of
     (PyList xs, PyList ys) \<Rightarrow> length xs \<le> length ys \<and> py_eq (PyList (take (length xs) ys)) (PyList xs) | _ \<Rightarrow> False)"

lemma diff_lists:
  "\<not> py_eq (PyList xs) (PyList ys) \<Longrightarrow> list_extends (PyList xs) (PyList ys) \<Longrightarrow>
   diff_state_value p (PyList xs) (PyList ys) = map (\<lambda>i. add_op (p @ [SegIndex i]) (ys ! i)) [length xs..<length ys]"
  by (simp add: diff_state_value.simps [of _ "PyList xs"] list_extends_def)

lemma diff_replaces:
  "\<not> py_eq a b \<Longrightarrow> \<not> list_extends a b \<Longrightarrow> \<not> (\<exists>d e. a = PyDict d \<and> b = PyDict e) \<Longrightarrow>
   diff_state_value p a b = [replace_op p b]"
  by (auto simp: diff_state_value.simps list_extends_def split: pyval.splits)

lemma diff_cases:
  obtains (equal) "py_eq a b"
  | (dicts) d e where "\<not> py_eq a b" "a = PyDict d" "b = PyDict e"
  | (lists) xs ys where "\<not> py_eq a b" "a = PyList xs" "b = PyList ys" "list_extends a b"
  | (replaced) "\<not> py_eq a b" "\<not> list_extends a b" "\<not> (\<exists>d e. a = PyDict d \<and> b = PyDict e)"
proof (cases "py_eq a b \<or> (\<exists>d e. a = PyDict d \<and> b = PyDict e)")
  case True
  then show ?thesis using equal dicts by blast
next
  case False
  then show ?thesis
    using replaced lists by (cases "list_extends a b") (auto simp: list_extends_def split: pyval.splits)
qed

lemma diff_prefixed: "diff_state_value (p @ q) a b = map (prefixed p) (diff_state_value q a b)"
proof (induction q a b rule: diff_state_value.induct)
  case (1 q a b)
  show ?case
  proof (cases a b rule: diff_cases)
    case (dicts d e)
    have eq: "map (\<lambda>k. diff_state_value (p @ q @ [SegKey k]) (value_of d k) (value_of e k)) (shared_keys d e)
        = map (\<lambda>k. map (prefixed p) (diff_state_value (q @ [SegKey k]) (value_of d k) (value_of e k))) (shared_keys d e)"
      using "1.IH" [OF dicts(1) _ dicts(2,3)] dicts(2,3) by simp
    show ?thesis
      using dicts(1) by (simp add: dicts(2,3) diff_dicts map_concat o_def) (rule arg_cong [OF eq])
  qed (simp_all add: diff_equal diff_lists diff_replaces o_def)
qed

section \<open>Applying a difference\<close>

lemma apply_ops_simps [simp]:
  "apply_state_operations v [] = Inr v"
  "apply_state_operations v (op # ops) = bindR (apply_operation v op) (\<lambda>w. apply_state_operations w ops)"
  "apply_state_operations v (ops @ ops') = bindR (apply_state_operations v ops) (\<lambda>w. apply_state_operations w ops')"
  by (simp_all add: apply_state_operations_def foldR_append)

lemma apply_key_ops [simp]:
  "apply_operation (PyDict d) (add_op [SegKey k] v) = Inr (PyDict (dict_set k v d))"
  "apply_operation (PyDict d) (replace_op [SegKey k] v) = Inr (PyDict (dict_set k v d))"
  "dict_get d k \<noteq> None \<Longrightarrow> apply_operation (PyDict d) (remove_op [SegKey k]) = Inr (PyDict (dict_pop k d))"
  "apply_operation (PyList xs) (add_op [SegIndex n] v) = Inr (PyList (take n xs @ [v] @ drop n xs))"
  by (simp_all add: apply_operation_def add_op_def replace_op_def remove_op_def)

lemma is_container_iff: "is_container v \<longleftrightarrow> (\<exists>d. v = PyDict d) \<or> (\<exists>xs. v = PyList xs)"
  by (cases v) auto

lemma apply_to_parent_container: "apply_to_parent kind leaf v c = Inr c' \<Longrightarrow> is_container c'"
  by (induction kind leaf v c rule: apply_to_parent.induct) (auto simp: bindR_eq_Inr split: if_splits)

lemma set_child_container: "is_container v \<Longrightarrow> is_container (set_child v s w)"
  by (induction v s w rule: set_child.induct) auto

lemma apply_operation_container:
  assumes "apply_operation c op = Inr c'" and "is_container c" and "so_path op \<noteq> []"
  shows "is_container c'"
proof (cases "butlast (so_path op)")
  case Nil
  with assms show ?thesis by (auto simp: apply_operation_def dest: apply_to_parent_container)
next
  case (Cons s ss)
  with assms show ?thesis
    by (auto simp: apply_operation_def bindR_eq_Inr intro!: set_child_container split: if_splits)
qed

lemma apply_prefixed_key:
  assumes "dict_get d k = Some c" and "is_container c" and "so_path op \<noteq> []"
  shows "apply_operation (PyDict d) (prefixed [SegKey k] op)
     = bindR (apply_operation c op) (\<lambda>c'. Inr (PyDict (dict_set k c' d)))"
  using assms
  by (simp add: apply_operation_def prefixed_def butlast_append dict_index_def)

lemma dict_set_same: "dict_get d k = Some v \<Longrightarrow> dict_set k v d = d"
  by (simp add: dict_get_def dict_set_def update_triv)

lemma dict_set_twice: "dict_set k v (dict_set k w d) = dict_set k v d"
  by (induction d) (auto simp: dict_set_def)

lemma apply_below_key:
  assumes "apply_state_operations c ops = Inr c'"
    and "is_container c" and "\<forall>op \<in> set ops. so_path op \<noteq> []" and "dict_get d k = Some c"
  shows "apply_state_operations (PyDict d) (map (prefixed [SegKey k]) ops) = Inr (PyDict (dict_set k c' d))"
  using assms
proof (induction ops arbitrary: c d)
  case Nil
  then show ?case by (simp add: dict_set_same)
next
  case (Cons op ops)
  then obtain c1 where c1: "apply_operation c op = Inr c1" "apply_state_operations c1 ops = Inr c'"
    by (auto simp: bindR_eq_Inr)
  have "is_container c1" using apply_operation_container [OF c1(1) Cons.prems(2)] Cons.prems(3) by simp
  from Cons.IH [OF c1(2) this, of "dict_set k c1 d"] Cons.prems(3)
  have "apply_state_operations (PyDict (dict_set k c1 d)) (map (prefixed [SegKey k]) ops) = Inr (PyDict (dict_set k c' d))"
    by (simp add: dict_set_twice)
  then show ?case using Cons.prems(2-4) c1(1) by (simp add: apply_prefixed_key)
qed

lemma apply_removes:
  assumes "distinct ks" and "set ks \<subseteq> set (dict_keys d)"
  shows "apply_state_operations (PyDict d) (map (\<lambda>k. remove_op [SegKey k]) ks)
    = Inr (PyDict (filter (\<lambda>(k, _). k \<notin> set ks) d))"
  using assms
proof (induction ks arbitrary: d)
  case Nil
  then show ?case by (simp add: case_prod_unfold)
next
  case (Cons k ks)
  have "dict_get d k \<noteq> None" using Cons.prems by (simp add: dict_get_None_iff)
  moreover have "set ks \<subseteq> set (dict_keys (dict_pop k d))"
    using Cons.prems by (auto simp: dict_keys_def dict_pop_def delete_keys)
  moreover have "filter (\<lambda>(j, _). j \<notin> set ks) (dict_pop k d) = filter (\<lambda>(j, _). j \<notin> set (k # ks)) d"
    by (induction d) (auto simp: dict_pop_def)
  ultimately show ?case using Cons.IH [of "dict_pop k d"] Cons.prems(1) by simp
qed

lemma apply_adds:
  "apply_state_operations (PyDict d) (map (\<lambda>k. add_op [SegKey k] (f k)) ks)
   = Inr (PyDict (foldl (\<lambda>d k. dict_set k (f k) d) d ks))"
  by (induction ks arbitrary: d) simp_all

lemma foldl_dict_set:
  "dict_get (foldl (\<lambda>d k. dict_set k (f k) d) d ks) j = (if j \<in> set ks then Some (f j) else dict_get d j)"
  "distinct (dict_keys d) \<Longrightarrow> distinct (dict_keys (foldl (\<lambda>d k. dict_set k (f k) d) d ks))"
  by (induction ks arbitrary: d) (auto simp: distinct_dict_set)

lemma apply_appends:
  "length zs \<le> length ys \<Longrightarrow>
   apply_state_operations (PyList zs) (map (\<lambda>i. add_op [SegIndex i] (ys ! i)) [length zs..<length ys])
     = Inr (PyList (zs @ drop (length zs) ys))"
proof (induction "length ys - length zs" arbitrary: zs)
  case 0
  then show ?case by simp
next
  case (Suc n)
  then have less: "length zs < length ys" by simp
  with Suc.hyps(1) [of "zs @ [ys ! length zs]"] Suc.hyps(2)
  show ?case by (simp add: upt_conv_Cons Cons_nth_drop_Suc)
qed

section \<open>The round trip\<close>

text \<open>What a difference is good for: it rebuilds \<open>b\<close> from \<open>a\<close>, up to Python's equality.\<close>

definition rebuilds :: "pyval \<Rightarrow> pyval \<Rightarrow> pyval \<Rightarrow> bool" where
  "rebuilds a b v \<longleftrightarrow> apply_state_operations a (diff_state_value [] a b) = Inr v \<and> wf_value v \<and> py_eq v b"

definition edits :: "pyval \<Rightarrow> pyval \<Rightarrow> bool" where
  "edits a b \<longleftrightarrow> diff_state_value [] a b = [replace_op [] b]
     \<or> (\<exists>v. rebuilds a b v) \<and> (diff_state_value [] a b = [] \<or> is_container a)
         \<and> (\<forall>op \<in> set (diff_state_value [] a b). so_path op \<noteq> [])"

text \<open>Below a key of a dictionary the difference replaces exactly that entry.\<close>

lemma edits_field:
  assumes "edits a b" and "wf_value b" and "dict_get d k = Some a"
  shows "\<exists>v. apply_state_operations (PyDict d) (diff_state_value [SegKey k] a b) = Inr (PyDict (dict_set k v d))
     \<and> wf_value v \<and> py_eq v b"
proof -
  have rel: "diff_state_value [SegKey k] a b = map (prefixed [SegKey k]) (diff_state_value [] a b)"
    using diff_prefixed [of "[SegKey k]" "[]" a b] by simp
  consider (replace) "diff_state_value [] a b = [replace_op [] b]"
    | (below) v where "rebuilds a b v" "diff_state_value [] a b = [] \<or> is_container a"
        "\<forall>op \<in> set (diff_state_value [] a b). so_path op \<noteq> []"
    using assms(1) unfolding edits_def by blast
  then show ?thesis
  proof cases
    case replace
    then show ?thesis using assms(2) by (auto simp: rel py_eq_refl intro!: exI [of _ b])
  next
    case (below v)
    show ?thesis
    proof (cases "diff_state_value [] a b = []")
      case True
      then have "diff_state_value [SegKey k] a b = []" by (simp only: rel list.map)
      moreover have "v = a" using below(1) True by (simp add: rebuilds_def)
      ultimately show ?thesis using below(1) assms(3) by (auto simp: rebuilds_def dict_set_same intro!: exI [of _ a])
    next
      case False
      then show ?thesis
        using apply_below_key [OF _ _ below(3) assms(3)] below(1,2) by (auto simp: rel rebuilds_def)
    qed
  qed
qed

lemma wf_dict_get: "wf_value (PyDict d) \<Longrightarrow> dict_get d k = Some v \<Longrightarrow> wf_value v"
  by (force dest: dict_get_mem)

lemma wf_dictI:
  assumes "distinct (dict_keys d)" and "\<And>k v. dict_get d k = Some v \<Longrightarrow> wf_value v"
  shows "wf_value (PyDict d)"
proof -
  have "wf_value v" if "(k, v) \<in> set d" for k v
    using assms(2) [of k v] dict_get_distinct [of d k v] assms(1) that by (simp add: dict_keys_def)
  then show ?thesis using assms(1) by (auto simp: dict_keys_def)
qed

text \<open>The entries that both dictionaries have, one after the other.\<close>

lemma shared_fields:
  assumes "\<And>k. k \<in> set ks \<Longrightarrow> edits (value_of d k) (value_of e k) \<and> wf_value (value_of e k)"
    and "distinct ks" and "\<And>k. k \<in> set ks \<Longrightarrow> dict_get d0 k = Some (value_of d k)" and "distinct (dict_keys d0)"
  shows "\<exists>d1. apply_state_operations (PyDict d0)
        (concat (map (\<lambda>k. diff_state_value [SegKey k] (value_of d k) (value_of e k)) ks)) = Inr (PyDict d1)
     \<and> distinct (dict_keys d1) \<and> set (dict_keys d1) = set (dict_keys d0)
     \<and> (\<forall>j. if j \<in> set ks then \<exists>v. dict_get d1 j = Some v \<and> wf_value v \<and> py_eq v (value_of e j)
            else dict_get d1 j = dict_get d0 j)"
  using assms
proof (induction ks arbitrary: d0)
  case Nil
  then show ?case by auto
next
  case (Cons k ks)
  obtain v where v: "apply_state_operations (PyDict d0) (diff_state_value [SegKey k] (value_of d k) (value_of e k))
      = Inr (PyDict (dict_set k v d0))" "wf_value v" "py_eq v (value_of e k)"
    using edits_field [of "value_of d k" "value_of e k" d0 k] Cons.prems(1,3) by auto
  have "k \<in> set (dict_keys d0)" using Cons.prems(3) [of k] by (auto dest: dict_get_in_keys)
  then have keys: "set (dict_keys (dict_set k v d0)) = set (dict_keys d0)" by (auto simp: dict_keys_set)
  obtain d1 where d1: "apply_state_operations (PyDict (dict_set k v d0))
        (concat (map (\<lambda>k. diff_state_value [SegKey k] (value_of d k) (value_of e k)) ks)) = Inr (PyDict d1)"
      "distinct (dict_keys d1)" "set (dict_keys d1) = set (dict_keys (dict_set k v d0))"
      "\<forall>j. if j \<in> set ks then \<exists>v. dict_get d1 j = Some v \<and> wf_value v \<and> py_eq v (value_of e j)
            else dict_get d1 j = dict_get (dict_set k v d0) j"
    using Cons.IH [of "dict_set k v d0"] Cons.prems distinct_dict_set by fastforce
  show ?case
  proof (intro exI [of _ d1] conjI allI)
    fix j
    show "if j \<in> set (k # ks) then \<exists>v. dict_get d1 j = Some v \<and> wf_value v \<and> py_eq v (value_of e j)
        else dict_get d1 j = dict_get d0 j"
      using d1(4) [rule_format, of j] v(2,3) Cons.prems(2) by (auto split: if_splits)
  qed (use v(1) d1 keys in simp_all)
qed

lemma value_of_get: "dict_get d k = Some v \<Longrightarrow> value_of d k = v"
  by (simp add: value_of_def dict_get_default_def)

lemma value_of_Some: "k \<in> set (dict_keys d) \<Longrightarrow> dict_get d k = Some (value_of d k)"
  by (cases "dict_get d k") (simp_all add: value_of_get dict_get_None_iff)

lemma key_lists:
  "set (removed_keys d e) = set (dict_keys d) - set (dict_keys e)"
  "set (shared_keys d e) = set (dict_keys d) \<inter> set (dict_keys e)"
  "distinct (dict_keys d) \<Longrightarrow> distinct (removed_keys d e)"
  "distinct (dict_keys d) \<Longrightarrow> distinct (shared_keys d e)"
  by (auto simp: removed_keys_def shared_keys_def)

lemma dict_get_filter: "dict_get (filter (\<lambda>(k, _). k \<notin> A) d) k = (if k \<in> A then None else dict_get d k)"
  by (induction d) (auto simp: dict_get_def)

text \<open>A dictionary that has an equal entry for every key of \<open>e\<close> and no other key.\<close>

lemma entries_rebuilt:
  assumes "distinct (dict_keys d)"
    and entry: "\<And>k. if k \<in> set (dict_keys e) then \<exists>v. dict_get d k = Some v \<and> wf_value v \<and> py_eq v (value_of e k)
      else dict_get d k = None"
  shows "wf_value (PyDict d) \<and> py_eq (PyDict d) (PyDict e)"
proof
  show "wf_value (PyDict d)"
  proof (rule wf_dictI [OF assms(1)])
    fix k v assume "dict_get d k = Some v"
    then show "wf_value v" using entry [of k] by (auto split: if_splits)
  qed
  show "py_eq (PyDict d) (PyDict e)"
    unfolding py_eq_dict_iff
  proof (rule allI)
    fix k
    show "case dict_get e k of None \<Rightarrow> dict_get d k = None | Some w \<Rightarrow> \<exists>v. dict_get d k = Some v \<and> py_eq v w"
    proof (cases "k \<in> set (dict_keys e)")
      case True
      then show ?thesis using entry [of k] by (auto simp: value_of_Some)
    next
      case False
      then have "dict_get e k = None" by (simp add: dict_get_None_iff)
      then show ?thesis using entry [of k] False by simp
    qed
  qed
qed

lemma dict_rebuilt:
  assumes "wf_value (PyDict d)" and "wf_value (PyDict e)" and "\<not> py_eq (PyDict d) (PyDict e)"
    and "\<And>k. k \<in> set (shared_keys d e) \<Longrightarrow> edits (value_of d k) (value_of e k)"
  shows "\<exists>v. rebuilds (PyDict d) (PyDict e) v"
proof -
  have dist: "distinct (dict_keys d)" "distinct (dict_keys e)" using assms(1,2) by (simp_all add: dict_keys_def)
  let ?d1 = "filter (\<lambda>(k, _). k \<notin> set (removed_keys d e)) d"
  let ?d2 = "foldl (\<lambda>d k. dict_set k (value_of e k) d) ?d1 (removed_keys e d)"
  have d1: "apply_state_operations (PyDict d) (map (\<lambda>k. remove_op [SegKey k]) (removed_keys d e)) = Inr (PyDict ?d1)"
    by (rule apply_removes) (use dist in \<open>auto simp: key_lists\<close>)
  have get1: "dict_get ?d1 k = (if k \<in> set (removed_keys d e) then None else dict_get d k)" for k
    by (rule dict_get_filter)
  have "dict_keys ?d1 = filter (\<lambda>k. k \<notin> set (removed_keys d e)) (dict_keys d)"
    by (simp add: dict_keys_def filter_map o_def case_prod_unfold)
  then have dist2: "distinct (dict_keys ?d2)" using dist(1) by (intro foldl_dict_set(2)) simp
  have get2: "dict_get ?d2 k = (if k \<in> set (removed_keys e d) then Some (value_of e k)
      else if k \<in> set (removed_keys d e) then None else dict_get d k)" for k
    by (simp only: foldl_dict_set(1) get1)
  have wf_e: "wf_value (value_of e k)" if "k \<in> set (dict_keys e)" for k
    using wf_dict_get [OF assms(2) value_of_Some [OF that]] .
  let ?shared = "concat (map (\<lambda>k. diff_state_value [SegKey k] (value_of d k) (value_of e k)) (shared_keys d e))"
  have "\<exists>d3. apply_state_operations (PyDict ?d2) ?shared = Inr (PyDict d3)
      \<and> distinct (dict_keys d3) \<and> set (dict_keys d3) = set (dict_keys ?d2)
      \<and> (\<forall>j. if j \<in> set (shared_keys d e) then \<exists>v. dict_get d3 j = Some v \<and> wf_value v \<and> py_eq v (value_of e j)
            else dict_get d3 j = dict_get ?d2 j)"
  proof (rule shared_fields [OF _ key_lists(4) [OF dist(1)] _ dist2])
    fix k assume "k \<in> set (shared_keys d e)"
    then have k: "k \<in> set (dict_keys d)" "k \<in> set (dict_keys e)" by (simp_all add: key_lists)
    show "edits (value_of d k) (value_of e k) \<and> wf_value (value_of e k)"
      using assms(4) \<open>k \<in> set (shared_keys d e)\<close> wf_e [OF k(2)] by blast
    show "dict_get ?d2 k = Some (value_of d k)"
      unfolding get2 using k by (simp add: key_lists value_of_Some)
  qed
  then obtain d3 where d3: "apply_state_operations (PyDict ?d2) ?shared = Inr (PyDict d3)"
      "distinct (dict_keys d3)"
      "\<forall>j. if j \<in> set (shared_keys d e) then \<exists>v. dict_get d3 j = Some v \<and> wf_value v \<and> py_eq v (value_of e j)
            else dict_get d3 j = dict_get ?d2 j"
    by blast
  have entry: "if j \<in> set (dict_keys e) then \<exists>v. dict_get d3 j = Some v \<and> wf_value v \<and> py_eq v (value_of e j)
      else dict_get d3 j = None" for j
    using d3(3) [rule_format, of j] wf_e [of j] py_eq_refl [of "value_of e j"] unfolding get2
    by (auto simp: key_lists dict_get_None_iff split: if_splits)
  then have "wf_value (PyDict d3) \<and> py_eq (PyDict d3) (PyDict e)" by (rule entries_rebuilt [OF d3(2)])
  then show ?thesis
    unfolding rebuilds_def using d1 apply_adds d3(1) assms(3) by (auto simp: diff_dicts)
qed

lemma diff_edits: "wf_value a \<Longrightarrow> wf_value b \<Longrightarrow> edits a b"
proof (induction "size a" arbitrary: a b rule: less_induct)
  case less
  show ?case
  proof (cases a b rule: diff_cases)
    case equal
    then show ?thesis using less.prems(1) by (auto simp: edits_def rebuilds_def diff_equal)
  next
    case (dicts d e)
    have "edits (value_of d k) (value_of e k)" if k: "k \<in> set (shared_keys d e)" for k
    proof (rule less.hyps)
      show "size (value_of d k) < size a" using value_of_smaller [OF k] dicts(2) by simp
      have keys: "k \<in> set (dict_keys d)" "k \<in> set (dict_keys e)" using k by (simp_all add: key_lists)
      show "wf_value (value_of d k)"
        using less.prems(1) unfolding dicts(2) by (rule wf_dict_get) (rule value_of_Some [OF keys(1)])
      show "wf_value (value_of e k)"
        using less.prems(2) unfolding dicts(3) by (rule wf_dict_get) (rule value_of_Some [OF keys(2)])
    qed
    then have "\<exists>v. rebuilds a b v" using dict_rebuilt less.prems dicts by blast
    moreover have "\<forall>op \<in> set (diff_state_value [] a b). so_path op \<noteq> []"
    proof -
      have "so_path op \<noteq> []" if "op \<in> set (diff_state_value [SegKey k] x y)" for op k x y
        using that diff_prefixed [of "[SegKey k]" "[]" x y] by auto
      then show ?thesis using dicts by (auto simp: diff_dicts)
    qed
    ultimately show ?thesis using dicts by (simp add: edits_def)
  next
    case (lists xs ys)
    then have le: "length xs \<le> length ys" and eq: "list_all2 py_eq (take (length xs) ys) xs"
      by (auto simp: list_extends_def py_eq_list_iff)
    have wf: "\<forall>x \<in> set xs. wf_value x" "\<forall>y \<in> set ys. wf_value y" using less.prems lists by simp_all
    have "list_all2 py_eq xs (take (length xs) ys)"
      unfolding list_all2_conv_all_nth
    proof (intro conjI allI impI)
      fix i assume i: "i < length xs"
      then have "py_eq (take (length xs) ys ! i) (xs ! i)" using list_all2_nthD2 [OF eq] by simp
      then show "py_eq (xs ! i) (take (length xs) ys ! i)"
        by (rule py_eq_sym)
    qed (simp add: le)
    moreover have "list_all2 py_eq (drop (length xs) ys) (drop (length xs) ys)"
      by (simp add: list.rel_refl_strong)
    ultimately have "list_all2 py_eq (xs @ drop (length xs) ys) (take (length xs) ys @ drop (length xs) ys)"
      by (rule list_all2_appendI)
    then have "rebuilds a b (PyList (xs @ drop (length xs) ys))"
      using lists(1,4) le wf unfolding lists(2,3)
      by (auto simp: rebuilds_def diff_lists apply_appends py_eq_list_iff dest: in_set_dropD)
    then show ?thesis using lists by (auto simp: edits_def diff_lists)
  next
    case replaced
    then show ?thesis by (simp add: edits_def diff_replaces)
  qed
qed

end
