(* ===== verification/Snapshots.thy ===== *)
theory Snapshots
  imports State_Trees
begin

text \<open>
  Sessions (\<open>core/runtime/session.py\<close>) and the images of a running invocation
  (\<open>core/runtime/snapshot.py\<close>): capturing and restoring the state tree of a session and one of
  its invocations, the state operations one event carries, and the reduction of a snapshot and
  its events to the current state. Timestamps are not part of the records.
\<close>

section \<open>Sessions\<close>

text \<open>
  The model of an invocation does not carry its workflow revision; the method that compares it
  with the session's takes it as an argument.
\<close>

record session =
  ss_id :: uuid
  ss_workflow_id :: string
  ss_revision_id :: string
  ss_key :: "string option"
  ss_context :: runtime_context
  ss_invocations :: "invocation list"
  ss_current :: "uuid option"

definition session_get_invocation :: "uuid \<Rightarrow> session \<Rightarrow> invocation option" where
  "session_get_invocation u s = List.find (\<lambda>i. inv_id i = u) (ss_invocations s)"

definition session_current_invocation :: "session \<Rightarrow> invocation option" where
  "session_current_invocation s =
     (case ss_current s of None \<Rightarrow> None | Some u \<Rightarrow> session_get_invocation u s)"

definition session_add_invocation :: "string \<Rightarrow> invocation \<Rightarrow> session \<Rightarrow> session res" where
  "session_add_invocation revision i s =
     (if revision \<noteq> ss_revision_id s
      then Inl (ValueError ''Invocation workflow_revision_id does not match this session.'')
      else Inr (s\<lparr>ss_invocations := ss_invocations s @ (if session_get_invocation (inv_id i) s = None then [i] else []),
                  ss_current := Some (inv_id i)\<rparr>))"

definition session_to_record :: "session \<Rightarrow> pyval" where
  "session_to_record s = PyDict [(''id'', enc_uuid (ss_id s)), (''workflow_id'', PyStr (ss_workflow_id s)),
     (''workflow_revision_id'', PyStr (ss_revision_id s)), (''session_key'', enc_opt PyStr (ss_key s)),
     (''context'', runtime_context_to_record (ss_context s)),
     (''current_invocation_id'', enc_opt enc_uuid (ss_current s))]"

definition session_from_record :: "invocation list \<Rightarrow> pyval \<Rightarrow> session res" where
  "session_from_record invocations r =
     bindR (bindR (rec_get_default r ''current_invocation_id'' PyNone) (dec_opt dec_uuid)) (\<lambda>current.
     bindR (bindR (rec_get r ''id'') dec_uuid) (\<lambda>u.
     bindR (bindR (rec_get r ''workflow_id'') as_str) (\<lambda>w.
     bindR (bindR (rec_get r ''workflow_revision_id'') as_str) (\<lambda>v.
     bindR (bindR (rec_get_default r ''session_key'' PyNone) (dec_opt as_str)) (\<lambda>k.
     bindR (bindR (rec_get_default r ''context'' (PyDict [])) runtime_context_from_record) (\<lambda>c.
       Inr \<lparr>ss_id = u, ss_workflow_id = w, ss_revision_id = v, ss_key = k, ss_context = c,
            ss_invocations = invocations, ss_current = current\<rparr>))))))"

lemma session_round_trip:
  "session_from_record (ss_invocations s) (session_to_record s) = Inr s"
  by (simp add: session_from_record_def session_to_record_def record_defs uuid.round_trip
      uuid.option_round_trip str.option_round_trip runtime_context.round_trip)

section \<open>Images of the state\<close>

definition state_tree :: "session \<Rightarrow> invocation \<Rightarrow> (pyval \<Rightarrow> pyval) \<Rightarrow> pyval" where
  "state_tree s i compact = PyDict [(''session'', session_to_record s),
     (''invocation'', invocation_to_record (ss_id s) i),
     (''node_executions'', PyList (map (\<lambda>n. compact (execution_to_record (inv_id i) n)) (inv_node_executions i)))]"

definition capture_execution_state :: "session \<Rightarrow> invocation \<Rightarrow> pyval" where
  "capture_execution_state s i = state_tree s i (\<lambda>r. r)"

definition compact_operator_call :: "pyval \<Rightarrow> pyval" where
  "compact_operator_call c = (case c of PyDict d \<Rightarrow> PyDict (dict_pop ''output'' (dict_pop ''input'' d)) | _ \<Rightarrow> c)"

definition compact_node_execution_record :: "pyval \<Rightarrow> pyval" where
  "compact_node_execution_record r =
     (case r of
        PyDict d \<Rightarrow>
          (let d1 = dict_set ''input'' PyNone d in
           case dict_get d1 ''operator_executions'' of
             Some (PyList calls) \<Rightarrow> PyDict (dict_set ''operator_executions'' (PyList (map compact_operator_call calls)) d1)
           | _ \<Rightarrow> PyDict d1)
      | _ \<Rightarrow> r)"

definition capture_recovery_state :: "session \<Rightarrow> invocation \<Rightarrow> pyval" where
  "capture_recovery_state s i = state_tree s i compact_node_execution_record"

definition compact_recovery_state :: "pyval \<Rightarrow> pyval res" where
  "compact_recovery_state state =
     bindR (bindR (rec_get state ''node_executions'') as_list)
       (\<lambda>ns. Inr (set_child state (SegKey ''node_executions'') (PyList (map compact_node_execution_record ns))))"

lemma compact_recovery_state_capture:
  "compact_recovery_state (capture_execution_state s i) = Inr (capture_recovery_state s i)"
  by (simp add: compact_recovery_state_def capture_execution_state_def capture_recovery_state_def
      state_tree_def record_defs dict_set_def o_def)

definition restore_execution_state :: "int \<Rightarrow> pyval \<Rightarrow> (session \<times> invocation) res" where
  "restore_execution_state now state =
     bindR (bindR (rec_get_default state ''node_executions'' (PyList [])) as_list) (\<lambda>ns.
     bindR (mapR (execution_from_record now) ns) (\<lambda>executions.
     bindR (bindR (rec_get state ''invocation'') (\<lambda>r. invocation_from_record r executions)) (\<lambda>i.
     bindR (bindR (rec_get state ''session'') (session_from_record [i])) (\<lambda>s. Inr (s, i)))))"

text \<open>The image taken and read back: the session holds this invocation only.\<close>

lemma capture_restore:
  assumes "finite_cursor (inv_scheduler i)" and "\<forall>n \<in> set (inv_node_executions i). operators_started n"
  shows "restore_execution_state now (capture_execution_state s i)
    = (let i' = i\<lparr>inv_output_index := index_of (inv_node_executions i)\<rparr> in Inr (s\<lparr>ss_invocations := [i']\<rparr>, i'))"
proof -
  have "mapR (execution_from_record now) (map (execution_to_record (inv_id i)) (inv_node_executions i))
      = Inr (inv_node_executions i)"
    using assms(2) by (simp add: execution.mapR_round_trip list_all_iff)
  moreover have "session_from_record [i'] (session_to_record s) = Inr (s\<lparr>ss_invocations := [i']\<rparr>)" for i'
    using session_round_trip [of "s\<lparr>ss_invocations := [i']\<rparr>"] by (simp add: session_to_record_def)
  ultimately show ?thesis
    using invocation_round_trip_fields [OF assms(1), of "ss_id s"]
    by (simp add: restore_execution_state_def capture_execution_state_def state_tree_def record_defs Let_def)
qed

text \<open>The image the runtime keeps of an invocation: Standard mode leaves out the intermediate values.\<close>

definition runtime_image :: "session \<Rightarrow> invocation \<Rightarrow> pyval" where
  "runtime_image s i =
     (if inv_event_mode i = EvStandard then capture_recovery_state s i else capture_execution_state s i)"

record execution_snapshot =
  es_invocation :: uuid
  es_through :: nat
  es_state :: pyval

definition capture_snapshot :: "session \<Rightarrow> invocation \<Rightarrow> nat option \<Rightarrow> execution_snapshot" where
  "capture_snapshot s i through =
     \<lparr>es_invocation = inv_id i,
      es_through = (case through of None \<Rightarrow> inv_event_sequence i | Some k \<Rightarrow> k),
      es_state = runtime_image s i\<rparr>"

definition restore_snapshot :: "int \<Rightarrow> execution_snapshot \<Rightarrow> (session \<times> invocation) res" where
  "restore_snapshot now x = restore_execution_state now (es_state x)"

section \<open>The operations of an event\<close>

definition mutable_session_fields :: "string list" where
  "mutable_session_fields = [''context'', ''current_invocation_id'', ''updated_at_ms'']"

definition mutable_invocation_fields :: "string list" where
  "mutable_invocation_fields = [''state'', ''execution_mode'', ''event_sequence'', ''context'', ''result'',
     ''scheduler'', ''error'', ''deferred_error'', ''deferred_terminal_state'', ''updated_at_ms'']"

definition mutable_node_execution_fields :: "string list" where
  "mutable_node_execution_fields = [''state'', ''input'', ''output'', ''error'', ''idempotency_key'',
     ''recovery_of_execution_id'', ''recovery_attempt'', ''incoming_activations'', ''execution_scope'',
     ''operator_executions'', ''edge_evaluations'', ''resource_usage'', ''started_at_ms'', ''ended_at_ms'',
     ''updated_at_ms'']"

text \<open>\<open>previous.get(field)\<close> and \<open>current.get(field)\<close>, compared field by field.\<close>

definition replace_changed_fields ::
  "path_segment list \<Rightarrow> (string \<times> pyval) list \<Rightarrow> (string \<times> pyval) list \<Rightarrow> string list \<Rightarrow> state_operation list"
where
  "replace_changed_fields section previous current names =
     concat (map (\<lambda>f. diff_state_value (section @ [SegKey f]) (value_of previous f) (value_of current f)) names)"

text \<open>The state of the loop over the changed executions: what was recorded so far, by position.\<close>

record execution_delta =
  dl_operations :: "state_operation list"
  dl_executions :: "pyval list"
  dl_seen :: "uuid list"

definition record_id :: "pyval \<Rightarrow> string res" where
  "record_id r = bindR (rec_get r ''id'') as_str"

text \<open>The dictionary of positions keeps the last of equal identifiers.\<close>

definition position_of :: "pyval list \<Rightarrow> uuid \<Rightarrow> nat option" where
  "position_of ns u =
     List.find (\<lambda>k. record_id (ns ! k) = Inr (uuid_str u)) (rev [0..<length ns])"

definition execution_step ::
  "(pyval \<Rightarrow> pyval) \<Rightarrow> invocation \<Rightarrow> execution_delta \<Rightarrow> uuid \<Rightarrow> execution_delta res" where
  "execution_step compact i s u =
     (if u \<in> set (dl_seen s) then Inr s
      else case get_node_execution u i of
        None \<Rightarrow> Inl (KeyError (''Event references unknown NodeExecution: '' @ uuid_str u))
      | Some n \<Rightarrow>
          (let r = compact (execution_to_record (inv_id i) n); ns = dl_executions s;
               s1 = s\<lparr>dl_seen := dl_seen s @ [u]\<rparr>
           in case position_of ns u of
                None \<Rightarrow> Inr (s1\<lparr>dl_operations := dl_operations s
                    @ [add_op [SegKey ''node_executions'', SegIndex (length ns)] r], dl_executions := ns @ [r]\<rparr>)
              | Some k \<Rightarrow>
                  if py_eq (ns ! k) r then Inr s1
                  else bindR (as_dict (ns ! k)) (\<lambda>d. bindR (as_dict r) (\<lambda>e.
                    Inr (s1\<lparr>dl_operations := dl_operations s
                      @ replace_changed_fields [SegKey ''node_executions'', SegIndex k] d e mutable_node_execution_fields\<rparr>)))))"

definition build_operations ::
  "(pyval \<Rightarrow> pyval) \<Rightarrow> pyval \<Rightarrow> session \<Rightarrow> invocation \<Rightarrow> uuid list \<Rightarrow> state_operation list res" where
  "build_operations compact previous s i ids =
     bindR (bindR (rec_get previous ''session'') as_dict) (\<lambda>ps.
     bindR (as_dict (session_to_record s)) (\<lambda>cs.
     bindR (bindR (rec_get previous ''invocation'') as_dict) (\<lambda>pi.
     bindR (as_dict (invocation_to_record (ss_id s) i)) (\<lambda>ci.
     bindR (bindR (rec_get_default previous ''node_executions'' (PyList [])) as_list) (\<lambda>ns.
     bindR (mapR record_id ns) (\<lambda>_.
     bindR (foldR (execution_step compact i)
         \<lparr>dl_operations = replace_changed_fields [SegKey ''session''] ps cs mutable_session_fields
             @ replace_changed_fields [SegKey ''invocation''] pi ci mutable_invocation_fields,
          dl_executions = ns, dl_seen = []\<rparr> ids)
       (\<lambda>out. Inr (dl_operations out))))))))"

definition build_state_operations ::
  "pyval \<Rightarrow> session \<Rightarrow> invocation \<Rightarrow> uuid list \<Rightarrow> state_operation list res" where
  "build_state_operations = build_operations (\<lambda>r. r)"

definition build_recovery_state_operations ::
  "pyval \<Rightarrow> session \<Rightarrow> invocation \<Rightarrow> uuid list \<Rightarrow> state_operation list res" where
  "build_recovery_state_operations = build_operations compact_node_execution_record"

text \<open>
  The step of the reduced state when an event is recorded: the operations built from the previous
  state, which a Full event carries, applied to it.
\<close>

definition recorded_operations ::
  "pyval \<Rightarrow> session \<Rightarrow> invocation \<Rightarrow> uuid list \<Rightarrow> (state_operation list \<times> pyval) res" where
  "recorded_operations previous s i ids =
     bindR (if inv_event_mode i = EvStandard then build_recovery_state_operations previous s i ids
            else build_state_operations previous s i ids) (\<lambda>ops.
     bindR (apply_state_operations previous ops) (\<lambda>reduced. Inr (ops, reduced)))"

section \<open>Reducing a journal\<close>

text \<open>The fields of an event that the reduction reads.\<close>

record journal_event =
  je_invocation :: uuid
  je_sequence :: nat
  je_operations :: "state_operation list option"

fun reduce_events ::
  "uuid \<Rightarrow> nat option \<Rightarrow> nat \<Rightarrow> pyval \<Rightarrow> journal_event list \<Rightarrow> pyval res" where
  "reduce_events u through cursor state [] = Inr state"
| "reduce_events u through cursor state (e # es) =
     (if je_sequence e \<le> cursor then reduce_events u through cursor state es
      else if (case through of None \<Rightarrow> False | Some k \<Rightarrow> k < je_sequence e) then Inr state
      else if je_sequence e \<noteq> cursor + 1
        then Inl (ValueError (''RuntimeEvent journal is not contiguous: expected sequence '' @ str_nat (cursor + 1)
               @ '', got '' @ str_nat (je_sequence e) @ ''.''))
      else if je_invocation e \<noteq> u then Inl (ValueError ''RuntimeEvent invocation does not match ExecutionSnapshot.'')
      else case je_operations e of
          None \<Rightarrow> Inl (ValueError (''Full RuntimeEvent '' @ str_nat (je_sequence e) @ '' has no state operations.''))
        | Some ops \<Rightarrow> bindR (apply_state_operations state ops)
            (\<lambda>state'. reduce_events u through (je_sequence e) state' es))"

text \<open>The events of successive states, each recorded against the reduced state of its predecessor.\<close>

fun record_steps ::
  "pyval \<Rightarrow> (session \<times> invocation \<times> uuid list) list \<Rightarrow> (journal_event list \<times> pyval) res" where
  "record_steps state [] = Inr ([], state)"
| "record_steps state ((s, i, ids) # steps) =
     bindR (recorded_operations state s i ids) (\<lambda>(ops, reduced).
     bindR (record_steps reduced steps) (\<lambda>(events, final).
       Inr (\<lparr>je_invocation = inv_id i, je_sequence = inv_event_sequence i, je_operations = Some ops\<rparr> # events, final)))"

definition reduced_state_tree :: "execution_snapshot \<Rightarrow> journal_event list \<Rightarrow> nat option \<Rightarrow> pyval res" where
  "reduced_state_tree x events through =
     reduce_events (es_invocation x) through (es_through x) (es_state x) (sort_key je_sequence events)"

definition reduce_execution_state ::
  "int \<Rightarrow> execution_snapshot \<Rightarrow> journal_event list \<Rightarrow> nat option \<Rightarrow> (session \<times> invocation) res" where
  "reduce_execution_state now x events through =
     bindR (reduced_state_tree x events through) (restore_execution_state now)"

end
