(* ===== verification/State_Deltas.thy ===== *)
theory State_Deltas
  imports Snapshots
begin

text \<open>
  Why an event may carry differences instead of a state. The operations built from the previous
  tree rebuild the image of the current state, up to Python's equality, as long as the current
  state differs from the previous one where an event is allowed to change it; so a journal of
  such events, replayed from its snapshot, ends in the image of the last state.
\<close>

section \<open>Edits below an element of a list\<close>

lemma apply_prefixed_index:
  assumes "n < length xs" and "is_container (xs ! n)" and "so_path op \<noteq> []"
  shows "apply_operation (PyList xs) (prefixed [SegIndex n] op)
     = bindR (apply_operation (xs ! n) op) (\<lambda>c. Inr (PyList (xs[n := c])))"
  using assms by (simp add: apply_operation_def prefixed_def butlast_append)

lemma apply_below_index:
  assumes "apply_state_operations (xs ! n) ops = Inr c"
    and "is_container (xs ! n)" and "\<forall>op \<in> set ops. so_path op \<noteq> []" and "n < length xs"
  shows "apply_state_operations (PyList xs) (map (prefixed [SegIndex n]) ops) = Inr (PyList (xs[n := c]))"
  using assms
proof (induction ops arbitrary: xs)
  case Nil
  then show ?case by auto
next
  case (Cons op ops)
  then obtain c1 where c1: "apply_operation (xs ! n) op = Inr c1" "apply_state_operations c1 ops = Inr c"
    by (auto simp: bindR_eq_Inr)
  have "is_container c1" using apply_operation_container [OF c1(1) Cons.prems(2)] Cons.prems(3) by simp
  with Cons.IH [of "xs[n := c1]"] c1 Cons.prems
  have "apply_state_operations (PyList (xs[n := c1])) (map (prefixed [SegIndex n]) ops) = Inr (PyList (xs[n := c]))"
    by simp
  then show ?case using Cons.prems(2-4) c1(1) by (simp add: apply_prefixed_index)
qed

section \<open>The fields of a record\<close>

lemma replace_prefixed:
  "replace_changed_fields (p @ q) d e names = map (prefixed p) (replace_changed_fields q d e names)"
proof -
  have "diff_state_value (p @ q @ [SegKey f]) a b = map (prefixed p) (diff_state_value (q @ [SegKey f]) a b)"
    for f a b using diff_prefixed [of p "q @ [SegKey f]" a b] by simp
  then show ?thesis by (simp add: replace_changed_fields_def map_concat o_def)
qed

lemma replace_paths: "op \<in> set (replace_changed_fields p d e names) \<Longrightarrow> so_path op \<noteq> []"
  unfolding replace_changed_fields_def using diff_prefixed [of "p @ [SegKey f]" "[]" for f] by auto

text \<open>The fields that may change are brought up to date; the others were equal before.\<close>

lemma fields_replaced:
  assumes wf: "wf_value (PyDict d)" "wf_value (PyDict e)" and "distinct names"
    and keys: "set (dict_keys d) = set (dict_keys e)"
    and kept: "\<And>k. k \<in> set (dict_keys e) \<Longrightarrow> k \<notin> set names \<Longrightarrow> py_eq (value_of d k) (value_of e k)"
  shows "\<exists>d'. apply_state_operations (PyDict d) (replace_changed_fields [] d e names) = Inr (PyDict d')
     \<and> wf_value (PyDict d') \<and> py_eq (PyDict d') (PyDict e)"
proof -
  let ?ks = "filter (\<lambda>k. k \<in> set (dict_keys e)) names"
  have none: "diff_state_value [SegKey k] (value_of d k) (value_of e k) = []" if "k \<notin> set (dict_keys e)" for k
  proof -
    have "dict_get d k = None" "dict_get e k = None" using that keys by (simp_all add: dict_get_None_iff)
    then show ?thesis by (simp add: value_of_def dict_get_default_def diff_equal)
  qed
  have ops: "replace_changed_fields [] d e names
      = concat (map (\<lambda>k. diff_state_value [SegKey k] (value_of d k) (value_of e k)) ?ks)"
    unfolding replace_changed_fields_def append.left_neutral
    by (induction names) (simp_all add: none)
  have wf_of: "wf_value (value_of d k)" "wf_value (value_of e k)" if "k \<in> set (dict_keys e)" for k
    using that keys wf_dict_get [OF wf(1) value_of_Some] wf_dict_get [OF wf(2) value_of_Some] by auto
  have dist: "distinct (dict_keys d)" using wf(1) by (simp add: dict_keys_def)
  have "\<exists>d1. apply_state_operations (PyDict d)
        (concat (map (\<lambda>k. diff_state_value [SegKey k] (value_of d k) (value_of e k)) ?ks)) = Inr (PyDict d1)
     \<and> distinct (dict_keys d1) \<and> set (dict_keys d1) = set (dict_keys d)
     \<and> (\<forall>j. if j \<in> set ?ks then \<exists>v. dict_get d1 j = Some v \<and> wf_value v \<and> py_eq v (value_of e j)
            else dict_get d1 j = dict_get d j)"
    by (rule shared_fields [OF _ _ _ dist])
      (use assms(3) keys wf_of diff_edits in \<open>auto intro: value_of_Some\<close>)
  then obtain d1 where d1: "apply_state_operations (PyDict d) (replace_changed_fields [] d e names) = Inr (PyDict d1)"
      "distinct (dict_keys d1)" "set (dict_keys d1) = set (dict_keys e)"
      "\<And>j. if j \<in> set ?ks then \<exists>v. dict_get d1 j = Some v \<and> wf_value v \<and> py_eq v (value_of e j)
            else dict_get d1 j = dict_get d j"
    unfolding ops using keys by blast
  have entry: "\<exists>v. dict_get d1 k = Some v \<and> wf_value v \<and> py_eq v (value_of e k)"
    if k: "k \<in> set (dict_keys e)" for k
    using d1(4) [of k] k keys kept [OF k] wf_of(1) [OF k] value_of_Some [of k d] by (auto split: if_splits)
  have "if k \<in> set (dict_keys e) then \<exists>v. dict_get d1 k = Some v \<and> wf_value v \<and> py_eq v (value_of e k)
      else dict_get d1 k = None" for k
    using entry [of k] d1(3) by (simp add: dict_get_None_iff)
  then have "wf_value (PyDict d1) \<and> py_eq (PyDict d1) (PyDict e)" by (rule entries_rebuilt [OF d1(2)])
  then show ?thesis using d1(1) by blast
qed

section \<open>The loop over the changed executions\<close>

lemma find_rev_Some:
  assumes "k < n" and "P k" and "\<And>j. j < n \<Longrightarrow> P j \<Longrightarrow> j = k"
  shows "List.find P (rev [0..<n]) = Some k"
proof (cases "List.find P (rev [0..<n])")
  case None
  then show ?thesis using assms(1,2) by (auto simp: find_None_iff)
next
  case (Some j)
  then obtain i where i: "i < length (rev [0..<n])" "P j" "j = rev [0..<n] ! i" by (auto simp: find_Some_iff)
  have "j \<in> set (rev [0..<n])" unfolding i(3) by (rule nth_mem [OF i(1)])
  then show ?thesis using assms(3) [of j] i(2) Some by simp
qed

definition named :: "pyval list \<Rightarrow> uuid list \<Rightarrow> bool" where
  "named ns us \<longleftrightarrow> map record_id ns = map (\<lambda>u. Inr (uuid_str u)) us"

lemma uuid_str_eq [simp]: "uuid_str u = uuid_str v \<longleftrightarrow> u = v"
  by (auto simp: uuid_str_def str_nat_inj)

lemma named_nth: "named ns us \<Longrightarrow> k < length ns \<Longrightarrow> record_id (ns ! k) = Inr (uuid_str (us ! k))"
  unfolding named_def by (metis length_map nth_map)

lemma named_length: "named ns us \<Longrightarrow> length ns = length us"
  unfolding named_def by (metis length_map)

lemma position_absent: "named ns us \<Longrightarrow> u \<notin> set us \<Longrightarrow> position_of ns u = None"
  using named_length [of ns us] by (auto simp: position_of_def find_None_iff named_nth)

lemma position_present:
  "named ns us \<Longrightarrow> distinct us \<Longrightarrow> k < length us \<Longrightarrow> position_of ns (us ! k) = Some k"
  unfolding position_of_def
  by (rule find_rev_Some) (auto simp: named_nth named_length nth_eq_iff_index_eq)

text \<open>
  The image an execution has after the event, and a previous image that an event can bring up to
  date: the fields it does not list are equal.
\<close>

definition image_of :: "(pyval \<Rightarrow> pyval) \<Rightarrow> invocation \<Rightarrow> uuid \<Rightarrow> pyval" where
  "image_of compact i u = compact (execution_to_record (inv_id i) (the (get_node_execution u i)))"

definition updatable :: "string list \<Rightarrow> pyval \<Rightarrow> pyval \<Rightarrow> bool" where
  "updatable names a b \<longleftrightarrow> (\<exists>d e. a = PyDict d \<and> b = PyDict e \<and> wf_value a \<and> wf_value b
     \<and> set (dict_keys d) = set (dict_keys e)
     \<and> (\<forall>k \<in> set (dict_keys e). k \<in> set names \<or> py_eq (value_of d k) (value_of e k)))"

lemma updatable_replaced:
  assumes "updatable names a b" and "distinct names"
  obtains d e d' where "a = PyDict d" "b = PyDict e"
    "apply_state_operations a (replace_changed_fields [] d e names) = Inr (PyDict d')"
    "wf_value (PyDict d')" "py_eq (PyDict d') b"
  using assms fields_replaced [of _ _ names] unfolding updatable_def by metis

lemma mutable_distinct:
  "distinct mutable_session_fields" "distinct mutable_invocation_fields" "distinct mutable_node_execution_fields"
  by (simp_all add: mutable_session_fields_def mutable_invocation_fields_def mutable_node_execution_fields_def)

text \<open>
  What the loop has recorded: operations below \<open>node_executions\<close> that turn the previous list into
  one whose seen entries are up to date and which ends with the new executions in order.
\<close>

definition delta_ok ::
  "(pyval \<Rightarrow> pyval) \<Rightarrow> invocation \<Rightarrow> pyval list \<Rightarrow> uuid list \<Rightarrow> state_operation list \<Rightarrow> execution_delta \<Rightarrow> bool" where
  "delta_ok compact i ns us ops s \<longleftrightarrow>
     (let new = map (image_of compact i) (filter (\<lambda>u. u \<notin> set us) (dl_seen s)) in
      distinct (dl_seen s) \<and> dl_executions s = ns @ new
      \<and> (\<exists>es cur. dl_operations s = ops @ map (prefixed [SegKey ''node_executions'']) es
          \<and> (\<forall>op \<in> set es. so_path op \<noteq> []) \<and> apply_state_operations (PyList ns) es = Inr (PyList (cur @ new)) \<and> length cur = length us
          \<and> (\<forall>k < length us. if us ! k \<in> set (dl_seen s)
               then wf_value (cur ! k) \<and> py_eq (cur ! k) (image_of compact i (us ! k)) else cur ! k = ns ! k)))"

lemma delta_ok_append:
  assumes ok: "delta_ok compact i ns us ops s" and "length ns = length us" and "u \<notin> set us" "u \<notin> set (dl_seen s)"
  shows "delta_ok compact i ns us ops (s\<lparr>dl_seen := dl_seen s @ [u],
     dl_operations := dl_operations s
       @ [add_op [SegKey ''node_executions'', SegIndex (length (dl_executions s))] (image_of compact i u)],
     dl_executions := dl_executions s @ [image_of compact i u]\<rparr>)"
proof -
  let ?img = "image_of compact i" and ?new = "map (image_of compact i) (filter (\<lambda>u. u \<notin> set us) (dl_seen s))"
  obtain es cur where es: "dl_operations s = ops @ map (prefixed [SegKey ''node_executions'']) es"
      "\<forall>op \<in> set es. so_path op \<noteq> []"
      "apply_state_operations (PyList ns) es = Inr (PyList (cur @ ?new))" "length cur = length us"
    and cur: "\<forall>k < length us. if us ! k \<in> set (dl_seen s)
               then wf_value (cur ! k) \<and> py_eq (cur ! k) (?img (us ! k)) else cur ! k = ns ! k"
    using ok unfolding delta_ok_def Let_def by blast
  let ?es = "es @ [add_op [SegIndex (length (cur @ ?new))] (?img u)]"
  have len: "length (dl_executions s) = length (cur @ ?new)"
    using ok es(4) assms(2) by (simp add: delta_ok_def Let_def)
  have "apply_state_operations (PyList ns) ?es = Inr (PyList (cur @ ?new @ [?img u]))" using es(3) by simp
  moreover have "us ! k \<noteq> u" if "k < length us" for k using assms(3) that by auto
  ultimately show ?thesis
    using ok es(1,2,4) cur len assms(3,4) unfolding delta_ok_def Let_def
    by (auto intro!: exI [of _ ?es] exI [of _ cur])
qed

lemma delta_ok_edit:
  assumes ok: "delta_ok compact i ns us ops s" and us: "distinct us" "k < length us" "us ! k \<notin> set (dl_seen s)"
    and edits: "apply_state_operations (ns ! k) changes = Inr x" "is_container (ns ! k)" "\<forall>op \<in> set changes. so_path op \<noteq> []"
    and x: "wf_value x" "py_eq x (image_of compact i (us ! k))"
  shows "delta_ok compact i ns us ops (s\<lparr>dl_seen := dl_seen s @ [us ! k],
     dl_operations := dl_operations s @ map (prefixed [SegKey ''node_executions'', SegIndex k]) changes\<rparr>)"
proof -
  let ?img = "image_of compact i" and ?new = "map (image_of compact i) (filter (\<lambda>u. u \<notin> set us) (dl_seen s))"
  obtain es cur where es: "dl_operations s = ops @ map (prefixed [SegKey ''node_executions'']) es"
      "\<forall>op \<in> set es. so_path op \<noteq> []"
      "apply_state_operations (PyList ns) es = Inr (PyList (cur @ ?new))" "length cur = length us"
    and cur: "\<forall>j < length us. if us ! j \<in> set (dl_seen s)
               then wf_value (cur ! j) \<and> py_eq (cur ! j) (?img (us ! j)) else cur ! j = ns ! j"
    using ok unfolding delta_ok_def Let_def by blast
  let ?es = "es @ map (prefixed [SegIndex k]) changes"
  have "apply_state_operations (PyList (cur @ ?new)) (map (prefixed [SegIndex k]) changes) = Inr (PyList ((cur @ ?new)[k := x]))"
    by (rule apply_below_index) (use cur us edits es(4) in \<open>auto simp: nth_append\<close>)
  then have "apply_state_operations (PyList ns) ?es = Inr (PyList (cur[k := x] @ ?new))"
    using es(3,4) us(2) by (simp add: list_update_append)
  moreover have "map (prefixed [SegKey ''node_executions'', SegIndex k]) changes
      = map (prefixed [SegKey ''node_executions'']) (map (prefixed [SegIndex k]) changes)"
    by (simp add: prefixed_def)
  moreover have "if us ! j \<in> set (dl_seen s @ [us ! k]) then wf_value (cur[k := x] ! j) \<and> py_eq (cur[k := x] ! j) (?img (us ! j))
      else cur[k := x] ! j = ns ! j" if "j < length us" for j
    using cur x us(1,2) es(4) that by (auto simp: nth_eq_iff_index_eq nth_list_update)
  moreover have "us ! k \<in> set us" using us(2) by simp
  moreover have "distinct (dl_seen s)" "dl_executions s = ns @ ?new" using ok by (simp_all add: delta_ok_def Let_def)
  ultimately show ?thesis
    unfolding delta_ok_def Let_def using us(3) es(1,2,4)
    by (intro conjI exI [of _ ?es] exI [of _ "cur[k := x]"]) auto
qed

lemma execution_step_ok:
  assumes ok: "delta_ok compact i ns us ops s" and names: "named ns us" "distinct us"
    and known: "get_node_execution u i \<noteq> None"
    and ids: "\<forall>v \<in> set (dl_seen s). record_id (image_of compact i v) = Inr (uuid_str v)"
    and old: "\<And>k. k < length us \<Longrightarrow> us ! k = u \<Longrightarrow> updatable mutable_node_execution_fields (ns ! k) (image_of compact i u)"
  shows "\<exists>s'. execution_step compact i s u = Inr s' \<and> delta_ok compact i ns us ops s'
     \<and> dl_seen s' = (if u \<in> set (dl_seen s) then dl_seen s else dl_seen s @ [u])"
proof (cases "u \<in> set (dl_seen s)")
  case True
  then show ?thesis using ok by (simp add: execution_step_def)
next
  case unseen: False
  obtain n where n: "get_node_execution u i = Some n" using known by auto
  let ?new = "filter (\<lambda>u. u \<notin> set us) (dl_seen s)" and ?img = "image_of compact i"
  have ex: "dl_executions s = ns @ map ?img ?new" and dist: "distinct (us @ ?new)"
    using ok names(2) by (auto simp: delta_ok_def Let_def)
  have img: "?img u = compact (execution_to_record (inv_id i) n)" by (simp add: image_of_def n)
  have named: "named (dl_executions s) (us @ ?new)" using names(1) ids by (auto simp: named_def ex)
  note step = execution_step_def Let_def n img [symmetric] unseen and len = named_length [OF names(1)]
  show ?thesis
  proof (cases "u \<in> set us")
    case False
    then have "position_of (dl_executions s) u = None" using position_absent [OF named] unseen by simp
    with delta_ok_append [OF ok len False unseen] show ?thesis by (simp add: step)
  next
    case True
    then obtain k where k: "k < length us" "us ! k = u" by (auto simp: in_set_conv_nth)
    have pos: "position_of (dl_executions s) u = Some k" "dl_executions s ! k = ns ! k"
      using position_present [OF named dist, of k] k len by (simp_all add: nth_append ex)
    obtain d e d' where d: "ns ! k = PyDict d" "?img u = PyDict e"
      "apply_state_operations (ns ! k) (replace_changed_fields [] d e mutable_node_execution_fields) = Inr (PyDict d')"
      "wf_value (PyDict d')" "py_eq (PyDict d') (?img u)"
      using updatable_replaced [OF old [OF k] mutable_distinct(3)] by metis
    note edit = delta_ok_edit [OF ok names(2) k(1), unfolded k(2), OF unseen]
    show ?thesis
    proof (cases "py_eq (ns ! k) (?img u)")
      case True
      have "wf_value (ns ! k)" using old [OF k] by (auto simp: updatable_def)
      then show ?thesis using edit [of "[]" "ns ! k"] True d(1) pos by (simp add: step)
    next
      case False
      let ?path = "[SegKey ''node_executions'', SegIndex k]"
      have "replace_changed_fields ?path d e mutable_node_execution_fields
          = map (prefixed ?path) (replace_changed_fields [] d e mutable_node_execution_fields)"
        using replace_prefixed [of ?path "[]"] by simp
      then show ?thesis
        using edit [OF d(3) _ _ d(4,5)] False d(1,2) pos replace_paths by (simp add: step)
    qed
  qed
qed

lemma execution_steps_ok:
  assumes "delta_ok compact i ns us ops s" and names: "named ns us" "distinct us"
    and ids: "\<forall>u \<in> set (dl_seen s) \<union> set ids. record_id (image_of compact i u) = Inr (uuid_str u)"
    and known: "\<forall>u \<in> set ids. get_node_execution u i \<noteq> None"
    and old: "\<forall>k < length us. us ! k \<in> set ids \<longrightarrow>
      updatable mutable_node_execution_fields (ns ! k) (image_of compact i (us ! k))"
  shows "\<exists>t. foldR (execution_step compact i) s ids = Inr t \<and> delta_ok compact i ns us ops t
     \<and> dl_seen t = dl_seen s @ filter (\<lambda>u. u \<notin> set (dl_seen s)) (uniq_first ids)"
  using assms(1) ids known old
proof (induction ids arbitrary: s)
  case Nil
  then show ?case by simp
next
  case (Cons u ids)
  obtain s1 where s1: "execution_step compact i s u = Inr s1" "delta_ok compact i ns us ops s1"
    "dl_seen s1 = (if u \<in> set (dl_seen s) then dl_seen s else dl_seen s @ [u])"
    using execution_step_ok [OF Cons.prems(1) names, of u] Cons.prems(2-4) by auto
  moreover have "\<exists>t. foldR (execution_step compact i) s1 ids = Inr t \<and> delta_ok compact i ns us ops t
     \<and> dl_seen t = dl_seen s1 @ filter (\<lambda>u. u \<notin> set (dl_seen s1)) (uniq_first ids)"
    by (rule Cons.IH [OF s1(2)]) (use Cons.prems(2-4) s1(3) in auto)
  moreover have "filter (\<lambda>v. v \<notin> set (dl_seen s) \<and> v \<noteq> u) xs = filter (\<lambda>v. v \<notin> set (dl_seen s)) xs"
    if "u \<in> set (dl_seen s)" for xs using that by (intro filter_cong) auto
  ultimately show ?case by (auto simp: conj_commute)
qed

section \<open>An event replays\<close>

text \<open>
  What may differ between the states before and after an event: the session keeps its identity,
  the invocation keeps what it was admitted with, and of the history only the executions the
  event lists have changed, new ones at its end.
\<close>

definition same_execution :: "uuid list \<Rightarrow> node_execution \<Rightarrow> node_execution \<Rightarrow> bool" where
  "same_execution ids n m \<longleftrightarrow> ne_id m = ne_id n \<and> ne_node_id m = ne_node_id n \<and> ne_sequence m = ne_sequence n
     \<and> ne_base_invocation_revision m = ne_base_invocation_revision n
     \<and> ne_base_session_revision m = ne_base_session_revision n \<and> (ne_id n \<in> set ids \<or> m = n)"

definition changed_within :: "uuid list \<Rightarrow> session \<times> invocation \<Rightarrow> session \<times> invocation \<Rightarrow> bool" where
  "changed_within ids p q \<longleftrightarrow>
     (case (p, q) of ((s0, i0), (s, i)) \<Rightarrow>
       ss_id s = ss_id s0 \<and> ss_workflow_id s = ss_workflow_id s0 \<and> ss_revision_id s = ss_revision_id s0
       \<and> ss_key s = ss_key s0
       \<and> inv_id i = inv_id i0 \<and> inv_workflow_id i = inv_workflow_id i0
       \<and> inv_definition_hash i = inv_definition_hash i0 \<and> inv_entry_node_id i = inv_entry_node_id i0
       \<and> inv_event_mode i = inv_event_mode i0 \<and> inv_input i = inv_input i0
       \<and> distinct (map ne_id (inv_node_executions i))
       \<and> (let olds = inv_node_executions i0; news = drop (length olds) (inv_node_executions i) in
          list_all2 (same_execution ids) olds (take (length olds) (inv_node_executions i))
          \<and> map ne_id news = filter (\<lambda>u. u \<notin> set (map ne_id olds)) (uniq_first ids)
          \<and> set ids \<subseteq> set (map ne_id (inv_node_executions i))))"

lemma updatable_record:
  assumes "py_eq a (PyDict d)" and "wf_value a" and "wf_value (PyDict e)" and "dict_keys d = dict_keys e"
    and "\<And>k. k \<in> set (dict_keys e) \<Longrightarrow> k \<notin> set names \<Longrightarrow> value_of d k = value_of e k"
  shows "updatable names a (PyDict e)"
proof -
  obtain d' where a: "a = PyDict d'" using py_eq_dictD [OF assms(1)] by auto
  have entry: "case dict_get d k of None \<Rightarrow> dict_get d' k = None
     | Some w \<Rightarrow> \<exists>v. dict_get d' k = Some v \<and> py_eq v w" for k
    using assms(1) by (simp add: a py_eq_dict_iff)
  have "dict_get d' k = None \<longleftrightarrow> dict_get d k = None" for k
    using entry [of k] by (cases "dict_get d k") auto
  then have keys: "set (dict_keys d') = set (dict_keys d)" unfolding dict_get_None_iff by blast
  have "py_eq (value_of d' k) (value_of d k)" if key: "k \<in> set (dict_keys d)" for k
  proof -
    obtain v where "dict_get d' k = Some v" "py_eq v (value_of d k)"
      using entry [of k] value_of_Some [OF key] by auto
    then show ?thesis using value_of_get by metis
  qed
  then have "k \<in> set names \<or> py_eq (value_of d' k) (value_of e k)" if "k \<in> set (dict_keys e)" for k
    using assms(4) assms(5) [OF that] that by metis
  then show ?thesis unfolding updatable_def a using assms(2-4) keys by (simp only: a) blast
qed

definition compact_for :: "event_mode \<Rightarrow> pyval \<Rightarrow> pyval" where
  "compact_for mode = (if mode = EvStandard then compact_node_execution_record else (\<lambda>r. r))"

lemma runtime_image_tree: "runtime_image s i = state_tree s i (compact_for (inv_event_mode i))"
  by (simp add: runtime_image_def capture_recovery_state_def capture_execution_state_def compact_for_def)

lemma recorded_operations_build:
  "recorded_operations st s i ids = bindR (build_operations (compact_for (inv_event_mode i)) st s i ids)
     (\<lambda>ops. bindR (apply_state_operations st ops) (\<lambda>v. Inr (ops, v)))"
  by (simp add: recorded_operations_def build_recovery_state_operations_def build_state_operations_def compact_for_def)

lemma session_updatable:
  assumes "py_eq a (session_to_record s0)" and "wf_value a" and "wf_value (session_to_record s)"
    and "ss_id s = ss_id s0" "ss_workflow_id s = ss_workflow_id s0" "ss_revision_id s = ss_revision_id s0"
      "ss_key s = ss_key s0"
  shows "updatable mutable_session_fields a (session_to_record s)"
  unfolding session_to_record_def
  by (rule updatable_record [OF assms(1) [unfolded session_to_record_def] assms(2)])
    (use assms(3-) in \<open>auto simp: session_to_record_def mutable_session_fields_def dict_keys_def value_of_def
      dict_get_default_def\<close>)

lemma invocation_updatable:
  assumes "py_eq a (invocation_to_record k i0)" and "wf_value a" and "wf_value (invocation_to_record k i)"
    and "inv_id i = inv_id i0" "inv_workflow_id i = inv_workflow_id i0" "inv_definition_hash i = inv_definition_hash i0"
      "inv_entry_node_id i = inv_entry_node_id i0" "inv_event_mode i = inv_event_mode i0" "inv_input i = inv_input i0"
  shows "updatable mutable_invocation_fields a (invocation_to_record k i)"
  unfolding invocation_to_record_def
  by (rule updatable_record [OF assms(1) [unfolded invocation_to_record_def] assms(2)])
    (use assms(3-) in \<open>auto simp: invocation_to_record_def mutable_invocation_fields_def dict_keys_def value_of_def
      dict_get_default_def\<close>)

lemma compacted_execution:
  "\<exists>e. compact_for mode (execution_to_record u n) = PyDict e \<and> dict_get e ''id'' = Some (enc_uuid (ne_id n))
     \<and> dict_keys e = dict_keys (case execution_to_record u n of PyDict d \<Rightarrow> d | _ \<Rightarrow> [])
     \<and> value_of e ''invocation_id'' = enc_uuid u \<and> value_of e ''node_id'' = PyStr (ne_node_id n)
     \<and> value_of e ''sequence'' = py_nat (ne_sequence n)
     \<and> value_of e ''base_invocation_context_revision'' = py_nat (ne_base_invocation_revision n)
     \<and> value_of e ''base_session_context_revision'' = py_nat (ne_base_session_revision n)"
  by (simp add: compact_for_def compact_node_execution_record_def execution_to_record_def enc_list_def
      dict_set_def dict_keys_def value_of_def dict_get_default_def)

lemma compacted_record_id: "record_id (compact_for mode (execution_to_record u n)) = Inr (uuid_str (ne_id n))"
  using compacted_execution [of mode u n] by (auto simp: record_id_def rec_get_def dict_index_def enc_uuid_def)

lemma image_record_id:
  "get_node_execution u i \<noteq> None \<Longrightarrow> record_id (image_of (compact_for mode) i u) = Inr (uuid_str u)"
  by (auto simp: image_of_def compacted_record_id dest: get_node_execution_id)

lemma execution_updatable:
  assumes "same_execution ids n m" and "py_eq a (compact_for mode (execution_to_record u n))" and "wf_value a"
    and "wf_value (compact_for mode (execution_to_record u m))"
  shows "updatable mutable_node_execution_fields a (compact_for mode (execution_to_record u m))"
proof -
  obtain d e where d: "compact_for mode (execution_to_record u n) = PyDict d"
    and e: "compact_for mode (execution_to_record u m) = PyDict e"
    and keys: "dict_keys d = dict_keys (case execution_to_record u n of PyDict d \<Rightarrow> d | _ \<Rightarrow> [])"
      "dict_keys e = dict_keys (case execution_to_record u m of PyDict d \<Rightarrow> d | _ \<Rightarrow> [])"
    and vals: "value_of d ''id'' = value_of e ''id''" "value_of d ''invocation_id'' = value_of e ''invocation_id''"
      "value_of d ''node_id'' = value_of e ''node_id''" "value_of d ''sequence'' = value_of e ''sequence''"
      "value_of d ''base_invocation_context_revision'' = value_of e ''base_invocation_context_revision''"
      "value_of d ''base_session_context_revision'' = value_of e ''base_session_context_revision''"
    using compacted_execution [of mode u n] compacted_execution [of mode u m] assms(1)
    by (auto simp: same_execution_def value_of_get)
  show ?thesis
    unfolding e
  proof (rule updatable_record [OF assms(2) [unfolded d] assms(3) assms(4) [unfolded e]])
    show "dict_keys d = dict_keys e" unfolding keys by (simp add: execution_to_record_def dict_keys_def)
    fix k assume "k \<in> set (dict_keys e)" and "k \<notin> set mutable_node_execution_fields"
    then show "value_of d k = value_of e k"
      unfolding keys using vals
      by (auto simp: execution_to_record_def dict_keys_def mutable_node_execution_fields_def)
  qed
qed

text \<open>A tree equal to an image, part by part.\<close>

lemma tree_parts:
  assumes "py_eq st (state_tree s i compact)"
  obtains tree a b ns where "st = PyDict tree"
    "dict_get tree ''session'' = Some a" "py_eq a (session_to_record s)"
    "dict_get tree ''invocation'' = Some b" "py_eq b (invocation_to_record (ss_id s) i)"
    "dict_get tree ''node_executions'' = Some (PyList ns)"
    "list_all2 py_eq ns (map (\<lambda>n. compact (execution_to_record (inv_id i) n)) (inv_node_executions i))"
    "\<And>k. k \<notin> {''session'', ''invocation'', ''node_executions''} \<Longrightarrow> dict_get tree k = None"
proof -
  obtain tree where tree: "st = PyDict tree" using assms py_eq_dictD unfolding state_tree_def by blast
  have entry: "case dict_get [(''session'', session_to_record s), (''invocation'', invocation_to_record (ss_id s) i),
       (''node_executions'', PyList (map (\<lambda>n. compact (execution_to_record (inv_id i) n)) (inv_node_executions i)))] k of
         None \<Rightarrow> dict_get tree k = None | Some w \<Rightarrow> \<exists>v. dict_get tree k = Some v \<and> py_eq v w" for k
    using assms by (simp only: tree state_tree_def py_eq_dict_iff)
  obtain v where v: "dict_get tree ''node_executions'' = Some v"
    "py_eq v (PyList (map (\<lambda>n. compact (execution_to_record (inv_id i) n)) (inv_node_executions i)))"
    using entry [of "''node_executions''"] by auto
  then obtain ns where ns: "v = PyList ns" by (cases v) auto
  obtain a where a: "dict_get tree ''session'' = Some a" "py_eq a (session_to_record s)"
    using entry [of "''session''"] by auto
  obtain b where b: "dict_get tree ''invocation'' = Some b" "py_eq b (invocation_to_record (ss_id s) i)"
    using entry [of "''invocation''"] by auto
  have "dict_get tree k = None" if "k \<notin> {''session'', ''invocation'', ''node_executions''}" for k
    using entry [of k] that by simp
  with that [OF tree a b] v show ?thesis by (simp add: ns py_eq_list_iff)
qed

lemma section_replaced:
  assumes "dict_get tree k = Some a" and "updatable names a b" and "distinct names"
  obtains d e v where "a = PyDict d" "b = PyDict e" "wf_value v" "py_eq v b"
    "apply_state_operations (PyDict tree) (replace_changed_fields [SegKey k] d e names) = Inr (PyDict (dict_set k v tree))"
proof -
  obtain d e d' where d: "a = PyDict d" "b = PyDict e"
    "apply_state_operations a (replace_changed_fields [] d e names) = Inr (PyDict d')"
    "wf_value (PyDict d')" "py_eq (PyDict d') b"
    using updatable_replaced [OF assms(2,3)] .
  have "apply_state_operations (PyDict tree) (map (prefixed [SegKey k]) (replace_changed_fields [] d e names))
      = Inr (PyDict (dict_set k (PyDict d') tree))"
    by (rule apply_below_key [OF d(3) _ _ assms(1)]) (use d(1) replace_paths in auto)
  then show ?thesis
    using that [OF d(1,2,4,5)] replace_prefixed [of "[SegKey k]" "[]" d e names] by simp
qed

lemma equal_record_id:
  assumes "py_eq a (compact_for mode (execution_to_record u n))"
  shows "record_id a = Inr (uuid_str (ne_id n))"
proof -
  obtain e where e: "compact_for mode (execution_to_record u n) = PyDict e" "dict_get e ''id'' = Some (enc_uuid (ne_id n))"
    using compacted_execution [of mode u n] by blast
  obtain d where d: "a = PyDict d" using assms py_eq_dictD unfolding e(1) by blast
  have "case dict_get e ''id'' of None \<Rightarrow> dict_get d ''id'' = None
     | Some w \<Rightarrow> \<exists>v. dict_get d ''id'' = Some v \<and> py_eq v w"
    using assms by (simp only: d e(1) py_eq_dict_iff)
  then obtain v where v: "dict_get d ''id'' = Some v" "py_eq v (enc_uuid (ne_id n))" by (auto simp: e(2))
  then have "v = enc_uuid (ne_id n)" by (cases v) (auto simp: enc_uuid_def)
  then show ?thesis using v(1) by (simp add: d record_id_def rec_get_def dict_index_def enc_uuid_def)
qed

lemma get_of_member:
  assumes "distinct (map ne_id (inv_node_executions i))" and "n \<in> set (inv_node_executions i)"
  shows "get_node_execution (ne_id n) i = Some n"
proof -
  obtain m where m: "get_node_execution (ne_id n) i = Some m"
    using assms(2) by (cases "get_node_execution (ne_id n) i") (auto simp: get_node_execution_def find_None_iff)
  then have "m \<in> set (inv_node_executions i)" "ne_id m = ne_id n"
    by (auto simp: get_node_execution_def find_Some_iff)
  then show ?thesis using m assms by (auto simp: distinct_map dest: inj_onD)
qed

lemma executions_replayed:
  fixes i0 i :: invocation and mode :: event_mode
  defines "img \<equiv> \<lambda>n. compact_for mode (execution_to_record (inv_id i) n)"
  assumes change: "changed_within ids (s0, i0) (s, i)"
    and eq: "list_all2 py_eq ns (map img (inv_node_executions i0))"
    and wf: "\<forall>x \<in> set ns. wf_value x" "\<forall>n \<in> set (inv_node_executions i). wf_value (img n)"
  shows "\<exists>t es xs. foldR (execution_step (compact_for mode) i) \<lparr>dl_operations = ops, dl_executions = ns, dl_seen = []\<rparr> ids = Inr t
     \<and> dl_operations t = ops @ map (prefixed [SegKey ''node_executions'']) es \<and> (\<forall>op \<in> set es. so_path op \<noteq> [])
     \<and> apply_state_operations (PyList ns) es = Inr (PyList xs)
     \<and> (\<forall>x \<in> set xs. wf_value x) \<and> list_all2 py_eq xs (map img (inv_node_executions i))"
proof -
  let ?olds = "inv_node_executions i0" and ?all = "inv_node_executions i"
  let ?us = "map ne_id ?olds" and ?news = "drop (length ?olds) ?all"
  let ?s = "\<lparr>dl_operations = ops, dl_executions = ns, dl_seen = []\<rparr>"
  have dist: "distinct (map ne_id ?all)" and same: "list_all2 (same_execution ids) ?olds (take (length ?olds) ?all)"
    and news: "map ne_id ?news = filter (\<lambda>u. u \<notin> set ?us) (uniq_first ids)"
    and known: "set ids \<subseteq> set (map ne_id ?all)"
    using change by (simp_all add: changed_within_def Let_def)
  have le: "length ?olds \<le> length ?all" using list_all2_lengthD [OF same] by simp
  have same_k: "same_execution ids (?olds ! k) (?all ! k)" if "k < length ?olds" for k
    using list_all2_nthD [OF same that] that by simp
  have eq_k: "py_eq (ns ! k) (img (?olds ! k))" if "k < length ?olds" for k
    using list_all2_nthD2 [OF eq, of k] that by simp
  have len: "length ns = length ?us" using list_all2_lengthD [OF eq] by simp
  have get: "get_node_execution (ne_id n) i = Some n" if "n \<in> set ?all" for n
    using get_of_member [OF dist that] .
  have img: "image_of (compact_for mode) i (ne_id n) = img n" if "n \<in> set ?all" for n
    by (simp add: image_of_def img_def get [OF that])
  have img_k: "image_of (compact_for mode) i (?us ! k) = img (?all ! k)" if "k < length ?olds" for k
    using img [of "?all ! k"] same_k [OF that] that le by (simp add: same_execution_def)
  have "map ne_id (take (length ?olds) ?all) = ?us"
    using same by (auto simp: list_eq_iff_nth_eq list_all2_conv_all_nth same_execution_def)
  then have dist_us: "distinct ?us" using dist by (metis distinct_take take_map)
  have named: "named ns ?us"
    unfolding named_def using len eq_k by (auto simp: list_eq_iff_nth_eq img_def intro: equal_record_id)
  have known_get: "get_node_execution u i \<noteq> None" if "u \<in> set ids" for u
    using that known get by fastforce
  have start: "delta_ok (compact_for mode) i ns ?us ops ?s"
    using len by (auto simp: delta_ok_def intro!: exI [of _ "[]"])
  have upd: "updatable mutable_node_execution_fields (ns ! k) (image_of (compact_for mode) i (?us ! k))"
    if k: "k < length ?olds" for k
    unfolding img_k [OF k] unfolding img_def
    by (rule execution_updatable [OF same_k [OF k] eq_k [OF k, unfolded img_def]])
      (use wf k len le in \<open>auto simp: img_def\<close>)
  obtain t where t: "foldR (execution_step (compact_for mode) i) ?s ids = Inr t"
    "delta_ok (compact_for mode) i ns ?us ops t" "dl_seen t = uniq_first ids"
    using execution_steps_ok [OF start named dist_us, of ids] known_get upd by (auto simp: image_record_id)
  have new_img: "map (image_of (compact_for mode) i) (filter (\<lambda>u. u \<notin> set ?us) (uniq_first ids)) = map img ?news"
    unfolding news [symmetric] using img by (auto dest: in_set_dropD)
  obtain es cur where es: "dl_operations t = ops @ map (prefixed [SegKey ''node_executions'']) es"
    "\<forall>op \<in> set es. so_path op \<noteq> []" "apply_state_operations (PyList ns) es = Inr (PyList (cur @ map img ?news))" "length cur = length ?us"
    and cur: "\<And>k. k < length ?us \<Longrightarrow> if ?us ! k \<in> set ids
        then wf_value (cur ! k) \<and> py_eq (cur ! k) (image_of (compact_for mode) i (?us ! k)) else cur ! k = ns ! k"
    using t(2) unfolding delta_ok_def Let_def t(3) new_img set_uniq_first by blast
  have entry: "wf_value (cur ! k) \<and> py_eq (cur ! k) (img (?all ! k))" if k: "k < length ?olds" for k
  proof (cases "?us ! k \<in> set ids")
    case True
    then show ?thesis using cur [of k] k img_k [OF k] by simp
  next
    case False
    then have "?all ! k = ?olds ! k" using same_k [OF k] k by (simp add: same_execution_def)
    then show ?thesis using cur [of k] k False eq_k [OF k] wf(1) len by simp
  qed
  have "list_all2 py_eq cur (map img (take (length ?olds) ?all))"
    using entry es(4) le by (simp add: list_all2_conv_all_nth)
  moreover have "list_all2 py_eq (map img ?news) (map img ?news)" by (simp add: list.rel_refl_strong)
  ultimately have "list_all2 py_eq (cur @ map img ?news) (map img (take (length ?olds) ?all) @ map img ?news)"
    by (rule list_all2_appendI)
  moreover have "\<forall>x \<in> set (cur @ map img ?news). wf_value x"
    using entry es(4) wf(2) by (auto simp: in_set_conv_nth dest: in_set_dropD)
  ultimately show ?thesis
    using t(1) es(1-3) by (metis append_take_drop_id map_append)
qed

lemma tree_rebuilt:
  assumes "dict_get tree ''session'' = Some a" "py_eq a (session_to_record s)"
    and "dict_get tree ''invocation'' = Some b" "py_eq b (invocation_to_record (ss_id s) i)"
    and "dict_get tree ''node_executions'' = Some (PyList xs)"
    and "list_all2 py_eq xs (map (\<lambda>n. compact (execution_to_record (inv_id i) n)) (inv_node_executions i))"
    and "\<And>k. k \<notin> {''session'', ''invocation'', ''node_executions''} \<Longrightarrow> dict_get tree k = None"
  shows "py_eq (PyDict tree) (state_tree s i compact)"
  unfolding state_tree_def py_eq_dict_iff
  using assms by (auto simp: py_eq_list_iff)

text \<open>The session and the invocation are brought up to date before the executions.\<close>

lemma sections_replayed:
  assumes change: "changed_within ids (s0, i0) (s, i)"
    and a: "dict_get tree ''session'' = Some a" "py_eq a (session_to_record s0)" "wf_value a"
    and b: "dict_get tree ''invocation'' = Some b" "py_eq b (invocation_to_record (ss_id s) i0)" "wf_value b"
    and wf: "wf_value (session_to_record s)" "wf_value (invocation_to_record (ss_id s) i)"
  shows "\<exists>ps cs pi ci v w. a = PyDict ps \<and> session_to_record s = PyDict cs
     \<and> b = PyDict pi \<and> invocation_to_record (ss_id s) i = PyDict ci
     \<and> apply_state_operations (PyDict tree)
         (replace_changed_fields [SegKey ''session''] ps cs mutable_session_fields
          @ replace_changed_fields [SegKey ''invocation''] pi ci mutable_invocation_fields)
       = Inr (PyDict (dict_set ''invocation'' w (dict_set ''session'' v tree)))
     \<and> wf_value v \<and> py_eq v (session_to_record s) \<and> wf_value w \<and> py_eq w (invocation_to_record (ss_id s) i)"
proof -
  have "updatable mutable_session_fields a (session_to_record s)"
    by (rule session_updatable [OF a(2,3) wf(1)]) (use change in \<open>simp_all add: changed_within_def Let_def\<close>)
  then obtain d e v where se: "a = PyDict d" "session_to_record s = PyDict e" "wf_value v" "py_eq v (session_to_record s)"
    "apply_state_operations (PyDict tree) (replace_changed_fields [SegKey ''session''] d e mutable_session_fields)
       = Inr (PyDict (dict_set ''session'' v tree))"
    using section_replaced [OF a(1) _ mutable_distinct(1)] by metis
  have "updatable mutable_invocation_fields b (invocation_to_record (ss_id s) i)"
    by (rule invocation_updatable [OF b(2,3) wf(2)]) (use change in \<open>simp_all add: changed_within_def Let_def\<close>)
  moreover have "dict_get (dict_set ''session'' v tree) ''invocation'' = Some b" using b(1) by simp
  ultimately obtain d' e' w where iv: "b = PyDict d'" "invocation_to_record (ss_id s) i = PyDict e'" "wf_value w"
    "py_eq w (invocation_to_record (ss_id s) i)"
    "apply_state_operations (PyDict (dict_set ''session'' v tree)) (replace_changed_fields [SegKey ''invocation''] d' e' mutable_invocation_fields)
       = Inr (PyDict (dict_set ''invocation'' w (dict_set ''session'' v tree)))"
    using section_replaced [OF _ _ mutable_distinct(2)] by metis
  show ?thesis
    by (intro exI [of _ d] exI [of _ e] exI [of _ d'] exI [of _ e'] exI [of _ v] exI [of _ w])
      (use se iv in \<open>simp add: apply_ops_simps(3)\<close>)
qed

lemma mapR_defined: "\<forall>x \<in> set xs. \<exists>y. f x = Inr y \<Longrightarrow> \<exists>ys. mapR f xs = Inr ys"
  by (induction xs) fastforce+

lemma event_replays:
  assumes wf: "wf_value st" and eq: "py_eq st (runtime_image s0 i0)"
    and change: "changed_within ids (s0, i0) (s, i)" and wf': "wf_value (runtime_image s i)"
  shows "\<exists>ops st'. recorded_operations st s i ids = Inr (ops, st') \<and> wf_value st' \<and> py_eq st' (runtime_image s i)"
proof -
  let ?img = "\<lambda>n. compact_for (inv_event_mode i) (execution_to_record (inv_id i) n)"
  have ids: "inv_id i = inv_id i0" "inv_event_mode i = inv_event_mode i0" "ss_id s = ss_id s0"
    using change by (simp_all add: changed_within_def Let_def)
  obtain tree a b ns where st: "st = PyDict tree"
    and a: "dict_get tree ''session'' = Some a" "py_eq a (session_to_record s0)"
    and b: "dict_get tree ''invocation'' = Some b" "py_eq b (invocation_to_record (ss_id s) i0)"
    and ns: "dict_get tree ''node_executions'' = Some (PyList ns)" "list_all2 py_eq ns (map ?img (inv_node_executions i0))"
    and only: "\<And>k. k \<notin> {''session'', ''invocation'', ''node_executions''} \<Longrightarrow> dict_get tree k = None"
    using tree_parts [OF eq [unfolded runtime_image_tree]] unfolding ids by metis
  note wf_part = wf_dict_get [OF wf [unfolded st]]
  have wf_image: "wf_value (session_to_record s)" "wf_value (invocation_to_record (ss_id s) i)"
      "\<forall>n \<in> set (inv_node_executions i). wf_value (?img n)"
    using wf' by (simp_all add: runtime_image_tree state_tree_def)
  obtain ps cs pi ci v w where sec: "a = PyDict ps" "session_to_record s = PyDict cs" "b = PyDict pi"
    "invocation_to_record (ss_id s) i = PyDict ci"
    and app: "apply_state_operations (PyDict tree)
         (replace_changed_fields [SegKey ''session''] ps cs mutable_session_fields
          @ replace_changed_fields [SegKey ''invocation''] pi ci mutable_invocation_fields)
       = Inr (PyDict (dict_set ''invocation'' w (dict_set ''session'' v tree)))" (is "apply_state_operations _ ?ops = Inr (PyDict ?tree)")
    and vw: "wf_value v" "py_eq v (session_to_record s)" "wf_value w" "py_eq w (invocation_to_record (ss_id s) i)"
    using sections_replayed [OF change a wf_part [OF a(1)] b wf_part [OF b(1)] wf_image(1,2)] by blast
  obtain t es xs where t: "foldR (execution_step (compact_for (inv_event_mode i)) i) \<lparr>dl_operations = ?ops, dl_executions = ns, dl_seen = []\<rparr> ids = Inr t"
    "dl_operations t = ?ops @ map (prefixed [SegKey ''node_executions'']) es" "\<forall>op \<in> set es. so_path op \<noteq> []"
    "apply_state_operations (PyList ns) es = Inr (PyList xs)" "\<forall>x \<in> set xs. wf_value x"
    "list_all2 py_eq xs (map ?img (inv_node_executions i))"
    using executions_replayed [OF change ns(2) _ wf_image(3), of ?ops] wf_part [OF ns(1)] by auto
  let ?final = "dict_set ''node_executions'' (PyList xs) ?tree"
  have "apply_state_operations (PyDict ?tree) (map (prefixed [SegKey ''node_executions'']) es) = Inr (PyDict ?final)"
    by (rule apply_below_key [OF t(4) _ t(3)]) (use ns(1) in simp_all)
  then have applied: "apply_state_operations st (dl_operations t) = Inr (PyDict ?final)"
    unfolding st t(2) apply_ops_simps(3) [of _ ?ops] app by simp
  have "\<forall>x \<in> set ns. \<exists>u. record_id x = Inr u"
  proof
    fix x assume "x \<in> set ns"
    then obtain k where k: "k < length ns" "x = ns ! k" by (auto simp: in_set_conv_nth)
    then have "py_eq x (?img (inv_node_executions i0 ! k))"
      using list_all2_nthD [OF ns(2) k(1)] list_all2_lengthD [OF ns(2)] by simp
    then show "\<exists>u. record_id x = Inr u" using equal_record_id by blast
  qed
  then obtain us where us: "mapR record_id ns = Inr us" by (rule mapR_defined [THEN exE])
  have parts: "rec_get st ''session'' = Inr (PyDict ps)" "rec_get st ''invocation'' = Inr (PyDict pi)"
    "rec_get_default st ''node_executions'' (PyList []) = Inr (PyList ns)"
    using a(1) b(1) ns(1) by (simp_all add: st sec(1,3) rec_get_def rec_get_default_def dict_index_def dict_get_default_def)
  have "build_operations (compact_for (inv_event_mode i)) st s i ids = Inr (dl_operations t)"
    by (simp only: build_operations_def parts sec(2,4) us t(1) as_dict.simps as_list.simps bindR_simps)
  then have "recorded_operations st s i ids = Inr (dl_operations t, PyDict ?final)"
    by (simp add: recorded_operations_build applied)
  moreover have "wf_value (PyDict ?final)"
  proof (rule wf_dictI)
    show "distinct (dict_keys ?final)" using wf by (simp add: st dict_keys_def distinct_dict_set [unfolded dict_keys_def])
    show "wf_value x" if "dict_get ?final k = Some x" for k x
      using that vw t(5) wf_part [of k] by (auto split: if_splits)
  qed
  moreover have "py_eq (PyDict ?final) (runtime_image s i)"
    unfolding runtime_image_tree by (rule tree_rebuilt [OF _ vw(2) _ vw(4) _ t(6)]) (use only in simp_all)
  ultimately show ?thesis by blast
qed

section \<open>A journal replays\<close>

text \<open>A run of events: each takes the next sequence number and changes only what it lists.\<close>

fun event_steps :: "session \<times> invocation \<Rightarrow> (session \<times> invocation \<times> uuid list) list \<Rightarrow> bool" where
  "event_steps p [] = True"
| "event_steps p ((s, i, ids) # steps) \<longleftrightarrow>
     changed_within ids p (s, i) \<and> inv_event_sequence i = Suc (inv_event_sequence (snd p))
     \<and> wf_value (runtime_image s i) \<and> event_steps (s, i) steps"

fun last_image :: "session \<times> invocation \<Rightarrow> (session \<times> invocation \<times> uuid list) list \<Rightarrow> pyval" where
  "last_image p [] = runtime_image (fst p) (snd p)"
| "last_image p ((s, i, ids) # steps) = last_image (s, i) steps"

lemma record_steps_replay:
  assumes "wf_value st" and "py_eq st (runtime_image s0 i0)" and "event_steps (s0, i0) steps"
  shows "\<exists>es final. record_steps st steps = Inr (es, final) \<and> py_eq final (last_image (s0, i0) steps)
     \<and> map je_sequence es = [Suc (inv_event_sequence i0)..<Suc (inv_event_sequence i0 + length steps)]
     \<and> reduce_events (inv_id i0) None (inv_event_sequence i0) st es = Inr final"
  using assms
proof (induction steps arbitrary: st s0 i0)
  case Nil
  then show ?case by simp
next
  case (Cons step steps)
  obtain s i ids where step: "step = (s, i, ids)" by (cases step) auto
  have change: "changed_within ids (s0, i0) (s, i)" "inv_event_sequence i = Suc (inv_event_sequence i0)"
    "wf_value (runtime_image s i)" "event_steps (s, i) steps"
    using Cons.prems(3) by (simp_all add: step)
  have same: "inv_id i = inv_id i0" using change(1) by (simp add: changed_within_def Let_def)
  obtain ops st1 where st1: "recorded_operations st s i ids = Inr (ops, st1)" "wf_value st1" "py_eq st1 (runtime_image s i)"
    using event_replays [OF Cons.prems(1,2) change(1,3)] by blast
  then have applied: "apply_state_operations st ops = Inr st1"
    by (auto simp: recorded_operations_def bindR_eq_Inr)
  obtain es final where es: "record_steps st1 steps = Inr (es, final)" "py_eq final (last_image (s, i) steps)"
    "map je_sequence es = [Suc (inv_event_sequence i)..<Suc (inv_event_sequence i + length steps)]"
    "reduce_events (inv_id i) None (inv_event_sequence i) st1 es = Inr final"
    using Cons.IH [OF st1(2,3) change(4)] by blast
  have "[Suc (inv_event_sequence i0)..<Suc (inv_event_sequence i0 + length (step # steps))]
      = inv_event_sequence i # [Suc (inv_event_sequence i)..<Suc (inv_event_sequence i + length steps)]"
    using upt_conv_Cons [of "Suc (inv_event_sequence i0)" "Suc (inv_event_sequence i0 + length (step # steps))"]
    by (simp add: change(2) del: upt.simps)
  then show ?case
    using st1(1) applied es by (simp add: step change(2) [symmetric] same del: upt.simps) (simp add: change(2) same)
qed


definition sample_session :: session where
  "sample_session = \<lparr>ss_id = 1, ss_workflow_id = ''w'', ss_revision_id = ''r'', ss_key = None,
     ss_context = empty_runtime_context, ss_invocations = [], ss_current = Some 2\<rparr>"

definition sample_admitted :: invocation where
  "sample_admitted = new_invocation 2 ''w'' None ''a'' [(''q'', PyInt 1)] EvFull"

definition sample_node_started :: invocation where
  "sample_node_started =
     (snd (create_node_execution 3 (mk_request ''a'' [] [] None None 0) (PyInt 1) sample_admitted))\<lparr>inv_event_sequence := 1\<rparr>"

definition sample_node_finished :: invocation where
  "sample_node_finished =
     (update_execution 3 (node_mark_completed 9 (PyList [PyInt 4])) sample_node_started)\<lparr>inv_event_sequence := 2,
        inv_context := \<lparr>ctx_data = [(''x'', PyStr ''y'')], ctx_metadata = [], ctx_revision = 1, ctx_path_revisions = []\<rparr>\<rparr>"


text \<open>
  The equality in the guarantee cannot be sharpened to identity: the comparison is Python's
  \<open>==\<close>, so a value that changes its type but not its number leaves no operation behind, and the
  replayed state keeps the old one.
\<close>

lemma type_change_unrecorded:
  "diff_state_value p (PyDict [(k, PyInt 1)]) (PyDict [(k, PyBool True)]) = []"
  by (rule diff_equal) (simp add: py_eq_dict_iff int_of_bool_def)

end
