(* ===== verification/Persistence.thy ===== *)
theory Persistence
  imports Snapshots
begin

text \<open>
  The producer/consumer boundary between the runtime and its durable sink:
  \<open>core/runtime/persistence.py\<close>. Every method of \<open>PersistenceCoordinator\<close> holds the lock while
  it changes the state, so a method is one atomic step; the clock is an argument, the consumer's
  wake-up is the exception it raises, if any, and status listeners, which are advisory, are left
  out. A method that changes the state before it raises returns the changed state with the error.
\<close>

section \<open>Policy and records\<close>

record persistence_policy =
  pp_high :: int
  pp_low :: int
  pp_hard :: int
  pp_admission_timeout_ms :: int

definition make_policy :: "int \<Rightarrow> int option \<Rightarrow> int option \<Rightarrow> int \<Rightarrow> persistence_policy res" where
  "make_policy high low0 hard0 timeout =
     (let low = (case low0 of None \<Rightarrow> high div 2 | Some v \<Rightarrow> v);
          hard = (case hard0 of None \<Rightarrow> high * 2 | Some v \<Rightarrow> v)
      in if high < 1 then Inl (ValueError ''queue_high_watermark_bytes must be positive.'')
         else if \<not> (0 \<le> low \<and> low < high \<and> high < hard)
         then Inl (ValueError ''Expected low < high < hard byte watermarks.'')
         else if timeout < 0 then Inl (ValueError ''admission_timeout_ms must be non-negative.'')
         else Inr \<lparr>pp_high = high, pp_low = low, pp_hard = hard, pp_admission_timeout_ms = timeout\<rparr>)"

datatype persistence_kind = PkWorkflowVersion | PkAdmission | PkInvocationState | PkEvent | PkUserEventBatch

datatype backend_state = BackendHealthy | BackendRetrying | BackendUnavailable

datatype persistence_status = StPending | StDurable | StDegraded | StUnserializable

record persistence_health =
  ph_state :: backend_state
  ph_last_error :: "string option"
  ph_changed_at_ms :: "int option"
  ph_last_success_at_ms :: "int option"

record persistence_failure =
  pf_invocation :: uuid
  pf_sequence :: nat
  pf_message :: string

record user_event =
  ue_invocation :: uuid
  ue_sequence :: nat
  ue_type :: string
  ue_data :: pyval
  ue_node_id :: string
  ue_workflow_path :: "string list"
  ue_node_execution :: uuid
  ue_operator_call :: "uuid option"

text \<open>The timestamps an envelope carries are left out.\<close>

record persistence_envelope =
  en_id :: uuid
  en_kind :: persistence_kind
  en_session :: "uuid option"
  en_invocation :: "uuid option"
  en_bytes :: nat
  en_workflow_snapshot :: "pyval option"
  en_execution_snapshot :: "execution_snapshot option"
  en_workflow_key :: "(string \<times> string) option"
  en_invocation_state :: "string option"
  en_execution_mode :: "string option"
  en_invocation_result :: pyval
  en_invocation_error :: pyval
  en_event :: "journal_event option"
  en_user_events :: "user_event list"
  en_session_record :: "pyval dict option"
  en_invocation_record :: "pyval dict option"
  en_recovery :: "execution_snapshot option"
  en_recovery_bytes :: nat
  en_force_checkpoint :: bool

record reservation =
  rv_id :: uuid
  rv_invocation :: "uuid option"
  rv_bytes :: nat

subsection \<open>Estimated sizes\<close>

text \<open>
  \<open>_estimate_runtime_bytes\<close> of a value whose containers are objects of their own; the code counts
  64 for a container it meets again. Characters have code points below 256.
\<close>

definition utf8_length :: "string \<Rightarrow> nat" where
  "utf8_length s = sum_list (map (\<lambda>c. if (of_char c :: nat) < 128 then 1 else 2) s)"

fun estimate_runtime_bytes :: "pyval \<Rightarrow> nat"
  and estimate_items :: "(string \<times> pyval) list \<Rightarrow> nat"
  and estimate_list :: "pyval list \<Rightarrow> nat" where
  "estimate_runtime_bytes PyNone = 32"
| "estimate_runtime_bytes (PyBool b) = 32"
| "estimate_runtime_bytes (PyInt i) = 32"
| "estimate_runtime_bytes (PyStr s) = 64 + utf8_length s"
| "estimate_runtime_bytes (PyDict d) = 128 + estimate_items d"
| "estimate_runtime_bytes (PyList xs) = 96 + estimate_list xs"
| "estimate_runtime_bytes (PyOpaque n) = 256"
| "estimate_items [] = 0"
| "estimate_items ((k, v) # d) = 64 + utf8_length k + estimate_runtime_bytes v + estimate_items d"
| "estimate_list [] = 0"
| "estimate_list (x # xs) = estimate_runtime_bytes x + estimate_list xs"

subsection \<open>Freezing envelopes\<close>

definition blank_envelope :: "uuid \<Rightarrow> persistence_kind \<Rightarrow> uuid option \<Rightarrow> uuid option \<Rightarrow> nat \<Rightarrow> persistence_envelope" where
  "blank_envelope u kind s i bytes =
     \<lparr>en_id = u, en_kind = kind, en_session = s, en_invocation = i, en_bytes = bytes,
      en_workflow_snapshot = None, en_execution_snapshot = None, en_workflow_key = None,
      en_invocation_state = None, en_execution_mode = None, en_invocation_result = PyNone,
      en_invocation_error = PyNone, en_event = None, en_user_events = [], en_session_record = None,
      en_invocation_record = None, en_recovery = None, en_recovery_bytes = 0, en_force_checkpoint = False\<rparr>"

definition freeze_workflow_envelope :: "uuid \<Rightarrow> pyval \<Rightarrow> persistence_envelope" where
  "freeze_workflow_envelope u snapshot =
     (blank_envelope u PkWorkflowVersion None None (512 + estimate_runtime_bytes snapshot))
       \<lparr>en_workflow_snapshot := Some snapshot\<rparr>"

definition freeze_admission_envelope ::
  "uuid \<Rightarrow> uuid \<Rightarrow> uuid \<Rightarrow> string \<times> string \<Rightarrow> execution_snapshot \<Rightarrow> nat option \<Rightarrow> persistence_envelope" where
  "freeze_admission_envelope u sid iid key snapshot bytes =
     (blank_envelope u PkAdmission (Some sid) (Some iid)
        (1024 + (case bytes of Some b \<Rightarrow> b | None \<Rightarrow> estimate_runtime_bytes (es_state snapshot))))
       \<lparr>en_workflow_key := Some key, en_execution_snapshot := Some snapshot\<rparr>"

text \<open>The size of the event's payload, timing, input, output and operations, and of the result
  and the error, is the argument \<open>content\<close>.\<close>

definition freeze_event_envelope ::
  "uuid \<Rightarrow> uuid \<Rightarrow> uuid \<Rightarrow> string \<Rightarrow> string \<Rightarrow> pyval \<Rightarrow> pyval \<Rightarrow> journal_event \<Rightarrow> nat
   \<Rightarrow> execution_snapshot option \<Rightarrow> bool \<Rightarrow> nat \<Rightarrow> persistence_envelope" where
  "freeze_event_envelope u sid iid state mode result_value err e content recovery force given =
     (let size = (case recovery of
             None \<Rightarrow> given
           | Some x \<Rightarrow> if given = 0 then estimate_runtime_bytes (es_state x) else given)
      in (blank_envelope u PkEvent (Some sid) (Some iid) (256 + content + size))
        \<lparr>en_invocation_state := Some state, en_execution_mode := Some mode,
         en_invocation_result := result_value, en_invocation_error := err, en_event := Some e,
         en_recovery := recovery, en_recovery_bytes := (if recovery = None then 0 else size),
         en_force_checkpoint := force\<rparr>)"

definition frozen_session_fields :: "string list" where
  "frozen_session_fields = [''id'', ''workflow_id'', ''session_key'', ''current_invocation_id'',
     ''created_at_ms'', ''updated_at_ms'']"

definition frozen_invocation_fields :: "string list" where
  "frozen_invocation_fields = [''id'', ''session_id'', ''state'', ''event_mode'', ''input'', ''result'',
     ''error'', ''created_at_ms'', ''updated_at_ms'']"

definition select_fields :: "string list \<Rightarrow> pyval dict \<Rightarrow> pyval dict" where
  "select_fields names d = filter (\<lambda>(k, v). k \<in> set names) d"

definition freeze_invocation_state_envelope ::
  "uuid \<Rightarrow> uuid \<Rightarrow> uuid \<Rightarrow> pyval dict \<Rightarrow> pyval dict \<Rightarrow> persistence_envelope" where
  "freeze_invocation_state_envelope u sid iid session_record invocation_record =
     (let frozen = select_fields frozen_invocation_fields invocation_record
      in (blank_envelope u PkInvocationState (Some sid) (Some iid) (512 + estimate_runtime_bytes (PyDict frozen)))
        \<lparr>en_session_record := Some (select_fields frozen_session_fields session_record),
         en_invocation_record := Some frozen\<rparr>)"

definition user_event_content :: "user_event \<Rightarrow> pyval" where
  "user_event_content e = PyDict [(''type'', PyStr (ue_type e)), (''data'', ue_data e),
     (''node_id'', PyStr (ue_node_id e))]"

text \<open>The two identifiers of an event are UUIDs, which count 64 with their keys, or \<open>None\<close>.\<close>

definition user_event_bytes :: "user_event \<Rightarrow> nat" where
  "user_event_bytes e = estimate_runtime_bytes (user_event_content e)
     + (64 + utf8_length ''node_execution_id'') + 64
     + (64 + utf8_length ''operator_call_id'') + (case ue_operator_call e of None \<Rightarrow> 32 | Some _ \<Rightarrow> 64)"

definition freeze_user_event_batch_envelope ::
  "uuid \<Rightarrow> uuid \<Rightarrow> uuid \<Rightarrow> user_event list \<Rightarrow> persistence_envelope res" where
  "freeze_user_event_batch_envelope u sid iid events =
     (if events = [] then Inl (ValueError ''UserEvent persistence batch cannot be empty.'')
      else Inr ((blank_envelope u PkUserEventBatch (Some sid) (Some iid)
             (256 + (96 + sum_list (map user_event_bytes events))))\<lparr>en_user_events := events\<rparr>))"

section \<open>The coordinator\<close>

record coordinator =
  co_policy :: persistence_policy
  co_incoming :: "(string \<times> persistence_envelope list) list"
  co_ready :: "string list"
  co_ready_set :: "string set"
  co_reservations :: "(uuid \<times> reservation) list"
  co_outstanding :: "(uuid \<times> nat) list"
  co_invocations :: "(uuid \<times> uuid option) list"
  co_kinds :: "(uuid \<times> persistence_kind) list"
  co_pending :: int
  co_durable :: "(uuid \<times> nat) list"
  co_admitted :: "uuid set"
  co_errors :: "(uuid \<times> persistence_failure) list"
  co_gaps :: "(uuid \<times> persistence_failure) list"
  co_user_gaps :: "(uuid \<times> persistence_failure) list"
  co_durable_user :: "(uuid \<times> nat) list"
  co_health :: persistence_health
  co_pressure :: bool
  co_consumer :: "nat option"

definition new_coordinator :: "persistence_policy \<Rightarrow> coordinator" where
  "new_coordinator p =
     \<lparr>co_policy = p, co_incoming = [], co_ready = [], co_ready_set = {}, co_reservations = [],
      co_outstanding = [], co_invocations = [], co_kinds = [], co_pending = 0, co_durable = [],
      co_admitted = {}, co_errors = [], co_gaps = [], co_user_gaps = [], co_durable_user = [],
      co_health = \<lparr>ph_state = BackendHealthy, ph_last_error = None, ph_changed_at_ms = None,
        ph_last_success_at_ms = None\<rparr>,
      co_pressure = False, co_consumer = None\<rparr>"

definition bind_consumer :: "nat \<Rightarrow> coordinator \<Rightarrow> coordinator res" where
  "bind_consumer w c =
     (if co_consumer c \<noteq> None \<and> co_consumer c \<noteq> Some w
      then Inl (RuntimeError ''PersistenceCoordinator already has a consumer.'')
      else Inr (c\<lparr>co_consumer := Some w\<rparr>))"

subsection \<open>Admission\<close>

definition pending_count :: "coordinator \<Rightarrow> nat" where
  "pending_count c = length (co_outstanding c)"

text \<open>The pressure flag has hysteresis: set at the high watermark, cleared at the low one.\<close>

definition admission_paused :: "coordinator \<Rightarrow> bool \<times> coordinator" where
  "admission_paused c =
     (let c1 = (if pp_high (co_policy c) \<le> co_pending c then c\<lparr>co_pressure := True\<rparr>
                else if co_pressure c \<and> co_pending c \<le> pp_low (co_policy c) then c\<lparr>co_pressure := False\<rparr>
                else c)
      in (co_pressure c1, c1))"

text \<open>One round of the waiting loop, at the given time since its start: admitted, refused with
  the timeout it names, or asleep.\<close>

datatype admission_round = Admitted | RefusedAdmission "int option" | AdmissionSleeps

definition await_admission_round :: "int \<Rightarrow> coordinator \<Rightarrow> admission_round \<times> coordinator" where
  "await_admission_round waited_ms c =
     (let (paused, c1) = admission_paused c; timeout = pp_admission_timeout_ms (co_policy c)
      in (if \<not> paused then Admitted
          else if timeout = 0 then RefusedAdmission None
          else if timeout \<le> waited_ms then RefusedAdmission (Some timeout)
          else AdmissionSleeps, c1))"

definition remove_outstanding :: "uuid \<Rightarrow> coordinator \<Rightarrow> coordinator" where
  "remove_outstanding u c =
     c\<lparr>co_pending := co_pending c - int (dict_get_default (co_outstanding c) u 0),
       co_outstanding := dict_pop u (co_outstanding c), co_invocations := dict_pop u (co_invocations c),
       co_kinds := dict_pop u (co_kinds c)\<rparr>"

definition try_reserve :: "persistence_envelope \<Rightarrow> coordinator \<Rightarrow> reservation option \<times> coordinator" where
  "try_reserve e c =
     (if en_kind e \<noteq> PkUserEventBatch
         \<and> (case en_invocation e of None \<Rightarrow> False
            | Some i \<Rightarrow> dict_get (co_errors c) i \<noteq> None \<or> dict_get (co_gaps c) i \<noteq> None)
      then (None, c)
      else if pp_hard (co_policy c) < co_pending c + int (en_bytes e) then (None, c)
      else let r = \<lparr>rv_id = en_id e, rv_invocation = en_invocation e, rv_bytes = en_bytes e\<rparr>
           in (Some r, c\<lparr>co_reservations := dict_set (en_id e) r (co_reservations c),
                co_outstanding := dict_set (en_id e) (en_bytes e) (co_outstanding c),
                co_invocations := dict_set (en_id e) (en_invocation e) (co_invocations c),
                co_kinds := dict_set (en_id e) (en_kind e) (co_kinds c),
                co_pending := co_pending c + int (en_bytes e)\<rparr>))"

subsection \<open>Health\<close>

definition set_health :: "int \<Rightarrow> backend_state \<Rightarrow> string \<Rightarrow> coordinator \<Rightarrow> coordinator" where
  "set_health now state msg c =
     c\<lparr>co_health := \<lparr>ph_state = state, ph_last_error = Some msg, ph_changed_at_ms = Some now,
       ph_last_success_at_ms = ph_last_success_at_ms (co_health c)\<rparr>\<rparr>"

definition mark_retrying :: "int \<Rightarrow> string \<Rightarrow> coordinator \<Rightarrow> coordinator" where
  "mark_retrying now msg c = set_health now BackendRetrying msg c"

definition mark_healthy :: "int \<Rightarrow> coordinator \<Rightarrow> coordinator" where
  "mark_healthy now c =
     c\<lparr>co_health := \<lparr>ph_state = BackendHealthy, ph_last_error = None, ph_changed_at_ms = Some now,
       ph_last_success_at_ms = Some now\<rparr>\<rparr>"

definition mark_unavailable :: "int \<Rightarrow> string \<Rightarrow> coordinator \<Rightarrow> coordinator" where
  "mark_unavailable now msg c =
     set_health now BackendUnavailable (''Runtime persistence backend is unavailable: '' @ msg) c"

subsection \<open>Publishing\<close>

definition session_queue_key :: "persistence_envelope \<Rightarrow> string" where
  "session_queue_key e = (case en_session e of Some u \<Rightarrow> uuid_str u | None \<Rightarrow> ''__control__'')"

text \<open>\<open>_coalesce_queued_recovery_state\<close>: the newest queued recovery state of the invocation.\<close>

definition coalesce_position :: "uuid \<Rightarrow> persistence_envelope list \<Rightarrow> nat option" where
  "coalesce_position i q =
     List.find (\<lambda>k. en_invocation (q ! k) = Some i \<and> en_recovery (q ! k) \<noteq> None) (rev [0..<length q])"

definition without_recovery :: "persistence_envelope \<Rightarrow> persistence_envelope" where
  "without_recovery e =
     (let removed = (if en_recovery_bytes e = 0
            then (case en_recovery e of None \<Rightarrow> 0 | Some x \<Rightarrow> estimate_runtime_bytes (es_state x))
            else en_recovery_bytes e)
      in e\<lparr>en_bytes := max 256 (en_bytes e - removed), en_recovery := None, en_recovery_bytes := 0\<rparr>)"

definition coalesce_recovery ::
  "uuid \<Rightarrow> persistence_envelope list \<Rightarrow> coordinator \<Rightarrow> persistence_envelope list \<times> coordinator" where
  "coalesce_recovery i q c =
     (case coalesce_position i q of
        None \<Rightarrow> (q, c)
      | Some k \<Rightarrow>
          let e = without_recovery (q ! k) in
          (q[k := e],
           case dict_get (co_outstanding c) (en_id e) of
             None \<Rightarrow> c
           | Some tracked \<Rightarrow> c\<lparr>co_outstanding := dict_set (en_id e) (en_bytes e) (co_outstanding c),
               co_pending := co_pending c + (int (en_bytes e) - int tracked)\<rparr>))"

definition enqueue_envelope :: "persistence_envelope \<Rightarrow> coordinator \<Rightarrow> coordinator" where
  "enqueue_envelope e c =
     (let k = session_queue_key e;
          q0 = dict_get_default (co_incoming c) k [];
          (q1, c1) = (case (en_kind e, en_recovery e, en_invocation e) of
              (PkEvent, Some _, Some i) \<Rightarrow> coalesce_recovery i q0 c
            | _ \<Rightarrow> (q0, c))
      in c1\<lparr>co_incoming := dict_set k (q1 @ [e]) (co_incoming c1),
            co_ready := (if k \<in> co_ready_set c1 then co_ready c1 else co_ready c1 @ [k]),
            co_ready_set := insert k (co_ready_set c1)\<rparr>)"

definition publish :: "int \<Rightarrow> string option \<Rightarrow> reservation \<Rightarrow> persistence_envelope \<Rightarrow> coordinator
   \<Rightarrow> unit res \<times> coordinator" where
  "publish now wake_error r e c =
     (let known = dict_get (co_reservations c) (rv_id r);
          c1 = c\<lparr>co_reservations := dict_pop (rv_id r) (co_reservations c)\<rparr>
      in if known \<noteq> Some r \<or> en_id e \<noteq> rv_id r then (Inl (RuntimeError ''Unknown persistence reservation.''), c1)
         else let c2 = enqueue_envelope e c1 in
           (Inr (),
            if co_consumer c2 = None then mark_unavailable now ''Persistence consumer is not initialized.'' c2
            else if co_ready c1 = [] then (case wake_error of None \<Rightarrow> c2 | Some msg \<Rightarrow> mark_unavailable now msg c2)
            else c2))"

definition cancel_reservation :: "reservation \<Rightarrow> coordinator \<Rightarrow> coordinator" where
  "cancel_reservation r c =
     remove_outstanding (rv_id r) (c\<lparr>co_reservations := dict_pop (rv_id r) (co_reservations c)\<rparr>)"

subsection \<open>Consuming\<close>

definition queued_count :: "(string \<times> persistence_envelope list) list \<Rightarrow> nat" where
  "queued_count d = sum_list (map (\<lambda>(k, q). length q) d)"

lemma queued_count_set: "dict_get d k = Some (e # q) \<Longrightarrow> queued_count (dict_set k q d) < queued_count d"
  by (induction d) (auto simp: queued_count_def dict_set_def split: if_splits)

lemma queued_count_pop: "queued_count (dict_pop k d) \<le> queued_count d"
  by (induction d) (auto simp: queued_count_def dict_pop_def)

lemma queued_count_pop_less: "dict_get d k = Some (e # q) \<Longrightarrow> queued_count (dict_pop k d) < queued_count d"
proof (induction d)
  case (Cons x d)
  then show ?case
    using queued_count_pop [of k d]
    by (cases x) (auto simp: queued_count_def dict_pop_def less_Suc_eq_le trans_le_add2 split: if_splits)
qed simp

text \<open>One round: the next ready session hands out its oldest envelope and queues up again.\<close>

definition after_pop :: "string \<Rightarrow> persistence_envelope list \<Rightarrow> string list \<Rightarrow> coordinator \<Rightarrow> coordinator" where
  "after_pop k q rest c =
     (if q = []
      then c\<lparr>co_ready := rest, co_ready_set := co_ready_set c - {k}, co_incoming := dict_pop k (co_incoming c)\<rparr>
      else c\<lparr>co_ready := rest @ [k], co_ready_set := insert k (co_ready_set c),
             co_incoming := dict_set k q (co_incoming c)\<rparr>)"

definition drops_envelope :: "persistence_envelope \<Rightarrow> coordinator \<Rightarrow> bool" where
  "drops_envelope e c \<longleftrightarrow> en_kind e \<noteq> PkUserEventBatch
     \<and> (case en_invocation e of None \<Rightarrow> False | Some i \<Rightarrow> dict_get (co_errors c) i \<noteq> None)"

lemma after_pop_count:
  "dict_get (co_incoming c) k = Some (e # q) \<Longrightarrow> queued_count (co_incoming (after_pop k q rest c)) < queued_count (co_incoming c)"
  by (simp add: after_pop_def queued_count_pop_less queued_count_set)

function take_loop ::
  "nat \<Rightarrow> persistence_envelope list \<Rightarrow> coordinator \<Rightarrow> persistence_envelope list res \<times> coordinator" where
  "take_loop limit values c =
     (case co_ready c of
        [] \<Rightarrow> (Inr values, c)
      | k # rest \<Rightarrow>
          if limit \<le> length values then (Inr values, c)
          else case dict_get (co_incoming c) k of
              None \<Rightarrow> (Inl (KeyError k), c\<lparr>co_ready := rest, co_ready_set := co_ready_set c - {k}\<rparr>)
            | Some [] \<Rightarrow> (Inl (IndexError ''pop from an empty deque''),
                c\<lparr>co_ready := rest, co_ready_set := co_ready_set c - {k}\<rparr>)
            | Some (e # q) \<Rightarrow>
                let c1 = after_pop k q rest c in
                if drops_envelope e c1 then take_loop limit values (remove_outstanding (en_id e) c1)
                else take_loop limit (values @ [e]) c1)"
  by pat_completeness auto

termination
  by (relation "measure (\<lambda>(limit, values, c). queued_count (co_incoming c))")
    (auto simp: remove_outstanding_def dest: after_pop_count)

declare take_loop.simps [simp del]

definition take_envelopes :: "nat \<Rightarrow> coordinator \<Rightarrow> persistence_envelope list res \<times> coordinator" where
  "take_envelopes limit c = take_loop limit [] c"

definition adjust_size :: "uuid \<Rightarrow> nat \<Rightarrow> coordinator \<Rightarrow> coordinator" where
  "adjust_size u exact c =
     (case dict_get (co_outstanding c) u of
        None \<Rightarrow> c
      | Some previous \<Rightarrow> c\<lparr>co_outstanding := dict_set u exact (co_outstanding c),
          co_pending := co_pending c + (int exact - int previous)\<rparr>)"

definition raise_to :: "uuid \<Rightarrow> nat \<Rightarrow> (uuid \<times> nat) list \<Rightarrow> (uuid \<times> nat) list" where
  "raise_to i n d = dict_set i (max (dict_get_default d i 0) n) d"

definition remember_durable :: "uuid \<Rightarrow> nat \<Rightarrow> coordinator \<Rightarrow> coordinator" where
  "remember_durable i n c = c\<lparr>co_durable := raise_to i n (co_durable c)\<rparr>"

definition remember_user_events_durable :: "uuid \<Rightarrow> nat \<Rightarrow> coordinator \<Rightarrow> coordinator" where
  "remember_user_events_durable i n c = c\<lparr>co_durable_user := raise_to i n (co_durable_user c)\<rparr>"

definition remember_admission_durable :: "uuid \<Rightarrow> coordinator \<Rightarrow> coordinator" where
  "remember_admission_durable i c = c\<lparr>co_admitted := insert i (co_admitted c)\<rparr>"

definition mark_durable :: "uuid \<Rightarrow> uuid \<Rightarrow> nat \<Rightarrow> coordinator \<Rightarrow> coordinator" where
  "mark_durable u i n c = remember_durable i n (remove_outstanding u c)"

definition mark_user_events_durable :: "uuid \<Rightarrow> uuid \<Rightarrow> nat \<Rightarrow> coordinator \<Rightarrow> coordinator" where
  "mark_user_events_durable u i n c = remember_user_events_durable i n (remove_outstanding u c)"

definition mark_admission_durable :: "uuid \<Rightarrow> uuid \<Rightarrow> coordinator \<Rightarrow> coordinator" where
  "mark_admission_durable u i c = remember_admission_durable i (remove_outstanding u c)"

definition release_invocation_tracking :: "uuid \<Rightarrow> coordinator \<Rightarrow> coordinator res" where
  "release_invocation_tracking i c =
     (if Some i \<in> snd ` set (co_invocations c)
      then Inl (RuntimeError ''Cannot release persistence tracking with outstanding records.'')
      else Inr (c\<lparr>co_durable := dict_pop i (co_durable c), co_durable_user := dict_pop i (co_durable_user c),
             co_admitted := co_admitted c - {i}, co_errors := dict_pop i (co_errors c),
             co_gaps := dict_pop i (co_gaps c), co_user_gaps := dict_pop i (co_user_gaps c)\<rparr>))"

subsection \<open>Failures\<close>

definition set_first :: "uuid \<Rightarrow> persistence_failure \<Rightarrow> (uuid \<times> persistence_failure) list \<Rightarrow> (uuid \<times> persistence_failure) list" where
  "set_first i f d = (if dict_get d i = None then dict_set i f d else d)"

definition fails_with :: "uuid \<Rightarrow> persistence_envelope \<Rightarrow> bool" where
  "fails_with i e \<longleftrightarrow> en_invocation e = Some i \<and> en_kind e \<noteq> PkUserEventBatch"

definition fail_invocation :: "uuid \<Rightarrow> nat \<Rightarrow> string \<Rightarrow> coordinator \<Rightarrow> coordinator" where
  "fail_invocation i n msg c =
     (let c1 = c\<lparr>co_errors := set_first i \<lparr>pf_invocation = i, pf_sequence = n, pf_message = msg\<rparr> (co_errors c)\<rparr>;
          c2 = foldl (\<lambda>c e. remove_outstanding (en_id e) c) c1
                 (filter (fails_with i) (concat (map snd (co_incoming c1))));
          retained = filter (\<lambda>(k, q). q \<noteq> [])
                 (map (\<lambda>(k, q). (k, filter (\<lambda>e. \<not> fails_with i e) q)) (co_incoming c1));
          ready = filter (\<lambda>k. k \<in> set (dict_keys retained)) (co_ready c1)
      in c2\<lparr>co_incoming := retained, co_ready := ready, co_ready_set := set ready\<rparr>)"

definition degrade_invocation :: "uuid \<Rightarrow> nat \<Rightarrow> string \<Rightarrow> coordinator \<Rightarrow> coordinator" where
  "degrade_invocation i n msg c =
     c\<lparr>co_gaps := set_first i \<lparr>pf_invocation = i, pf_sequence = n, pf_message = msg\<rparr> (co_gaps c)\<rparr>"

definition degrade_user_events :: "uuid \<Rightarrow> nat \<Rightarrow> string \<Rightarrow> coordinator \<Rightarrow> coordinator" where
  "degrade_user_events i n msg c =
     c\<lparr>co_user_gaps := set_first i \<lparr>pf_invocation = i, pf_sequence = n, pf_message = msg\<rparr> (co_user_gaps c)\<rparr>"

subsection \<open>Flushing and status\<close>

datatype flush_outcome = FlushWaits | FlushUnavailable string | FlushFailed persistence_failure | Flushed

definition first_failure :: "coordinator \<Rightarrow> persistence_failure option" where
  "first_failure c =
     (case co_errors c of (_, f) # _ \<Rightarrow> Some f
      | [] \<Rightarrow> (case co_gaps c of (_, f) # _ \<Rightarrow> Some f
      | [] \<Rightarrow> (case co_user_gaps c of (_, f) # _ \<Rightarrow> Some f | [] \<Rightarrow> None)))"

text \<open>One round of the loop of \<open>flush\<close>, and what follows it when nothing is pending.\<close>

definition flush_round :: "coordinator \<Rightarrow> flush_outcome" where
  "flush_round c =
     (if pending_count c \<noteq> 0
      then (if ph_state (co_health c) = BackendUnavailable
            then FlushUnavailable (case ph_last_error (co_health c) of
                Some m \<Rightarrow> if m = [] then ''Persistence backend is unavailable.'' else m
              | None \<Rightarrow> ''Persistence backend is unavailable.'')
            else FlushWaits)
      else case first_failure c of None \<Rightarrow> Flushed | Some f \<Rightarrow> FlushFailed f)"

definition pending_records :: "(persistence_kind option \<Rightarrow> bool) \<Rightarrow> uuid \<Rightarrow> coordinator \<Rightarrow> bool" where
  "pending_records P i c \<longleftrightarrow> list_ex (\<lambda>(u, j). j = Some i \<and> P (dict_get (co_kinds c) u)) (co_invocations c)"

definition persistence_status_of :: "uuid \<Rightarrow> nat \<Rightarrow> coordinator \<Rightarrow> persistence_status" where
  "persistence_status_of i expected c =
     (if dict_get (co_errors c) i \<noteq> None then StUnserializable
      else if dict_get (co_gaps c) i \<noteq> None then StDegraded
      else if i \<in> co_admitted c \<and> expected \<le> dict_get_default (co_durable c) i 0
          \<and> \<not> pending_records (\<lambda>k. k \<noteq> Some PkUserEventBatch) i c
      then StDurable
      else if ph_state (co_health c) = BackendUnavailable then StDegraded else StPending)"

definition user_event_status_of :: "uuid \<Rightarrow> nat \<Rightarrow> coordinator \<Rightarrow> persistence_status" where
  "user_event_status_of i expected c =
     (if dict_get (co_user_gaps c) i \<noteq> None then StDegraded
      else if expected \<le> dict_get_default (co_durable_user c) i 0
          \<and> \<not> pending_records (\<lambda>k. k = Some PkUserEventBatch) i c
      then StDurable
      else if ph_state (co_health c) = BackendUnavailable then StDegraded else StPending)"

end
