(* ===== verification/Persistence_Books.thy ===== *)
theory Persistence_Books
  imports Persistence "HOL-Library.Sublist"
begin

text \<open>
  The invariants of the persistence coordinator over every sequence of its operations: the byte
  count is the sum of what is outstanding, the ready queue is exactly the sessions that have
  something queued, and the envelopes of a session leave in the order in which they came.
\<close>

section \<open>Operations and runs\<close>

datatype coordinator_op =
    CoReserve persistence_envelope
  | CoPublish int "string option" reservation persistence_envelope
  | CoCancel reservation
  | CoTake nat
  | CoAdjust uuid nat
  | CoDiscard uuid
  | CoDurable uuid uuid nat
  | CoUserDurable uuid uuid nat
  | CoAdmissionDurable uuid uuid
  | CoRemember uuid nat
  | CoRememberUser uuid nat
  | CoRememberAdmission uuid
  | CoRelease uuid
  | CoFail uuid nat string
  | CoDegrade uuid nat string
  | CoDegradeUser uuid nat string
  | CoRetrying int string
  | CoHealthy int
  | CoUnavailable int string
  | CoAskAdmission int
  | CoBind nat

datatype coordinator_answer =
    CoDone
  | CoReserved "reservation option"
  | CoTaken "persistence_envelope list"
  | CoAdmission admission_round
  | CoRaised py_error

definition answered :: "coordinator res \<Rightarrow> coordinator \<Rightarrow> coordinator_answer \<times> coordinator" where
  "answered r c = (case r of Inl e \<Rightarrow> (CoRaised e, c) | Inr c' \<Rightarrow> (CoDone, c'))"

fun perform :: "coordinator_op \<Rightarrow> coordinator \<Rightarrow> coordinator_answer \<times> coordinator" where
  "perform (CoReserve e) c = (let (r, c') = try_reserve e c in (CoReserved r, c'))"
| "perform (CoPublish now wake r e) c =
     (let (a, c') = publish now wake r e c in (case a of Inl x \<Rightarrow> CoRaised x | Inr _ \<Rightarrow> CoDone, c'))"
| "perform (CoCancel r) c = (CoDone, cancel_reservation r c)"
| "perform (CoTake n) c =
     (let (a, c') = take_envelopes n c in (case a of Inl x \<Rightarrow> CoRaised x | Inr es \<Rightarrow> CoTaken es, c'))"
| "perform (CoAdjust u n) c = (CoDone, adjust_size u n c)"
| "perform (CoDiscard u) c = (CoDone, remove_outstanding u c)"
| "perform (CoDurable u i n) c = (CoDone, mark_durable u i n c)"
| "perform (CoUserDurable u i n) c = (CoDone, mark_user_events_durable u i n c)"
| "perform (CoAdmissionDurable u i) c = (CoDone, mark_admission_durable u i c)"
| "perform (CoRemember i n) c = (CoDone, remember_durable i n c)"
| "perform (CoRememberUser i n) c = (CoDone, remember_user_events_durable i n c)"
| "perform (CoRememberAdmission i) c = (CoDone, remember_admission_durable i c)"
| "perform (CoRelease i) c = answered (release_invocation_tracking i c) c"
| "perform (CoFail i n msg) c = (CoDone, fail_invocation i n msg c)"
| "perform (CoDegrade i n msg) c = (CoDone, degrade_invocation i n msg c)"
| "perform (CoDegradeUser i n msg) c = (CoDone, degrade_user_events i n msg c)"
| "perform (CoRetrying now msg) c = (CoDone, mark_retrying now msg c)"
| "perform (CoHealthy now) c = (CoDone, mark_healthy now c)"
| "perform (CoUnavailable now msg) c = (CoDone, mark_unavailable now msg c)"
| "perform (CoAskAdmission waited) c = (let (a, c') = await_admission_round waited c in (CoAdmission a, c'))"
| "perform (CoBind w) c = answered (bind_consumer w c) c"

fun run_coordinator ::
  "coordinator \<Rightarrow> coordinator_op list \<Rightarrow> coordinator \<times> (coordinator_op \<times> coordinator_answer) list" where
  "run_coordinator c [] = (c, [])"
| "run_coordinator c (op # ops) =
     (let (a, c1) = perform op c; (c2, log) = run_coordinator c1 ops in (c2, (op, a) # log))"

text \<open>Envelope identifiers are fresh: no reservation is asked for with one that is outstanding.\<close>

fun fresh_reservations :: "coordinator \<Rightarrow> coordinator_op list \<Rightarrow> bool" where
  "fresh_reservations c [] = True"
| "fresh_reservations c (op # ops) \<longleftrightarrow>
     (case op of CoReserve e \<Rightarrow> dict_get (co_outstanding c) (en_id e) = None | _ \<Rightarrow> True)
     \<and> fresh_reservations (snd (perform op c)) ops"

section \<open>What was published and what was taken\<close>

fun published_by :: "string \<Rightarrow> coordinator_op \<times> coordinator_answer \<Rightarrow> uuid list" where
  "published_by k (CoPublish now wake r e, CoDone) = (if session_queue_key e = k then [en_id e] else [])"
| "published_by k _ = []"

fun taken_by :: "string \<Rightarrow> coordinator_op \<times> coordinator_answer \<Rightarrow> uuid list" where
  "taken_by k (op, CoTaken es) = map en_id (filter (\<lambda>e. session_queue_key e = k) es)"
| "taken_by k _ = []"

definition queue_ids :: "string \<Rightarrow> coordinator \<Rightarrow> uuid list" where
  "queue_ids k c = map en_id (dict_get_default (co_incoming c) k [])"

section \<open>The invariant\<close>

definition homed :: "(string \<times> persistence_envelope list) list \<Rightarrow> bool" where
  "homed d \<longleftrightarrow> (\<forall>k q. (k, q) \<in> set d \<longrightarrow> q \<noteq> [] \<and> (\<forall>e \<in> set q. session_queue_key e = k))"

definition queues_ok :: "coordinator \<Rightarrow> bool" where
  "queues_ok c \<longleftrightarrow> distinct (dict_keys (co_incoming c)) \<and> distinct (co_ready c)
     \<and> set (co_ready c) = set (dict_keys (co_incoming c)) \<and> co_ready_set c = set (co_ready c)
     \<and> homed (co_incoming c)"

definition bytes_ok :: "coordinator \<Rightarrow> bool" where
  "bytes_ok c \<longleftrightarrow> distinct (dict_keys (co_outstanding c)) \<and> co_pending c = int (sum_list (map snd (co_outstanding c)))"

lemma sum_dict_pop:
  "distinct (dict_keys d) \<Longrightarrow> sum_list (map snd (dict_pop k d)) + dict_get_default d k 0 = (sum_list (map snd d) :: nat)"
proof (induction d)
  case (Cons x d)
  obtain j v where x: "x = (j, v)" by fastforce
  show ?case
  proof (cases "j = k")
    case True
    then have "dict_pop k d = d" using Cons.prems by (simp add: x dict_keys_def dict_pop_def delete_id)
    then show ?thesis using True by (simp add: x dict_pop_def dict_get_default_def)
  next
    case False
    then show ?thesis using Cons.IH Cons.prems by (simp add: x dict_keys_def dict_pop_def dict_get_default_def)
  qed
qed (simp add: dict_pop_def dict_get_default_def)

lemma sum_dict_set:
  "sum_list (map snd (dict_set k v d)) + dict_get_default d k 0 = (sum_list (map snd d) + v :: nat)"
  by (induction d) (auto simp: dict_set_def dict_get_default_def)

lemma bytes_pop:
  assumes "bytes_ok c"
  shows "bytes_ok (remove_outstanding u c)"
proof -
  have "distinct (dict_keys (co_outstanding c))" using assms by (simp add: bytes_ok_def)
  note sum_dict_pop [OF this, of u]
  then show ?thesis using assms by (auto simp: bytes_ok_def remove_outstanding_def distinct_dict_pop)
qed

lemma bytes_set:
  assumes "bytes_ok c"
  shows "bytes_ok (c\<lparr>co_outstanding := dict_set u n (co_outstanding c),
     co_pending := co_pending c + (int n - int (dict_get_default (co_outstanding c) u 0))\<rparr>)"
  using assms sum_dict_set [of u n "co_outstanding c"] by (auto simp: bytes_ok_def distinct_dict_set)

lemma bytes_frame:
  "co_outstanding c' = co_outstanding c \<Longrightarrow> co_pending c' = co_pending c \<Longrightarrow> bytes_ok c' = bytes_ok c"
  by (simp add: bytes_ok_def)

lemma queues_frame:
  "co_incoming c' = co_incoming c \<Longrightarrow> co_ready c' = co_ready c \<Longrightarrow> co_ready_set c' = co_ready_set c
   \<Longrightarrow> queues_ok c' = queues_ok c"
  by (simp add: queues_ok_def)

section \<open>The bytes add up\<close>

lemma bytes_reserve: "bytes_ok c \<Longrightarrow> dict_get (co_outstanding c) (en_id e) = None \<Longrightarrow> bytes_ok (snd (try_reserve e c))"
  using bytes_set [of c "en_bytes e" "en_id e"]
  by (simp add: try_reserve_def Let_def dict_get_default_def bytes_ok_def)

lemma bytes_adjust: "bytes_ok c \<Longrightarrow> bytes_ok (adjust_size u n c)"
  using bytes_set [of c n u] by (auto simp: adjust_size_def dict_get_default_def split: option.splits)

lemma bytes_coalesce: "bytes_ok c \<Longrightarrow> bytes_ok (snd (coalesce_recovery i q c))"
proof (cases "coalesce_position i q")
  case (Some k)
  let ?e = "without_recovery (q ! k)"
  assume "bytes_ok c"
  then show ?thesis
    using Some bytes_set [of c "en_bytes ?e" "en_id ?e"]
    by (auto simp: coalesce_recovery_def Let_def dict_get_default_def split: option.splits)
qed (simp add: coalesce_recovery_def)

lemma bytes_enqueue: "bytes_ok c \<Longrightarrow> bytes_ok (enqueue_envelope e c)"
  using bytes_coalesce [of c] 
  by (auto simp: enqueue_envelope_def Let_def bytes_ok_def split: prod.splits persistence_kind.splits option.splits)
    (metis snd_conv)+

lemma bytes_publish: "bytes_ok c \<Longrightarrow> bytes_ok (snd (publish now wake r e c))"
  using bytes_enqueue [of "c\<lparr>co_reservations := dict_pop (rv_id r) (co_reservations c)\<rparr>" e]
  by (auto simp: publish_def Let_def bytes_ok_def mark_unavailable_def set_health_def split: option.splits)

lemma bytes_after_pop: "bytes_ok (after_pop k q rest c) = bytes_ok c"
  by (simp add: after_pop_def bytes_ok_def)

text \<open>The loop of \<open>take\<close>: what each round keeps holds at the end, and no round raises.\<close>

lemma take_loop_rule:
  assumes "P es c"
    and drop: "\<And>es c k rest e q. P es c \<Longrightarrow> co_ready c = k # rest \<Longrightarrow> dict_get (co_incoming c) k = Some (e # q)
      \<Longrightarrow> drops_envelope e c \<Longrightarrow> P es (remove_outstanding (en_id e) (after_pop k q rest c))"
    and keep: "\<And>es c k rest e q. P es c \<Longrightarrow> co_ready c = k # rest \<Longrightarrow> dict_get (co_incoming c) k = Some (e # q)
      \<Longrightarrow> P (es @ [e]) (after_pop k q rest c)"
    and found: "\<And>es c k rest. P es c \<Longrightarrow> co_ready c = k # rest \<Longrightarrow> \<exists>e q. dict_get (co_incoming c) k = Some (e # q)"
  shows "\<exists>es'. fst (take_loop n es c) = Inr es' \<and> P es' (snd (take_loop n es c))"
  using assms(1)
proof (induction n es c rule: take_loop.induct)
  case (1 n es c)
  show ?case
  proof (cases "co_ready c = [] \<or> n \<le> length es")
    case True
    then show ?thesis using "1.prems" by (auto simp: take_loop.simps [of n es c] split: list.splits)
  next
    case False
    then obtain k rest where k: "co_ready c = k # rest" by (cases "co_ready c") auto
    obtain e q where q: "dict_get (co_incoming c) k = Some (e # q)" using found [OF "1.prems" k] by auto
    have same: "drops_envelope e (after_pop k q rest c) = drops_envelope e c"
      by (auto simp: drops_envelope_def after_pop_def split: option.splits)
    have n: "\<not> n \<le> length es" using False by simp
    show ?thesis
    proof (cases "drops_envelope e c")
      case True
      then have eq: "take_loop n es c = take_loop n es (remove_outstanding (en_id e) (after_pop k q rest c))"
        using k q n same by (simp add: take_loop.simps [of n es c])
      show ?thesis
        unfolding eq by (rule "1.IH" (1) [OF k n q refl refl]) (use True same drop [OF "1.prems" k q] in simp_all)
    next
      case False
      then have eq: "take_loop n es c = take_loop n (es @ [e]) (after_pop k q rest c)"
        using k q n same by (simp add: take_loop.simps [of n es c])
      show ?thesis
        unfolding eq by (rule "1.IH" (2) [OF k n q refl refl]) (use False same keep [OF "1.prems" k q] in simp_all)
    qed
  qed
qed

lemma bytes_fail: "bytes_ok c \<Longrightarrow> bytes_ok (fail_invocation i n msg c)"
proof -
  have fold: "bytes_ok c \<Longrightarrow> bytes_ok (foldl (\<lambda>c e. remove_outstanding (en_id e) c) c xs)" for c xs
    by (induction xs arbitrary: c) (simp_all add: bytes_pop)
  assume "bytes_ok c"
  then show ?thesis
    using fold [of "c\<lparr>co_errors := set_first i \<lparr>pf_invocation = i, pf_sequence = n, pf_message = msg\<rparr> (co_errors c)\<rparr>"]
    by (simp add: fail_invocation_def Let_def bytes_ok_def)
qed

lemma perform_bytes:
  assumes "bytes_ok c" and "\<And>n. op \<noteq> CoTake n" and "\<And>e. op = CoReserve e \<Longrightarrow> dict_get (co_outstanding c) (en_id e) = None"
  shows "bytes_ok (snd (perform op c))"
proof (cases op)
  case (CoReserve e)
  then show ?thesis using bytes_reserve [OF assms(1), of e] assms(3) by (simp add: case_prod_unfold Let_def)
next
  case (CoPublish now wake r e)
  then show ?thesis using bytes_publish [OF assms(1), of now wake r e] by (simp add: case_prod_unfold Let_def)
next
  case (CoFail i n msg)
  then show ?thesis using bytes_fail [OF assms(1)] by simp
next
  case (CoAdjust u n)
  then show ?thesis using bytes_adjust [OF assms(1)] by simp
next
  case (CoCancel r)
  then show ?thesis
    using bytes_pop [of "c\<lparr>co_reservations := dict_pop (rv_id r) (co_reservations c)\<rparr>"] assms(1)
    by (simp add: cancel_reservation_def bytes_ok_def)
qed (use assms(1,2) bytes_pop [OF assms(1)] in \<open>auto simp: bytes_ok_def mark_durable_def mark_user_events_durable_def
  mark_admission_durable_def remember_durable_def remember_user_events_durable_def remember_admission_durable_def
  answered_def release_invocation_tracking_def bind_consumer_def degrade_invocation_def degrade_user_events_def
  mark_retrying_def mark_healthy_def mark_unavailable_def set_health_def await_admission_round_def
  admission_paused_def Let_def\<close>)

section \<open>The queues\<close>

lemma dict_keys_pop: "set (dict_keys (dict_pop k d)) = set (dict_keys d) - {k}"
  by (auto simp: dict_keys_def dict_pop_def delete_keys)

lemma homedD: "homed d \<Longrightarrow> dict_get d k = Some q \<Longrightarrow> q \<noteq> [] \<and> (\<forall>e \<in> set q. session_queue_key e = k)"
  unfolding homed_def by (drule dict_get_mem) blast

lemma mem_dict_set: "x \<in> set (dict_set k v d) \<Longrightarrow> x = (k, v) \<or> x \<in> set d"
  by (induction d) (auto simp: dict_set_def split: if_splits)

lemma mem_dict_pop: "x \<in> set (dict_pop k d) \<Longrightarrow> x \<in> set d"
  by (induction d) (auto simp: dict_pop_def split: if_splits)

lemma homed_set: "homed d \<Longrightarrow> q \<noteq> [] \<Longrightarrow> \<forall>e \<in> set q. session_queue_key e = k \<Longrightarrow> homed (dict_set k q d)"
  unfolding homed_def by (blast dest: mem_dict_set)

lemma homed_pop: "homed d \<Longrightarrow> homed (dict_pop k d)"
  unfolding homed_def by (blast dest: mem_dict_pop)

lemma queues_found:
  assumes "queues_ok c" and "co_ready c = k # rest"
  shows "\<exists>e q. dict_get (co_incoming c) k = Some (e # q)"
proof -
  have "k \<in> set (dict_keys (co_incoming c))" using assms by (auto simp: queues_ok_def)
  then obtain q where q: "dict_get (co_incoming c) k = Some q"
    by (cases "dict_get (co_incoming c) k") (auto simp: dict_get_None_iff)
  then show ?thesis using homedD [OF _ q] assms(1) by (cases q) (auto simp: queues_ok_def)
qed

lemma queues_after_pop:
  assumes ok: "queues_ok c" and k: "co_ready c = k # rest" "dict_get (co_incoming c) k = Some (e # q)"
  shows "queues_ok (after_pop k q rest c)"
proof (cases "q = []")
  case True
  then show ?thesis
    using ok k(1) unfolding queues_ok_def
    by (auto simp: after_pop_def distinct_dict_pop dict_keys_pop homed_pop)
next
  case False
  then show ?thesis
    using ok k(1) homedD [OF _ k(2)] unfolding queues_ok_def
    by (auto simp: after_pop_def distinct_dict_set dict_keys_set intro!: homed_set)
qed

lemma queue_after_pop: "queue_ids j (after_pop k q rest c) = (if j = k then map en_id q else queue_ids j c)"
  by (auto simp: queue_ids_def after_pop_def dict_get_default_def)

lemma queue_frame: "co_incoming c' = co_incoming c \<Longrightarrow> queue_ids k c' = queue_ids k c"
  by (simp add: queue_ids_def)

lemma remove_frame [simp]:
  "co_incoming (remove_outstanding u c) = co_incoming c" "co_ready (remove_outstanding u c) = co_ready c"
  "co_ready_set (remove_outstanding u c) = co_ready_set c" "co_errors (remove_outstanding u c) = co_errors c"
  by (simp_all add: remove_outstanding_def)

lemma without_recovery_frame [simp]:
  "en_id (without_recovery e) = en_id e" "session_queue_key (without_recovery e) = session_queue_key e"
  by (simp_all add: without_recovery_def session_queue_key_def Let_def)

lemma coalesce_frame:
  assumes "coalesce_recovery i q c = (q', c')"
  shows "map en_id q' = map en_id q" "map session_queue_key q' = map session_queue_key q"
    "co_incoming c' = co_incoming c" "co_ready c' = co_ready c" "co_ready_set c' = co_ready_set c" "co_errors c' = co_errors c"
proof -
  have k: "k < length q" if "coalesce_position i q = Some k" for k
    using that nth_mem [of _ "rev [0..<length q]"] by (fastforce simp: coalesce_position_def find_Some_iff)
  show "map en_id q' = map en_id q" "map session_queue_key q' = map session_queue_key q"
    using assms k by (auto simp: coalesce_recovery_def Let_def map_update list_update_same_conv split: option.splits)
  show "co_incoming c' = co_incoming c" "co_ready c' = co_ready c" "co_ready_set c' = co_ready_set c" "co_errors c' = co_errors c"
    using assms by (auto simp: coalesce_recovery_def Let_def split: option.splits)
qed

lemma enqueue_queues:
  assumes ok: "queues_ok c"
  shows "queues_ok (enqueue_envelope e c)
     \<and> queue_ids k (enqueue_envelope e c) = queue_ids k c @ (if session_queue_key e = k then [en_id e] else [])
     \<and> co_errors (enqueue_envelope e c) = co_errors c"
proof -
  let ?k = "session_queue_key e" and ?q = "dict_get_default (co_incoming c) (session_queue_key e) []"
  obtain q1 c1 where step: "(case (en_kind e, en_recovery e, en_invocation e) of
              (PkEvent, Some _, Some i) \<Rightarrow> coalesce_recovery i ?q c | _ \<Rightarrow> (?q, c)) = (q1, c1)" by fastforce
  have same: "map en_id q1 = map en_id ?q \<and> map session_queue_key q1 = map session_queue_key ?q
      \<and> co_incoming c1 = co_incoming c \<and> co_ready c1 = co_ready c \<and> co_ready_set c1 = co_ready_set c
      \<and> co_errors c1 = co_errors c"
    using step coalesce_frame by (auto split: persistence_kind.splits option.splits)
  have eq: "enqueue_envelope e c = c1\<lparr>co_incoming := dict_set ?k (q1 @ [e]) (co_incoming c1),
            co_ready := (if ?k \<in> co_ready_set c1 then co_ready c1 else co_ready c1 @ [?k]),
            co_ready_set := insert ?k (co_ready_set c1)\<rparr>"
    using step by (simp add: enqueue_envelope_def Let_def)
  have "\<forall>x \<in> set ?q. session_queue_key x = ?k"
    using ok homedD [of "co_incoming c" ?k]
    by (cases "dict_get (co_incoming c) ?k") (auto simp: queues_ok_def dict_get_default_def)
  then have "\<forall>x \<in> set (map session_queue_key ?q). x = ?k" by simp
  then have "\<forall>x \<in> set (map session_queue_key q1). x = ?k" using same by simp
  then have "homed (dict_set ?k (q1 @ [e]) (co_incoming c))"
    using ok by (intro homed_set) (auto simp: queues_ok_def)
  then have "queues_ok (enqueue_envelope e c)"
    using ok same unfolding eq queues_ok_def by (auto simp: distinct_dict_set dict_keys_set)
  moreover have "queue_ids k (enqueue_envelope e c) = queue_ids k c @ (if ?k = k then [en_id e] else [])"
    unfolding eq using same by (simp add: queue_ids_def dict_get_default_def)
  ultimately show ?thesis using same unfolding eq by simp
qed

lemma publish_queues:
  assumes "queues_ok c" and "publish now wake r e c = (a, c')"
  shows "queues_ok c' \<and> co_errors c' = co_errors c
    \<and> queue_ids k c' = queue_ids k c @ (if a = Inr () \<and> session_queue_key e = k then [en_id e] else [])"
proof -
  let ?c1 = "c\<lparr>co_reservations := dict_pop (rv_id r) (co_reservations c)\<rparr>"
  have ok: "queues_ok ?c1" using assms(1) by (simp add: queues_ok_def)
  have "queue_ids k ?c1 = queue_ids k c" by (simp add: queue_ids_def)
  then show ?thesis
    using assms enqueue_queues [OF ok, of e k]
    by (auto simp: publish_def Let_def queues_ok_def mark_unavailable_def set_health_def queue_ids_def split: if_splits option.splits)
qed

lemma get_filtered:
  assumes "distinct (dict_keys d)"
  shows "dict_get (filter (\<lambda>(k, q). q \<noteq> []) (map (\<lambda>(k, q). (k, filter P q)) d)) k
   = (case dict_get d k of None \<Rightarrow> None | Some q \<Rightarrow> if filter P q = [] then None else Some (filter P q))"
  using assms
proof (induction d)
  case (Cons x d)
  obtain j q where x: "x = (j, q)" by fastforce
  have fresh: "dict_get d j = None" using Cons.prems by (simp add: x dict_get_None_iff dict_keys_def)
  have IH: "dict_get (filter (\<lambda>(k, q). q \<noteq> []) (map (\<lambda>(k, q). (k, filter P q)) d)) k
   = (case dict_get d k of None \<Rightarrow> None | Some q \<Rightarrow> if filter P q = [] then None else Some (filter P q))"
    using Cons.IH Cons.prems by (simp add: dict_keys_def)
  show ?case
  proof (cases "j = k")
    case True
    then show ?thesis using IH fresh by (simp add: x)
  next
    case False
    then show ?thesis using IH by (simp add: x)
  qed
qed simp

lemma get_default_filtered:
  "distinct (dict_keys d) \<Longrightarrow>
   dict_get_default (filter (\<lambda>(k, q). q \<noteq> []) (map (\<lambda>(k, q). (k, filter P q)) d)) k []
     = filter P (dict_get_default d k [])"
  by (simp add: dict_get_default_def get_filtered split: option.splits)

lemma fail_queues:
  assumes ok: "queues_ok c"
  shows "queues_ok (fail_invocation i n msg c) \<and> subseq (queue_ids k (fail_invocation i n msg c)) (queue_ids k c)"
proof -
  let ?retained = "filter (\<lambda>(k, q). q \<noteq> []) (map (\<lambda>(k, q). (k, filter (\<lambda>e. \<not> fails_with i e) q)) (co_incoming c))"
  have keys: "set (dict_keys ?retained) \<subseteq> set (dict_keys (co_incoming c))" by (force simp: dict_keys_def)
  have "distinct (dict_keys ?retained)"
    unfolding dict_keys_def
    by (rule distinct_map_filter) (use ok in \<open>simp add: queues_ok_def dict_keys_def case_prod_unfold o_def\<close>)
  moreover have "homed (filter (\<lambda>(k, q). q \<noteq> []) (map (\<lambda>(k, q). (k, filter P q)) d))" if "homed d" for P d
    using that unfolding homed_def by fastforce
  then have "homed ?retained" using ok by (simp only: queues_ok_def)
  moreover have "set (filter (\<lambda>k. k \<in> set (dict_keys ?retained)) (co_ready c)) = set (dict_keys ?retained)"
    using ok keys by (auto simp: queues_ok_def)
  ultimately have "queues_ok (fail_invocation i n msg c)"
    using ok by (simp add: fail_invocation_def Let_def queues_ok_def)
  moreover have "queue_ids k (fail_invocation i n msg c) = map en_id (filter (\<lambda>e. \<not> fails_with i e) (dict_get_default (co_incoming c) k []))"
    using ok by (simp add: fail_invocation_def Let_def queue_ids_def get_default_filtered queues_ok_def)
  ultimately show ?thesis by (simp add: queue_ids_def subseq_map)
qed

lemma take_queues:
  assumes ok: "queues_ok c" "bytes_ok c" and taken: "take_envelopes n c = (a, c')"
  shows "\<exists>es. a = Inr es \<and> queues_ok c' \<and> bytes_ok c' \<and> co_errors c' = co_errors c
    \<and> (\<forall>k. let left = map en_id (filter (\<lambda>e. session_queue_key e = k) es) @ queue_ids k c' in
         subseq left (queue_ids k c) \<and> (co_errors c = [] \<longrightarrow> left = queue_ids k c))"
proof -
  let ?P = "\<lambda>es d. queues_ok d \<and> bytes_ok d \<and> co_errors d = co_errors c
    \<and> (\<forall>k. subseq (map en_id (filter (\<lambda>e. session_queue_key e = k) es) @ queue_ids k d) (queue_ids k c)
        \<and> (co_errors c = [] \<longrightarrow> map en_id (filter (\<lambda>e. session_queue_key e = k) es) @ queue_ids k d = queue_ids k c))"
  have "\<exists>es. fst (take_loop n [] c) = Inr es \<and> ?P es (snd (take_loop n [] c))"
  proof (rule take_loop_rule [where P = ?P])
    show "?P [] c" using ok by simp
    fix es d k rest e q
    assume P: "?P es d" and k: "co_ready d = k # rest"
    show "\<exists>e q. dict_get (co_incoming d) k = Some (e # q)" using queues_found P k by blast
    assume q: "dict_get (co_incoming d) k = Some (e # q)"
    have home: "session_queue_key e = k" using P homedD [OF _ q] by (auto simp: queues_ok_def)
    have next_ok: "queues_ok (after_pop k q rest d)" "bytes_ok (after_pop k q rest d)"
        "co_errors (after_pop k q rest d) = co_errors c"
      using P queues_after_pop [OF _ k q] by (simp, simp add: bytes_after_pop, simp add: after_pop_def)
    have ids: "queue_ids k d = en_id e # map en_id q" using q by (simp add: queue_ids_def dict_get_default_def)
    have left: "map en_id (filter (\<lambda>x. session_queue_key x = j) (es @ [e])) @ queue_ids j (after_pop k q rest d)
        = map en_id (filter (\<lambda>x. session_queue_key x = j) es) @ queue_ids j d" for j
      using ids home by (simp add: queue_after_pop)
    show "?P (es @ [e]) (after_pop k q rest d)" unfolding left using next_ok P by blast
    assume drops: "drops_envelope e d"
    then have errors: "co_errors c \<noteq> []" using P by (auto simp: drops_envelope_def split: option.splits)
    have same: "queue_ids j (remove_outstanding (en_id e) (after_pop k q rest d)) = queue_ids j (after_pop k q rest d)" for j
      by (rule queue_frame) simp
    have "subseq (map en_id (filter (\<lambda>x. session_queue_key x = j) es) @ queue_ids j (after_pop k q rest d))
        (map en_id (filter (\<lambda>x. session_queue_key x = j) es) @ queue_ids j d)" for j
      using ids by (auto simp: queue_after_pop intro!: list_emb_append_mono)
    moreover have "queues_ok (remove_outstanding (en_id e) (after_pop k q rest d))"
      using next_ok(1) by (simp add: queues_ok_def)
    ultimately show "?P es (remove_outstanding (en_id e) (after_pop k q rest d))"
      using next_ok(3) P errors bytes_pop [OF next_ok(2)] unfolding same remove_frame by (metis subseq_order.trans)
  qed
  then show ?thesis using taken by (auto simp: take_envelopes_def Let_def)
qed

section \<open>Every operation\<close>

definition leaves_queues :: "coordinator_op \<Rightarrow> bool" where
  "leaves_queues op \<longleftrightarrow> (case op of CoTake _ \<Rightarrow> False | CoPublish _ _ _ _ \<Rightarrow> False | CoFail _ _ _ \<Rightarrow> False | _ \<Rightarrow> True)"

lemma perform_frame:
  assumes "leaves_queues op"
  shows "co_incoming (snd (perform op c)) = co_incoming c \<and> co_ready (snd (perform op c)) = co_ready c
     \<and> co_ready_set (snd (perform op c)) = co_ready_set c
     \<and> (co_errors c = [] \<longrightarrow> co_errors (snd (perform op c)) = [])
     \<and> published_by k (op, fst (perform op c)) = [] \<and> taken_by k (op, fst (perform op c)) = []"
  using assms
  by (cases op) (simp_all add: leaves_queues_def try_reserve_def cancel_reservation_def adjust_size_def mark_durable_def
    mark_user_events_durable_def mark_admission_durable_def remember_durable_def remember_user_events_durable_def
    remember_admission_durable_def answered_def release_invocation_tracking_def bind_consumer_def dict_pop_def
    degrade_invocation_def degrade_user_events_def mark_retrying_def mark_healthy_def mark_unavailable_def
    set_health_def await_admission_round_def admission_paused_def Let_def split: option.splits)

definition served :: "coordinator_op \<times> coordinator_answer \<Rightarrow> bool" where
  "served x \<longleftrightarrow> (case fst x of CoTake n \<Rightarrow> \<exists>es. snd x = CoTaken es | _ \<Rightarrow> True)"

definition no_failure :: "coordinator_op list \<Rightarrow> bool" where
  "no_failure ops \<longleftrightarrow> list_all (\<lambda>op. case op of CoFail i n msg \<Rightarrow> False | _ \<Rightarrow> True) ops"

text \<open>What one operation takes from a queue and leaves in it, against what was there and what it adds.\<close>

definition in_order :: "coordinator \<Rightarrow> coordinator_op \<Rightarrow> coordinator_answer \<Rightarrow> coordinator \<Rightarrow> bool" where
  "in_order c op a c' \<longleftrightarrow>
     (\<forall>k. subseq (taken_by k (op, a) @ queue_ids k c') (queue_ids k c @ published_by k (op, a)))
     \<and> (co_errors c = [] \<and> no_failure [op] \<longrightarrow> co_errors c' = []
         \<and> (\<forall>k. taken_by k (op, a) @ queue_ids k c' = queue_ids k c @ published_by k (op, a)))"

lemma perform_step:
  assumes ok: "queues_ok c" "bytes_ok c" and op: "perform op c = (a, c')"
    and fresh: "\<And>e. op = CoReserve e \<Longrightarrow> dict_get (co_outstanding c) (en_id e) = None"
  shows "queues_ok c' \<and> bytes_ok c' \<and> served (op, a) \<and> in_order c op a c'"
proof -
  consider (take) n where "op = CoTake n" | (publish) now w r e where "op = CoPublish now w r e"
    | (fail) i n msg where "op = CoFail i n msg"
    | (frame) "leaves_queues op"
    by (cases op) (simp_all add: leaves_queues_def)
  then show ?thesis
  proof cases
    case (take n)
    obtain t d where t: "take_envelopes n c = (t, d)" by fastforce
    from take_queues [OF ok t] op show ?thesis
      by (auto simp: take t served_def in_order_def Let_def no_failure_def)
  next
    case (publish now w r e)
    obtain t d where t: "Persistence.publish now w r e c = (t, d)" by fastforce
    have "bytes_ok c'" using perform_bytes [OF ok(2), of op] op publish by simp
    moreover have "queues_ok d \<and> co_errors d = co_errors c
      \<and> queue_ids k d = queue_ids k c @ (if t = Inr () \<and> session_queue_key e = k then [en_id e] else [])" for k
      using publish_queues [OF ok(1) t] .
    ultimately show ?thesis
      using op by (cases t) (auto simp: publish t served_def in_order_def)
  next
    case (fail i n msg)
    have "bytes_ok c'" using perform_bytes [OF ok(2), of op] op fail by simp
    then show ?thesis
      using op fail_queues [OF ok(1)] by (auto simp: fail served_def in_order_def no_failure_def)
  next
    case frame
    have take: "op \<noteq> CoTake n" for n using frame by (auto simp: leaves_queues_def)
    have "bytes_ok c'" using perform_bytes [OF ok(2) take fresh] op by simp
    moreover have "served (op, a)" using take by (auto simp: served_def split: coordinator_op.splits)
    moreover have same: "co_incoming c' = co_incoming c" "co_ready c' = co_ready c" "co_ready_set c' = co_ready_set c"
        "co_errors c = [] \<Longrightarrow> co_errors c' = []" "published_by k (op, a) = []" "taken_by k (op, a) = []" for k
      using perform_frame [OF frame, of c] op by simp_all
    moreover have "queues_ok c'" using queues_frame [OF same(1-3)] ok(1) by simp
    ultimately show ?thesis by (simp add: in_order_def queue_frame [OF same(1)])
  qed
qed

lemma run_coordinator_ok:
  assumes "queues_ok c" "bytes_ok c" "fresh_reservations c ops" "run_coordinator c ops = (c', log)"
  shows "queues_ok c' \<and> bytes_ok c' \<and> list_all served log
     \<and> (\<forall>k. subseq (concat (map (taken_by k) log) @ queue_ids k c') (queue_ids k c @ concat (map (published_by k) log)))
     \<and> (co_errors c = [] \<and> no_failure ops \<longrightarrow>
         (\<forall>k. concat (map (taken_by k) log) @ queue_ids k c' = queue_ids k c @ concat (map (published_by k) log)))"
  using assms
proof (induction ops arbitrary: c log)
  case Nil
  then show ?case by simp
next
  case (Cons op ops)
  obtain a c1 where a: "perform op c = (a, c1)" by fastforce
  obtain log1 where log1: "run_coordinator c1 ops = (c', log1)" and log: "log = (op, a) # log1"
    using Cons.prems(4) a by (auto split: prod.splits)
  have step: "queues_ok c1 \<and> bytes_ok c1 \<and> served (op, a) \<and> in_order c op a c1"
    by (rule perform_step [OF Cons.prems(1,2) a]) (use Cons.prems(3) in auto)
  have fresh: "fresh_reservations c1 ops" using Cons.prems(3) a by simp
  note rest = Cons.IH [OF _ _ fresh log1] and order = step [unfolded in_order_def]
  have "subseq (concat (map (taken_by k) log) @ queue_ids k c') (queue_ids k c @ concat (map (published_by k) log))" for k
  proof -
    have "subseq (concat (map (taken_by k) log1) @ queue_ids k c') (queue_ids k c1 @ concat (map (published_by k) log1))"
      using rest step by blast
    then have "subseq (taken_by k (op, a) @ concat (map (taken_by k) log1) @ queue_ids k c')
        ((taken_by k (op, a) @ queue_ids k c1) @ concat (map (published_by k) log1))"
      unfolding append_assoc by (simp only: subseq_append')
    also have "subseq \<dots> ((queue_ids k c @ published_by k (op, a)) @ concat (map (published_by k) log1))"
      using order by (simp only: subseq_append)
    finally show ?thesis by (simp add: log)
  qed
  moreover have "concat (map (taken_by k) log) @ queue_ids k c' = queue_ids k c @ concat (map (published_by k) log)"
    if "co_errors c = []" "no_failure (op # ops)" for k
  proof -
    have "concat (map (taken_by k) log1) @ queue_ids k c' = queue_ids k c1 @ concat (map (published_by k) log1)"
      and "taken_by k (op, a) @ queue_ids k c1 = queue_ids k c @ published_by k (op, a)"
      using rest step order that by (auto simp: no_failure_def)
    then show ?thesis by (simp add: log)
  qed
  ultimately show ?case using rest step by (simp add: log)
qed

section \<open>The coordinator keeps its books\<close>

text \<open>
  C11: Whatever the runtime and the sink do to the persistence coordinator, in whatever order:
  the byte count that admission and the memory limit rely on is exactly the sum of what is
  outstanding; a session stands in the ready queue exactly once if it has something queued and
  not otherwise, so taking never raises and no session is forgotten; the envelopes of a session
  are handed out in the order in which they were published, with what is still queued behind
  them, and none is lost unless an invocation failed.
\<close>

theorem coordinator_books:
  assumes "fresh_reservations (new_coordinator p) ops" and "run_coordinator (new_coordinator p) ops = (c, log)"
  shows "co_pending c = int (sum_list (map snd (co_outstanding c)))
     \<and> distinct (co_ready c) \<and> set (co_ready c) = set (dict_keys (co_incoming c)) \<and> [] \<notin> set (map snd (co_incoming c))
     \<and> list_all served log
     \<and> subseq (concat (map (taken_by k) log) @ queue_ids k c) (concat (map (published_by k) log))
     \<and> (no_failure ops \<longrightarrow> concat (map (taken_by k) log) @ queue_ids k c = concat (map (published_by k) log))"
proof -
  have start: "queues_ok (new_coordinator p)" "bytes_ok (new_coordinator p)" "co_errors (new_coordinator p) = []"
    "\<And>k. queue_ids k (new_coordinator p) = []"
    by (simp_all add: queues_ok_def bytes_ok_def new_coordinator_def homed_def dict_keys_def queue_ids_def dict_get_default_def)
  have run: "queues_ok c" "bytes_ok c" "list_all served log"
    "subseq (concat (map (taken_by k) log) @ queue_ids k c) (concat (map (published_by k) log))"
    "no_failure ops \<Longrightarrow> concat (map (taken_by k) log) @ queue_ids k c = concat (map (published_by k) log)"
    using run_coordinator_ok [OF start(1,2) assms] by (simp_all add: start(3,4))
  have "[] \<notin> set (map snd (co_incoming c))" using run(1) unfolding queues_ok_def homed_def by force
  then show ?thesis using run by (simp add: queues_ok_def bytes_ok_def)
qed

definition sample_limits :: persistence_policy where
  "sample_limits = \<lparr>pp_high = 4000, pp_low = 2000, pp_hard = 8000, pp_admission_timeout_ms = 0\<rparr>"

definition sample_envelope :: "uuid \<Rightarrow> uuid \<Rightarrow> bool \<Rightarrow> persistence_envelope" where
  "sample_envelope u sid recovery =
     freeze_event_envelope u sid 9 ''running'' ''normal'' PyNone PyNone
       \<lparr>je_invocation = 9, je_sequence = u, je_operations = None\<rparr> 100
       (if recovery then Some \<lparr>es_invocation = 9, es_through = u, es_state = PyDict []\<rparr> else None) False 0"

definition sample_publish :: "uuid \<Rightarrow> uuid \<Rightarrow> bool \<Rightarrow> coordinator_op list" where
  "sample_publish u sid recovery =
     (let e = sample_envelope u sid recovery
      in [CoReserve e, CoPublish 5 None \<lparr>rv_id = u, rv_invocation = Some 9, rv_bytes = en_bytes e\<rparr> e])"

definition sample_operations :: "coordinator_op list" where
  "sample_operations = [CoBind 1] @ sample_publish 1 7 True @ sample_publish 2 8 False @ sample_publish 3 7 True
     @ [CoTake 2, CoDurable 1 9 1, CoAskAdmission 0]"

lemma coordinator_books_witness:
  "(case run_coordinator (new_coordinator sample_limits) sample_operations of (c, log) \<Rightarrow>
      co_pending c = int (sum_list (map snd (co_outstanding c))) \<and> map fst (co_outstanding c) = [2, 3]
      \<and> co_ready c = [uuid_str 7]
      \<and> concat (map (taken_by (uuid_str 7)) log) @ queue_ids (uuid_str 7) c = [1, 3])"
proof -
  obtain c log where run: "run_coordinator (new_coordinator sample_limits) sample_operations = (c, log)" by fastforce
  have "fresh_reservations (new_coordinator sample_limits) sample_operations" by code_simp
  from coordinator_books [OF this run, of "uuid_str 7"] have "co_pending c = int (sum_list (map snd (co_outstanding c)))
      \<and> concat (map (taken_by (uuid_str 7)) log) @ queue_ids (uuid_str 7) c = concat (map (published_by (uuid_str 7)) log)"
    by (simp add: no_failure_def sample_operations_def sample_publish_def Let_def)
  moreover have "map fst (co_outstanding (fst (run_coordinator (new_coordinator sample_limits) sample_operations))) = [2, 3]"
    "co_ready (fst (run_coordinator (new_coordinator sample_limits) sample_operations)) = [uuid_str 7]"
    "concat (map (published_by (uuid_str 7)) (snd (run_coordinator (new_coordinator sample_limits) sample_operations))) = [1, 3]"
    by code_simp+
  ultimately show ?thesis by (simp add: run)
qed

end
