(* ===== verification/Operators.thy ===== *)
theory Operators
  imports Workflow_IR "HOL-Library.Multiset"
begin

text \<open>
  Operator registration and selection: \<open>core/operators/registry.py\<close> and
  \<open>core/operators/selector.py\<close>. A contract is an opaque value; the comparison of two
  contracts, which inspects Python signatures, is the argument \<open>mismatch\<close> of the operations
  that use it and returns the messages of its errors. Locks are left out: every operation of the
  registries is one atomic step.
\<close>

section \<open>Registries\<close>

record capability =
  cap_id :: string
  cap_contract :: "nat option"

type_synonym capability_registry = "capability dict"

definition register_capability :: "capability \<Rightarrow> capability_registry \<Rightarrow> capability_registry res" where
  "register_capability c reg =
     (if dict_get reg (cap_id c) \<noteq> None
      then Inl (ValueError (''Capability already registered: '' @ cap_id c))
      else Inr (dict_set (cap_id c) c reg))"

definition bind_contract :: "string \<Rightarrow> nat \<Rightarrow> capability_registry \<Rightarrow> capability_registry res" where
  "bind_contract cid contract reg =
     (case dict_get reg cid of
        None \<Rightarrow> Inl (ValueError (''Unknown Capability: '' @ cid))
      | Some c \<Rightarrow>
          if cap_contract c \<noteq> None
          then Inl (ValueError (''Capability contract is already established: '' @ cid))
          else Inr (dict_set cid (c\<lparr>cap_contract := Some contract\<rparr>) reg))"

record operator_registry =
  or_capabilities :: capability_registry
  or_items :: "operator dict"
  or_by_capability :: "string list dict"
  or_default :: "string dict"

definition empty_registry :: operator_registry where
  "empty_registry = \<lparr>or_capabilities = [], or_items = [], or_by_capability = [], or_default = []\<rparr>"

definition validate_contract ::
  "(nat \<Rightarrow> nat \<Rightarrow> string list) \<Rightarrow> capability \<Rightarrow> string \<Rightarrow> nat \<Rightarrow> unit res" where
  "validate_contract mismatch c oid contract =
     (case cap_contract c of
        None \<Rightarrow> Inl (ValueError (''Capability has no established contract: '' @ cap_id c))
      | Some k \<Rightarrow>
          if mismatch k contract \<noteq> []
          then Inl (ValueError (''Operator '' @ oid @ '' does not match Capability '' @ cap_id c
             @ '': '' @ join_str '' '' (mismatch k contract)))
          else Inr ())"

text \<open>\<open>OperatorRegistry.register\<close>: every check precedes the first write.\<close>

definition register_operator ::
  "(nat \<Rightarrow> nat \<Rightarrow> string list) \<Rightarrow> operator \<Rightarrow> nat \<Rightarrow> bool \<Rightarrow> operator_registry
   \<Rightarrow> operator_registry res" where
  "register_operator mismatch op contract dflt reg =
     (if dict_get (or_items reg) (op_id op) \<noteq> None
      then Inl (ValueError (''Operator already registered: '' @ op_id op))
      else bindR (case op_capability_id op of
             None \<Rightarrow> Inr None
           | Some cid \<Rightarrow> (case dict_get (or_capabilities reg) cid of
               None \<Rightarrow> Inl (ValueError (''Operator references an unknown capability: '' @ cid))
             | Some c \<Rightarrow> Inr (Some c)))
        (\<lambda>cap.
          if dflt \<and> op_capability_id op = None
          then Inl (ValueError ''A default Operator must implement a Capability.'')
          else if dflt \<and> (\<exists>cid \<in> set_option (op_capability_id op). dict_get (or_default reg) cid \<noteq> None)
          then Inl (ValueError (''Capability already has a default Operator: ''
                 @ the (op_capability_id op)))
          else bindR (case cap of
               None \<Rightarrow> Inr (or_capabilities reg)
             | Some c \<Rightarrow>
                 if cap_contract c = None then bind_contract (cap_id c) contract (or_capabilities reg)
                 else bindR (validate_contract mismatch c (op_id op) contract)
                        (\<lambda>_. Inr (or_capabilities reg)))
            (\<lambda>caps.
              let reg1 = reg\<lparr>or_capabilities := caps, or_items := dict_set (op_id op) op (or_items reg)\<rparr> in
              Inr (case op_capability_id op of
                 None \<Rightarrow> reg1
               | Some cid \<Rightarrow> reg1\<lparr>or_by_capability := dict_set cid
                     (dict_get_default (or_by_capability reg) cid [] @ [op_id op]) (or_by_capability reg),
                   or_default := (if dflt then dict_set cid (op_id op) (or_default reg)
                                  else or_default reg)\<rparr>))))"

definition for_capability :: "string \<Rightarrow> bool \<Rightarrow> operator_registry \<Rightarrow> operator list" where
  "for_capability cid include_disabled reg =
     (let ops = List.map_filter (dict_get (or_items reg)) (dict_get_default (or_by_capability reg) cid [])
      in if include_disabled then ops else filter op_enabled ops)"

definition default_for_capability :: "string \<Rightarrow> operator_registry \<Rightarrow> operator option" where
  "default_for_capability cid reg =
     (case dict_get (or_default reg) cid of None \<Rightarrow> None | Some oid \<Rightarrow> dict_get (or_items reg) oid)"

section \<open>Selection\<close>

definition resolution_error :: "string \<Rightarrow> string \<Rightarrow> (string \<times> string) list \<Rightarrow> runtime_error_info" where
  "resolution_error code msg detail = mk_error code msg (map (\<lambda>(k, v). (k, PyStr v)) detail)"

definition default_policy :: selection_policy where
  "default_policy = \<lparr>sp_mode = SelDefault, sp_allow_fallback = True, sp_preferred = [], sp_excluded = []\<rparr>"

definition by_priority :: "operator list \<Rightarrow> operator list" where
  "by_priority = sort_key (\<lambda>x. (- op_priority x, op_id x))"

definition order_default ::
  "operator_registry \<Rightarrow> string \<Rightarrow> selection_policy \<Rightarrow> operator list \<Rightarrow> operator list" where
  "order_default reg cid p candidates =
     (let preferred = concat (map (\<lambda>oid. filter (\<lambda>x. op_id x = oid) candidates) (sp_preferred p));
          dflt = default_for_capability cid reg;
          usable = (\<lambda>d taken. op_enabled d \<and> op_id d \<notin> set (sp_excluded p) \<and> op_id d \<notin> taken)
      in if preferred \<noteq> [] then
           let taken = op_id ` set preferred;
               remaining = filter (\<lambda>x. op_id x \<notin> taken) candidates
           in (case dflt of
                Some d \<Rightarrow>
                  if usable d taken
                  then preferred @ [d] @ by_priority (filter (\<lambda>x. op_id x \<noteq> op_id d) remaining)
                  else preferred @ by_priority remaining
              | None \<Rightarrow> preferred @ by_priority remaining)
         else (case dflt of
                Some d \<Rightarrow>
                  if usable d {}
                  then d # by_priority (filter (\<lambda>x. op_id x \<noteq> op_id d) candidates)
                  else by_priority candidates
              | None \<Rightarrow> by_priority candidates))"

definition order_candidates ::
  "operator_registry \<Rightarrow> string \<Rightarrow> operator list \<Rightarrow> selection_policy option
   \<Rightarrow> runtime_error_info + operator list" where
  "order_candidates reg cid candidates0 policy =
     (let p = (case policy of None \<Rightarrow> default_policy | Some p \<Rightarrow> p);
          candidates = filter (\<lambda>x. op_id x \<notin> set (sp_excluded p)) candidates0;
          preferred_order = enum_index (sp_preferred p);
          unlisted = (\<lambda>x. dict_get preferred_order (op_id x) = None);
          position = (\<lambda>x. dict_get_default preferred_order (op_id x) 0)
      in if candidates = [] then
           Inl (resolution_error ''CAPABILITY_UNAVAILABLE''
             (''Selection policy excluded every Operator for: '' @ cid) [(''capability_id'', cid)])
         else Inr (case sp_mode p of
             SelPriority \<Rightarrow> sort_key (\<lambda>x. (unlisted x, position x, - op_priority x, op_id x)) candidates
           | SelFirstAvailable \<Rightarrow> sort_key (\<lambda>x. (unlisted x, position x, op_id x)) candidates
           | SelDefault \<Rightarrow> order_default reg cid p candidates))"

definition resolve_candidates ::
  "operator_registry \<Rightarrow> capability_binding \<Rightarrow> selection_policy option
   \<Rightarrow> runtime_error_info + operator list" where
  "resolve_candidates reg binding policy =
     (case binding of
        BindOperator x \<Rightarrow>
          if \<not> op_enabled x
          then Inl (resolution_error ''OPERATOR_UNAVAILABLE'' (''Operator is disabled: '' @ op_id x)
                 [(''operator_id'', op_id x)])
          else Inr [x]
      | BindCallable x \<Rightarrow> Inr [x]
      | BindOperatorRef oid \<Rightarrow>
          (case dict_get (or_items reg) oid of
             None \<Rightarrow> Inl (resolution_error ''OPERATOR_NOT_REGISTERED''
                 (''Operator is not registered: '' @ oid) [(''operator_id'', oid)])
           | Some x \<Rightarrow>
               if \<not> op_enabled x
               then Inl (resolution_error ''OPERATOR_UNAVAILABLE'' (''Operator is disabled: '' @ oid)
                      [(''operator_id'', oid)])
               else Inr [x])
      | BindCapabilityRef cid \<Rightarrow>
          if dict_get (or_capabilities reg) cid = None
          then Inl (resolution_error ''CAPABILITY_NOT_REGISTERED''
                 (''Capability is not registered: '' @ cid) [(''capability_id'', cid)])
          else if for_capability cid False reg = []
          then Inl (resolution_error ''CAPABILITY_UNAVAILABLE''
                 (''Capability has no enabled Operator: '' @ cid) [(''capability_id'', cid)])
          else (case order_candidates reg cid (for_capability cid False reg) policy of
              Inl e \<Rightarrow> Inl e
            | Inr ordered \<Rightarrow>
                Inr (if sp_allow_fallback (case policy of None \<Rightarrow> default_policy | Some p \<Rightarrow> p)
                     then ordered else take 1 ordered))
      | BindSystemCommand sid _ \<Rightarrow>
          Inl (resolution_error ''SYSTEM_COMMAND_UNSUPPORTED''
            ''SystemCommand requires a SystemCommandExecutor.'' [(''command_id'', sid)]))"

section \<open>The registry invariant\<close>

definition registry_ok :: "operator_registry \<Rightarrow> bool" where
  "registry_ok reg \<longleftrightarrow>
     (\<forall>oid x. dict_get (or_items reg) oid = Some x \<longrightarrow> op_id x = oid)
     \<and> (\<forall>cid. let ids = dict_get_default (or_by_capability reg) cid [] in
          distinct ids \<and> (\<forall>oid \<in> set ids. \<exists>x. dict_get (or_items reg) oid = Some x
             \<and> op_capability_id x = Some cid))
     \<and> (\<forall>oid x cid. dict_get (or_items reg) oid = Some x \<longrightarrow> op_capability_id x = Some cid \<longrightarrow>
          oid \<in> set (dict_get_default (or_by_capability reg) cid [])
          \<and> dict_get (or_capabilities reg) cid \<noteq> None)
     \<and> (\<forall>cid oid. dict_get (or_default reg) cid = Some oid \<longrightarrow>
          oid \<in> set (dict_get_default (or_by_capability reg) cid []))"

lemma registry_ok_empty: "registry_ok empty_registry"
  by (simp add: registry_ok_def empty_registry_def dict_get_default_def)

lemma dict_get_default_set [simp]:
  "dict_get_default (dict_set k v d) j w = (if j = k then v else dict_get_default d j w)"
  by (simp add: dict_get_default_def)

lemma bind_contract_keys:
  "bind_contract cid contract reg = Inr reg' \<Longrightarrow> (dict_get reg' c = None) = (dict_get reg c = None)"
  by (auto simp: bind_contract_def split: option.splits if_splits)

text \<open>What a successful registration leaves, in one equation per field.\<close>

lemma register_operator_fields:
  assumes "register_operator mismatch op contract dflt reg = Inr reg'"
  shows "dict_get (or_items reg) (op_id op) = None"
    and "or_items reg' = dict_set (op_id op) op (or_items reg)"
    and "or_by_capability reg' = (case op_capability_id op of None \<Rightarrow> or_by_capability reg
       | Some cid \<Rightarrow> dict_set cid (dict_get_default (or_by_capability reg) cid [] @ [op_id op])
           (or_by_capability reg))"
    and "or_default reg' = (case op_capability_id op of None \<Rightarrow> or_default reg
       | Some cid \<Rightarrow> if dflt then dict_set cid (op_id op) (or_default reg) else or_default reg)"
    and "(dict_get (or_capabilities reg') c = None) = (dict_get (or_capabilities reg) c = None)"
    and "op_capability_id op = Some cid \<Longrightarrow> dict_get (or_capabilities reg) cid \<noteq> None"
    and "dflt \<Longrightarrow> op_capability_id op = Some cid \<Longrightarrow> dict_get (or_default reg) cid = None"
  using assms
  by (auto simp: register_operator_def Let_def bindR_eq_Inr bind_contract_keys
      split: option.splits if_splits)

lemma register_operator_ok:
  assumes "registry_ok reg" and "register_operator mismatch op contract dflt reg = Inr reg'"
  shows "registry_ok reg'"
proof -
  note f = register_operator_fields [OF assms(2)]
  from assms(1) have items: "\<And>oid x. dict_get (or_items reg) oid = Some x \<Longrightarrow> op_id x = oid"
    and ids: "\<And>cid. distinct (dict_get_default (or_by_capability reg) cid [])"
      "\<And>cid oid. oid \<in> set (dict_get_default (or_by_capability reg) cid []) \<Longrightarrow>
        \<exists>x. dict_get (or_items reg) oid = Some x \<and> op_capability_id x = Some cid"
    and idx: "\<And>oid x cid. dict_get (or_items reg) oid = Some x \<Longrightarrow> op_capability_id x = Some cid \<Longrightarrow>
        oid \<in> set (dict_get_default (or_by_capability reg) cid []) \<and> dict_get (or_capabilities reg) cid \<noteq> None"
    and dfl: "\<And>cid oid. dict_get (or_default reg) cid = Some oid \<Longrightarrow>
        oid \<in> set (dict_get_default (or_by_capability reg) cid [])"
    unfolding registry_ok_def Let_def by blast+
  have new: "op_id op \<notin> set (dict_get_default (or_by_capability reg) cid [])" for cid
    using ids(2) f(1) by fastforce
  show ?thesis
    unfolding registry_ok_def Let_def
  proof (intro conjI allI impI ballI)
    show "op_id x = oid" if "dict_get (or_items reg') oid = Some x" for oid x
      using that items by (auto simp: f(2) split: if_splits)
    show "distinct (dict_get_default (or_by_capability reg') cid [])" for cid
      using ids(1) new by (auto simp: f(3) split: option.splits)
    show "\<exists>x. dict_get (or_items reg') oid = Some x \<and> op_capability_id x = Some cid"
      if "oid \<in> set (dict_get_default (or_by_capability reg') cid [])" for cid oid
      using that ids(2) [of oid cid] new [of cid]
      by (auto simp: f(2,3) split: option.splits if_splits)
    show "oid \<in> set (dict_get_default (or_by_capability reg') cid [])"
      if "dict_get (or_items reg') oid = Some x" "op_capability_id x = Some cid" for oid x cid
      using that idx [of oid x cid] by (auto simp: f(2,3) split: option.splits if_splits)
    show "dict_get (or_capabilities reg') cid \<noteq> None"
      if "dict_get (or_items reg') oid = Some x" "op_capability_id x = Some cid" for oid x cid
      using that idx [of oid x cid] f(6) [of cid] by (auto simp: f(2,5) split: if_splits)
    show "oid \<in> set (dict_get_default (or_by_capability reg') cid [])"
      if "dict_get (or_default reg') cid = Some oid" for cid oid
      using that dfl by (auto simp: f(3,4) split: option.splits if_splits)
  qed
qed

section \<open>Which operators a node may call\<close>

definition eligible :: "operator_registry \<Rightarrow> string \<Rightarrow> selection_policy \<Rightarrow> operator list" where
  "eligible reg cid p =
     filter (\<lambda>x. op_id x \<notin> set (sp_excluded p)) (for_capability cid False reg)"

lemma set_map_filter_iff: "y \<in> set (List.map_filter f ks) \<longleftrightarrow> (\<exists>k \<in> set ks. f k = Some y)"
  by (induction ks) (auto split: option.splits)

lemma for_capability_members:
  assumes "registry_ok reg"
  shows "x \<in> set (for_capability cid False reg) \<longleftrightarrow>
     dict_get (or_items reg) (op_id x) = Some x \<and> op_capability_id x = Some cid \<and> op_enabled x"
proof -
  from assms have items: "\<And>oid x. dict_get (or_items reg) oid = Some x \<Longrightarrow> op_id x = oid"
    and ids: "\<And>oid. oid \<in> set (dict_get_default (or_by_capability reg) cid []) \<Longrightarrow>
        \<exists>x. dict_get (or_items reg) oid = Some x \<and> op_capability_id x = Some cid"
    and idx: "\<And>oid x. dict_get (or_items reg) oid = Some x \<Longrightarrow> op_capability_id x = Some cid \<Longrightarrow>
        oid \<in> set (dict_get_default (or_by_capability reg) cid [])"
    unfolding registry_ok_def Let_def by blast+
  have "(\<exists>k \<in> set (dict_get_default (or_by_capability reg) cid []). dict_get (or_items reg) k = Some x)
      \<longleftrightarrow> dict_get (or_items reg) (op_id x) = Some x \<and> op_capability_id x = Some cid" (is "?l \<longleftrightarrow> ?r")
  proof
    assume ?l
    then obtain k where k: "k \<in> set (dict_get_default (or_by_capability reg) cid [])"
      "dict_get (or_items reg) k = Some x" by blast
    with items [OF k(2)] ids [OF k(1)] show ?r by auto
  next
    assume ?r
    with idx show ?l by blast
  qed
  then show ?thesis by (auto simp: for_capability_def Let_def set_map_filter_iff)
qed

lemma map_filter_ids:
  "(\<And>k v. f k = Some v \<Longrightarrow> g v = k) \<Longrightarrow> distinct ks \<Longrightarrow> distinct (map g (List.map_filter f ks))"
proof (induction ks)
  case (Cons k ks)
  have "k \<notin> g ` set (List.map_filter f ks)"
    using Cons.prems by (auto simp: set_map_filter_iff)
  with Cons show ?case by (auto split: option.splits)
qed simp

lemma for_capability_distinct:
  assumes "registry_ok reg"
  shows "distinct (map op_id (for_capability cid False reg))"
proof -
  have "distinct (map op_id (List.map_filter (dict_get (or_items reg))
      (dict_get_default (or_by_capability reg) cid [])))"
    using assms by (intro map_filter_ids) (auto simp: registry_ok_def Let_def)
  then show ?thesis by (simp add: for_capability_def Let_def distinct_map_filter)
qed

lemma mset_by_key:
  assumes "distinct ids"
  shows "mset (concat (map (\<lambda>i. filter (\<lambda>x. f x = i) xs) ids)) = mset (filter (\<lambda>x. f x \<in> set ids) xs)"
  using assms
proof (induction ids)
  case (Cons i ids)
  have "mset (filter (\<lambda>x. f x = i \<or> f x \<in> set ids) xs)
      = mset (filter (\<lambda>x. f x = i) xs) + mset (filter (\<lambda>x. f x \<in> set ids) xs)"
    using Cons.prems by (induction xs) auto
  with Cons show ?case by simp
qed simp

lemma mset_filter_split:
  "mset (filter P xs) + mset (filter (\<lambda>x. \<not> P x) xs) = mset xs"
  by (induction xs) auto

lemma mset_remove_id:
  assumes "d \<in> set xs" and "distinct (map f xs)"
  shows "add_mset d (mset (filter (\<lambda>x. f x \<noteq> f d) xs)) = mset xs"
  using assms
proof (induction xs)
  case (Cons x xs)
  show ?case
  proof (cases "x = d")
    case True
    have "f y \<noteq> f d" if "y \<in> set xs" for y
      using that Cons.prems(2) True by (metis distinct.simps(2) imageI list.set_map list.simps(9))
    then have "filter (\<lambda>x. f x \<noteq> f d) xs = xs" by (simp add: filter_id_conv)
    with True show ?thesis by simp
  next
    case False
    with Cons.prems have "d \<in> set xs" by simp
    moreover from this have "f x \<noteq> f d" using Cons.prems(2) by auto
    ultimately show ?thesis using Cons by simp
  qed
qed simp

lemma mset_by_priority [simp]: "mset (by_priority xs) = mset xs"
  by (simp add: by_priority_def)

lemma order_default_mset:
  assumes "registry_ok reg" and "distinct (sp_preferred p)"
  shows "mset (order_default reg cid p (eligible reg cid p)) = mset (eligible reg cid p)"
proof -
  let ?c = "eligible reg cid p"
  define preferred where
    "preferred = concat (map (\<lambda>oid. filter (\<lambda>x. op_id x = oid) ?c) (sp_preferred p))"
  define remaining where "remaining = filter (\<lambda>x. op_id x \<notin> op_id ` set preferred) ?c"
  have dist: "distinct (map op_id ?c)"
    using for_capability_distinct [OF assms(1)] by (simp add: eligible_def distinct_map_filter)
  have pref: "mset preferred = mset (filter (\<lambda>x. op_id x \<in> set (sp_preferred p)) ?c)"
    unfolding preferred_def by (rule mset_by_key [OF assms(2)])
  have "op_id x \<in> op_id ` set preferred \<longleftrightarrow> op_id x \<in> set (sp_preferred p)" if "x \<in> set ?c" for x
  proof -
    have "y \<in> set preferred \<longleftrightarrow> y \<in> set ?c \<and> op_id y \<in> set (sp_preferred p)" for y
      using mset_eq_setD [OF pref] by simp
    with that show ?thesis by (metis imageE imageI)
  qed
  then have rem: "remaining = filter (\<lambda>x. \<not> op_id x \<in> set (sp_preferred p)) ?c"
    unfolding remaining_def by (intro filter_cong refl) blast
  have all: "mset preferred + mset remaining = mset ?c"
    unfolding pref rem by (rule mset_filter_split)
  have dmem: "d \<in> set ?c"
    if d: "default_for_capability cid reg = Some d" "op_enabled d" "op_id d \<notin> set (sp_excluded p)" for d
  proof -
    from d(1) obtain oid where oid: "dict_get (or_default reg) cid = Some oid"
      "dict_get (or_items reg) oid = Some d"
      by (auto simp: default_for_capability_def split: option.splits)
    from assms(1) oid have "op_id d = oid"
      unfolding registry_ok_def by blast
    moreover from assms(1) oid(1) have "oid \<in> set (dict_get_default (or_by_capability reg) cid [])"
      unfolding registry_ok_def by blast
    with assms(1) have "\<exists>x. dict_get (or_items reg) oid = Some x \<and> op_capability_id x = Some cid"
      unfolding registry_ok_def Let_def by blast
    with oid have "op_capability_id d = Some cid" by simp
    ultimately show ?thesis using oid d(2,3) by (simp add: eligible_def for_capability_members [OF assms(1)])
  qed
  have drem: "d \<in> set remaining" if "d \<in> set ?c" "op_id d \<notin> op_id ` set preferred" for d
    using that by (simp add: remaining_def)
  have rdist: "distinct (map op_id remaining)"
    using dist by (simp add: remaining_def distinct_map_filter)
  show ?thesis
  proof (cases "default_for_capability cid reg")
    case None
    with all show ?thesis
      by (auto simp: order_default_def Let_def preferred_def [symmetric] remaining_def [symmetric])
  next
    case (Some d)
    show ?thesis
      using Some all dmem [OF Some] drem mset_remove_id [OF _ rdist, of d] mset_remove_id [OF _ dist, of d]
      by (auto simp: order_default_def Let_def preferred_def [symmetric] remaining_def [symmetric])
  qed
qed

lemma order_candidates_mset:
  assumes "registry_ok reg" and "distinct (sp_preferred (case policy of None \<Rightarrow> default_policy | Some p \<Rightarrow> p))"
    and "order_candidates reg cid (for_capability cid False reg) policy = Inr ops"
  shows "mset ops = mset (eligible reg cid (case policy of None \<Rightarrow> default_policy | Some p \<Rightarrow> p))
     \<and> ops \<noteq> []"
proof -
  let ?p = "case policy of None \<Rightarrow> default_policy | Some p \<Rightarrow> p"
  from assms(3) have ne: "eligible reg cid ?p \<noteq> []"
    by (auto simp: order_candidates_def Let_def eligible_def split: if_splits)
  have "mset ops = mset (eligible reg cid ?p)"
    using assms(3) order_default_mset [OF assms(1,2)]
    by (auto simp: order_candidates_def Let_def eligible_def split: if_splits selection_mode.splits)
  with ne show ?thesis by auto
qed


text \<open>
  C9: A resolved operator is always usable: enabled, and for a capability reference an
  implementation of that capability which the policy does not exclude.
\<close>

theorem resolve_candidates_usable:
  assumes "registry_ok reg"
    and "distinct (sp_preferred (case policy of None \<Rightarrow> default_policy | Some p \<Rightarrow> p))"
    and "resolve_candidates reg (BindCapabilityRef cid) policy = Inr ops" and "x \<in> set ops"
  shows "op_enabled x \<and> op_capability_id x = Some cid \<and> dict_get (or_items reg) (op_id x) = Some x
     \<and> op_id x \<notin> set (sp_excluded (case policy of None \<Rightarrow> default_policy | Some p \<Rightarrow> p))"
proof -
  let ?p = "case policy of None \<Rightarrow> default_policy | Some p \<Rightarrow> p"
  from assms(3) obtain ordered where o:
    "order_candidates reg cid (for_capability cid False reg) policy = Inr ordered" "set ops \<subseteq> set ordered"
    by (auto simp: resolve_candidates_def split: if_splits sum.splits dest: in_set_takeD)
  from order_candidates_mset [OF assms(1,2) o(1)] o(2) assms(4)
  have "x \<in> set (eligible reg cid ?p)" by (auto dest: mset_eq_setD)
  then show ?thesis by (simp add: eligible_def for_capability_members [OF assms(1)])
qed

subsection \<open>A concrete registry\<close>

definition sample_operator :: "string \<Rightarrow> int \<Rightarrow> bool \<Rightarrow> operator" where
  "sample_operator n k b = \<lparr>op_id = n, op_capability_id = Some ''search'', op_priority = k,
     op_enabled = b, op_is_async = False, op_output_contract = (\<lambda>_. None)\<rparr>"

definition sample_registration :: "operator_registry res" where
  "sample_registration = foldR (\<lambda>r (x, d). register_operator (\<lambda>_ _. []) x 0 d r)
     (empty_registry\<lparr>or_capabilities := [(''search'', \<lparr>cap_id = ''search'', cap_contract = None\<rparr>)]\<rparr>)
     [(sample_operator ''a'' 1 True, False), (sample_operator ''b'' 5 True, False),
      (sample_operator ''c'' 9 False, False), (sample_operator ''d'' 0 True, True)]"

definition sample_registry :: operator_registry where
  "sample_registry = projr sample_registration"

definition sample_selection :: selection_policy where
  "sample_selection = \<lparr>sp_mode = SelDefault, sp_allow_fallback = True, sp_preferred = [''a''],
     sp_excluded = []\<rparr>"

lemma registry_ok_capabilities: "registry_ok (empty_registry\<lparr>or_capabilities := c\<rparr>)"
  by (simp add: registry_ok_def empty_registry_def dict_get_default_def)

lemma sample_registry_ok: "registry_ok sample_registry"
proof -
  have "\<not> isl sample_registration" by code_simp
  then have "sample_registration = Inr sample_registry"
    by (cases sample_registration) (simp_all add: sample_registry_def)
  then show ?thesis
    unfolding sample_registration_def
    by (rule foldR_invariant) (use registry_ok_capabilities in blast,
        auto split: prod.splits simp del: set_simps dest: register_operator_ok)
qed

lemma sample_resolution:
  "\<exists>ops. resolve_candidates sample_registry (BindCapabilityRef ''search'') (Some sample_selection) = Inr ops
     \<and> map op_id ops = [''a'', ''d'', ''b'']"
proof -
  have "case resolve_candidates sample_registry (BindCapabilityRef ''search'') (Some sample_selection) of
      Inl e \<Rightarrow> False | Inr ops \<Rightarrow> map op_id ops = [''a'', ''d'', ''b'']"
    by code_simp
  then show ?thesis by (auto split: sum.splits)
qed


lemma resolve_candidates_usable_witness:
  "\<exists>x :: operator. op_id x = ''d'' \<and> op_enabled x \<and> op_capability_id x = Some ''search''"
proof -
  obtain ops where ops: "map op_id ops = [''a'', ''d'', ''b'']"
    "resolve_candidates sample_registry (BindCapabilityRef ''search'') (Some sample_selection) = Inr ops"
    using sample_resolution by (elim exE conjE) (rule that)
  have "''d'' \<in> set (map op_id ops)" unfolding ops(1) by simp
  then obtain x where "x \<in> set ops" "op_id x = ''d''" by fastforce
  with resolve_candidates_usable [OF sample_registry_ok _ ops(2)] show ?thesis
    by (auto simp: sample_selection_def)
qed

end
