(* ===== verification/Mailbox.thy ===== *)
theory Mailbox
  imports Invocations
begin

text \<open>
  The process-local mailbox between node workers and the executor:
  \<open>core/runtime/mailbox.py\<close>. A task is a number; the event that wakes the waiting reader is
  represented by the three outcomes of \<open>wait_for_messages\<close>: messages, nothing to wait for, or
  blocked until a producer publishes.
\<close>

record 'm mailbox =
  mb_running :: "(nat \<times> uuid) list"
  mb_messages :: "'m list"
  mb_accepting :: bool

definition new_mailbox :: "'m mailbox" where
  "new_mailbox = \<lparr>mb_running = [], mb_messages = [], mb_accepting = True\<rparr>"

definition track :: "nat \<Rightarrow> uuid \<Rightarrow> 'm mailbox \<Rightarrow> 'm mailbox res" where
  "track t u m =
     (if \<not> mb_accepting m then Inl (RuntimeError ''Invocation mailbox is closed.'')
      else Inr (m\<lparr>mb_running := dict_set t u (mb_running m)\<rparr>))"

definition put_message :: "'m \<Rightarrow> 'm mailbox \<Rightarrow> 'm mailbox" where
  "put_message x m = (if mb_accepting m then m\<lparr>mb_messages := mb_messages m @ [x]\<rparr> else m)"

definition finish_task :: "nat \<Rightarrow> 'm \<Rightarrow> 'm mailbox \<Rightarrow> 'm mailbox res" where
  "finish_task t x m =
     (if dict_get (mb_running m) t = None
      then Inl (KeyError ''Task does not belong to this Invocation mailbox.'')
      else Inr (put_message x (m\<lparr>mb_running := dict_pop t (mb_running m)\<rparr>)))"

definition drain_messages :: "'m mailbox \<Rightarrow> 'm list \<times> 'm mailbox" where
  "drain_messages m = (mb_messages m, m\<lparr>mb_messages := []\<rparr>)"

datatype 'm wait_outcome = Messages "'m list" | NothingRunning | Blocked

definition wait_for_messages :: "'m mailbox \<Rightarrow> 'm wait_outcome \<times> 'm mailbox" where
  "wait_for_messages m =
     (let (xs, m') = drain_messages m in
      if xs \<noteq> [] then (Messages xs, m')
      else if mb_running m' = [] then (NothingRunning, m') else (Blocked, m'))"

definition has_pending :: "'m mailbox \<Rightarrow> bool" where
  "has_pending m \<longleftrightarrow> mb_running m \<noteq> [] \<or> mb_messages m \<noteq> []"

text \<open>
  \<open>abandon\<close> cancels the tasks and lets them finish: \<open>late\<close> are the messages they still
  publish while they are gathered.
\<close>

definition abandon :: "'m list \<Rightarrow> 'm mailbox \<Rightarrow> 'm list \<times> 'm mailbox" where
  "abandon late m =
     (let m1 = foldl (\<lambda>m x. put_message x m) m (if mb_running m = [] then [] else late);
          (xs, m2) = drain_messages (m1\<lparr>mb_running := []\<rparr>)
      in (xs, m2\<lparr>mb_accepting := False\<rparr>))"

definition close_mailbox :: "'m mailbox \<Rightarrow> 'm mailbox" where
  "close_mailbox m = m\<lparr>mb_accepting := False\<rparr>"

section \<open>The life of a mailbox\<close>

text \<open>What may happen to a mailbox, with the messages the reader has received as history.\<close>

inductive mailbox_step :: "'m mailbox \<times> 'm list \<Rightarrow> 'm mailbox \<times> 'm list \<Rightarrow> bool" where
  step_track: "track t u m = Inr m' \<Longrightarrow> mailbox_step (m, h) (m', h)"
| step_put: "mailbox_step (m, h) (put_message x m, h)"
| step_finish: "finish_task t x m = Inr m' \<Longrightarrow> mailbox_step (m, h) (m', h)"
| step_wait: "wait_for_messages m = (Messages xs, m') \<Longrightarrow> mailbox_step (m, h) (m', h @ xs)"
| step_abandon: "abandon late m = (xs, m') \<Longrightarrow> mailbox_step (m, h) (m', h)"
| step_close: "mailbox_step (m, h) (close_mailbox m, h)"

inductive_cases mailbox_stepE: "mailbox_step (m, h) s'"

text \<open>Once closed, a mailbox stays closed and takes in nothing.\<close>

lemma mailbox_closed_step:
  assumes "mailbox_step s s'" and "\<not> mb_accepting (fst s)"
  shows "\<not> mb_accepting (fst s') \<and> length (mb_messages (fst s')) \<le> length (mb_messages (fst s))
     \<and> length (mb_running (fst s')) \<le> length (mb_running (fst s))"
  using assms
proof (induction rule: mailbox_step.induct)
  case (step_abandon late m xs m' h)
  have "foldl (\<lambda>m x. put_message x m) m ys = m" for ys
    using step_abandon(2) by (induction ys) (simp_all add: put_message_def)
  with step_abandon show ?case by (auto simp: abandon_def drain_messages_def Let_def)
qed (auto simp: track_def put_message_def finish_task_def wait_for_messages_def drain_messages_def
    close_mailbox_def Let_def dict_pop_def length_delete_le split: if_splits)

lemma foldl_put:
  "mb_accepting m \<Longrightarrow> foldl (\<lambda>m x. put_message x m) m xs = m\<lparr>mb_messages := mb_messages m @ xs\<rparr>"
  by (induction xs arbitrary: m) (simp_all add: put_message_def)





end
