(* ===== verification/Dispatch.thy ===== *)
theory Dispatch
  imports Operators Mailbox Records
begin

text \<open>
  Handing prepared jobs to the workers: the messages of \<open>core/executor/result.py\<close> and the
  control-path half of \<open>core/executor/node_executor.py\<close>, which interprets system commands,
  resolves operators and starts one task per remaining job. A task is numbered by the node
  execution it runs. Elapsed times and timings of messages are left out.
\<close>

section \<open>Messages\<close>

record phase_result =
  ph_name :: string
  ph_status :: string
  ph_input :: pyval
  ph_output :: pyval

record node_result =
  nr_execution_id :: uuid
  nr_state :: node_state
  nr_output :: pyval
  nr_error :: "runtime_error_info option"
  nr_usage :: resource_usage
  nr_wait_key :: "string option"
  nr_wait_type :: "string option"
  nr_wait_payload :: "pyval dict option"
  nr_operator_executions :: "operator_execution list"
  nr_phases :: "phase_result list"

definition mk_result :: "uuid \<Rightarrow> node_state \<Rightarrow> pyval \<Rightarrow> runtime_error_info option \<Rightarrow> node_result" where
  "mk_result u st out err =
     \<lparr>nr_execution_id = u, nr_state = st, nr_output = out, nr_error = err, nr_usage = no_usage,
      nr_wait_key = None, nr_wait_type = None, nr_wait_payload = None,
      nr_operator_executions = [], nr_phases = []\<rparr>"

text \<open>
  \<open>NodeExecutionProgress\<close>: its three kinds as constructors, so that the check of
  \<open>__post_init__\<close> that exactly the field of the kind is present holds by typing. The
  specifications of user events carry no timestamp.
\<close>

record user_event_spec =
  us_type :: string
  us_data :: pyval
  us_node_id :: string
  us_node_execution_id :: uuid
  us_workflow_path :: "string list"
  us_operator_call_id :: "uuid option"

datatype node_message =
    PhaseProgress uuid phase_result
  | OperatorProgress uuid operator_execution
  | UserEventProgress uuid "user_event_spec list"
  | ResultMessage node_result

section \<open>Jobs\<close>

record job =
  job_node :: node_ir
  job_execution :: node_execution
  job_input :: pyval
  job_max_operator_attempts :: "nat option"
  job_map_policy :: "map_policy option"
  job_concurrency_key :: "string option"
  job_recovery :: bool
  job_hook_context :: "hook_context option"
  job_event_mode :: event_mode

abbreviation job_id :: "job \<Rightarrow> uuid" where
  "job_id j \<equiv> ne_id (job_execution j)"

definition failed_result :: "job \<Rightarrow> runtime_error_info \<Rightarrow> node_result" where
  "failed_result j e = mk_result (job_id j) NodeFailed PyNone (Some e)"

definition node_detail :: "job \<Rightarrow> (string \<times> pyval) list" where
  "node_detail j = [(''node_id'', PyStr (nd_id (job_node j)))]"

text \<open>
  \<open>_execute_system_command\<close>. A wait key that is neither a string nor false has no \<open>strip\<close>: an
  exception outside the handled ones.
\<close>

definition invalid_wait_input :: "job \<Rightarrow> string \<Rightarrow> node_result" where
  "invalid_wait_input j msg = failed_result j (mk_error ''SYSTEM_COMMAND_INPUT_INVALID'' msg
     (node_detail j @ [(''expected_schema'', nd_input_schema (job_node j))]))"

definition wait_result :: "job \<Rightarrow> pyval dict \<Rightarrow> node_result res" where
  "wait_result j args =
     (let key0 = dict_get_default args ''wait_key'' PyNone;
          type0 = dict_get_default args ''wait_type'' PyNone;
          payload0 = dict_get_default args ''payload'' PyNone
      in bindR (if py_truthy key0 then as_str key0 else Inr (uuid_str (job_id j)))
        (\<lambda>key.
          if list_all is_space key
          then Inr (invalid_wait_input j ''SystemCommand wait_key cannot be empty.'')
          else bindR (if py_truthy type0 then as_str type0 else Inr ''external'')
            (\<lambda>wt. bindR (if py_truthy payload0 then as_dict payload0 else Inr [])
              (\<lambda>payload. Inr ((mk_result (job_id j) NodeWaiting PyNone None)
                 \<lparr>nr_wait_key := Some key, nr_wait_type := Some wt,
                  nr_wait_payload := Some payload\<rparr>)))))"

definition execute_system_command :: "job \<Rightarrow> node_result res" where
  "execute_system_command j =
     (case nd_capability (job_node j) of
        BindSystemCommand sid _ \<Rightarrow>
          if sid \<noteq> ''wait'' then
            Inr (failed_result j (mk_error ''SYSTEM_COMMAND_UNSUPPORTED''
              ''NodeExecutor received an unsupported SystemCommand.'' (node_detail j)))
          else if job_map_policy j \<noteq> None \<or> nd_policy (job_node j) \<noteq> None then
            Inr (failed_result j (mk_error ''SYSTEM_COMMAND_POLICY_UNSUPPORTED''
              ''SystemCommand wait cannot execute with node or map policies.'' (node_detail j)))
          else (case job_input j of
              PyDict d \<Rightarrow> (case nd_input_contract (job_node j) d of
                  Inl x \<Rightarrow> Inr (invalid_wait_input j (exn_message x))
                | Inr args \<Rightarrow> wait_result j args)
            | _ \<Rightarrow> Inr (invalid_wait_input j
                ''SystemCommand wait input must be a named-argument mapping.''))
      | _ \<Rightarrow> Inr (failed_result j (mk_error ''SYSTEM_COMMAND_UNSUPPORTED''
              ''NodeExecutor received an unsupported SystemCommand.'' (node_detail j))))"

section \<open>Submitting a batch\<close>

text \<open>
  \<open>NodeExecutor.submit_batch\<close> for one job. The operators of a started task are kept with the
  task for its worker.
\<close>

datatype dispatch =
    Immediate node_result
  | Started "operator list"

definition dispatch_job :: "operator_registry \<Rightarrow> job \<Rightarrow> dispatch res" where
  "dispatch_job reg j =
     (case nd_capability (job_node j) of
        BindSystemCommand _ _ \<Rightarrow> bindR (execute_system_command j) (\<lambda>r. Inr (Immediate r))
      | binding \<Rightarrow>
          (case resolve_candidates reg binding
              (case nd_policy (job_node j) of None \<Rightarrow> None | Some p \<Rightarrow> np_selection p) of
             Inl e \<Rightarrow> Inr (Immediate (failed_result j
                 (e\<lparr>err_detail := (''node_id'', PyStr (nd_id (job_node j))) # err_detail e\<rparr>)))
           | Inr ops \<Rightarrow>
               (let limited = (case job_max_operator_attempts j of None \<Rightarrow> ops | Some k \<Rightarrow> take k ops) in
                if limited = [] then
                  Inr (Immediate (failed_result j (mk_error ''RESOURCE_LIMIT_EXCEEDED''
                    ''Operator attempt limit exceeded.'' (node_detail j))))
                else Inr (Started limited))))"

definition submit_job ::
  "operator_registry \<Rightarrow> node_message mailbox \<Rightarrow> job \<Rightarrow> node_message mailbox res" where
  "submit_job reg m j =
     bindR (dispatch_job reg j)
       (\<lambda>d. case d of
          Immediate r \<Rightarrow> Inr (put_message (ResultMessage r) m)
        | Started _ \<Rightarrow> track (job_id j) (job_id j) m)"

definition submit_batch ::
  "operator_registry \<Rightarrow> job list \<Rightarrow> node_message mailbox \<Rightarrow> node_message mailbox res" where
  "submit_batch reg jobs m = foldR (submit_job reg) m jobs"

section \<open>Every job is answered\<close>

definition result_ids :: "node_message list \<Rightarrow> uuid list" where
  "result_ids ms = List.map_filter
     (\<lambda>x. case x of ResultMessage r \<Rightarrow> Some (nr_execution_id r) | _ \<Rightarrow> None) ms"

lemma result_ids_simps [simp]:
  "result_ids [] = []"
  "result_ids (ResultMessage r # ms) = nr_execution_id r # result_ids ms"
  "result_ids (PhaseProgress u p # ms) = result_ids ms"
  "result_ids (OperatorProgress u q # ms) = result_ids ms"
  "result_ids (UserEventProgress u es # ms) = result_ids ms"
  "result_ids (ms @ ms') = result_ids ms @ result_ids ms'"
  by (simp_all add: result_ids_def map_filter_def)

text \<open>The executions a mailbox still owes a result for: a running task or an unread result.\<close>

definition outstanding :: "node_message mailbox \<Rightarrow> uuid list" where
  "outstanding m = map snd (mb_running m) @ result_ids (mb_messages m)"

lemma mk_result_id [simp]: "nr_execution_id (mk_result u st out err) = u"
  by (simp add: mk_result_def)

lemma failed_result_id [simp]: "nr_execution_id (failed_result j e) = job_id j"
  by (simp add: failed_result_def)

lemma wait_result_id: "wait_result j args = Inr r \<Longrightarrow> nr_execution_id r = job_id j"
  by (auto simp: wait_result_def Let_def invalid_wait_input_def bindR_eq_Inr split: if_splits)

lemma execute_system_command_id:
  "execute_system_command j = Inr r \<Longrightarrow> nr_execution_id r = job_id j"
  by (auto simp: execute_system_command_def invalid_wait_input_def wait_result_id
      split: capability_binding.splits if_splits pyval.splits sum.splits)

lemma dispatch_job_id: "dispatch_job reg j = Inr (Immediate r) \<Longrightarrow> nr_execution_id r = job_id j"
  by (auto simp: dispatch_job_def bindR_eq_Inr Let_def execute_system_command_id
      split: capability_binding.splits sum.splits if_splits option.splits)

lemma dict_set_new: "dict_get d k = None \<Longrightarrow> dict_set k v d = d @ [(k, v)]"
  unfolding dict_get_def dict_set_def
  by (induction d) (auto split: if_splits)

lemma submit_job_outstanding:
  assumes "submit_job reg m j = Inr m'" and "mb_accepting m"
    and "dict_get (mb_running m) (job_id j) = None"
  shows "mset (outstanding m') = add_mset (job_id j) (mset (outstanding m))" "mb_accepting m'"
    "set (dict_keys (mb_running m')) \<subseteq> insert (job_id j) (set (dict_keys (mb_running m)))"
proof -
  from assms(1) obtain d where d: "dispatch_job reg j = Inr d"
    "(case d of Immediate r \<Rightarrow> Inr (put_message (ResultMessage r) m)
        | Started _ \<Rightarrow> track (job_id j) (job_id j) m) = Inr m'"
    by (auto simp: submit_job_def bindR_eq_Inr)
  have "mset (outstanding m') = add_mset (job_id j) (mset (outstanding m)) \<and> mb_accepting m'
     \<and> set (dict_keys (mb_running m')) \<subseteq> insert (job_id j) (set (dict_keys (mb_running m)))"
  proof (cases d)
    case (Immediate r)
    with d dispatch_job_id [of reg j r] assms(2) show ?thesis
      by (auto simp: put_message_def outstanding_def)
  next
    case (Started ops)
    with d assms(2,3) show ?thesis
      by (auto simp: track_def outstanding_def dict_set_new dict_keys_def)
  qed
  then show "mset (outstanding m') = add_mset (job_id j) (mset (outstanding m))" "mb_accepting m'"
    "set (dict_keys (mb_running m')) \<subseteq> insert (job_id j) (set (dict_keys (mb_running m)))"
    by simp_all
qed

lemma submit_batch_step:
  assumes "submit_batch reg jobs m = Inr m'" and "mb_accepting m"
    and "distinct (map job_id jobs)"
    and "set (map job_id jobs) \<inter> set (dict_keys (mb_running m)) = {}"
  shows "mset (outstanding m') = mset (outstanding m) + mset (map job_id jobs) \<and> mb_accepting m'
    \<and> set (dict_keys (mb_running m')) \<subseteq> set (map job_id jobs) \<union> set (dict_keys (mb_running m))"
  using assms unfolding submit_batch_def
proof (induction jobs arbitrary: m)
  case Nil
  then show ?case by simp
next
  case (Cons j jobs)
  then obtain m1 where m1: "submit_job reg m j = Inr m1" "foldR (submit_job reg) m1 jobs = Inr m'"
    by (auto simp: bindR_eq_Inr)
  have "dict_get (mb_running m) (job_id j) = None"
    using Cons.prems(4) by (auto simp: dict_get_None_iff)
  note s = submit_job_outstanding [OF m1(1) Cons.prems(2) this]
  have "set (map job_id jobs) \<inter> insert (job_id j) (set (dict_keys (mb_running m))) = {}"
    using Cons.prems(3,4) by auto
  with s(3) have "set (map job_id jobs) \<inter> set (dict_keys (mb_running m1)) = {}" by blast
  with Cons.IH [OF m1(2) s(2)] s Cons.prems(3) show ?case by auto
qed

text \<open>
  C23: Every submitted job is answered exactly once: after a batch of jobs of distinct
  executions that are not already running, the mailbox owes exactly the results it owed before
  and one for each job, whatever the commands, the registry and the attempt limits are.
\<close>

theorem submit_batch_outstanding:
  assumes "submit_batch reg jobs m = Inr m'" and "mb_accepting m"
    and "distinct (map job_id jobs)"
    and "set (map job_id jobs) \<inter> set (dict_keys (mb_running m)) = {}"
  shows "mset (outstanding m') = mset (outstanding m) + mset (map job_id jobs) \<and> mb_accepting m'"
  using submit_batch_step [OF assms] by simp

end
