(* ===== verification/Scheduler.thy ===== *)
theory Scheduler
  imports Invocations
begin

text \<open>
  The graph scheduler: \<open>core/scheduler/scheduler.py\<close>, class \<open>Scheduler\<close>. One definition per
  method, over the invocation as explicit state. The four methods that call each other
  (\<open>_finalize_loop_boundary\<close>, \<open>_resolve_node_instances\<close>, \<open>_skip_node_instance\<close>,
  \<open>_propagate_finalized_boundary_edge\<close>) are written over the boundary finalisation as an
  argument \<open>fin\<close>, and \<open>finalize_loop_boundary\<close> ties the knot with a recursion budget. The
  Python sets that only collect boundaries are kept in insertion order.
\<close>

section \<open>Scopes and regions\<close>

type_synonym target = "string \<times> execution_scope"

definition initial_scope :: "workflow_ir \<Rightarrow> string \<Rightarrow> execution_scope" where
  "initial_scope W n = map (\<lambda>rid. LoopIteration rid 0) (loop_stack_of W n)"

definition target_scope :: "workflow_ir \<Rightarrow> edge_ir \<Rightarrow> execution_scope \<Rightarrow> execution_scope" where
  "target_scope W e source_scope =
     (let target_stack = loop_stack_of W (ed_to_node e);
          common = common_len (map frame_region source_scope) target_stack
      in take common source_scope @ map (\<lambda>rid. LoopIteration rid 0) (drop common target_stack))"

definition scope_for_node :: "workflow_ir \<Rightarrow> string \<Rightarrow> execution_scope \<Rightarrow> execution_scope" where
  "scope_for_node W n available =
     (let stack = loop_stack_of W n;
          scope = take (length stack) available
      in scope @ map (\<lambda>rid. LoopIteration rid 0) (drop (length scope) stack))"

fun header_region_in :: "workflow_ir \<Rightarrow> string \<Rightarrow> string list \<Rightarrow> loop_region_ir option res" where
  "header_region_in W n [] = Inr None"
| "header_region_in W n (rid # rids) =
     bindR (region_of W rid)
       (\<lambda>r. if lr_header_node_id r = n then Inr (Some r) else header_region_in W n rids)"

definition header_region :: "workflow_ir \<Rightarrow> string \<Rightarrow> loop_region_ir option res" where
  "header_region W n = header_region_in W n (rev (loop_stack_of W n))"

fun loop_scope :: "execution_scope \<Rightarrow> string \<Rightarrow> execution_scope res" where
  "loop_scope [] rid = Inl (KeyError (''Execution scope does not contain loop: '' @ rid))"
| "loop_scope (f # fs) rid =
     (if frame_region f = rid then Inr [f] else bindR (loop_scope fs rid) (\<lambda>s. Inr (f # s)))"

fun frame_of :: "execution_scope \<Rightarrow> string \<Rightarrow> loop_iteration res" where
  "frame_of [] rid = Inl (KeyError (''Execution scope does not contain loop: '' @ rid))"
| "frame_of (f # fs) rid = (if frame_region f = rid then Inr f else frame_of fs rid)"

definition loop_instance_key :: "execution_scope \<Rightarrow> string \<Rightarrow> string res" where
  "loop_instance_key scope rid =
     bindR (loop_scope scope rid) (\<lambda>s. Inr (rid @ ''@'' @ execution_scope_key s))"

fun boundary_owner_in :: "workflow_ir \<Rightarrow> edge_ir \<Rightarrow> execution_scope \<Rightarrow> loop_region_ir option res" where
  "boundary_owner_in W e [] = Inr None"
| "boundary_owner_in W e (f # fs) =
     bindR (region_of W (frame_region f))
       (\<lambda>r. if ed_id e \<in> set (lr_back_edge_ids r) \<or> ed_id e \<in> set (lr_exit_edge_ids r)
            then Inr (Some r) else boundary_owner_in W e fs)"

definition boundary_owner :: "workflow_ir \<Rightarrow> edge_ir \<Rightarrow> execution_scope \<Rightarrow> loop_region_ir option res"
where
  "boundary_owner W e source_scope = boundary_owner_in W e (rev source_scope)"

definition incoming_edges_for_instance ::
  "workflow_ir \<Rightarrow> string \<Rightarrow> execution_scope \<Rightarrow> string list res" where
  "incoming_edges_for_instance W n scope =
     bindR (header_region W n)
       (\<lambda>h. case h of
          None \<Rightarrow> Inr (incoming_of W n)
        | Some r \<Rightarrow> bindR (frame_of scope (lr_id r))
            (\<lambda>f. Inr (if frame_iteration f = 0 then lr_external_entry_edge_ids r
                      else lr_back_edge_ids r)))"

text \<open>\<open>sorted(set(targets), key=(node_order, scope_key))\<close>; an unknown node is a \<open>KeyError\<close>.\<close>

definition ordered_targets :: "workflow_ir \<Rightarrow> target list \<Rightarrow> target list res" where
  "ordered_targets W targets =
     (let order = enum_index (dict_keys (wf_nodes W)); unique = uniq_first targets in
      bindR (mapR (\<lambda>(n, s). dict_index order n) unique)
        (\<lambda>_. Inr (sort_key
           (\<lambda>(n, s). (dict_get_default order n 0, execution_scope_key s)) unique)))"

definition add_scheduled :: "string \<Rightarrow> invocation \<Rightarrow> invocation" where
  "add_scheduled key =
     on_scheduler (\<lambda>c. c\<lparr>scheduled_node_instances := insert key (scheduled_node_instances c)\<rparr>)"

definition add_skipped :: "string \<Rightarrow> invocation \<Rightarrow> invocation" where
  "add_skipped key =
     on_scheduler (\<lambda>c. c\<lparr>skipped_node_instances := insert key (skipped_node_instances c)\<rparr>)"

definition add_exited :: "string \<Rightarrow> invocation \<Rightarrow> invocation" where
  "add_exited key =
     on_scheduler (\<lambda>c. c\<lparr>exited_loop_instances := insert key (exited_loop_instances c)\<rparr>)"

definition add_entered :: "string \<Rightarrow> invocation \<Rightarrow> invocation" where
  "add_entered key =
     on_scheduler (\<lambda>c. c\<lparr>entered_loop_instances := insert key (entered_loop_instances c)\<rparr>)"

definition enter_loops :: "execution_scope \<Rightarrow> invocation \<Rightarrow> invocation res" where
  "enter_loops scope i =
     foldR (\<lambda>i f. bindR (loop_instance_key scope (frame_region f)) (\<lambda>k. Inr (add_entered k i)))
       i scope"

section \<open>Routing one outgoing edge\<close>

text \<open>
  The part that \<open>_advance_completed\<close>, \<open>_advance_blocked_execution\<close> and
  \<open>_skip_node_instance\<close> share: an edge that is a back or exit edge of an enclosing loop
  resolves at that loop's boundary, any other edge resolves in the target's scope.
\<close>

record routing =
  ro_invocation :: invocation
  ro_targets :: "target list"
  ro_boundaries :: "(string \<times> execution_scope) list"

definition route_edge ::
  "workflow_ir \<Rightarrow> edge_ir \<Rightarrow> execution_scope \<Rightarrow> edge_resolution_state \<Rightarrow> edge_activation option
   \<Rightarrow> routing \<Rightarrow> routing res" where
  "route_edge W e source_scope st act r =
     bindR (boundary_owner W e source_scope)
       (\<lambda>owner. case owner of
          Some region \<Rightarrow>
            bindR (loop_scope source_scope (lr_id region))
              (\<lambda>ls. bindR (on_scheduler_res
                       (resolve_loop_boundary (lr_id region) ls (ed_id e) st act) (ro_invocation r))
                (\<lambda>i. Inr (r\<lparr>ro_invocation := i,
                      ro_boundaries := List.insert (lr_id region, ls) (ro_boundaries r)\<rparr>)))
        | None \<Rightarrow>
            (let ts = target_scope W e source_scope in
             bindR (on_scheduler_res (resolve_edge (ed_id e) st act ts) (ro_invocation r))
               (\<lambda>i. Inr (r\<lparr>ro_invocation := i, ro_targets := ro_targets r @ [(ed_to_node e, ts)]\<rparr>))))"

section \<open>Skipping, propagation and the pending loop\<close>

type_synonym finalizer =
  "loop_region_ir \<Rightarrow> execution_scope \<Rightarrow> invocation \<Rightarrow> invocation res"

definition finalize_all ::
  "workflow_ir \<Rightarrow> finalizer \<Rightarrow> (string \<times> execution_scope) list \<Rightarrow> invocation \<Rightarrow> invocation res" where
  "finalize_all W fin boundaries i =
     foldR (\<lambda>i (rid, ls). bindR (region_of W rid) (\<lambda>r. fin r ls i)) i boundaries"

definition skip_node_instance ::
  "workflow_ir \<Rightarrow> finalizer \<Rightarrow> string \<Rightarrow> execution_scope \<Rightarrow> invocation
   \<Rightarrow> (invocation \<times> target list) res" where
  "skip_node_instance W fin n scope i =
     (let key = node_instance_key n scope in
      if key \<in> skipped_node_instances (inv_scheduler i) then Inr (i, [])
      else bindR (foldR (\<lambda>r eid. bindR (edge_of W eid)
                     (\<lambda>e. route_edge W e scope Skipped None r))
                   \<lparr>ro_invocation = add_skipped key i, ro_targets = [], ro_boundaries = []\<rparr>
                   (outgoing_of W n))
             (\<lambda>r. bindR (finalize_all W fin (ro_boundaries r) (ro_invocation r))
                (\<lambda>i'. Inr (i', ro_targets r))))"

text \<open>The loop over the enclosing frames, from the innermost; \<open>None\<close> when no frame owns the edge.\<close>

fun outer_boundary ::
  "workflow_ir \<Rightarrow> edge_ir \<Rightarrow> execution_scope \<Rightarrow> loop_region_ir option res" where
  "outer_boundary W e frames = boundary_owner_in W e frames"

definition propagate_finalized_boundary_edge ::
  "workflow_ir \<Rightarrow> finalizer \<Rightarrow> execution_scope \<Rightarrow> edge_ir \<Rightarrow> edge_resolution_state
   \<Rightarrow> edge_activation option \<Rightarrow> invocation \<Rightarrow> (invocation \<times> target list) res" where
  "propagate_finalized_boundary_edge W fin ls e st act i =
     (let outer_scope = butlast ls in
      bindR (outer_boundary W e (rev outer_scope))
        (\<lambda>outer. case outer of
           Some region \<Rightarrow>
             bindR (loop_scope outer_scope (lr_id region))
               (\<lambda>owner. bindR (on_scheduler_res
                          (resolve_loop_boundary (lr_id region) owner (ed_id e) st act) i)
                 (\<lambda>i1. bindR (fin region owner i1) (\<lambda>i2. Inr (i2, []))))
         | None \<Rightarrow>
             (let ts = target_scope W e ls in
              bindR (on_scheduler_res (resolve_edge (ed_id e) st act ts) i)
                (\<lambda>i1. Inr (i1, [(ed_to_node e, ts)])))))"

text \<open>Propagating several exits and collecting their targets.\<close>

definition propagate_exits ::
  "workflow_ir \<Rightarrow> finalizer \<Rightarrow> execution_scope
   \<Rightarrow> (string \<Rightarrow> (edge_resolution_state \<times> edge_activation option) res) \<Rightarrow> string list
   \<Rightarrow> invocation \<times> target list \<Rightarrow> (invocation \<times> target list) res" where
  "propagate_exits W fin ls resolution eids s =
     foldR (\<lambda>(i, targets) eid. bindR (edge_of W eid) (\<lambda>e. bindR (resolution eid)
         (\<lambda>(st, act). bindR (propagate_finalized_boundary_edge W fin ls e st act i)
           (\<lambda>(i', more). Inr (i', targets @ more))))) s eids"

definition skip_inactive_loop ::
  "workflow_ir \<Rightarrow> finalizer \<Rightarrow> loop_region_ir \<Rightarrow> execution_scope \<Rightarrow> invocation
   \<Rightarrow> (invocation \<times> target list) res" where
  "skip_inactive_loop W fin region ls i =
     (let i1 = foldl (\<lambda>i n. add_skipped (node_instance_key n (scope_for_node W n ls)) i) i
                 (lr_node_ids region) in
      bindR (loop_instance_key ls (lr_id region))
        (\<lambda>k. propagate_exits W fin ls (\<lambda>eid. Inr (Skipped, None)) (lr_exit_edge_ids region)
               (add_exited k i1, [])))"

text \<open>
  One round of the pending loop: what becomes of the popped instance. The result carries the
  targets to append.
\<close>

definition resolve_instance ::
  "workflow_ir \<Rightarrow> finalizer \<Rightarrow> string \<Rightarrow> execution_scope \<Rightarrow> invocation
   \<Rightarrow> (invocation \<times> target list) res" where
  "resolve_instance W fin n scope i =
     (let key = node_instance_key n scope; c = inv_scheduler i in
      if key \<in> scheduled_node_instances c \<or> key \<in> skipped_node_instances c then Inr (i, [])
      else bindR (incoming_edges_for_instance W n scope)
        (\<lambda>incoming.
          let resolutions =
                map (\<lambda>eid. dict_get (edge_resolutions c) (edge_occurrence_key eid scope)) incoming in
          if incoming = [] \<or> None \<in> set resolutions then Inr (i, [])
          else
            let activations = List.map_filter
                  (\<lambda>ro. case ro of
                     Some r \<Rightarrow> if er_state r = Selected then er_activation r else None
                   | None \<Rightarrow> None) resolutions in
            if activations \<noteq> [] then
              bindR (enter_loops scope
                  (on_scheduler (enqueue_ready n activations scope) (add_scheduled key i)))
                (\<lambda>i'. Inr (i', []))
            else bindR (header_region W n)
              (\<lambda>h. case h of
                 Some r \<Rightarrow> bindR (frame_of scope (lr_id r))
                   (\<lambda>f. if frame_iteration f = 0
                        then skip_inactive_loop W fin r (take (lr_depth r + 1) scope) i
                        else skip_node_instance W fin n scope i)
               | None \<Rightarrow> skip_node_instance W fin n scope i)))"

text \<open>\<open>while pending and invocation.state != "failed"\<close>, with a bound on the rounds.\<close>

fun resolve_pending ::
  "workflow_ir \<Rightarrow> finalizer \<Rightarrow> nat \<Rightarrow> target list \<Rightarrow> invocation \<Rightarrow> invocation res" where
  "resolve_pending W fin 0 pending i =
     (if pending = [] \<or> inv_state i = InvFailed then Inr i else Inl OutOfFuel)"
| "resolve_pending W fin (Suc k) pending i =
     (if inv_state i = InvFailed then Inr i
      else case pending of
        [] \<Rightarrow> Inr i
      | (n, scope) # rest \<Rightarrow>
          bindR (resolve_instance W fin n scope i)
            (\<lambda>(i', more). resolve_pending W fin k (rest @ more) i'))"

definition resolve_node_instances ::
  "workflow_ir \<Rightarrow> finalizer \<Rightarrow> nat \<Rightarrow> target list \<Rightarrow> invocation \<Rightarrow> invocation res" where
  "resolve_node_instances W fin rounds targets i =
     bindR (ordered_targets W targets) (\<lambda>pending. resolve_pending W fin rounds pending i)"

section \<open>Finalising a loop boundary\<close>

definition conflict_error ::
  "loop_region_ir \<Rightarrow> execution_scope \<Rightarrow> edge_resolution list \<Rightarrow> edge_resolution list
   \<Rightarrow> runtime_error_info" where
  "conflict_error region ls backs exits =
     mk_error ''LOOP_CONTINUE_EXIT_CONFLICT''
       ''One loop iteration cannot select both a back edge and an exit edge.''
       [(''loop_region_id'', PyStr (lr_id region)),
        (''loop_scope'', PyStr (execution_scope_key ls)),
        (''back_edge_ids'', PyList (map (\<lambda>r. PyStr (er_edge_id r)) backs)),
        (''exit_edge_ids'', PyList (map (\<lambda>r. PyStr (er_edge_id r)) exits))]"

definition dead_end_error :: "loop_region_ir \<Rightarrow> execution_scope \<Rightarrow> runtime_error_info" where
  "dead_end_error region ls =
     mk_error ''LOOP_DEAD_END'' ''Loop iteration selected neither a back edge nor an exit edge.''
       [(''loop_region_id'', PyStr (lr_id region)),
        (''loop_scope'', PyStr (execution_scope_key ls))]"

text \<open>\<open>next(item for item in resolutions if item.edge_id == edge_id)\<close>.\<close>

definition resolution_for ::
  "edge_resolution list \<Rightarrow> string \<Rightarrow> (edge_resolution_state \<times> edge_activation option) res" where
  "resolution_for rs eid = (case find (\<lambda>r. er_edge_id r = eid) rs of
      None \<Rightarrow> Inl (RuntimeError ''StopIteration'')
    | Some r \<Rightarrow> Inr (er_state r, er_activation r))"

definition boundary_resolutions ::
  "loop_region_ir \<Rightarrow> execution_scope \<Rightarrow> scheduler_context \<Rightarrow> edge_resolution option list" where
  "boundary_resolutions region ls c =
     map (\<lambda>eid. dict_get (loop_boundary_resolutions c) (loop_boundary_key (lr_id region) ls eid))
       (lr_back_edge_ids region @ lr_exit_edge_ids region)"

definition next_iteration_scope :: "loop_region_ir \<Rightarrow> execution_scope \<Rightarrow> execution_scope res" where
  "next_iteration_scope region ls =
     bindR (frame_of ls (lr_id region))
       (\<lambda>f. Inr (butlast ls @ [LoopIteration (lr_id region) (frame_iteration f + 1)]))"

definition continue_loop ::
  "workflow_ir \<Rightarrow> finalizer \<Rightarrow> nat \<Rightarrow> loop_region_ir \<Rightarrow> execution_scope \<Rightarrow> edge_resolution list
   \<Rightarrow> invocation \<Rightarrow> invocation res" where
  "continue_loop W fin rounds region ls rs i =
     bindR (next_iteration_scope region ls)
       (\<lambda>next_scope.
         bindR (foldR (\<lambda>i eid. bindR (resolution_for rs eid)
                   (\<lambda>(st, act). on_scheduler_res (resolve_edge eid st act next_scope) i))
                 i (lr_back_edge_ids region))
           (\<lambda>i'. resolve_node_instances W fin rounds [(lr_header_node_id region, next_scope)] i'))"

definition exit_loop ::
  "workflow_ir \<Rightarrow> finalizer \<Rightarrow> nat \<Rightarrow> loop_region_ir \<Rightarrow> execution_scope \<Rightarrow> edge_resolution list
   \<Rightarrow> invocation \<Rightarrow> invocation res" where
  "exit_loop W fin rounds region ls rs i =
     bindR (loop_instance_key ls (lr_id region))
       (\<lambda>k. bindR (propagate_exits W fin ls (resolution_for rs) (lr_exit_edge_ids region)
                    (add_exited k i, []))
          (\<lambda>(i', targets). resolve_node_instances W fin rounds targets i'))"

definition finalize_step ::
  "workflow_ir \<Rightarrow> finalizer \<Rightarrow> nat \<Rightarrow> loop_region_ir \<Rightarrow> execution_scope \<Rightarrow> invocation
   \<Rightarrow> invocation res" where
  "finalize_step W fin rounds region ls i =
     (let found = boundary_resolutions region ls (inv_scheduler i) in
      if None \<in> set found then Inr i
      else
        let rs = map the found;
            backs = filter (\<lambda>r. er_edge_id r \<in> set (lr_back_edge_ids region) \<and> er_state r = Selected) rs;
            exits = filter (\<lambda>r. er_edge_id r \<in> set (lr_exit_edge_ids region) \<and> er_state r = Selected) rs
        in
        if backs \<noteq> [] \<and> exits \<noteq> [] then Inr (mark_failed (conflict_error region ls backs exits) i)
        else if backs \<noteq> [] then continue_loop W fin rounds region ls rs i
        else if exits \<noteq> [] then exit_loop W fin rounds region ls rs i
        else Inr (mark_failed (dead_end_error region ls) i))"

fun finalize_loop_boundary :: "workflow_ir \<Rightarrow> nat \<Rightarrow> nat \<Rightarrow> finalizer" where
  "finalize_loop_boundary W rounds 0 region ls i = Inl OutOfFuel"
| "finalize_loop_boundary W rounds (Suc d) region ls i =
     finalize_step W (finalize_loop_boundary W rounds d) rounds region ls i"

section \<open>Entry points\<close>

text \<open>
  The budgets of one scheduler call: \<open>fu_rounds\<close> bounds every pending loop, \<open>fu_depth\<close> the
  nesting of boundary finalisations.
\<close>

record fuel =
  fu_rounds :: nat
  fu_depth :: nat

abbreviation fin_of :: "workflow_ir \<Rightarrow> fuel \<Rightarrow> finalizer" where
  "fin_of W fu \<equiv> finalize_loop_boundary W (fu_rounds fu) (fu_depth fu)"

definition initialize :: "workflow_ir \<Rightarrow> fuel \<Rightarrow> invocation \<Rightarrow> invocation res" where
  "initialize W fu i =
     (if entry_paths_initialized (inv_scheduler i) then Inr i
      else
        let entry = inv_entry_node_id i;
            i0 = on_scheduler (\<lambda>c. c\<lparr>entry_paths_initialized := True\<rparr>) i;
            scope = initial_scope W entry;
            (existing, c) = drain_ready None (inv_scheduler i0);
            acts = (case existing of [] \<Rightarrow> [] | r # _ \<Rightarrow> rq_activations r);
            i1 = i0\<lparr>inv_scheduler := enqueue_ready entry acts scope c\<rparr>;
            i2 = add_scheduled (node_instance_key entry scope) i1
        in
        bindR (enter_loops scope i2)
          (\<lambda>i3. foldR (\<lambda>i n. if n = entry then Inr i
                 else bindR (skip_node_instance W (fin_of W fu) n (initial_scope W n) i)
                        (\<lambda>(i', _). Inr i'))
               i3 (wf_entry_node_ids W)))"

definition skip_ready_request :: "workflow_ir \<Rightarrow> fuel \<Rightarrow> node_request \<Rightarrow> invocation \<Rightarrow> invocation res"
where
  "skip_ready_request W fu r i =
     bindR (skip_node_instance W (fin_of W fu) (rq_node_id r) (rq_scope r) i)
       (\<lambda>(i', targets). resolve_node_instances W (fin_of W fu) (fu_rounds fu) targets i')"

text \<open>Resolving the collected targets, then the collected boundaries.\<close>

definition settle_routing :: "workflow_ir \<Rightarrow> fuel \<Rightarrow> routing \<Rightarrow> invocation res" where
  "settle_routing W fu r =
     bindR (resolve_node_instances W (fin_of W fu) (fu_rounds fu) (ro_targets r) (ro_invocation r))
       (\<lambda>i. finalize_all W (fin_of W fu) (ro_boundaries r) i)"

definition advance_blocked_execution ::
  "workflow_ir \<Rightarrow> fuel \<Rightarrow> node_execution \<Rightarrow> string \<Rightarrow> invocation \<Rightarrow> invocation res" where
  "advance_blocked_execution W fu n reason i =
     bindR (foldR (\<lambda>r eid. bindR (edge_of W eid)
               (\<lambda>e. route_edge W e (ne_scope n) Skipped None
                 (r\<lparr>ro_invocation := update_execution (ne_id n)
                     (add_edge_evaluation (ed_id e) (ed_to_node e) EvalSkipped False (Some reason))
                     (ro_invocation r)\<rparr>)))
             \<lparr>ro_invocation = i, ro_targets = [], ro_boundaries = []\<rparr> (outgoing_of W (ne_node_id n)))
       (settle_routing W fu)"

text \<open>
  \<open>_evaluate_edge\<close>: the decision and its reason. \<open>None\<close> is a condition that raised; the
  elapsed time is not modelled.
\<close>

definition evaluate_edge ::
  "edge_ir \<Rightarrow> runtime_context \<Rightarrow> invocation \<Rightarrow> pyval \<Rightarrow> bool option \<times> string option" where
  "evaluate_edge e session_context i source_output =
     (case ed_condition e of
        NoCondition \<Rightarrow> (Some True, None)
      | StringCondition s \<Rightarrow>
          (Some False, Some ''String edge conditions are not supported at runtime yet.'')
      | NotCallableCondition \<Rightarrow> (Some False, Some ''Edge condition is not callable.'')
      | CallableCondition f \<Rightarrow>
          let pick = (\<lambda>local dflt. case local of Some (x # xs) \<Rightarrow> x # xs | _ \<Rightarrow> dflt);
              ctx = condition_context_create (inv_input i) (inv_context i) session_context
                (view_scoped (inv_outputs i) (ed_scope_node_ids e))
                (pick (ed_local_id e) (ed_id e)) (pick (ed_local_from_node e) (ed_from_node e))
                (pick (ed_local_to_node e) (ed_to_node e)) source_output
          in case f ctx of
               Inr b \<Rightarrow> (Some b, None)
             | Inl x \<Rightarrow> (None, Some (exn_type x @ '': '' @ exn_message x)))"

definition condition_failed_error :: "edge_ir \<Rightarrow> string option \<Rightarrow> runtime_error_info" where
  "condition_failed_error e reason =
     mk_error ''EDGE_CONDITION_FAILED'' (''Edge condition failed: '' @ ed_id e)
       [(''edge_id'', PyStr (ed_id e)),
        (''reason'', case reason of None \<Rightarrow> PyNone | Some s \<Rightarrow> PyStr s)]"

text \<open>
  The outgoing loop of \<open>_advance_completed\<close>. \<open>Inl\<close> inside the result is the early return
  after a raising condition. The per-edge event callback belongs to the executor's model.
\<close>

fun route_completed ::
  "workflow_ir \<Rightarrow> runtime_context \<Rightarrow> node_execution \<Rightarrow> string list \<Rightarrow> routing
   \<Rightarrow> (invocation + routing) res" where
  "route_completed W sctx n [] r = Inr (Inr r)"
| "route_completed W sctx n (eid # eids) r =
     bindR (edge_of W eid)
       (\<lambda>e. case evaluate_edge e sctx (ro_invocation r) (ne_output n) of
          (None, reason) \<Rightarrow>
            Inr (Inl (mark_failed (condition_failed_error e reason)
              (update_execution (ne_id n)
                (add_edge_evaluation (ed_id e) (ed_to_node e) EvalFailed False reason)
                (ro_invocation r))))
        | (Some sel, reason) \<Rightarrow>
            bindR (route_edge W e (ne_scope n) (if sel then Selected else Skipped)
                (if sel then Some (EdgeActivation (ed_id e) (ed_from_node e) (ne_id n)) else None)
                (r\<lparr>ro_invocation := update_execution (ne_id n)
                    (add_edge_evaluation (ed_id e) (ed_to_node e)
                      (if sel then EvalSelected else EvalSkipped) sel reason)
                    (ro_invocation r)\<rparr>))
              (\<lambda>r'. route_completed W sctx n eids r'))"

definition unknown_execution_error :: "uuid \<Rightarrow> runtime_error_info" where
  "unknown_execution_error uid =
     mk_error ''SCHEDULER_UNKNOWN_EXECUTION'' ''Transition references an unknown node execution.''
       [(''node_execution_id'', PyStr (uuid_str uid))]"

definition advance_completed ::
  "workflow_ir \<Rightarrow> fuel \<Rightarrow> runtime_context \<Rightarrow> node_transition \<Rightarrow> invocation \<Rightarrow> invocation res" where
  "advance_completed W fu sctx t i =
     (case get_node_execution (tr_node_execution_id t) i of
        None \<Rightarrow> Inr (mark_failed (unknown_execution_error (tr_node_execution_id t)) i)
      | Some n \<Rightarrow>
          bindR (route_completed W sctx n (outgoing_of W (ne_node_id n))
                   \<lparr>ro_invocation = i, ro_targets = [], ro_boundaries = []\<rparr>)
            (\<lambda>out. case out of Inl failed \<Rightarrow> Inr failed | Inr r \<Rightarrow> settle_routing W fu r))"

definition node_failed_error :: "node_transition \<Rightarrow> runtime_error_info" where
  "node_failed_error t =
     mk_error ''NODE_EXECUTION_FAILED'' (''Node failed: '' @ tr_node_id t)
       [(''node_id'', PyStr (tr_node_id t)),
        (''node_execution_id'', PyStr (uuid_str (tr_node_execution_id t)))]"

definition advance_failed ::
  "workflow_ir \<Rightarrow> fuel \<Rightarrow> node_transition \<Rightarrow> invocation \<Rightarrow> invocation res" where
  "advance_failed W fu t i =
     (let execution = get_node_execution (tr_node_execution_id t) i;
          error = (case execution of
              Some n \<Rightarrow> (case ne_error n of Some e \<Rightarrow> e | None \<Rightarrow> node_failed_error t)
            | None \<Rightarrow> node_failed_error t)
      in if wf_failure_mode W = FailFast then Inr (mark_failed error i)
         else bindR (defer_terminal error InvFailed i)
           (\<lambda>i'. case execution of
              None \<Rightarrow> Inr i'
            | Some n \<Rightarrow> advance_blocked_execution W fu n (err_code error) i'))"

fun scheduler_next ::
  "workflow_ir \<Rightarrow> fuel \<Rightarrow> runtime_context \<Rightarrow> node_transition list \<Rightarrow> invocation \<Rightarrow> invocation res"
where
  "scheduler_next W fu sctx [] i = Inr i"
| "scheduler_next W fu sctx (t # ts) i =
     (if inv_state i = InvFailed then Inr i
      else bindR (case tr_state t of
            NodeCompleted \<Rightarrow> advance_completed W fu sctx t i
          | NodeFailed \<Rightarrow> advance_failed W fu t i
          | _ \<Rightarrow> Inr i)
        (\<lambda>i'. scheduler_next W fu sctx ts i'))"

end
