(* ===== verification/Contexts.thy ===== *)
theory Contexts
  imports Workflow_IR Python_Equality "HOL-Library.Sublist"
begin

text \<open>
  Publishing the writes of an output binding: \<open>RuntimeContext.commit_isolated\<close> and its helpers
  in \<open>core/runtime/context.py\<close>. A binding works on a detached copy; the changed locations of
  the copy are computed as escaped paths, checked against the paths that were written after the
  node started, and merged into the authoritative context. Dictionary keys are strings.
\<close>

section \<open>Escaped paths\<close>

definition replace_char :: "char \<Rightarrow> string \<Rightarrow> string \<Rightarrow> string" where
  "replace_char c r s = concat (map (\<lambda>x. if x = c then r else [x]) s)"

text \<open>\<open>s.replace(ab, r)\<close> for a pattern of two characters, from left to right.\<close>

fun replace_pair :: "char \<Rightarrow> char \<Rightarrow> string \<Rightarrow> string \<Rightarrow> string" where
  "replace_pair a b r (x # y # s) =
     (if x = a \<and> y = b then r @ replace_pair a b r s else x # replace_pair a b r (y # s))"
| "replace_pair a b r s = s"

fun split_on :: "char \<Rightarrow> string \<Rightarrow> string list" where
  "split_on c [] = [[]]"
| "split_on c (x # s) =
     (if x = c then [] # split_on c s
      else case split_on c s of [] \<Rightarrow> [[x]] | y # ys \<Rightarrow> (x # y) # ys)"

definition escape_path :: "string \<Rightarrow> string" where
  "escape_path s = replace_char (CHR ''/'') ''~1'' (replace_char (CHR ''~'') ''~0'' s)"

definition unescape_path :: "string \<Rightarrow> string" where
  "unescape_path s = replace_pair (CHR ''~'') (CHR ''0'') ''~''
     (replace_pair (CHR ''~'') (CHR ''1'') ''/'' s)"

definition path_segments :: "string \<Rightarrow> string list" where
  "path_segments path = map unescape_path (tl (split_on (CHR ''/'') path))"

definition paths_overlap :: "string \<Rightarrow> string \<Rightarrow> bool" where
  "paths_overlap left right \<longleftrightarrow>
     left = right \<or> prefix (right @ ''/'') left \<or> prefix (left @ ''/'') right"

section \<open>Changed paths and their merge\<close>

definition sorted_keys :: "pyval dict \<Rightarrow> pyval dict \<Rightarrow> string list" where
  "sorted_keys d e = sort (remdups (dict_keys d @ dict_keys e))"

definition leaf_change :: "pyval \<Rightarrow> pyval \<Rightarrow> string \<Rightarrow> string list" where
  "leaf_change p c pre = (if py_eq p c then [] else [if pre = [] then ''/'' else pre])"

function (sequential) changed_paths :: "pyval \<Rightarrow> pyval \<Rightarrow> string \<Rightarrow> string list" where
  "changed_paths (PyDict d) (PyDict e) pre =
     concat (map (\<lambda>k. let path = pre @ ''/'' @ escape_path k in
         case dict_get d k of
           None \<Rightarrow> [path]
         | Some v \<Rightarrow> (case dict_get e k of None \<Rightarrow> [path] | Some w \<Rightarrow> changed_paths v w path))
       (sorted_keys d e))"
| "changed_paths p c pre = leaf_change p c pre"
  by pat_completeness auto

termination
  by (relation "measure (\<lambda>(p, _, _). size p)") (auto dest: dict_get_size)

fun merge_changed :: "string list \<Rightarrow> pyval \<Rightarrow> pyval \<Rightarrow> pyval res" where
  "merge_changed [] auth work = Inl (IndexError ''list index out of range'')"
| "merge_changed [leaf] (PyDict d) (PyDict e) =
     (case dict_get e leaf of
        None \<Rightarrow> bindR (dict_index d leaf) (\<lambda>_. Inr (PyDict (dict_pop leaf d)))
      | Some w \<Rightarrow> Inr (PyDict (dict_set leaf w d)))"
| "merge_changed (s # t # rest) (PyDict d) (PyDict e) =
     bindR (dict_index d s) (\<lambda>v. bindR (dict_index e s)
       (\<lambda>w. bindR (merge_changed (t # rest) v w) (\<lambda>v'. Inr (PyDict (dict_set s v' d)))))"
| "merge_changed _ _ _ = Inl (TypeError ''string index'')"

definition context_value :: "runtime_context \<Rightarrow> pyval" where
  "context_value c = PyDict [(''data'', PyDict (ctx_data c)), (''metadata'', PyDict (ctx_metadata c))]"

fun dict_of :: "pyval \<Rightarrow> pyval dict" where
  "dict_of (PyDict d) = d"
| "dict_of _ = []"

datatype commit_error =
    ConcurrentContextWrite string "string list" nat nat
  | CommitCrash py_error

definition conflicting_paths :: "nat \<Rightarrow> runtime_context \<Rightarrow> string list \<Rightarrow> string list" where
  "conflicting_paths base c changed =
     filter (\<lambda>p. \<exists>(previous, revision) \<in> set (ctx_path_revisions c).
         base < revision \<and> paths_overlap p previous) changed"

definition commit_isolated ::
  "runtime_context \<Rightarrow> nat \<Rightarrow> string \<Rightarrow> runtime_context
   \<Rightarrow> commit_error + (runtime_context \<times> string list)" where
  "commit_isolated working base node_id c =
     (let changed = changed_paths (context_value c) (context_value working) [] in
      if changed = [] then Inr (c, [])
      else
        let conflicts = conflicting_paths base c changed in
        if conflicts \<noteq> [] then Inl (ConcurrentContextWrite node_id conflicts base (ctx_revision c))
        else case foldR (\<lambda>a path. merge_changed (path_segments path) a (context_value working))
               (context_value c) changed of
          Inl e \<Rightarrow> Inl (CommitCrash e)
        | Inr a \<Rightarrow>
            let top = dict_of a; revision = ctx_revision c + 1 in
            Inr (c\<lparr>ctx_data := dict_of (dict_get_default top ''data'' PyNone),
                   ctx_metadata := dict_of (dict_get_default top ''metadata'' PyNone),
                   ctx_revision := revision,
                   ctx_path_revisions :=
                     foldl (\<lambda>d path. dict_set path revision d) (ctx_path_revisions c) changed\<rparr>,
                 changed))"

section \<open>Escaping is lossless\<close>

lemma replace_pair_other [simp]: "x \<noteq> a \<Longrightarrow> replace_pair a b r (x # s) = x # replace_pair a b r s"
  by (cases s) auto

lemma escape_path_Nil [simp]: "escape_path [] = []"
  by (simp add: escape_path_def replace_char_def)

lemma escape_path_Cons: "escape_path (x # s) =
    (if x = CHR ''~'' then ''~0'' else if x = CHR ''/'' then ''~1'' else [x]) @ escape_path s"
  by (simp add: escape_path_def replace_char_def)

lemma escape_no_slash: "CHR ''/'' \<notin> set (escape_path s)"
  by (induction s) (auto simp: escape_path_Cons)

lemma unescape_escape [simp]: "unescape_path (escape_path s) = s"
proof -
  have "replace_pair (CHR ''~'') (CHR ''1'') ''/'' (escape_path s)
      = replace_char (CHR ''~'') ''~0'' s"
    by (induction s) (auto simp: escape_path_Cons replace_char_def)
  moreover have "replace_pair (CHR ''~'') (CHR ''0'') ''~'' (replace_char (CHR ''~'') ''~0'' s) = s"
    by (induction s) (auto simp: replace_char_def)
  ultimately show ?thesis by (simp add: unescape_path_def)
qed

lemma escape_inj: "escape_path s = escape_path t \<longleftrightarrow> s = t"
  by (metis unescape_escape)

definition path_of :: "string list \<Rightarrow> string" where
  "path_of segs = concat (map (\<lambda>s. CHR ''/'' # escape_path s) segs)"

lemma path_of_simps [simp]:
  "path_of [] = []"
  "path_of (s # segs) = CHR ''/'' # escape_path s @ path_of segs"
  by (simp_all add: path_of_def)

lemma path_of_snoc: "path_of (segs @ [s]) = path_of segs @ ''/'' @ escape_path s"
  by (simp add: path_of_def)

lemma split_on_not_Nil [simp]: "split_on c s \<noteq> []"
  by (induction s) (auto split: list.splits)

lemma split_on_sep: "c \<notin> set a \<Longrightarrow> split_on c (a @ c # s) = a # split_on c s"
  by (induction a) auto

lemma split_on_free: "c \<notin> set a \<Longrightarrow> split_on c a = [a]"
  by (induction a) auto

lemma split_path_append:
  "split_on (CHR ''/'') (path_of segs @ CHR ''/'' # t)
     = [] # map escape_path segs @ split_on (CHR ''/'') t"
proof (induction segs)
  case Nil
  then show ?case by simp
next
  case (Cons s segs)
  have "split_on (CHR ''/'') (escape_path s @ path_of segs @ CHR ''/'' # t)
      = escape_path s # tl (split_on (CHR ''/'') (path_of segs @ CHR ''/'' # t))"
    by (cases segs) (simp_all add: split_on_sep escape_no_slash)
  with Cons show ?case by simp
qed

lemma split_path: "segs \<noteq> [] \<Longrightarrow> split_on (CHR ''/'') (path_of segs) = [] # map escape_path segs"
proof -
  assume "segs \<noteq> []"
  then obtain init s where "segs = init @ [s]" by (metis append_butlast_last_id)
  then show ?thesis
    using split_path_append [of init "escape_path s"]
    by (simp add: path_of_snoc split_on_free escape_no_slash)
qed

lemma path_segments_path_of: "segs \<noteq> [] \<Longrightarrow> path_segments (path_of segs) = segs"
  by (simp add: path_segments_def split_path comp_def)

lemma path_of_inj: "path_of p = path_of q \<longleftrightarrow> p = q"
proof
  assume eq: "path_of p = path_of q"
  show "p = q"
  proof (cases "p = [] \<or> q = []")
    case True
    with eq show ?thesis by (cases p; cases q) auto
  next
    case False
    with eq show ?thesis using path_segments_path_of by metis
  qed
qed simp

lemma prefix_path_of: "prefix (path_of q @ ''/'') (path_of p) \<longleftrightarrow> strict_prefix q p"
proof
  assume "prefix (path_of q @ ''/'') (path_of p)"
  then obtain t where t: "path_of p = path_of q @ CHR ''/'' # t" by (auto simp: prefix_def)
  then have "p \<noteq> []" by auto
  have "[] # map escape_path p = split_on (CHR ''/'') (path_of p)"
    using \<open>p \<noteq> []\<close> by (simp add: split_path)
  also have "\<dots> = [] # map escape_path q @ split_on (CHR ''/'') t"
    unfolding t by (rule split_path_append)
  finally have "map escape_path p = map escape_path q @ split_on (CHR ''/'') t" by simp
  then obtain us rest where p: "p = us @ rest" "map escape_path us = map escape_path q"
    "map escape_path rest = split_on (CHR ''/'') t"
    by (auto simp: map_eq_append_conv)
  have "inj escape_path" by (rule injI) (simp add: escape_inj)
  with p have "p = q @ rest" by (simp add: inj_map_eq_map)
  moreover have "rest \<noteq> []" using p(3) by (metis list.simps(8) split_on_not_Nil)
  ultimately show "strict_prefix q p" by (simp add: strict_prefix_def)
next
  assume "strict_prefix q p"
  then obtain s rest where "p = q @ s # rest" by (auto elim: strict_prefixE')
  then show "prefix (path_of q @ ''/'') (path_of p)"
    by (auto simp: path_of_def)
qed

lemma paths_overlap_path_of:
  "paths_overlap (path_of p) (path_of q) \<longleftrightarrow> prefix p q \<or> prefix q p"
  unfolding paths_overlap_def prefix_path_of path_of_inj by (auto simp: strict_prefix_def)

section \<open>The merge\<close>

subsection \<open>No changed path means equality\<close>

lemma sorted_keys_set [simp]: "set (sorted_keys d e) = set (dict_keys d) \<union> set (dict_keys e)"
  by (simp add: sorted_keys_def)

lemma sorted_keys_distinct [simp]: "distinct (sorted_keys d e)"
  by (simp add: sorted_keys_def)

lemma changed_paths_Nil_iff: "changed_paths p c pre = [] \<longleftrightarrow> py_eq p c"
proof (induction p c pre rule: changed_paths.induct)
  case (1 d e pre)
  let ?group = "\<lambda>k. let path = pre @ ''/'' @ escape_path k in
         case dict_get d k of
           None \<Rightarrow> [path]
         | Some v \<Rightarrow> (case dict_get e k of None \<Rightarrow> [path] | Some w \<Rightarrow> changed_paths v w path)"
  have key: "?group k = [] \<longleftrightarrow> k \<in> set (dict_keys d) \<and> k \<in> set (dict_keys e)
      \<and> (case dict_get d k of None \<Rightarrow> True
           | Some v \<Rightarrow> (case dict_get e k of None \<Rightarrow> False | Some w \<Rightarrow> py_eq v w))"
    if "k \<in> set (sorted_keys d e)" for k
    using "1.IH" that by (auto simp: Let_def dict_get_None_iff dict_get_in_keys split: option.splits)
  show ?case
    unfolding changed_paths.simps concat_eq_Nil_conv py_eq.simps
    using key by auto
qed (simp_all add: leaf_change_def)

subsection \<open>Changed paths as segment lists\<close>

function (sequential) changed_segs :: "pyval \<Rightarrow> pyval \<Rightarrow> string list list" where
  "changed_segs (PyDict d) (PyDict e) =
     concat (map (\<lambda>k. case dict_get d k of
           None \<Rightarrow> [[k]]
         | Some v \<Rightarrow> (case dict_get e k of None \<Rightarrow> [[k]] | Some w \<Rightarrow> map ((#) k) (changed_segs v w)))
       (sorted_keys d e))"
| "changed_segs p c = (if py_eq p c then [] else [[]])"
  by pat_completeness auto

termination
  by (relation "measure (\<lambda>(p, _). size p)") (auto dest: dict_get_size)

lemma changed_paths_segs:
  "pre \<noteq> [] \<or> (\<exists>d e. p = PyDict d \<and> c = PyDict e) \<Longrightarrow>
   changed_paths p c (path_of pre) = map (\<lambda>r. path_of (pre @ r)) (changed_segs p c)"
proof (induction p c arbitrary: pre rule: changed_segs.induct)
  case (1 d e)
  have "(let path = path_of pre @ ''/'' @ escape_path k in
         case dict_get d k of
           None \<Rightarrow> [path]
         | Some v \<Rightarrow> (case dict_get e k of None \<Rightarrow> [path] | Some w \<Rightarrow> changed_paths v w path))
      = map (\<lambda>r. path_of (pre @ r)) (case dict_get d k of
           None \<Rightarrow> [[k]]
         | Some v \<Rightarrow> (case dict_get e k of None \<Rightarrow> [[k]] | Some w \<Rightarrow> map ((#) k) (changed_segs v w)))"
    if "k \<in> set (sorted_keys d e)" for k
    using "1.IH" [OF that, of _ _ "pre @ [k]"] path_of_snoc [of pre k]
    by (auto simp: Let_def comp_def split: option.splits)
  then show ?case
    by (auto simp: map_concat comp_def intro!: arg_cong [where f = concat] map_cong)
qed (auto simp: leaf_change_def path_of_def)

lemma changed_segs_Nil_iff: "changed_segs p c = [] \<longleftrightarrow> py_eq p c"
  using changed_paths_segs [of "[[]]" p c] changed_paths_Nil_iff [of p c "path_of [[]]"] by simp

lemma changed_segs_not_Nil: "r \<in> set (changed_segs (PyDict d) (PyDict e)) \<Longrightarrow> r \<noteq> []"
  by (auto split: option.splits)

lemma changed_segs_leaf:
  "\<nexists>d e. p = PyDict d \<and> c = PyDict e \<Longrightarrow> changed_segs p c = (if py_eq p c then [] else [[]])"
  by (cases "(p, c)" rule: changed_segs.cases) auto

subsection \<open>Merging the changed paths\<close>

definition merge_all :: "string list list \<Rightarrow> pyval \<Rightarrow> pyval \<Rightarrow> pyval res" where
  "merge_all rs w v = foldR (\<lambda>a r. merge_changed r a w) v rs"

text \<open>The dictionary \<open>d\<close> with the value at \<open>k\<close> brought in line with \<open>e\<close>.\<close>

definition aligned_at :: "string \<Rightarrow> pyval dict \<Rightarrow> pyval dict \<Rightarrow> pyval dict \<Rightarrow> bool" where
  "aligned_at k d e d' \<longleftrightarrow>
     (\<forall>j. j \<noteq> k \<longrightarrow> dict_get d' j = dict_get d j)
     \<and> (case dict_get e k of
          None \<Rightarrow> dict_get d' k = None
        | Some w \<Rightarrow> (\<exists>v. dict_get d' k = Some v \<and> py_eq v w))"

lemma merge_all_under_key:
  assumes "merge_all rs w v = Inr v'" and "dict_get d k = Some v" and "dict_get e k = Some w"
    and "\<And>r. r \<in> set rs \<Longrightarrow> r \<noteq> []"
  shows "\<exists>d'. merge_all (map ((#) k) rs) (PyDict e) (PyDict d) = Inr (PyDict d')
     \<and> (\<forall>j. dict_get d' j = (if j = k then Some v' else dict_get d j))"
  using assms
proof (induction rs arbitrary: v d)
  case Nil
  then show ?case by (auto simp: merge_all_def)
next
  case (Cons r rs)
  from Cons.prems(1) obtain u where u: "merge_changed r v w = Inr u" "merge_all rs w u = Inr v'"
    by (auto simp: merge_all_def bindR_eq_Inr)
  obtain t rest where r: "r = t # rest" using Cons.prems(4) by (cases r) auto
  have step: "merge_changed (k # r) (PyDict d) (PyDict e) = Inr (PyDict (dict_set k u d))"
    using r u(1) Cons.prems(2,3) by (simp add: dict_index_def)
  obtain d' where "merge_all (map ((#) k) rs) (PyDict e) (PyDict (dict_set k u d)) = Inr (PyDict d')"
    "\<forall>j. dict_get d' j = (if j = k then Some v' else dict_get (dict_set k u d) j)"
    using Cons.IH [OF u(2), of "dict_set k u d"] Cons.prems(3,4) by auto
  with step show ?case by (auto simp: merge_all_def)
qed

lemma merge_all_append:
  "merge_all (rs @ qs) w v = bindR (merge_all rs w v) (\<lambda>v'. merge_all qs w v')"
  by (simp add: merge_all_def foldR_append)

text \<open>Merging the group of one key aligns that key and leaves the others.\<close>

lemma merge_group:
  assumes sub: "\<And>v w d0 e0. dict_get d k = Some v \<Longrightarrow> dict_get e k = Some w \<Longrightarrow> v = PyDict d0 \<Longrightarrow> w = PyDict e0
      \<Longrightarrow> \<exists>v'. merge_all (changed_segs v w) w v = Inr v' \<and> py_eq v' w"
    and same: "dict_get a k = dict_get d k" and known: "k \<in> set (sorted_keys d e)"
  shows "\<exists>a'. merge_all (case dict_get d k of None \<Rightarrow> [[k]]
        | Some v \<Rightarrow> (case dict_get e k of None \<Rightarrow> [[k]] | Some w \<Rightarrow> map ((#) k) (changed_segs v w)))
        (PyDict e) (PyDict a) = Inr (PyDict a') \<and> aligned_at k a e a'"
proof (cases "dict_get d k")
  case None
  then obtain w where "dict_get e k = Some w"
    using known dict_get_None_iff [of d k] dict_get_None_iff [of e k] by auto
  with None show ?thesis by (auto simp: merge_all_def aligned_at_def)
next
  case (Some v)
  show ?thesis
  proof (cases "dict_get e k")
    case None
    with Some same show ?thesis
      by (auto simp: merge_all_def aligned_at_def dict_index_def)
  next
    case w: (Some w)
    show ?thesis
    proof (cases "\<exists>d0 e0. v = PyDict d0 \<and> w = PyDict e0")
      case True
      then obtain v' where v': "merge_all (changed_segs v w) w v = Inr v'" "py_eq v' w"
        using sub [OF Some w] by blast
      have ne: "r \<noteq> []" if "r \<in> set (changed_segs v w)" for r
        using that True changed_segs_not_Nil by blast
      show ?thesis
        using merge_all_under_key [OF v'(1), of a k e] same Some w v'(2) ne
        by (fastforce simp: aligned_at_def)
    next
      case False
      then show ?thesis
        using Some w same by (cases "py_eq v w") (auto simp: changed_segs_leaf merge_all_def aligned_at_def)
    qed
  qed
qed

lemma merge_groups:
  assumes step: "\<And>k a. k \<in> set ks \<Longrightarrow> dict_get a k = dict_get d k \<Longrightarrow>
      \<exists>a'. merge_all (g k) (PyDict e) (PyDict a) = Inr (PyDict a') \<and> aligned_at k a e a'"
    and "distinct ks" and "\<And>k. k \<in> set ks \<Longrightarrow> dict_get a k = dict_get d k"
  shows "\<exists>a'. merge_all (concat (map g ks)) (PyDict e) (PyDict a) = Inr (PyDict a')
     \<and> (\<forall>j. j \<notin> set ks \<longrightarrow> dict_get a' j = dict_get a j)
     \<and> (\<forall>k \<in> set ks. case dict_get e k of None \<Rightarrow> dict_get a' k = None
          | Some w \<Rightarrow> (\<exists>v. dict_get a' k = Some v \<and> py_eq v w))"
  using assms
proof (induction ks arbitrary: a)
  case Nil
  then show ?case by (simp add: merge_all_def)
next
  case (Cons k ks)
  obtain a1 where a1: "merge_all (g k) (PyDict e) (PyDict a) = Inr (PyDict a1)" "aligned_at k a e a1"
    using Cons.prems(1,3) by (meson list.set_intros(1))
  have "\<exists>a'. merge_all (concat (map g ks)) (PyDict e) (PyDict a1) = Inr (PyDict a')
     \<and> (\<forall>j. j \<notin> set ks \<longrightarrow> dict_get a' j = dict_get a1 j)
     \<and> (\<forall>k \<in> set ks. case dict_get e k of None \<Rightarrow> dict_get a' k = None
          | Some w \<Rightarrow> (\<exists>v. dict_get a' k = Some v \<and> py_eq v w))"
  proof (rule Cons.IH)
    show "distinct ks" using Cons.prems(2) by simp
    show "dict_get a1 j = dict_get d j" if "j \<in> set ks" for j
    proof -
      have "j \<noteq> k" using that Cons.prems(2) by auto
      then have "dict_get a1 j = dict_get a j" using a1(2) by (simp add: aligned_at_def)
      also have "\<dots> = dict_get d j" by (rule Cons.prems(3)) (simp add: that)
      finally show ?thesis .
    qed
  qed (use Cons.prems(1) in auto)
  then obtain a' where a': "merge_all (concat (map g ks)) (PyDict e) (PyDict a1) = Inr (PyDict a')"
    "\<forall>j. j \<notin> set ks \<longrightarrow> dict_get a' j = dict_get a1 j"
    "\<forall>k \<in> set ks. case dict_get e k of None \<Rightarrow> dict_get a' k = None
        | Some w \<Rightarrow> (\<exists>v. dict_get a' k = Some v \<and> py_eq v w)" by blast
  have "k \<notin> set ks" using Cons.prems(2) by simp
  then have "dict_get a' k = dict_get a1 k" using a'(2) by blast
  with a' a1 show ?case
    by (auto simp: merge_all_append aligned_at_def split: option.splits)
qed

lemma merge_changed_segs:
  "\<exists>a'. merge_all (changed_segs (PyDict d) (PyDict e)) (PyDict e) (PyDict d) = Inr (PyDict a')
     \<and> py_eq (PyDict a') (PyDict e)"
proof (induction "size (PyDict d)" arbitrary: d e rule: less_induct)
  case less
  have sub: "\<exists>v'. merge_all (changed_segs v w) w v = Inr v' \<and> py_eq v' w"
    if "dict_get d k = Some v" "v = PyDict d0" "w = PyDict e0" for k v w d0 e0
  proof -
    have "size (PyDict d0) < size (PyDict d)" using dict_get_size that(1,2) by blast
    from less [OF this, of e0] that show ?thesis by blast
  qed
  have "\<exists>a'. merge_all (changed_segs (PyDict d) (PyDict e)) (PyDict e) (PyDict d) = Inr (PyDict a')
    \<and> (\<forall>j. j \<notin> set (sorted_keys d e) \<longrightarrow> dict_get a' j = dict_get d j)
    \<and> (\<forall>k \<in> set (sorted_keys d e). case dict_get e k of None \<Rightarrow> dict_get a' k = None
        | Some w \<Rightarrow> (\<exists>v. dict_get a' k = Some v \<and> py_eq v w))"
    unfolding changed_segs.simps
  proof (rule merge_groups [where d = d], goal_cases)
    case (1 k a)
    show ?case by (rule merge_group [OF sub 1(2,1)])
  qed simp_all
  then obtain a' where a': "merge_all (changed_segs (PyDict d) (PyDict e)) (PyDict e) (PyDict d) = Inr (PyDict a')"
    "\<forall>j. j \<notin> set (sorted_keys d e) \<longrightarrow> dict_get a' j = dict_get d j"
    "\<forall>k \<in> set (sorted_keys d e). case dict_get e k of None \<Rightarrow> dict_get a' k = None
        | Some w \<Rightarrow> (\<exists>v. dict_get a' k = Some v \<and> py_eq v w)" by blast
  have "case dict_get e k of None \<Rightarrow> dict_get a' k = None
      | Some w \<Rightarrow> (\<exists>v. dict_get a' k = Some v \<and> py_eq v w)" for k
    using a'(2,3) dict_get_None_iff [of e k] dict_get_None_iff [of d k]
    by (cases "k \<in> set (sorted_keys d e)") auto
  with a'(1) show ?case unfolding py_eq_dict_iff by blast
qed

section \<open>Committing a binding\<close>

definition changed_locations :: "runtime_context \<Rightarrow> runtime_context \<Rightarrow> string list list" where
  "changed_locations c c' = changed_segs (context_value c) (context_value c')"

lemma context_changed_paths:
  "changed_paths (context_value c) (context_value w) [] = map path_of (changed_locations c w)"
  using changed_paths_segs [of "[]" "context_value c" "context_value w"]
  by (simp add: context_value_def changed_locations_def)

lemma changed_locations_not_Nil: "r \<in> set (changed_locations c w) \<Longrightarrow> r \<noteq> []"
  unfolding changed_locations_def context_value_def by (rule changed_segs_not_Nil)

lemma foldR_merge_paths:
  assumes "\<And>r. r \<in> set rs \<Longrightarrow> r \<noteq> []"
  shows "foldR (\<lambda>a path. merge_changed (path_segments path) a w) v (map path_of rs) = merge_all rs w v"
  using assms by (induction rs arbitrary: v) (auto simp: merge_all_def path_segments_path_of cong: bindR_cong)

text \<open>What the merge of all changed locations leaves in the two parts of the context.\<close>

lemma commit_merge:
  "\<exists>d m top. foldR (\<lambda>a path. merge_changed (path_segments path) a (context_value w))
       (context_value c) (changed_paths (context_value c) (context_value w) []) = Inr (PyDict top)
     \<and> dict_get top ''data'' = Some (PyDict d) \<and> py_eq (PyDict d) (PyDict (ctx_data w))
     \<and> dict_get top ''metadata'' = Some (PyDict m) \<and> py_eq (PyDict m) (PyDict (ctx_metadata w))"
proof -
  obtain top where top: "merge_all (changed_locations c w) (context_value w) (context_value c) = Inr (PyDict top)"
    and eq: "py_eq (PyDict top) (context_value w)"
    using merge_changed_segs unfolding changed_locations_def context_value_def by blast
  have part: "\<exists>d. dict_get top k = Some (PyDict d) \<and> py_eq (PyDict d) (PyDict e)"
    if "dict_get [(''data'', PyDict (ctx_data w)), (''metadata'', PyDict (ctx_metadata w))] k
        = Some (PyDict e)" for k e
  proof -
    from spec [OF eq [unfolded context_value_def py_eq_dict_iff], of k] that
    obtain v where "dict_get top k = Some v" "py_eq v (PyDict e)"
      by (auto simp del: py_eq.simps dict_get_Cons)
    with py_eq_dictD show ?thesis by metis
  qed
  from part [of "''data''" "ctx_data w"] part [of "''metadata''" "ctx_metadata w"] top show ?thesis
    unfolding context_changed_paths
    by (auto simp: foldR_merge_paths changed_locations_not_Nil)
qed

lemma commit_isolated_cases:
  obtains (unchanged) "changed_locations c w = []" "commit_isolated w b n c = Inr (c, [])"
  | (conflict) "conflicting_paths b c (map path_of (changed_locations c w)) \<noteq> []"
      "commit_isolated w b n c = Inl (ConcurrentContextWrite n
         (conflicting_paths b c (map path_of (changed_locations c w))) b (ctx_revision c))"
  | (published) c' where "changed_locations c w \<noteq> []"
      "conflicting_paths b c (map path_of (changed_locations c w)) = []"
      "commit_isolated w b n c = Inr (c', map path_of (changed_locations c w))"
      "py_eq (PyDict (ctx_data c')) (PyDict (ctx_data w))"
      "py_eq (PyDict (ctx_metadata c')) (PyDict (ctx_metadata w))"
      "ctx_revision c' = ctx_revision c + 1"
      "ctx_path_revisions c' = foldl (\<lambda>d path. dict_set path (ctx_revision c + 1) d)
         (ctx_path_revisions c) (map path_of (changed_locations c w))"
proof -
  obtain d m top where merged: "foldR (\<lambda>a path. merge_changed (path_segments path) a (context_value w))
       (context_value c) (map path_of (changed_locations c w)) = Inr (PyDict top)"
     "dict_get top ''data'' = Some (PyDict d)" "py_eq (PyDict d) (PyDict (ctx_data w))"
     "dict_get top ''metadata'' = Some (PyDict m)" "py_eq (PyDict m) (PyDict (ctx_metadata w))"
    using commit_merge [of w c] unfolding context_changed_paths by blast
  show thesis
  proof (cases "changed_locations c w = []")
    case True
    then show thesis by (intro unchanged) (simp_all add: commit_isolated_def context_changed_paths)
  next
    case changed: False
    show thesis
    proof (cases "conflicting_paths b c (map path_of (changed_locations c w)) = []")
      case False
      with changed show thesis
        by (intro conflict) (simp_all add: commit_isolated_def context_changed_paths)
    next
      case True
      show thesis
        by (rule published [of "c\<lparr>ctx_data := d, ctx_metadata := m, ctx_revision := ctx_revision c + 1,
              ctx_path_revisions := foldl (\<lambda>d path. dict_set path (ctx_revision c + 1) d)
                (ctx_path_revisions c) (map path_of (changed_locations c w))\<rparr>"])
          (use changed True merged in \<open>simp_all add: commit_isolated_def context_changed_paths
             dict_get_default_def Let_def del: py_eq.simps\<close>)
    qed
  qed
qed

lemma dict_get_foldl_set:
  "dict_get (foldl (\<lambda>d path. dict_set path v d) d ps) p = (if p \<in> set ps then Some v else dict_get d p)"
  by (induction ps arbitrary: d) auto


text \<open>
  C6: A successful publication that changes something advances the revision by one, stamps every
  changed path with the new revision and leaves the stamps of the other paths; one that changes
  nothing leaves the context as it was.
\<close>

theorem commit_isolated_revisions:
  assumes "commit_isolated w b n c = Inr (c', changed)"
  shows "if changed = [] then c' = c
     else ctx_revision c' = ctx_revision c + 1
       \<and> (\<forall>p. dict_get (ctx_path_revisions c') p
            = (if p \<in> set changed then Some (ctx_revision c') else dict_get (ctx_path_revisions c) p))"
  using assms by (cases rule: commit_isolated_cases [of c w b n]) (auto simp: dict_get_foldl_set)

definition sample_context :: runtime_context where
  "sample_context = \<lparr>ctx_data = [(''a'', PyDict [(''x'', PyInt 1), (''y'', PyInt 2)])], ctx_metadata = [],
     ctx_revision = 0, ctx_path_revisions = []\<rparr>"

definition sample_write_x :: runtime_context where
  "sample_write_x = sample_context\<lparr>ctx_data := [(''a'', PyDict [(''x'', PyInt 5), (''y'', PyInt 2)])]\<rparr>"

definition sample_published :: runtime_context where
  "sample_published = sample_write_x\<lparr>ctx_revision := 1, ctx_path_revisions := [(''/data/a/x'', 1)]\<rparr>"

definition sample_write_y :: runtime_context where
  "sample_write_y = sample_published\<lparr>ctx_data := [(''a'', PyDict [(''x'', PyInt 5)])]\<rparr>"

lemma sample_commits:
  "commit_isolated sample_write_x 0 ''n'' sample_context = Inr (sample_published, [''/data/a/x''])"
  "commit_isolated sample_write_y 0 ''m'' sample_published = Inr (sample_write_y
     \<lparr>ctx_revision := 2, ctx_path_revisions := [(''/data/a/x'', 1), (''/data/a/y'', 2)]\<rparr>, [''/data/a/y''])"
  by code_simp+

lemma sample_conflict:
  "commit_isolated sample_write_x 0 ''m'' (sample_published\<lparr>ctx_data := ctx_data sample_context\<rparr>)
     = Inl (ConcurrentContextWrite ''m'' [''/data/a/x''] 0 1)"
  by code_simp


lemma commit_isolated_revisions_witness:
  "ctx_revision sample_published = ctx_revision sample_context + 1
   \<and> dict_get (ctx_path_revisions sample_published) ''/data/a/x'' = Some (ctx_revision sample_published)"
  using commit_isolated_revisions [OF sample_commits(1)] by simp



end
