(* ===== verification/Runtime_Events.thy ===== *)
theory Runtime_Events
  imports Dispatch Scheduler Contexts
begin

text \<open>
  The facts an executor reports: \<open>core/runtime/event.py\<close> and the first part of
  \<open>core/executor/workflow_executor.py\<close> (\<open>_event_identity\<close>, \<open>_event_subject\<close>, \<open>_event_status\<close>,
  \<open>_record_event\<close>), over the state of one executor. The store is its log of calls. Times,
  timings and the full-mode state operations are left out of an event.
\<close>

section \<open>The executor's state\<close>

datatype event_type = EvStateChange | EvPhase | EvOperatorCall | EvRouting | EvWait | EvRecovery

datatype subject_type = SubjInvocation | SubjNode | SubjEdge | SubjOperatorCall | SubjWait | SubjRecovery

record runtime_event =
  re_invocation_id :: uuid
  re_sequence :: nat
  re_type :: event_type
  re_name :: string
  re_subject_type :: subject_type
  re_subject_id :: string
  re_status :: "string option"
  re_payload :: "pyval dict"
  re_input :: pyval
  re_output :: pyval

datatype store_call =
    RecordEvent runtime_event "uuid list" bool
  | PersistInvocation invocation_state

text \<open>
  One executor owns its invocation, the session's context, the mailbox and its log; \<open>xs_supply\<close>
  is the supply of fresh identifiers.
\<close>

record exec_state =
  xs_invocation :: invocation
  xs_session :: runtime_context
  xs_mailbox :: "node_message mailbox"
  xs_log :: "store_call list"
  xs_supply :: nat

abbreviation on_invocation :: "(invocation \<Rightarrow> invocation) \<Rightarrow> exec_state \<Rightarrow> exec_state" where
  "on_invocation f s \<equiv> s\<lparr>xs_invocation := f (xs_invocation s)\<rparr>"

definition on_invocation_res :: "(invocation \<Rightarrow> invocation res) \<Rightarrow> exec_state \<Rightarrow> exec_state res" where
  "on_invocation_res f s = bindR (f (xs_invocation s)) (\<lambda>i. Inr (s\<lparr>xs_invocation := i\<rparr>))"

section \<open>Event identity\<close>

definition event_identity :: "string \<Rightarrow> event_type \<times> string" where
  "event_identity name =
     (if prefix ''invocation.'' name then (EvStateChange, name)
      else if prefix ''recovery.'' name then (EvRecovery, name)
      else if prefix ''wait.'' name then (EvWait, name)
      else if prefix ''edge.'' name \<or> prefix ''routing.'' name then (EvRouting, name)
      else if prefix ''operator_call.'' name then (EvOperatorCall, name)
      else if prefix ''node.'' name then (EvStateChange, name)
      else (EvPhase, name))"

text \<open>\<open>str\<close> of the values that stand in event details for identifiers and states: text.\<close>

fun text_of :: "pyval \<Rightarrow> string" where
  "text_of (PyStr s) = s"
| "text_of (PyInt i) = (if i < 0 then ''-'' @ str_nat (nat (- i)) else str_nat (nat i))"
| "text_of _ = ''''"

definition detail_get :: "pyval dict \<Rightarrow> string \<Rightarrow> string option" where
  "detail_get d k = (case dict_get d k of
      Some v \<Rightarrow> if v = PyNone then None else Some (text_of v) | None \<Rightarrow> None)"

text \<open>The tests in their order; the first that applies names the subject.\<close>

definition event_subject ::
  "uuid \<Rightarrow> event_type \<Rightarrow> uuid list \<Rightarrow> pyval dict \<Rightarrow> subject_type \<times> string" where
  "event_subject iid t ids d =
     (let keyed = (\<lambda>subject k. map_option (Pair subject) (detail_get d k));
          candidates =
            [if t = EvRouting then keyed SubjEdge ''edge_id'' else None,
             if t = EvOperatorCall then keyed SubjOperatorCall ''operator_call_id'' else None,
             if t = EvWait then keyed SubjWait ''wait_key'' else None,
             if t = EvRecovery then Some (SubjRecovery, uuid_str iid) else None,
             if ids \<noteq> [] then Some (SubjNode, uuid_str (hd ids)) else None,
             keyed SubjNode ''node_execution_id'',
             keyed SubjNode ''node_id'']
      in case find (\<lambda>x. x \<noteq> None) candidates of
           Some (Some subject) \<Rightarrow> subject
         | _ \<Rightarrow> (SubjInvocation, uuid_str iid))"

text \<open>\<open>name.rsplit('.', 1)[-1] if '.' in name else None\<close>.\<close>

definition event_status :: "string \<Rightarrow> pyval dict \<Rightarrow> string option" where
  "event_status name d =
     (case detail_get d ''state'' of
        Some s \<Rightarrow> Some s
      | None \<Rightarrow> if CHR ''.'' \<in> set name
                then Some (rev (takeWhile (\<lambda>c. c \<noteq> CHR ''.'') (rev name))) else None)"

section \<open>Recording\<close>

text \<open>
  \<open>_record_event\<close>. In minimal mode only the lifecycle is persisted, in standard mode phases are
  dropped before a sequence number is taken, and only full mode keeps inputs and outputs.
\<close>

definition record_event ::
  "string \<Rightarrow> uuid list \<Rightarrow> bool \<Rightarrow> pyval dict \<Rightarrow> pyval \<Rightarrow> pyval \<Rightarrow> exec_state \<Rightarrow> exec_state" where
  "record_event name ids force detail inp out s =
     (let i = xs_invocation s; (t, nm) = event_identity name in
      if inv_event_mode i = EvMinimal then
        (if prefix ''invocation.'' nm \<or> nm \<in> {''wait.created'', ''wait.resumed''}
         then s\<lparr>xs_log := xs_log s @ [PersistInvocation (inv_state i)]\<rparr> else s)
      else if inv_event_mode i = EvStandard \<and> t = EvPhase then s
      else
        (let (sequence, i') = next_event_sequence i;
             (st, sid) = event_subject (inv_id i) t ids detail;
             full = (inv_event_mode i = EvFull);
             e = \<lparr>re_invocation_id = inv_id i, re_sequence = sequence, re_type = t, re_name = nm,
                  re_subject_type = st, re_subject_id = sid, re_status = event_status nm detail,
                  re_payload = detail, re_input = (if full then inp else PyNone),
                  re_output = (if full then out else PyNone)\<rparr>
         in s\<lparr>xs_invocation := i', xs_log := xs_log s @ [RecordEvent e ids force]\<rparr>))"

text \<open>An event with a detail only.\<close>

abbreviation record_detail :: "string \<Rightarrow> uuid list \<Rightarrow> pyval dict \<Rightarrow> exec_state \<Rightarrow> exec_state" where
  "record_detail name ids detail \<equiv> record_event name ids False detail PyNone PyNone"

definition opt_error_record :: "runtime_error_info option \<Rightarrow> pyval" where
  "opt_error_record = enc_opt error_to_record"

section \<open>The log is gapless\<close>

definition event_sequences :: "store_call list \<Rightarrow> nat list" where
  "event_sequences log = List.map_filter
     (\<lambda>c. case c of RecordEvent e _ _ \<Rightarrow> Some (re_sequence e) | _ \<Rightarrow> None) log"

definition log_ok :: "nat \<Rightarrow> exec_state \<Rightarrow> bool" where
  "log_ok start s \<longleftrightarrow> start \<le> inv_event_sequence (xs_invocation s)
     \<and> event_sequences (xs_log s) = [start + 1..<inv_event_sequence (xs_invocation s) + 1]
     \<and> (inv_event_mode (xs_invocation s) = EvMinimal \<longrightarrow> event_sequences (xs_log s) = [])"

lemma event_sequences_append [simp]:
  "event_sequences (xs @ ys) = event_sequences xs @ event_sequences ys"
  by (simp add: event_sequences_def map_filter_def)

lemma event_sequences_single [simp]:
  "event_sequences [RecordEvent e ids b] = [re_sequence e]"
  "event_sequences [PersistInvocation st] = []"
  by (simp_all add: event_sequences_def map_filter_def)

text \<open>Nothing but the sequence number and the log changes when an event is recorded.\<close>

definition same_run :: "exec_state \<Rightarrow> exec_state \<Rightarrow> bool" where
  "same_run s t \<longleftrightarrow>
     (\<exists>k. xs_invocation t = (xs_invocation s)\<lparr>inv_event_sequence := k\<rparr>)
     \<and> xs_session t = xs_session s \<and> xs_mailbox t = xs_mailbox s \<and> xs_supply t = xs_supply s"

lemma same_run_refl [simp]: "same_run s s"
  unfolding same_run_def by (auto intro!: exI [of _ "inv_event_sequence (xs_invocation s)"])

lemma same_run_trans: "same_run s t \<Longrightarrow> same_run t u \<Longrightarrow> same_run s u"
  by (auto simp: same_run_def)

lemma record_event_cases:
  obtains "record_event name ids force detail inp out s = s"
  | l where "record_event name ids force detail inp out s = s\<lparr>xs_log := l\<rparr>"
  | k l where "record_event name ids force detail inp out s
      = s\<lparr>xs_invocation := (xs_invocation s)\<lparr>inv_event_sequence := k\<rparr>, xs_log := l\<rparr>"
proof -
  let ?r = "record_event name ids force detail inp out s"
  have "?r = s \<or> (\<exists>l. ?r = s\<lparr>xs_log := l\<rparr>)
    \<or> (\<exists>k l. ?r = s\<lparr>xs_invocation := (xs_invocation s)\<lparr>inv_event_sequence := k\<rparr>, xs_log := l\<rparr>)"
    unfolding record_event_def Let_def next_event_sequence_def case_prod_unfold
    by (simp only: fst_conv snd_conv split: if_splits) blast
  with that show thesis by blast
qed

lemma record_event_same_run: "same_run s (record_event name ids force detail inp out s)"
proof (cases rule: record_event_cases [of name ids force detail inp out s])
  case (2 l)
  then show ?thesis
    by (auto simp: same_run_def intro!: exI [of _ "inv_event_sequence (xs_invocation s)"])
qed (auto simp: same_run_def)

lemma record_event_log_ok: "log_ok start s \<Longrightarrow> log_ok start (record_event name ids force detail inp out s)"
  by (auto simp: record_event_def Let_def next_event_sequence_def log_ok_def split: prod.splits)

lemma record_event_frame [simp]:
  fixes s name ids force detail inp out
  defines "t \<equiv> record_event name ids force detail inp out s"
  shows "xs_session t = xs_session s" "xs_mailbox t = xs_mailbox s" "xs_supply t = xs_supply s"
    "inv_state (xs_invocation t) = inv_state (xs_invocation s)"
    "inv_node_executions (xs_invocation t) = inv_node_executions (xs_invocation s)"
    "inv_scheduler (xs_invocation t) = inv_scheduler (xs_invocation s)"
    "inv_execution_mode (xs_invocation t) = inv_execution_mode (xs_invocation s)"
    "inv_event_mode (xs_invocation t) = inv_event_mode (xs_invocation s)"
    "inv_context (xs_invocation t) = inv_context (xs_invocation s)"
    "inv_output_index (xs_invocation t) = inv_output_index (xs_invocation s)"
    "inv_error (xs_invocation t) = inv_error (xs_invocation s)"
    "inv_input (xs_invocation t) = inv_input (xs_invocation s)"
    "inv_id (xs_invocation t) = inv_id (xs_invocation s)"
    "inv_result (xs_invocation t) = inv_result (xs_invocation s)"
    "inv_deferred_terminal_state (xs_invocation t) = inv_deferred_terminal_state (xs_invocation s)"
    "inv_deferred_error (xs_invocation t) = inv_deferred_error (xs_invocation s)"
    "inv_definition_hash (xs_invocation t) = inv_definition_hash (xs_invocation s)"
  using record_event_same_run [of s name ids force detail inp out]
  by (auto simp: t_def same_run_def)

end
