(* ===== verification/Runtime_Store.thy ===== *)
theory Runtime_Store
  imports Persistence_Books Runtime_Events
begin

text \<open>
  The runtime's in-memory center, \<open>core/runtime/store.py\<close>, with its retention policy
  (\<open>core/runtime/retention.py\<close>): sessions, invocations, journals and caches over the persistence
  coordinator. Every method holds the lock while it changes the state and gives up control only
  where it awaits, so a method is one step, or one step per part between two awaits. Sessions and
  invocations are objects that the executor changes in place; the model keeps their current
  values, and \<open>objects_changed\<close> is such a change. An optional sink is the coordinator
  (\<open>None\<close> without a backend) and, for what is read from it, the record of functions
  \<open>durable_backend\<close>. The clock, fresh identifiers, the failure of a deep copy, the exception of
  the consumer's wake-up and the estimated size of an event's values come from \<open>store_env\<close>.
  Listeners are names; a notification returns the names it reaches.
\<close>

section \<open>Retention\<close>

datatype retention_mode = RetainAll | EvictDurableTerminal | LruDurableTerminal

record retention_policy =
  rp_mode :: retention_mode
  rp_max_terminal :: nat
  rp_max_checkpoints :: nat

definition retention_mode_of :: "string \<Rightarrow> retention_mode option" where
  "retention_mode_of mode =
     (if mode = ''retain_all'' then Some RetainAll
      else if mode = ''evict_durable_terminal'' then Some EvictDurableTerminal
      else if mode = ''lru_durable_terminal'' then Some LruDurableTerminal else None)"

definition make_retention :: "string \<Rightarrow> int \<Rightarrow> int \<Rightarrow> retention_policy res" where
  "make_retention mode terminal checkpoints =
     (case retention_mode_of mode of
        None \<Rightarrow> Inl (ValueError (''Unknown Runtime retention mode: '' @ mode))
      | Some m \<Rightarrow>
          if terminal < 0 then Inl (ValueError ''max_terminal_invocations cannot be negative.'')
          else if checkpoints < 1 then Inl (ValueError ''max_replay_checkpoints_per_invocation must be positive.'')
          else if m = LruDurableTerminal \<and> terminal < 1
          then Inl (ValueError ''lru_durable_terminal requires max_terminal_invocations.'')
          else Inr \<lparr>rp_mode = m, rp_max_terminal = nat terminal, rp_max_checkpoints = nat checkpoints\<rparr>)"

section \<open>Events and sizes\<close>

text \<open>An event as the store keeps it: with the state operations of Full mode.\<close>

record stored_event = runtime_event +
  se_operations :: "state_operation list option"

definition journal_view :: "stored_event \<Rightarrow> journal_event" where
  "journal_view e =
     \<lparr>je_invocation = re_invocation_id e, je_sequence = re_sequence e, je_operations = se_operations e\<rparr>"

definition standard_recovery_point :: "stored_event \<Rightarrow> bool" where
  "standard_recovery_point e \<longleftrightarrow>
     (if re_type e = EvRecovery then True
      else if re_name e = ''wait.created'' then True
      else if prefix ''node.'' (re_name e)
      then re_status e \<in> Some ` {''completed'', ''failed'', ''cancelled'', ''interrupted'', ''skipped''}
      else re_name e = ''invocation.running'')"

definition estimate_step :: "pyval \<Rightarrow> int \<Rightarrow> state_operation \<Rightarrow> int" where
  "estimate_step previous n op =
     (let n1 = (if so_kind op \<in> {KindReplace, KindRemove}
            then (case foldR child_at previous (so_path op) of
                Inl _ \<Rightarrow> n | Inr old \<Rightarrow> n - int (estimate_runtime_bytes old))
            else n)
      in if so_kind op \<in> {KindAdd, KindReplace} then n1 + int (estimate_runtime_bytes (so_value op)) else n1)"

definition updated_state_estimate :: "pyval \<Rightarrow> nat \<Rightarrow> state_operation list \<Rightarrow> nat" where
  "updated_state_estimate previous bytes ops =
     nat (max 256 (foldl (estimate_step previous) (int bytes) ops))"

section \<open>The store\<close>

record runtime_store =
  rs_retention :: retention_policy
  rs_persistence :: "coordinator option"
  rs_workflow_versions :: "((string \<times> string) \<times> pyval) list"
  rs_sessions :: "(uuid \<times> session) list"
  rs_session_keys :: "((string \<times> string option) \<times> uuid) list"
  rs_invocations :: "(uuid \<times> invocation) list"
  rs_invocation_sessions :: "(uuid \<times> uuid) list"
  rs_events :: "(uuid \<times> stored_event list) list"
  rs_user_events :: "(uuid \<times> user_event list) list"
  rs_user_sequences :: "(uuid \<times> nat) list"
  rs_expected_user :: "(uuid \<times> nat) list"
  rs_user_listeners :: "(uuid \<times> nat set) list"
  rs_runtime_listeners :: "(uuid \<times> nat set) list"
  rs_session_listeners :: "(uuid \<times> nat set) list"
  rs_session_notified :: "(uuid \<times> uuid) list"
  rs_workflow_listeners :: "nat set"
  rs_checkpoints :: "((uuid \<times> nat) \<times> execution_snapshot) list"
  rs_reduced :: "(uuid \<times> pyval) list"
  rs_reduced_bytes :: "(uuid \<times> nat) list"
  rs_pending :: "(uuid \<times> invocation) list"
  rs_lru :: "uuid list"
  rs_evicted :: "(uuid \<times> nat) list"

definition new_store :: "retention_policy \<Rightarrow> persistence_policy option \<Rightarrow> runtime_store" where
  "new_store retention p =
     \<lparr>rs_retention = retention, rs_persistence = map_option new_coordinator p, rs_workflow_versions = [],
      rs_sessions = [], rs_session_keys = [], rs_invocations = [], rs_invocation_sessions = [],
      rs_events = [], rs_user_events = [], rs_user_sequences = [], rs_expected_user = [],
      rs_user_listeners = [], rs_runtime_listeners = [], rs_session_listeners = [],
      rs_session_notified = [], rs_workflow_listeners = {}, rs_checkpoints = [], rs_reduced = [],
      rs_reduced_bytes = [], rs_pending = [], rs_lru = [], rs_evicted = []\<rparr>"

text \<open>What a method returns, or raises, with the store it leaves.\<close>

type_synonym 'a stepped = "'a res \<times> runtime_store"

record store_env =
  ev_now :: int
  ev_wake :: "string option"
  ev_envelope :: uuid
  ev_copy_error :: "string option"
  ev_content :: nat

text \<open>What a backend reads: the functions of \<open>DurableBackend\<close> that the store calls.\<close>

record durable_backend =
  bk_session :: "string \<Rightarrow> string \<Rightarrow> session option"
  bk_recoverable :: "string list \<Rightarrow> uuid list"
  bk_snapshot :: "uuid \<Rightarrow> nat option \<Rightarrow> execution_snapshot option"
  bk_events :: "uuid \<Rightarrow> nat \<Rightarrow> nat option \<Rightarrow> nat \<Rightarrow> stored_event list"
  bk_user_events :: "uuid \<Rightarrow> nat \<Rightarrow> nat \<Rightarrow> user_event list"
  bk_latest_user :: "uuid \<Rightarrow> nat"

abbreviation has_backend :: "runtime_store \<Rightarrow> bool" where
  "has_backend st \<equiv> rs_persistence st \<noteq> None"

definition invocation_active :: "invocation_state \<Rightarrow> bool" where
  "invocation_active s \<longleftrightarrow> s \<in> {InvCreated, InvRunning, InvWaiting}"

definition invocation_ended :: "invocation_state \<Rightarrow> bool" where
  "invocation_ended s \<longleftrightarrow> s \<in> {InvCompleted, InvFailed, InvCancelled, InvInterrupted}"

definition store_pending_bytes :: "runtime_store \<Rightarrow> int" where
  "store_pending_bytes st = (case rs_persistence st of None \<Rightarrow> 0 | Some c \<Rightarrow> co_pending c)"

definition store_pending_count :: "runtime_store \<Rightarrow> nat" where
  "store_pending_count st = (case rs_persistence st of None \<Rightarrow> 0 | Some c \<Rightarrow> pending_count c)"

definition store_admission_paused :: "runtime_store \<Rightarrow> bool \<times> runtime_store" where
  "store_admission_paused st =
     (case rs_persistence st of
        None \<Rightarrow> (False, st)
      | Some c \<Rightarrow> (let (paused, c1) = admission_paused c in (paused, st\<lparr>rs_persistence := Some c1\<rparr>)))"

definition recoverable_invocations :: "durable_backend \<Rightarrow> string list \<Rightarrow> runtime_store \<Rightarrow> uuid list" where
  "recoverable_invocations bk revisions st =
     (if revisions = [] then []
      else uniq_first (List.map_filter (\<lambda>(k, s).
             if ss_revision_id s \<in> set revisions
             then (case session_current_invocation s of
                 Some i \<Rightarrow> if inv_event_mode i \<noteq> EvMinimal \<and> invocation_active (inv_state i) then Some (inv_id i) else None
               | None \<Rightarrow> None)
             else None) (rs_sessions st)
           @ (if has_backend st then bk_recoverable bk revisions else [])))"

section \<open>Publishing to the coordinator\<close>

text \<open>An invocation that failed or has a gap is not published; a full queue leaves a gap.\<close>

definition publish_persistence :: "store_env \<Rightarrow> persistence_envelope \<Rightarrow> runtime_store \<Rightarrow> bool \<times> runtime_store" where
  "publish_persistence v e st =
     (case rs_persistence st of
        None \<Rightarrow> (False, st)
      | Some c \<Rightarrow>
          if (case en_invocation e of None \<Rightarrow> False
              | Some u \<Rightarrow> dict_get (co_errors c) u \<noteq> None \<or> dict_get (co_gaps c) u \<noteq> None)
          then (False, st)
          else (case try_reserve e c of
              (None, c1) \<Rightarrow> (False, st\<lparr>rs_persistence := Some (case en_invocation e of
                  None \<Rightarrow> c1
                | Some u \<Rightarrow> degrade_invocation u (case en_event e of None \<Rightarrow> 0 | Some x \<Rightarrow> je_sequence x)
                    ''persistence queue reached its hard memory limit'' c1)\<rparr>)
            | (Some r, c1) \<Rightarrow>
                (True, st\<lparr>rs_persistence := Some (snd (Persistence.publish (ev_now v) (ev_wake v) r e c1))\<rparr>)))"

text \<open>The \<open>try\<close> around the freezing of an envelope: a failed copy fails the invocation.\<close>

definition persist_or_fail ::
  "store_env \<Rightarrow> uuid \<Rightarrow> nat \<Rightarrow> persistence_envelope \<Rightarrow> runtime_store \<Rightarrow> runtime_store" where
  "persist_or_fail v u n e st =
     (case rs_persistence st of
        None \<Rightarrow> st
      | Some c \<Rightarrow> (case ev_copy_error v of
            Some msg \<Rightarrow> st\<lparr>rs_persistence := Some (fail_invocation u n msg c)\<rparr>
          | None \<Rightarrow> snd (publish_persistence v e st)))"

section \<open>Workflow versions\<close>

text \<open>The listeners a new workflow notifies come with the result.\<close>

definition save_workflow_snapshot ::
  "store_env \<Rightarrow> string \<times> string \<Rightarrow> pyval \<Rightarrow> runtime_store \<Rightarrow> (bool \<times> nat set) \<times> runtime_store" where
  "save_workflow_snapshot v key snapshot st =
     (let created = (dict_get (rs_workflow_versions st) key = None);
          st1 = st\<lparr>rs_workflow_versions := dict_set key snapshot (rs_workflow_versions st)\<rparr>
      in if \<not> created then ((False, {}), st1)
         else ((True, rs_workflow_listeners st1),
               case rs_persistence st1 of
                 None \<Rightarrow> st1
               | Some c \<Rightarrow> (case ev_copy_error v of
                     Some msg \<Rightarrow> st1\<lparr>rs_persistence := Some (mark_unavailable (ev_now v) msg c)\<rparr>
                   | None \<Rightarrow> snd (publish_persistence v (freeze_workflow_envelope (ev_envelope v) snapshot) st1))))"

definition subscribe_workflow_changes :: "nat \<Rightarrow> runtime_store \<Rightarrow> runtime_store" where
  "subscribe_workflow_changes l st = st\<lparr>rs_workflow_listeners := insert l (rs_workflow_listeners st)\<rparr>"

definition unsubscribe_workflow_changes :: "nat \<Rightarrow> runtime_store \<Rightarrow> runtime_store" where
  "unsubscribe_workflow_changes l st = st\<lparr>rs_workflow_listeners := rs_workflow_listeners st - {l}\<rparr>"

definition load_workflow_snapshot :: "string \<times> string \<Rightarrow> runtime_store \<Rightarrow> pyval option" where
  "load_workflow_snapshot key st = dict_get (rs_workflow_versions st) key"

section \<open>Sessions\<close>

definition cache_session :: "session \<Rightarrow> runtime_store \<Rightarrow> runtime_store" where
  "cache_session s st =
     st\<lparr>rs_sessions := dict_set (ss_id s) s (rs_sessions st),
        rs_session_keys := dict_set (ss_revision_id s, ss_key s) (ss_id s) (rs_session_keys st)\<rparr>"

definition get_or_create_session ::
  "uuid \<Rightarrow> string \<Rightarrow> string \<Rightarrow> string option \<Rightarrow> runtime_store \<Rightarrow> session stepped" where
  "get_or_create_session fresh workflow_id revision key st =
     (case dict_get (rs_session_keys st) (revision, key) of
        Some u \<Rightarrow> (case dict_get (rs_sessions st) u of
            Some s \<Rightarrow> (Inr s, st) | None \<Rightarrow> (Inl (KeyError (uuid_str u)), st))
      | None \<Rightarrow>
          (let s = \<lparr>ss_id = fresh, ss_workflow_id = workflow_id, ss_revision_id = revision, ss_key = key,
                 ss_context = empty_runtime_context, ss_invocations = [], ss_current = None\<rparr>
           in (Inr s, cache_session s st)))"

definition find_session :: "string \<Rightarrow> string \<Rightarrow> runtime_store \<Rightarrow> session option" where
  "find_session revision key st =
     (case dict_get (rs_session_keys st) (revision, Some key) of
        None \<Rightarrow> None | Some u \<Rightarrow> dict_get (rs_sessions st) u)"

definition find_durable_session ::
  "durable_backend \<Rightarrow> string \<Rightarrow> string \<Rightarrow> runtime_store \<Rightarrow> session option \<times> runtime_store" where
  "find_durable_session bk revision key st =
     (case find_session revision key st of
        Some s \<Rightarrow> (Some s, st)
      | None \<Rightarrow>
          if \<not> has_backend st then (None, st)
          else (case bk_session bk revision key of
              None \<Rightarrow> (None, st) | Some s \<Rightarrow> (Some s, cache_session s st)))"

definition obtain_session ::
  "durable_backend \<Rightarrow> uuid \<Rightarrow> string \<Rightarrow> string \<Rightarrow> string option \<Rightarrow> runtime_store \<Rightarrow> session stepped" where
  "obtain_session bk fresh workflow_id revision key st =
     (case (case key of None \<Rightarrow> (None, st) | Some k \<Rightarrow> find_durable_session bk revision k st) of
        (Some s, st1) \<Rightarrow>
          if ss_workflow_id s \<noteq> workflow_id
          then (Inl (ValueError ''Workflow id does not match the requested Workflow revision.''), st1)
          else (Inr s, st1)
      | (None, st1) \<Rightarrow> get_or_create_session fresh workflow_id revision key st1)"

text \<open>The session object and one of its invocations change in place, for every holder.\<close>

definition replace_invocation :: "invocation \<Rightarrow> invocation list \<Rightarrow> invocation list" where
  "replace_invocation i is = map (\<lambda>j. if inv_id j = inv_id i then i else j) is"

definition objects_changed :: "uuid \<Rightarrow> runtime_context \<Rightarrow> invocation \<Rightarrow> runtime_store \<Rightarrow> runtime_store" where
  "objects_changed sid ctx i st =
     st\<lparr>rs_sessions := map (\<lambda>(k, s). (k, if k = sid
            then s\<lparr>ss_context := ctx, ss_invocations := replace_invocation i (ss_invocations s)\<rparr> else s)) (rs_sessions st),
        rs_invocations := map (\<lambda>(k, j). (k, if k = inv_id i then i else j)) (rs_invocations st)\<rparr>"

section \<open>Admission\<close>

definition session_busy :: "session \<Rightarrow> invocation \<Rightarrow> py_error" where
  "session_busy s i = RuntimeError (''Session already has an active invocation: session_id='' @ uuid_str (ss_id s)
     @ '', invocation_id='' @ uuid_str (inv_id i) @ '', state='' @ invocation_state_str (inv_state i))"

definition ensure_session_can_admit :: "session \<Rightarrow> runtime_store \<Rightarrow> unit res" where
  "ensure_session_can_admit s st =
     (case dict_get (rs_pending st) (ss_id s) of
        Some p \<Rightarrow> Inl (session_busy s p)
      | None \<Rightarrow> (case session_current_invocation s of
            Some i \<Rightarrow> if invocation_active (inv_state i) then Inl (session_busy s i) else Inr ()
          | None \<Rightarrow> Inr ()))"

text \<open>The first part of \<open>aadmit_invocation\<close>, before it waits for the queue to drain.\<close>

definition check_admission :: "uuid \<Rightarrow> string \<Rightarrow> runtime_store \<Rightarrow> unit res" where
  "check_admission sid revision st =
     (case dict_get (rs_sessions st) sid of
        None \<Rightarrow> Inl (KeyError (''Unknown session: '' @ uuid_str sid))
      | Some s \<Rightarrow>
          if revision \<noteq> ss_revision_id s
          then Inl (ValueError ''Invocation workflow revision does not match its Session.'')
          else ensure_session_can_admit s st)"

definition wait_admission :: "int \<Rightarrow> runtime_store \<Rightarrow> admission_round \<times> runtime_store" where
  "wait_admission waited_ms st =
     (case rs_persistence st of
        None \<Rightarrow> (Admitted, st)
      | Some c \<Rightarrow> (let (r, c1) = await_admission_round waited_ms c in (r, st\<lparr>rs_persistence := Some c1\<rparr>)))"

definition minimal_session_fields :: "string list" where
  "minimal_session_fields = [''id'', ''workflow_id'', ''workflow_revision_id'', ''session_key'', ''current_invocation_id'']"

definition minimal_invocation_fields :: "string list" where
  "minimal_invocation_fields = [''id'', ''session_id'', ''entry_node_id'', ''state'', ''execution_mode'',
     ''event_mode'', ''input'']"

definition pick_fields :: "string list \<Rightarrow> pyval \<Rightarrow> pyval res" where
  "pick_fields names r = bindR (mapR (\<lambda>k. bindR (rec_get r k) (\<lambda>v. Inr (k, v))) names) (\<lambda>d. Inr (PyDict d))"

text \<open>The genesis state, which already names the invocation as the session's current one.\<close>

definition admission_state :: "session \<Rightarrow> invocation \<Rightarrow> pyval res" where
  "admission_state s i =
     (let sr = session_to_record (s\<lparr>ss_current := Some (inv_id i)\<rparr>);
          ir = invocation_to_record (ss_id s) i;
          tree = (\<lambda>a b. PyDict [(''session'', a), (''invocation'', b), (''node_executions'', PyList [])])
      in case inv_event_mode i of
           EvMinimal \<Rightarrow> bindR (pick_fields minimal_session_fields sr) (\<lambda>a.
             bindR (pick_fields minimal_invocation_fields ir) (\<lambda>b. Inr (tree a b)))
         | EvStandard \<Rightarrow> compact_recovery_state (tree sr ir)
         | EvFull \<Rightarrow> Inr (tree sr ir))"

definition reserve_admission ::
  "uuid \<Rightarrow> invocation \<Rightarrow> runtime_store \<Rightarrow> (session \<times> execution_snapshot \<times> nat) stepped" where
  "reserve_admission sid i st =
     (case dict_get (rs_sessions st) sid of
        None \<Rightarrow> (Inl (KeyError (''Unknown session: '' @ uuid_str sid)), st)
      | Some s \<Rightarrow> (case bindR (ensure_session_can_admit s st) (\<lambda>_. admission_state s i) of
            Inl e \<Rightarrow> (Inl e, st)
          | Inr state \<Rightarrow>
              (Inr (s, \<lparr>es_invocation = inv_id i, es_through = 0, es_state = state\<rparr>, estimate_runtime_bytes state),
               st\<lparr>rs_pending := dict_set sid i (rs_pending st)\<rparr>)))"

definition admitted_session :: "invocation \<Rightarrow> session \<Rightarrow> session" where
  "admitted_session i s =
     s\<lparr>ss_invocations := ss_invocations s @ (if \<exists>j \<in> set (ss_invocations s). inv_id j = inv_id i then [] else [i]),
       ss_current := Some (inv_id i)\<rparr>"

definition register_invocation :: "session \<Rightarrow> execution_snapshot \<Rightarrow> nat \<Rightarrow> invocation \<Rightarrow> runtime_store \<Rightarrow> runtime_store" where
  "register_invocation s snapshot bytes i st =
     (let u = inv_id i; kept = (inv_event_mode i \<in> {EvStandard, EvFull})
      in st\<lparr>rs_invocations := dict_set u i (rs_invocations st),
            rs_invocation_sessions := dict_set u (ss_id s) (rs_invocation_sessions st),
            rs_events := dict_set u [] (rs_events st), rs_user_events := dict_set u [] (rs_user_events st),
            rs_user_sequences := dict_set u 0 (rs_user_sequences st),
            rs_expected_user := dict_set u 0 (rs_expected_user st),
            rs_reduced := (if kept then dict_set u (es_state snapshot) (rs_reduced st) else rs_reduced st),
            rs_reduced_bytes := (if kept then dict_set u bytes (rs_reduced_bytes st) else rs_reduced_bytes st),
            rs_checkpoints := (if inv_event_mode i = EvFull
              then dict_set (u, 0) snapshot (rs_checkpoints st) else rs_checkpoints st)\<rparr>)"

definition commit_admission ::
  "session \<Rightarrow> execution_snapshot \<Rightarrow> nat \<Rightarrow> invocation \<Rightarrow> runtime_store \<Rightarrow> session stepped" where
  "commit_admission s snapshot bytes i st =
     (if dict_get (rs_pending st) (ss_id s) \<noteq> Some i
      then (Inl (RuntimeError ''Invocation admission reservation was lost.''), st)
      else let s1 = admitted_session i s in
        (Inr s1, register_invocation s1 snapshot bytes i
           (st\<lparr>rs_pending := dict_pop (ss_id s) (rs_pending st),
               rs_sessions := (if dict_get (rs_sessions st) (ss_id s) = None then rs_sessions st
                 else dict_set (ss_id s) s1 (rs_sessions st))\<rparr>)))"

text \<open>The second part of \<open>aadmit_invocation\<close>, after the wait; nothing in it awaits.\<close>

definition admit_invocation :: "store_env \<Rightarrow> uuid \<Rightarrow> invocation \<Rightarrow> runtime_store \<Rightarrow> session stepped" where
  "admit_invocation v sid i st =
     (case reserve_admission sid i st of
        (Inl e, st1) \<Rightarrow> (Inl e, st1)
      | (Inr (s, snapshot, bytes), st1) \<Rightarrow> (case commit_admission s snapshot bytes i st1 of
            (Inl e, st2) \<Rightarrow> (Inl e, st2)
          | (Inr s1, st2) \<Rightarrow>
              (Inr s1, persist_or_fail v (inv_id i) 0
                 (freeze_admission_envelope (ev_envelope v) (ss_id s1) (inv_id i)
                    (ss_workflow_id s1, case inv_definition_hash i of None \<Rightarrow> '''' | Some h \<Rightarrow> h) snapshot (Some bytes)) st2)))"

definition claim_waiting_session ::
  "durable_backend \<Rightarrow> string \<Rightarrow> string \<Rightarrow> string \<Rightarrow> string option \<Rightarrow> runtime_store \<Rightarrow> session stepped" where
  "claim_waiting_session bk revision key wait_key definition_hash st =
     (case find_durable_session bk revision key st of
        (None, st1) \<Rightarrow> (Inl (KeyError (''Unknown session: '' @ key)), st1)
      | (Some s, st1) \<Rightarrow>
          (case session_current_invocation s of
             None \<Rightarrow> Inl (ValueError ''Session does not have a current Invocation.'')
           | Some i \<Rightarrow>
               if inv_state i \<noteq> InvWaiting
               then (if inv_state i \<in> {InvCreated, InvRunning} then Inl (session_busy s i)
                     else Inl (ValueError ''Session does not have a waiting Invocation.''))
               else if definition_hash \<noteq> None \<and> inv_definition_hash i \<noteq> definition_hash
               then Inl (ValueError ''Waiting Invocation uses another Workflow definition.'')
               else if dict_get (waiting_executions (inv_scheduler i)) wait_key = None
               then Inl (KeyError (''Unknown wait key: '' @ wait_key))
               else Inr s, st1))"

section \<open>Retention\<close>

definition durable_sequence :: "uuid \<Rightarrow> runtime_store \<Rightarrow> nat" where
  "durable_sequence u st =
     (case rs_persistence st of None \<Rightarrow> 0 | Some c \<Rightarrow> dict_get_default (co_durable c) u 0)"

text \<open>The statuses; \<open>None\<close> is \<open>memory_only\<close>.\<close>

definition user_event_persistence_status :: "uuid \<Rightarrow> runtime_store \<Rightarrow> persistence_status option" where
  "user_event_persistence_status u st =
     map_option (user_event_status_of u (dict_get_default (rs_expected_user st) u 0)) (rs_persistence st)"

definition store_persistence_status :: "uuid \<Rightarrow> runtime_store \<Rightarrow> persistence_status option res" where
  "store_persistence_status u st =
     (if dict_get (rs_invocations st) u = None \<and> dict_get (rs_evicted st) u = None
      then Inl (KeyError (''Unknown Invocation: '' @ uuid_str u))
      else case rs_persistence st of
          None \<Rightarrow> Inr None
        | Some c \<Rightarrow> (case (dict_get (rs_evicted st) u, dict_get (rs_invocations st) u) of
              (Some expected, _) \<Rightarrow> Inr (Some (persistence_status_of u expected c))
            | (None, Some i) \<Rightarrow> Inr (Some (persistence_status_of u (inv_event_sequence i) c))
            | (None, None) \<Rightarrow> Inl (KeyError (uuid_str u))))"

text \<open>The guards of \<open>_persistence_advanced\<close>: ended, and every event of both journals durable.\<close>

definition fully_durable :: "uuid \<Rightarrow> runtime_store \<Rightarrow> bool" where
  "fully_durable u st \<longleftrightarrow>
     (case dict_get (rs_invocations st) u of
        None \<Rightarrow> False
      | Some i \<Rightarrow> invocation_ended (inv_state i)
          \<and> (if inv_event_mode i = EvMinimal then store_persistence_status u st = Inr (Some StDurable)
             else (let events = dict_get_default (rs_events st) u [] in
                events \<noteq> [] \<and> inv_event_sequence i \<le> re_sequence (last events)
                \<and> inv_event_sequence i \<le> durable_sequence u st))
          \<and> user_event_persistence_status u st = Some StDurable)"

text \<open>The rounds of the loop of \<open>_remember_evicted_sequence\<close>, over the oldest entries.\<close>

fun release_oldest :: "uuid list \<Rightarrow> runtime_store \<Rightarrow> unit stepped" where
  "release_oldest [] st = (Inr (), st)"
| "release_oldest (u # us) st =
     (let st1 = st\<lparr>rs_evicted := dict_pop u (rs_evicted st)\<rparr>
      in case rs_persistence st1 of
           None \<Rightarrow> release_oldest us st1
         | Some c \<Rightarrow> (case release_invocation_tracking u c of
               Inl e \<Rightarrow> (Inl e, st1)
             | Inr c1 \<Rightarrow> release_oldest us (st1\<lparr>rs_persistence := Some c1\<rparr>)))"

definition remember_evicted :: "uuid \<Rightarrow> nat \<Rightarrow> runtime_store \<Rightarrow> unit stepped" where
  "remember_evicted u n st =
     (let evicted = dict_pop u (rs_evicted st) @ [(u, n)];
          limit = max 1 (rp_max_terminal (rs_retention st))
      in release_oldest (map fst (take (length evicted - limit) evicted)) (st\<lparr>rs_evicted := evicted\<rparr>))"

definition session_without :: "uuid \<Rightarrow> session \<Rightarrow> session" where
  "session_without u s =
     s\<lparr>ss_invocations := filter (\<lambda>j. inv_id j \<noteq> u) (ss_invocations s),
       ss_current := (if ss_current s = Some u then None else ss_current s)\<rparr>"

definition forget_in_session :: "uuid \<Rightarrow> runtime_store \<Rightarrow> runtime_store" where
  "forget_in_session u st =
     (case dict_get (rs_invocation_sessions st) u of
        None \<Rightarrow> st
      | Some sid \<Rightarrow>
          (let st1 = st\<lparr>rs_invocation_sessions := dict_pop u (rs_invocation_sessions st)\<rparr>
           in case dict_get (rs_sessions st1) sid of
                None \<Rightarrow> st1
              | Some s \<Rightarrow>
                  (let s1 = session_without u s; key = (ss_revision_id s, ss_key s)
                   in if ss_invocations s1 = []
                      then st1\<lparr>rs_sessions := dict_pop sid (rs_sessions st1),
                          rs_session_keys := (if dict_get (rs_session_keys st1) key = Some sid
                            then dict_pop key (rs_session_keys st1) else rs_session_keys st1),
                          rs_session_notified := dict_pop sid (rs_session_notified st1)\<rparr>
                      else st1\<lparr>rs_sessions := dict_set sid s1 (rs_sessions st1)\<rparr>)))"

definition forget_invocation :: "uuid \<Rightarrow> runtime_store \<Rightarrow> runtime_store" where
  "forget_invocation u st =
     st\<lparr>rs_events := dict_pop u (rs_events st), rs_user_events := dict_pop u (rs_user_events st),
        rs_user_sequences := dict_pop u (rs_user_sequences st), rs_expected_user := dict_pop u (rs_expected_user st),
        rs_user_listeners := dict_pop u (rs_user_listeners st),
        rs_runtime_listeners := dict_pop u (rs_runtime_listeners st),
        rs_reduced := dict_pop u (rs_reduced st), rs_reduced_bytes := dict_pop u (rs_reduced_bytes st),
        rs_checkpoints := filter (\<lambda>(k, x). fst k \<noteq> u) (rs_checkpoints st)\<rparr>"

definition evict_invocation :: "uuid \<Rightarrow> runtime_store \<Rightarrow> unit stepped" where
  "evict_invocation u st =
     (case dict_get (rs_invocations st) u of
        None \<Rightarrow> (Inr (), st)
      | Some i \<Rightarrow>
          (case remember_evicted u (inv_event_sequence i) (st\<lparr>rs_invocations := dict_pop u (rs_invocations st)\<rparr>) of
             (Inl e, st1) \<Rightarrow> (Inl e, st1)
           | (Inr _, st1) \<Rightarrow> (Inr (), forget_invocation u (forget_in_session u st1))))"

fun evict_oldest :: "uuid list \<Rightarrow> runtime_store \<Rightarrow> unit stepped" where
  "evict_oldest [] st = (Inr (), st)"
| "evict_oldest (u # us) st =
     (case evict_invocation u (st\<lparr>rs_lru := remove1 u (rs_lru st)\<rparr>) of
        (Inl e, st1) \<Rightarrow> (Inl e, st1)
      | (Inr _, st1) \<Rightarrow> evict_oldest us st1)"

definition persistence_advanced :: "uuid \<Rightarrow> runtime_store \<Rightarrow> unit stepped" where
  "persistence_advanced u st =
     (if \<not> fully_durable u st then (Inr (), st)
      else case rp_mode (rs_retention st) of
          RetainAll \<Rightarrow> (Inr (), st)
        | EvictDurableTerminal \<Rightarrow> evict_invocation u st
        | LruDurableTerminal \<Rightarrow>
            (let lru = remove1 u (rs_lru st) @ [u]
             in evict_oldest (take (length lru - rp_max_terminal (rs_retention st)) lru) (st\<lparr>rs_lru := lru\<rparr>)))"

section \<open>Recording events\<close>

definition expected_sequence :: "stored_event list \<Rightarrow> nat" where
  "expected_sequence es = (if es = [] then 1 else re_sequence (last es) + 1)"

text \<open>The checks of \<open>arecord_event\<close> before the journal is touched.\<close>

definition event_accepted :: "invocation \<Rightarrow> stored_event \<Rightarrow> unit res" where
  "event_accepted i e =
     (if re_invocation_id e \<noteq> inv_id i then Inl (ValueError ''RuntimeEvent invocation does not match aggregate.'')
      else if inv_event_mode i = EvMinimal then Inl (ValueError ''Minimal Invocations do not record RuntimeEvents.'')
      else if inv_event_mode i = EvFull \<and> se_operations e = None
      then Inl (ValueError ''Full RuntimeEvent has no StateOperations.'')
      else if inv_event_mode i = EvStandard \<and> se_operations e \<noteq> None
      then Inl (ValueError ''Standard RuntimeEvent cannot contain StateOperations.'')
      else Inr ())"

text \<open>The state an event leads to and its size: Full mode applies the event's operations, Standard
  mode takes a new image at a recovery point and keeps the old one otherwise.\<close>

definition event_state ::
  "session \<Rightarrow> invocation \<Rightarrow> stored_event \<Rightarrow> uuid list \<Rightarrow> bool \<Rightarrow> pyval \<Rightarrow> nat \<Rightarrow> (pyval \<times> nat) res" where
  "event_state s i e ids force previous bytes =
     (let applied = (\<lambda>ops. bindR (apply_state_operations previous ops)
            (\<lambda>reduced. Inr (reduced, updated_state_estimate previous bytes ops)))
      in if inv_event_mode i = EvFull then applied (case se_operations e of None \<Rightarrow> [] | Some ops \<Rightarrow> ops)
         else if force \<or> standard_recovery_point e
         then bindR (build_recovery_state_operations previous s i ids) applied
         else Inr (previous, bytes))"

definition event_recovery :: "invocation \<Rightarrow> stored_event \<Rightarrow> bool \<Rightarrow> pyval \<Rightarrow> execution_snapshot option" where
  "event_recovery i e force reduced =
     (if force \<or> inv_event_mode i = EvStandard \<and> standard_recovery_point e
      then Some \<lparr>es_invocation = inv_id i, es_through = re_sequence e, es_state = reduced\<rparr> else None)"

definition event_envelope ::
  "store_env \<Rightarrow> session \<Rightarrow> invocation \<Rightarrow> stored_event \<Rightarrow> bool \<Rightarrow> pyval \<Rightarrow> nat \<Rightarrow> persistence_envelope" where
  "event_envelope v s i e force reduced bytes =
     (let recovery = event_recovery i e force reduced
      in freeze_event_envelope (ev_envelope v) (ss_id s) (inv_id i) (invocation_state_str (inv_state i))
           (execution_mode_str (inv_execution_mode i)) (enc_opt PyDict (inv_result i))
           (enc_opt error_to_record (inv_error i)) (journal_view e) (ev_content v) recovery force
           (if recovery = None then 0 else bytes))"

definition event_recorded ::
  "session \<Rightarrow> invocation \<Rightarrow> stored_event \<Rightarrow> pyval \<Rightarrow> nat \<Rightarrow> runtime_store \<Rightarrow> runtime_store" where
  "event_recorded s i e reduced bytes st =
     (let u = inv_id i
      in st\<lparr>rs_events := dict_set u (dict_get_default (rs_events st) u [] @ [e]) (rs_events st),
            rs_reduced := dict_set u reduced (rs_reduced st),
            rs_reduced_bytes := dict_set u bytes (rs_reduced_bytes st),
            rs_sessions := dict_set (ss_id s) s (rs_sessions st),
            rs_invocations := dict_set u i (rs_invocations st)\<rparr>)"

text \<open>The first \<open>setdefault\<close> of the journal stays even when the event is refused.\<close>

definition arecord_event ::
  "store_env \<Rightarrow> session \<Rightarrow> invocation \<Rightarrow> stored_event \<Rightarrow> uuid list \<Rightarrow> bool \<Rightarrow> runtime_store \<Rightarrow> stored_event stepped"
where
  "arecord_event v s i e ids force st =
     (case event_accepted i e of
        Inl err \<Rightarrow> (Inl err, st)
      | Inr _ \<Rightarrow>
          (let u = inv_id i; events = dict_get_default (rs_events st) u [];
               st1 = st\<lparr>rs_events := dict_set u events (rs_events st)\<rparr>
           in if re_sequence e \<noteq> expected_sequence events
              then (Inl (ValueError (''Expected event sequence '' @ str_nat (expected_sequence events)
                       @ '', got '' @ str_nat (re_sequence e) @ ''.'')), st1)
              else case dict_get (rs_reduced st1) u of
                  None \<Rightarrow> (Inl (KeyError (''Unknown Invocation aggregate: '' @ uuid_str u)), st1)
                | Some previous \<Rightarrow>
                    (case event_state s i e ids force previous
                        (dict_get_default (rs_reduced_bytes st1) u (estimate_runtime_bytes previous)) of
                       Inl err \<Rightarrow> (Inl err, st1)
                     | Inr (reduced, bytes) \<Rightarrow>
                         (let st2 = event_recorded s i e reduced bytes st1;
                              st3 = persist_or_fail v u (re_sequence e) (event_envelope v s i e force reduced bytes) st2
                          in if \<not> has_backend st3 then (Inr e, st3)
                             else case persistence_advanced u st3 of
                                 (Inl err, st4) \<Rightarrow> (Inl err, st4) | (Inr _, st4) \<Rightarrow> (Inr e, st4)))))"

definition persist_invocation_state :: "store_env \<Rightarrow> session \<Rightarrow> invocation \<Rightarrow> runtime_store \<Rightarrow> runtime_store" where
  "persist_invocation_state v s i st =
     (let st1 = st\<lparr>rs_sessions := dict_set (ss_id s) s (rs_sessions st),
            rs_invocations := dict_set (inv_id i) i (rs_invocations st)\<rparr>
      in case (session_to_record s, invocation_to_record (ss_id s) i) of
           (PyDict sr, PyDict ir) \<Rightarrow>
             persist_or_fail v (inv_id i) 0
               (freeze_invocation_state_envelope (ev_envelope v) (ss_id s) (inv_id i) sr ir) st1
         | _ \<Rightarrow> st1)"

definition reduced_state :: "uuid \<Rightarrow> runtime_store \<Rightarrow> pyval res" where
  "reduced_state u st =
     (case dict_get (rs_reduced st) u of
        None \<Rightarrow> Inl (KeyError (''Unknown Invocation aggregate: '' @ uuid_str u)) | Some state \<Rightarrow> Inr state)"

section \<open>Checkpoints and the journal\<close>

text \<open>The checkpoints of an invocation beyond the newest ones are dropped, except the genesis.\<close>

definition cache_replay_checkpoint :: "execution_snapshot \<Rightarrow> runtime_store \<Rightarrow> runtime_store" where
  "cache_replay_checkpoint x st =
     (let u = es_invocation x; cps = dict_set (u, es_through x) x (rs_checkpoints st);
          newest = rev (sort (map snd (filter (\<lambda>(j, n). j = u \<and> n \<noteq> 0) (dict_keys cps))));
          dropped = drop (rp_max_checkpoints (rs_retention st)) newest
      in st\<lparr>rs_checkpoints := foldl (\<lambda>d n. dict_pop (u, n) d) cps dropped\<rparr>)"

definition checkpoint_candidates :: "uuid \<Rightarrow> nat option \<Rightarrow> runtime_store \<Rightarrow> execution_snapshot list" where
  "checkpoint_candidates u bound st =
     map snd (filter (\<lambda>((j, n), x). j = u \<and> (case bound of None \<Rightarrow> True | Some k \<Rightarrow> n \<le> k)) (rs_checkpoints st))"

definition newest_snapshot :: "execution_snapshot \<Rightarrow> execution_snapshot list \<Rightarrow> execution_snapshot" where
  "newest_snapshot x xs = foldl (\<lambda>x y. if es_through x < es_through y then y else x) x xs"

definition load_execution_snapshot ::
  "durable_backend \<Rightarrow> uuid \<Rightarrow> nat option \<Rightarrow> runtime_store \<Rightarrow> execution_snapshot option \<times> runtime_store" where
  "load_execution_snapshot bk u bound st =
     (case checkpoint_candidates u bound st of
        x # xs \<Rightarrow> (Some (newest_snapshot x xs), st)
      | [] \<Rightarrow>
          if \<not> has_backend st then (None, st)
          else (case bk_snapshot bk u bound of
              None \<Rightarrow> (None, st)
            | Some x \<Rightarrow> (Some x, st\<lparr>rs_checkpoints := dict_set (es_invocation x, es_through x) x (rs_checkpoints st)\<rparr>)))"

text \<open>\<open>values[-limit:]\<close> for a positive limit.\<close>

definition last_items :: "nat \<Rightarrow> 'a list \<Rightarrow> 'a list" where
  "last_items n xs = drop (length xs - n) xs"

definition events_between :: "nat \<Rightarrow> nat option \<Rightarrow> stored_event list \<Rightarrow> stored_event list" where
  "events_between after before es =
     filter (\<lambda>e. after < re_sequence e \<and> (case before of None \<Rightarrow> True | Some k \<Rightarrow> re_sequence e < k)) es"

definition list_runtime_events ::
  "durable_backend \<Rightarrow> uuid \<Rightarrow> nat \<Rightarrow> nat option \<Rightarrow> nat \<Rightarrow> runtime_store \<Rightarrow> stored_event list res" where
  "list_runtime_events bk u after before limit st =
     (if limit < 1 then Inl (ValueError ''Invalid RuntimeEvent page.'')
      else case dict_get (rs_events st) u of
          Some es \<Rightarrow> (let values = events_between after before es
              in Inr (if before \<noteq> None then last_items limit values else take limit values))
        | None \<Rightarrow> Inr (if has_backend st then bk_events bk u after before limit else []))"

text \<open>\<open>_load_event_range\<close>: the pages after a moving cursor. The fuel bounds the number of pages.\<close>

fun load_pages ::
  "nat \<Rightarrow> (nat \<Rightarrow> stored_event list res) \<Rightarrow> nat \<Rightarrow> nat \<Rightarrow> stored_event list \<Rightarrow> stored_event list res" where
  "load_pages 0 page limit cursor values = Inl OutOfFuel"
| "load_pages (Suc fuel) page limit cursor values =
     bindR (page cursor) (\<lambda>p.
       if p = [] then Inr values
       else if length p < limit then Inr (values @ p)
       else load_pages fuel page limit (re_sequence (last p)) (values @ p))"

definition load_event_range ::
  "nat \<Rightarrow> durable_backend \<Rightarrow> nat \<Rightarrow> uuid \<Rightarrow> nat \<Rightarrow> nat option \<Rightarrow> runtime_store \<Rightarrow> stored_event list res" where
  "load_event_range fuel bk page_size u after before st =
     load_pages fuel (\<lambda>cursor. list_runtime_events bk u cursor before page_size st) page_size after []"

definition default_page_size :: nat where
  "default_page_size = 10000"

text \<open>The aggregate a latest rebuild puts in the place of the old one.\<close>

definition install_rebuilt ::
  "session \<Rightarrow> invocation \<Rightarrow> stored_event list \<Rightarrow> nat \<Rightarrow> runtime_store \<Rightarrow> runtime_store" where
  "install_rebuilt s i events latest st =
     (let u = inv_id i; st1 = cache_session s st;
          reduced = (case inv_event_mode i of
              EvFull \<Rightarrow> dict_set u (capture_execution_state s i) (rs_reduced st1)
            | EvStandard \<Rightarrow> dict_set u (capture_recovery_state s i) (rs_reduced st1)
            | EvMinimal \<Rightarrow> rs_reduced st1)
      in st1\<lparr>rs_invocations := dict_set u i (rs_invocations st1),
             rs_invocation_sessions := dict_set u (ss_id s) (rs_invocation_sessions st1),
             rs_events := dict_set u events (rs_events st1),
             rs_user_sequences := dict_set u latest (rs_user_sequences st1),
             rs_expected_user := dict_set u latest (rs_expected_user st1),
             rs_evicted := dict_pop u (rs_evicted st1),
             rs_reduced := reduced,
             rs_reduced_bytes := (case dict_get reduced u of
                 None \<Rightarrow> rs_reduced_bytes st1
               | Some state \<Rightarrow> dict_set u (estimate_runtime_bytes state) (rs_reduced_bytes st1))\<rparr>)"

text \<open>What the events make of the snapshot.\<close>

definition rebuilt_aggregate ::
  "int \<Rightarrow> execution_snapshot \<Rightarrow> stored_event list \<Rightarrow> nat option \<Rightarrow> (session \<times> invocation) res" where
  "rebuilt_aggregate now x events through =
     bindR (restore_snapshot now x) (\<lambda>(s, i).
       if inv_event_mode i = EvStandard
       then (if through \<noteq> None then Inl (ValueError ''Standard RuntimeEvents cannot rebuild historical state.'')
             else Inr (s, if events = [] then i else i\<lparr>inv_event_sequence := re_sequence (last events)\<rparr>))
       else reduce_execution_state now x (map journal_view events) through)"

definition rebuild_execution ::
  "nat \<Rightarrow> durable_backend \<Rightarrow> int \<Rightarrow> uuid \<Rightarrow> nat option \<Rightarrow> runtime_store \<Rightarrow> (session \<times> invocation) stepped" where
  "rebuild_execution fuel bk now u through st =
     (case load_execution_snapshot bk u through st of
        (None, st1) \<Rightarrow> (Inl (KeyError (''No execution snapshot for Invocation: '' @ uuid_str u)), st1)
      | (Some x, st1) \<Rightarrow>
          (let range = (\<lambda>after before. load_event_range fuel bk default_page_size u after before st1);
               loaded = bindR (range (es_through x) (map_option Suc through)) (\<lambda>events.
                 bindR (rebuilt_aggregate now x events through) (\<lambda>p. Inr (events, p)))
           in case loaded of
                Inl err \<Rightarrow> (Inl err, st1)
              | Inr (events, s, i) \<Rightarrow>
                  if through \<noteq> None
                  then (Inr (s, i), cache_replay_checkpoint (capture_snapshot s i (Some (inv_event_sequence i))) st1)
                  else (case (if 0 < es_through x \<and> dict_get (rs_events st1) u = None \<and> has_backend st1
                              then range 0 None else Inr events) of
                      Inl err \<Rightarrow> (Inl err, st1)
                    | Inr all \<Rightarrow> (Inr (s, i), install_rebuilt s i all
                        (if has_backend st1 then bk_latest_user bk u else 0) st1))))"

section \<open>User events\<close>

text \<open>
  \<open>_record_user_events\<close>: the payloads are detached first, by \<open>view\<close>, the round trip through the
  serializer, which may raise; then the batch takes the next sequence numbers at once. The fresh
  identifiers of the events are left out, as their timestamps are.
\<close>

definition user_event_of :: "uuid \<Rightarrow> nat \<Rightarrow> user_event_spec \<Rightarrow> pyval \<Rightarrow> user_event" where
  "user_event_of u n spec data =
     \<lparr>ue_invocation = u, ue_sequence = n, ue_type = us_type spec, ue_data = data,
      ue_node_id = us_node_id spec, ue_workflow_path = us_workflow_path spec,
      ue_node_execution = us_node_execution_id spec, ue_operator_call = us_operator_call_id spec\<rparr>"

definition number_events :: "uuid \<Rightarrow> nat \<Rightarrow> (user_event_spec \<times> pyval) list \<Rightarrow> user_event list" where
  "number_events u first ps = map (\<lambda>(k, spec, data). user_event_of u (first + k) spec data) (zip [0..<length ps] ps)"

definition transient_user_event_types :: "string list" where
  "transient_user_event_types = [''message_delta'', ''reasoning_delta'', ''tool_call_delta'']"

definition durable_user_events :: "user_event list \<Rightarrow> user_event list" where
  "durable_user_events es = filter (\<lambda>e. ue_type e \<notin> set transient_user_event_types) es"

definition publish_user_events :: "store_env \<Rightarrow> uuid \<Rightarrow> user_event list \<Rightarrow> runtime_store \<Rightarrow> unit stepped" where
  "publish_user_events v u events st =
     (let durable = durable_user_events events
      in case rs_persistence st of
           None \<Rightarrow> (Inr (), st)
         | Some c \<Rightarrow>
             if durable = [] then (Inr (), st)
             else case dict_get (rs_invocation_sessions st) u of
                 None \<Rightarrow> (Inl (KeyError (uuid_str u)), st)
               | Some sid \<Rightarrow>
                   if dict_get (rs_sessions st) sid = None then (Inl (KeyError (uuid_str sid)), st)
                   else case freeze_user_event_batch_envelope (ev_envelope v) sid u durable of
                       Inl e \<Rightarrow> (Inl e, st)
                     | Inr e \<Rightarrow>
                         (Inr (), st\<lparr>rs_expected_user := dict_set u
                              (max (dict_get_default (rs_expected_user st) u 0) (ue_sequence (last durable))) (rs_expected_user st),
                            rs_persistence := Some (case try_reserve e c of
                                (None, c1) \<Rightarrow> degrade_user_events u (ue_sequence (hd durable))
                                  ''persistence queue reached its hard memory limit'' c1
                              | (Some r, c1) \<Rightarrow> snd (Persistence.publish (ev_now v) (ev_wake v) r e c1))\<rparr>))"

text \<open>The listeners of the invocation and of its session; a session hears of an invocation once,
  until another one of it is heard of, and of every directory change.\<close>

definition notify_user_event_change :: "uuid \<Rightarrow> bool \<Rightarrow> runtime_store \<Rightarrow> (nat set \<times> nat set) \<times> runtime_store" where
  "notify_user_event_change u directory st =
     (let own = dict_get_default (rs_user_listeners st) u {}
      in case dict_get (rs_invocation_sessions st) u of
           Some sid \<Rightarrow>
             if directory \<or> dict_get (rs_session_notified st) sid \<noteq> Some u
             then ((own, dict_get_default (rs_session_listeners st) sid {}),
                   st\<lparr>rs_session_notified := dict_set sid u (rs_session_notified st)\<rparr>)
             else ((own, {}), st)
         | None \<Rightarrow> ((own, {}), st))"

definition record_user_events ::
  "(pyval \<Rightarrow> pyval res) \<Rightarrow> store_env \<Rightarrow> uuid \<Rightarrow> user_event_spec list \<Rightarrow> runtime_store \<Rightarrow> user_event list stepped" where
  "record_user_events view v u specs st =
     (if specs = [] then (Inr [], st)
      else if dict_get (rs_invocations st) u = None then (Inl (KeyError (''Unknown Invocation: '' @ uuid_str u)), st)
      else case mapR (\<lambda>spec. view (us_data spec)) specs of
          Inl e \<Rightarrow> (Inl e, st)
        | Inr detached \<Rightarrow>
            (let events = number_events u (dict_get_default (rs_user_sequences st) u 0 + 1) (zip specs detached);
                 st1 = st\<lparr>rs_user_events := dict_set u (dict_get_default (rs_user_events st) u [] @ events) (rs_user_events st),
                        rs_user_sequences := dict_set u (ue_sequence (last events)) (rs_user_sequences st)\<rparr>
             in case publish_user_events v u events st1 of
                  (Inl e, st2) \<Rightarrow> (Inl e, st2)
                | (Inr _, st2) \<Rightarrow> (Inr events, snd (notify_user_event_change u False st2))))"

definition record_user_event ::
  "(pyval \<Rightarrow> pyval res) \<Rightarrow> store_env \<Rightarrow> uuid \<Rightarrow> user_event_spec \<Rightarrow> runtime_store \<Rightarrow> user_event stepped" where
  "record_user_event view v u spec st =
     (case record_user_events view v u [spec] st of
        (Inl e, st1) \<Rightarrow> (Inl e, st1) | (Inr es, st1) \<Rightarrow> (Inr (hd es), st1))"

definition notify_settled :: "uuid \<Rightarrow> runtime_store \<Rightarrow> (nat set \<times> nat set) \<times> runtime_store" where
  "notify_settled u st =
     (case dict_get (rs_invocations st) u of
        Some i \<Rightarrow> if invocation_ended (inv_state i) then notify_user_event_change u True st else (({}, {}), st)
      | None \<Rightarrow> (({}, {}), st))"

definition runtime_listeners :: "uuid \<Rightarrow> runtime_store \<Rightarrow> nat set" where
  "runtime_listeners u st = dict_get_default (rs_runtime_listeners st) u {}"

subsection \<open>Subscriptions\<close>

definition add_listener :: "uuid \<Rightarrow> nat \<Rightarrow> (uuid \<times> nat set) list \<Rightarrow> (uuid \<times> nat set) list" where
  "add_listener u l d = dict_set u (insert l (dict_get_default d u {})) d"

definition discard_listener :: "uuid \<Rightarrow> nat \<Rightarrow> (uuid \<times> nat set) list \<Rightarrow> (uuid \<times> nat set) list" where
  "discard_listener u l d =
     (case dict_get d u of
        None \<Rightarrow> d
      | Some ls \<Rightarrow> if ls - {l} = {} then dict_pop u d else dict_set u (ls - {l}) d)"

definition subscribe_user_event_changes :: "uuid \<Rightarrow> nat \<Rightarrow> runtime_store \<Rightarrow> runtime_store res" where
  "subscribe_user_event_changes u l st =
     (if dict_get (rs_invocations st) u = None then Inl (KeyError (''Unknown Invocation: '' @ uuid_str u))
      else Inr (st\<lparr>rs_user_listeners := add_listener u l (rs_user_listeners st)\<rparr>))"

definition unsubscribe_user_event_changes :: "uuid \<Rightarrow> nat \<Rightarrow> runtime_store \<Rightarrow> runtime_store" where
  "unsubscribe_user_event_changes u l st = st\<lparr>rs_user_listeners := discard_listener u l (rs_user_listeners st)\<rparr>"

definition subscribe_runtime_changes :: "uuid \<Rightarrow> nat \<Rightarrow> runtime_store \<Rightarrow> runtime_store res" where
  "subscribe_runtime_changes u l st =
     (if dict_get (rs_invocations st) u = None \<and> dict_get (rs_evicted st) u = None \<and> \<not> has_backend st
      then Inl (KeyError (''Unknown Invocation: '' @ uuid_str u))
      else Inr (st\<lparr>rs_runtime_listeners := add_listener u l (rs_runtime_listeners st)\<rparr>))"

definition unsubscribe_runtime_changes :: "uuid \<Rightarrow> nat \<Rightarrow> runtime_store \<Rightarrow> runtime_store" where
  "unsubscribe_runtime_changes u l st = st\<lparr>rs_runtime_listeners := discard_listener u l (rs_runtime_listeners st)\<rparr>"

definition subscribe_session_user_event_changes :: "uuid \<Rightarrow> nat \<Rightarrow> runtime_store \<Rightarrow> runtime_store" where
  "subscribe_session_user_event_changes sid l st =
     st\<lparr>rs_session_listeners := add_listener sid l (rs_session_listeners st)\<rparr>"

definition unsubscribe_session_user_event_changes :: "uuid \<Rightarrow> nat \<Rightarrow> runtime_store \<Rightarrow> runtime_store" where
  "unsubscribe_session_user_event_changes sid l st =
     st\<lparr>rs_session_listeners := discard_listener sid l (rs_session_listeners st)\<rparr>"

subsection \<open>Reading user events\<close>

definition list_user_events :: "uuid \<Rightarrow> nat \<Rightarrow> nat \<Rightarrow> runtime_store \<Rightarrow> user_event list res" where
  "list_user_events u after limit st =
     (if limit < 1 then Inl (ValueError ''Invalid UserEvent page.'')
      else if dict_get (rs_invocations st) u = None \<and> dict_get (rs_user_events st) u = None
      then Inl (KeyError (''Unknown Invocation: '' @ uuid_str u))
      else Inr (take limit (filter (\<lambda>e. after < ue_sequence e) (dict_get_default (rs_user_events st) u []))))"

definition latest_user_event_sequence :: "uuid \<Rightarrow> runtime_store \<Rightarrow> nat res" where
  "latest_user_event_sequence u st =
     (case dict_get (rs_user_sequences st) u of
        Some n \<Rightarrow> Inr n
      | None \<Rightarrow> if dict_get (rs_invocations st) u = None
          then Inl (KeyError (''Unknown Invocation: '' @ uuid_str u)) else Inr 0)"

definition needs_durable_prefix :: "uuid \<Rightarrow> nat \<Rightarrow> runtime_store \<Rightarrow> bool" where
  "needs_durable_prefix u after st \<longleftrightarrow> has_backend st
     \<and> (case dict_get (rs_user_events st) u of
          None \<Rightarrow> True
        | Some [] \<Rightarrow> False
        | Some (e # es) \<Rightarrow> int after < int (ue_sequence e) - 1)"

definition list_durable_user_events ::
  "durable_backend \<Rightarrow> uuid \<Rightarrow> nat \<Rightarrow> nat \<Rightarrow> runtime_store \<Rightarrow> user_event list res" where
  "list_durable_user_events bk u after limit st =
     (if limit < 1 then Inl (ValueError ''Invalid UserEvent page.'')
      else let known = dict_get (rs_user_events st) u;
               memory = filter (\<lambda>e. after < ue_sequence e) (case known of None \<Rightarrow> [] | Some es \<Rightarrow> es);
               durable = (if needs_durable_prefix u after st then bk_user_events bk u after limit else [])
        in if needs_durable_prefix u after st \<and> limit \<le> length durable then Inr durable
           else let selected = take (limit - length durable)
                      (filter (\<lambda>e. durable = [] \<or> ue_sequence (last durable) < ue_sequence e) memory)
             in if known \<noteq> None \<or> durable \<noteq> [] then Inr (durable @ selected)
                else if \<not> has_backend st \<and> dict_get (rs_invocations st) u = None
                then Inl (KeyError (''Unknown Invocation: '' @ uuid_str u)) else Inr [])"

definition latest_durable_user_sequence :: "durable_backend \<Rightarrow> uuid \<Rightarrow> runtime_store \<Rightarrow> nat res" where
  "latest_durable_user_sequence bk u st =
     (if dict_get (rs_user_sequences st) u \<noteq> None \<or> dict_get (rs_user_events st) u \<noteq> None
      then Inr (dict_get_default (rs_user_sequences st) u 0)
      else if \<not> has_backend st
      then (if dict_get (rs_invocations st) u = None then Inl (KeyError (''Unknown Invocation: '' @ uuid_str u)) else Inr 0)
      else Inr (bk_latest_user bk u))"

end
