(* ===== verification/Scheduler_Routing.thy ===== *)
theory Scheduler_Routing
  imports Scheduler
begin

text \<open>
  What every scheduler operation does to the invocation, stated once. The locale
  \<open>cursor_relation\<close> is the interface between a property of the cursor and the scheduler's
  methods: a reflexive and transitive relation closed under the primitive cursor updates. Its
  extension \<open>finalizer_contract\<close> adds the boundary finalisation the mutually recursive methods
  call. The lemmas of the locales carry the relation through every method, and the recursion
  of \<open>finalize_loop_boundary\<close> discharges the contract for the code's own finalisation. The
  interpretation at the end is on the relation \<open>cursor_step\<close>: the cursor only grows, only edge
  evaluations are added to executions, and a new request has a fresh key and is justified by
  resolved incoming edges.
\<close>

section \<open>Selected activations and justified requests\<close>

definition selected_activations :: "edge_resolution option list \<Rightarrow> edge_activation list" where
  "selected_activations ros = List.map_filter
     (\<lambda>ro. case ro of
        Some r \<Rightarrow> if er_state r = Selected then er_activation r else None
      | None \<Rightarrow> None) ros"

definition instance_resolutions ::
  "scheduler_context \<Rightarrow> string list \<Rightarrow> execution_scope \<Rightarrow> edge_resolution option list" where
  "instance_resolutions c incoming scope =
     map (\<lambda>eid. dict_get (edge_resolutions c) (edge_occurrence_key eid scope)) incoming"

definition justified :: "workflow_ir \<Rightarrow> scheduler_context \<Rightarrow> node_request \<Rightarrow> bool" where
  "justified W c r \<longleftrightarrow>
     (\<exists>incoming. incoming_edges_for_instance W (rq_node_id r) (rq_scope r) = Inr incoming
        \<and> incoming \<noteq> []
        \<and> None \<notin> set (instance_resolutions c incoming (rq_scope r))
        \<and> rq_activations r = selected_activations (instance_resolutions c incoming (rq_scope r))
        \<and> rq_activations r \<noteq> [])"

definition request_key :: "node_request \<Rightarrow> string" where
  "request_key r = node_instance_key (rq_node_id r) (rq_scope r)"

lemma instance_resolutions_extends:
  assumes "map_extends (edge_resolutions c) (edge_resolutions c')"
    and "None \<notin> set (instance_resolutions c incoming scope)"
  shows "instance_resolutions c' incoming scope = instance_resolutions c incoming scope"
  unfolding instance_resolutions_def
proof (rule map_cong [OF refl])
  fix eid assume "eid \<in> set incoming"
  with assms(2) obtain r where
    "dict_get (edge_resolutions c) (edge_occurrence_key eid scope) = Some r"
    by (force simp: instance_resolutions_def)
  with assms(1) show "dict_get (edge_resolutions c') (edge_occurrence_key eid scope)
      = dict_get (edge_resolutions c) (edge_occurrence_key eid scope)"
    by (simp add: map_extends_def)
qed

lemma justified_extends:
  assumes "justified W c r" and "map_extends (edge_resolutions c) (edge_resolutions c')"
  shows "justified W c' r"
proof -
  from assms(1) obtain incoming where
    "incoming_edges_for_instance W (rq_node_id r) (rq_scope r) = Inr incoming" "incoming \<noteq> []"
    "None \<notin> set (instance_resolutions c incoming (rq_scope r))"
    "rq_activations r = selected_activations (instance_resolutions c incoming (rq_scope r))"
    "rq_activations r \<noteq> []"
    by (auto simp: justified_def)
  with instance_resolutions_extends [OF assms(2)] show ?thesis
    unfolding justified_def by (intro exI [of _ incoming]) simp
qed

lemma resolve_instance_alt:
  "resolve_instance W fin n scope i =
     (let key = node_instance_key n scope; c = inv_scheduler i in
      if key \<in> scheduled_node_instances c \<or> key \<in> skipped_node_instances c then Inr (i, [])
      else bindR (incoming_edges_for_instance W n scope)
        (\<lambda>incoming.
          let rs = instance_resolutions c incoming scope in
          if incoming = [] \<or> None \<in> set rs then Inr (i, [])
          else if selected_activations rs \<noteq> [] then
            bindR (enter_loops scope (on_scheduler (enqueue_ready n (selected_activations rs) scope)
                (add_scheduled key i)))
              (\<lambda>i'. Inr (i', []))
          else bindR (header_region W n)
            (\<lambda>h. case h of
               Some r \<Rightarrow> bindR (frame_of scope (lr_id r))
                 (\<lambda>f. if frame_iteration f = 0
                      then skip_inactive_loop W fin r (take (lr_depth r + 1) scope) i
                      else skip_node_instance W fin n scope i)
             | None \<Rightarrow> skip_node_instance W fin n scope i)))"
  unfolding resolve_instance_def instance_resolutions_def selected_activations_def Let_def ..

section \<open>Relations closed under the primitive updates\<close>

locale cursor_relation =
  fixes W :: workflow_ir
    and R :: "invocation \<Rightarrow> invocation \<Rightarrow> bool"
  assumes R_refl: "R i i"
    and R_trans: "R i j \<Longrightarrow> R j k \<Longrightarrow> R i k"
    and R_resolve_edge: "on_scheduler_res (resolve_edge e st act s) i = Inr j \<Longrightarrow> R i j"
    and R_resolve_boundary:
      "on_scheduler_res (resolve_loop_boundary l ls e st act) i = Inr j \<Longrightarrow> R i j"
    and R_skipped: "R i (add_skipped key i)"
    and R_entered: "R i (add_entered key i)"
    and R_exited: "R i (add_exited key i)"
    and R_failed: "R i (mark_failed err i)"
    and R_evaluation: "R i (update_execution u (add_edge_evaluation ed t es sel re) i)"
    and R_deferred: "defer_terminal err ist i = Inr j \<Longrightarrow> R i j"
    and R_schedule:
      "node_instance_key n s \<notin> scheduled_node_instances (inv_scheduler i) \<Longrightarrow>
       incoming_edges_for_instance W n s = Inr inc \<Longrightarrow> inc \<noteq> [] \<Longrightarrow>
       None \<notin> set (instance_resolutions (inv_scheduler i) inc s) \<Longrightarrow>
       acts = selected_activations (instance_resolutions (inv_scheduler i) inc s) \<Longrightarrow>
       acts \<noteq> [] \<Longrightarrow>
       R i (on_scheduler (enqueue_ready n acts s) (add_scheduled (node_instance_key n s) i))"
begin

lemma R_foldR:
  assumes "foldR f s xs = Inr t"
    and "\<And>u x u'. x \<in> set xs \<Longrightarrow> f u x = Inr u' \<Longrightarrow> R (g u) (g u')"
  shows "R (g s) (g t)"
  using assms
proof (induction xs arbitrary: s)
  case Nil
  then show ?case by (simp add: R_refl)
next
  case (Cons x xs)
  then obtain u where u: "f s x = Inr u" "foldR f u xs = Inr t" by (auto simp: bindR_eq_Inr)
  have "R (g s) (g u)" by (rule Cons.prems(2) [of x]) (simp_all add: u(1))
  moreover have "R (g u) (g t)" by (rule Cons.IH [OF u(2)]) (rule Cons.prems(2), simp_all)
  ultimately show ?case by (rule R_trans)
qed

lemma R_enter_loops: "enter_loops s i = Inr j \<Longrightarrow> R i j"
  unfolding enter_loops_def
  by (erule R_foldR [where g = "\<lambda>i. i"]) (auto simp: bindR_eq_Inr intro: R_entered)

lemma R_route_edge: "route_edge W e s st act r = Inr r' \<Longrightarrow> R (ro_invocation r) (ro_invocation r')"
  by (auto simp: route_edge_def bindR_eq_Inr Let_def R_resolve_edge R_resolve_boundary
      split: option.splits)

lemma R_foldl_skipped: "R i (foldl (\<lambda>i n. add_skipped (f n) i) i ns)"
  by (induction ns arbitrary: i) (auto simp: R_refl intro: R_trans R_skipped)

lemma R_route_evaluated:
  assumes "route_edge W e s st act (r\<lparr>ro_invocation := update_execution u
             (add_edge_evaluation ed t es sel re) (ro_invocation r)\<rparr>) = Inr r'"
  shows "R (ro_invocation r) (ro_invocation r')"
  using R_trans [OF R_evaluation R_route_edge [OF assms, simplified]] .

lemma R_route_completed:
  assumes "route_completed W sctx n eids r = Inr out"
  shows "R (ro_invocation r) (case out of Inl j \<Rightarrow> j | Inr r' \<Rightarrow> ro_invocation r')"
  using assms
proof (induction eids arbitrary: r)
  case Nil
  then show ?case by (auto simp: R_refl)
next
  case (Cons eid eids)
  from Cons.prems obtain e where e: "edge_of W eid = Inr e" by (auto simp: bindR_eq_Inr)
  obtain sel reason where ev: "evaluate_edge e sctx (ro_invocation r) (ne_output n) = (sel, reason)"
    by fastforce
  show ?case
  proof (cases sel)
    case None
    with Cons.prems e ev show ?thesis by (auto intro: R_trans [OF R_evaluation R_failed])
  next
    case (Some b)
    with Cons.prems e ev obtain r' where r':
      "route_edge W e (ne_scope n) (if b then Selected else Skipped)
         (if b then Some (EdgeActivation (ed_id e) (ed_from_node e) (ne_id n)) else None)
         (r\<lparr>ro_invocation := update_execution (ne_id n)
            (add_edge_evaluation (ed_id e) (ed_to_node e) (if b then EvalSelected else EvalSkipped)
               b reason) (ro_invocation r)\<rparr>) = Inr r'"
      and rest: "route_completed W sctx n eids r' = Inr out"
      by (auto simp only: route_completed.simps bindR_eq_Inr e bindR_simps prod.case option.case)
    show ?thesis by (rule R_trans [OF R_route_evaluated [OF r'] Cons.IH [OF rest]])
  qed
qed

end

locale finalizer_contract = cursor_relation +
  fixes fin :: finalizer
  assumes R_fin: "fin r ls i = Inr j \<Longrightarrow> R i j"
begin

lemma R_finalize_all: "finalize_all W fin bs i = Inr j \<Longrightarrow> R i j"
  unfolding finalize_all_def
  by (erule R_foldR [where g = "\<lambda>i. i"]) (auto simp: bindR_eq_Inr intro: R_fin)

lemma R_skip_routes:
  "foldR (\<lambda>r eid. bindR (edge_of W eid) (\<lambda>e. route_edge W e s Skipped None r)) r eids = Inr r'
   \<Longrightarrow> R (ro_invocation r) (ro_invocation r')"
  by (erule R_foldR) (auto simp: bindR_eq_Inr intro: R_route_edge)

lemma R_skip_node:
  assumes "skip_node_instance W fin n s i = Inr (j, ts)"
  shows "R i j"
proof (cases "node_instance_key n s \<in> skipped_node_instances (inv_scheduler i)")
  case True
  with assms show ?thesis by (simp add: skip_node_instance_def Let_def R_refl)
next
  case False
  with assms obtain r where r: "foldR (\<lambda>r eid. bindR (edge_of W eid)
        (\<lambda>e. route_edge W e s Skipped None r))
      \<lparr>ro_invocation = add_skipped (node_instance_key n s) i, ro_targets = [], ro_boundaries = []\<rparr>
      (outgoing_of W n) = Inr r" "finalize_all W fin (ro_boundaries r) (ro_invocation r) = Inr j"
    by (auto simp: skip_node_instance_def Let_def bindR_eq_Inr)
  show ?thesis
    using R_trans [OF R_skipped R_trans [OF R_skip_routes [OF r(1), simplified]
        R_finalize_all [OF r(2)]]] .
qed

lemma R_propagate:
  "propagate_finalized_boundary_edge W fin ls e st act i = Inr (j, ts) \<Longrightarrow> R i j"
  by (auto simp: propagate_finalized_boundary_edge_def Let_def bindR_eq_Inr split: option.splits
      intro: R_resolve_edge R_trans [OF R_resolve_boundary R_fin])

lemma R_propagate_exits:
  assumes "propagate_exits W fin ls res eids (i, ts) = Inr (j, ts')"
  shows "R i j"
proof -
  have "R (fst (i, ts)) (fst (j, ts'))"
    using assms unfolding propagate_exits_def
    by (rule R_foldR) (auto simp: bindR_eq_Inr intro: R_propagate)
  then show ?thesis by simp
qed

lemma R_skip_inactive: "skip_inactive_loop W fin r ls i = Inr (j, ts) \<Longrightarrow> R i j"
  by (auto simp: skip_inactive_loop_def Let_def bindR_eq_Inr dest!: R_propagate_exits
      intro: R_trans [OF R_trans [OF R_foldl_skipped R_exited]])

lemma R_resolve_instance:
  assumes "resolve_instance W fin n s i = Inr (j, ts)"
  shows "R i j"
proof (cases "node_instance_key n s \<in> scheduled_node_instances (inv_scheduler i)
     \<or> node_instance_key n s \<in> skipped_node_instances (inv_scheduler i)")
  case True
  with assms show ?thesis by (auto simp: resolve_instance_alt Let_def R_refl)
next
  case False
  with assms obtain inc where inc: "incoming_edges_for_instance W n s = Inr inc"
    by (auto simp: resolve_instance_alt Let_def bindR_eq_Inr)
  show ?thesis
  proof (cases "inc = [] \<or> None \<in> set (instance_resolutions (inv_scheduler i) inc s)")
    case True
    with assms inc False show ?thesis by (simp add: resolve_instance_alt Let_def R_refl)
  next
    case go: False
    show ?thesis
    proof (cases "selected_activations (instance_resolutions (inv_scheduler i) inc s) = []")
      case True
      with assms inc False go show ?thesis
        by (auto simp: resolve_instance_alt Let_def bindR_eq_Inr split: option.splits if_splits
            intro: R_skip_node R_skip_inactive)
    next
      case sel: False
      with assms inc False go show ?thesis
        by (auto simp: resolve_instance_alt Let_def bindR_eq_Inr dest!: R_enter_loops
            intro: R_trans [OF R_schedule])
    qed
  qed
qed

lemma R_resolve_pending: "resolve_pending W fin rounds pending i = Inr j \<Longrightarrow> R i j"
proof (induction rounds arbitrary: pending i)
  case 0
  then show ?case by (auto simp: R_refl split: if_splits)
next
  case (Suc rounds)
  show ?case
  proof (cases "inv_state i = InvFailed \<or> pending = []")
    case True
    with Suc.prems have "j = i" by (cases pending) (auto split: if_splits)
    then show ?thesis by (simp add: R_refl)
  next
    case False
    then obtain n s rest where p: "pending = (n, s) # rest" by (cases pending) auto
    with False Suc.prems obtain i' more where
      "resolve_instance W fin n s i = Inr (i', more)"
      "resolve_pending W fin rounds (rest @ more) i' = Inr j"
      by (auto simp: bindR_eq_Inr)
    then show ?thesis using Suc.IH R_resolve_instance R_trans by blast
  qed
qed

lemma R_resolve_nodes: "resolve_node_instances W fin rounds ts i = Inr j \<Longrightarrow> R i j"
  by (auto simp: resolve_node_instances_def bindR_eq_Inr intro: R_resolve_pending)

lemma R_continue_edges:
  "foldR (\<lambda>i eid. bindR (resolution_for rs eid)
        (\<lambda>(st, act). on_scheduler_res (resolve_edge eid st act s) i)) i eids = Inr j \<Longrightarrow> R i j"
  by (erule R_foldR [where g = "\<lambda>i. i"])
    (auto simp: bindR_eq_Inr split: prod.splits intro: R_resolve_edge)

lemma R_continue: "continue_loop W fin rounds r ls rs i = Inr j \<Longrightarrow> R i j"
  by (auto simp: continue_loop_def bindR_eq_Inr dest!: R_continue_edges R_resolve_nodes
      intro: R_trans)

lemma R_exit: "exit_loop W fin rounds r ls rs i = Inr j \<Longrightarrow> R i j"
  by (auto simp: exit_loop_def bindR_eq_Inr dest!: R_propagate_exits R_resolve_nodes
      intro: R_trans [OF R_trans [OF R_exited]])

lemma R_finalize_step: "finalize_step W fin rounds r ls i = Inr j \<Longrightarrow> R i j"
  by (auto simp: finalize_step_def Let_def R_refl R_failed split: if_splits
      dest: R_continue R_exit)

end

context cursor_relation
begin

lemma R_finalize_boundary: "finalize_loop_boundary W k d r ls i = Inr j \<Longrightarrow> R i j"
proof (induction d arbitrary: r ls i j)
  case 0
  then show ?case by simp
next
  case (Suc d)
  have "finalizer_contract W R (finalize_loop_boundary W k d)"
    by unfold_locales (rule Suc.IH)
  then show ?case
    by (rule finalizer_contract.R_finalize_step) (use Suc.prems in simp)
qed

end

sublocale cursor_relation \<subseteq> fin: finalizer_contract W R "finalize_loop_boundary W k d" for k d
  by unfold_locales (rule R_finalize_boundary)

context cursor_relation
begin

lemma R_settle: "settle_routing W fu r = Inr j \<Longrightarrow> R (ro_invocation r) j"
  by (auto simp: settle_routing_def bindR_eq_Inr dest!: fin.R_resolve_nodes fin.R_finalize_all
      intro: R_trans)

lemma R_blocked_routes:
  assumes "foldR (\<lambda>r eid. bindR (edge_of W eid)
      (\<lambda>e. route_edge W e s Skipped None (r\<lparr>ro_invocation := update_execution u
         (add_edge_evaluation (ed_id e) (ed_to_node e) EvalSkipped False re)
         (ro_invocation r)\<rparr>))) r eids = Inr r'"
  shows "R (ro_invocation r) (ro_invocation r')"
  using assms by (rule R_foldR) (auto simp: bindR_eq_Inr intro: R_route_evaluated)

lemma R_blocked: "advance_blocked_execution W fu n reason i = Inr j \<Longrightarrow> R i j"
  unfolding advance_blocked_execution_def bindR_eq_Inr
  by (elim exE conjE) (use R_trans [OF R_blocked_routes R_settle] in fastforce)

lemma R_advance_completed:
  assumes "advance_completed W fu sctx t i = Inr j"
  shows "R i j"
proof (cases "get_node_execution (tr_node_execution_id t) i")
  case None
  with assms show ?thesis by (simp add: advance_completed_def) (metis R_failed)
next
  case (Some n)
  let ?r = "\<lparr>ro_invocation = i, ro_targets = [], ro_boundaries = []\<rparr>"
  from assms Some obtain out where
    out: "route_completed W sctx n (outgoing_of W (ne_node_id n)) ?r = Inr out"
      "(case out of Inl failed \<Rightarrow> Inr failed | Inr r \<Rightarrow> settle_routing W fu r) = Inr j"
    by (auto simp: advance_completed_def bindR_eq_Inr)
  show ?thesis
    using R_route_completed [OF out(1)] out(2) R_settle R_trans by (cases out) auto
qed

lemma R_advance_failed: "advance_failed W fu t i = Inr j \<Longrightarrow> R i j"
  by (auto simp: advance_failed_def Let_def bindR_eq_Inr R_failed split: option.splits if_splits
      intro: R_deferred R_trans [OF R_deferred R_blocked])

lemma R_next: "scheduler_next W fu sctx ts i = Inr j \<Longrightarrow> R i j"
proof (induction ts arbitrary: i)
  case Nil
  then show ?case by (simp add: R_refl)
next
  case (Cons t ts)
  show ?case
  proof (cases "inv_state i = InvFailed")
    case True
    with Cons.prems show ?thesis by (simp add: R_refl)
  next
    case False
    with Cons.prems obtain i' where step: "(case tr_state t of
            NodeCompleted \<Rightarrow> advance_completed W fu sctx t i
          | NodeFailed \<Rightarrow> advance_failed W fu t i
          | _ \<Rightarrow> Inr i) = Inr i'" and rest: "scheduler_next W fu sctx ts i' = Inr j"
      by (auto simp: bindR_eq_Inr)
    from step have "R i i'"
      by (cases "tr_state t") (auto simp: R_refl intro: R_advance_completed R_advance_failed)
    with Cons.IH [OF rest] show ?thesis by (rule R_trans [rotated])
  qed
qed

lemma R_skip_ready: "skip_ready_request W fu r i = Inr j \<Longrightarrow> R i j"
  by (auto simp: skip_ready_request_def bindR_eq_Inr dest!: fin.R_skip_node fin.R_resolve_nodes
      intro: R_trans)

end

section \<open>The relation of the scheduler\<close>

definition evaluations_added :: "node_execution \<Rightarrow> node_execution \<Rightarrow> bool" where
  "evaluations_added n m \<longleftrightarrow>
     (\<exists>es. m = n\<lparr>ne_edge_evaluations := ne_edge_evaluations n @ es\<rparr>)"

definition frame_kept :: "invocation \<Rightarrow> invocation \<Rightarrow> bool" where
  "frame_kept i j \<longleftrightarrow>
     inv_id j = inv_id i \<and> inv_entry_node_id j = inv_entry_node_id i \<and> inv_input j = inv_input i
     \<and> inv_context j = inv_context i \<and> inv_output_index j = inv_output_index i
     \<and> inv_execution_mode j = inv_execution_mode i \<and> inv_event_mode j = inv_event_mode i
     \<and> inv_event_sequence j = inv_event_sequence i \<and> inv_result j = inv_result i
     \<and> transition_queue (inv_scheduler j) = transition_queue (inv_scheduler i)
     \<and> waiting_executions (inv_scheduler j) = waiting_executions (inv_scheduler i)
     \<and> (inv_state j = inv_state i \<or> inv_state j = InvFailed)
     \<and> list_all2 evaluations_added (inv_node_executions i) (inv_node_executions j)"

definition requests_added :: "workflow_ir \<Rightarrow> scheduler_context \<Rightarrow> scheduler_context \<Rightarrow> bool" where
  "requests_added W c c' \<longleftrightarrow>
     (\<exists>rs. ready_queue c' = ready_queue c @ rs
        \<and> distinct (map request_key rs)
        \<and> (\<forall>r \<in> set rs. request_key r \<notin> scheduled_node_instances c \<and> justified W c' r)
        \<and> scheduled_node_instances c' = scheduled_node_instances c \<union> request_key ` set rs)"

definition cursor_step :: "workflow_ir \<Rightarrow> invocation \<Rightarrow> invocation \<Rightarrow> bool" where
  "cursor_step W i j \<longleftrightarrow>
     frame_kept i j \<and> cursor_extends (inv_scheduler i) (inv_scheduler j)
     \<and> requests_added W (inv_scheduler i) (inv_scheduler j)"

lemma evaluations_added_refl [simp]: "evaluations_added n n"
  unfolding evaluations_added_def by (rule exI [of _ "[]"]) simp

lemma evaluations_added_trans [trans]:
  "evaluations_added a b \<Longrightarrow> evaluations_added b c \<Longrightarrow> evaluations_added a c"
  by (auto simp: evaluations_added_def)

lemma evaluations_added_identity: "evaluations_added n m \<Longrightarrow> same_identity n m"
  by (auto simp: evaluations_added_def same_identity_def)

lemma list_all2_evaluations_trans:
  "list_all2 evaluations_added xs ys \<Longrightarrow> list_all2 evaluations_added ys zs \<Longrightarrow>
   list_all2 evaluations_added xs zs"
  by (rule list_all2_trans [OF evaluations_added_trans])

lemma list_all2_update_first:
  assumes "\<And>x. Q x x" and "\<And>x. Q x (f x)"
  shows "list_all2 Q xs (update_first P f xs)"
  using assms by (induction xs) (auto simp: list.rel_refl)

lemma frame_kept_refl [simp]: "frame_kept i i"
  by (simp add: frame_kept_def list.rel_refl)

lemma frame_kept_trans: "frame_kept i j \<Longrightarrow> frame_kept j k \<Longrightarrow> frame_kept i k"
  unfolding frame_kept_def by (auto intro: list_all2_evaluations_trans)

lemma requests_added_same [intro]:
  "ready_queue c' = ready_queue c \<Longrightarrow> scheduled_node_instances c' = scheduled_node_instances c \<Longrightarrow>
   requests_added W c c'"
  by (auto simp: requests_added_def)

lemma requests_added_trans:
  assumes "requests_added W a b" and "requests_added W b c"
    and "map_extends (edge_resolutions b) (edge_resolutions c)"
  shows "requests_added W a c"
proof -
  from assms(1) obtain rs where rs: "ready_queue b = ready_queue a @ rs" "distinct (map request_key rs)"
    "\<forall>r \<in> set rs. request_key r \<notin> scheduled_node_instances a \<and> justified W b r"
    "scheduled_node_instances b = scheduled_node_instances a \<union> request_key ` set rs"
    unfolding requests_added_def by blast
  from assms(2) obtain qs where qs: "ready_queue c = ready_queue b @ qs" "distinct (map request_key qs)"
    "\<forall>r \<in> set qs. request_key r \<notin> scheduled_node_instances b \<and> justified W c r"
    "scheduled_node_instances c = scheduled_node_instances b \<union> request_key ` set qs"
    unfolding requests_added_def by blast
  have "set (map request_key rs) \<inter> set (map request_key qs) = {}"
  proof -
    have "set (map request_key rs) \<subseteq> scheduled_node_instances b" by (simp add: rs(4))
    moreover have "k \<notin> scheduled_node_instances b" if "k \<in> set (map request_key qs)" for k
      using that qs(3) by auto
    ultimately show ?thesis by blast
  qed
  then have "distinct (map request_key (rs @ qs))"
    using rs(2) qs(2) by simp
  moreover have "request_key r \<notin> scheduled_node_instances a \<and> justified W c r"
    if "r \<in> set (rs @ qs)" for r
    using that rs(3,4) qs(3) justified_extends [OF _ assms(3), of W r] by auto
  moreover have "ready_queue c = ready_queue a @ rs @ qs"
    "scheduled_node_instances c = scheduled_node_instances a \<union> request_key ` set (rs @ qs)"
    using rs(1,4) qs(1,4) by (simp_all add: image_Un Un_assoc)
  ultimately show ?thesis
    unfolding requests_added_def by (intro exI [of _ "rs @ qs"]) blast
qed

text \<open>An update of the cursor that leaves the queues, the requests and the schedule alone.\<close>

lemma cursor_step_cursor:
  assumes "cursor_extends (inv_scheduler i) c" and "ready_queue c = ready_queue (inv_scheduler i)"
    and "scheduled_node_instances c = scheduled_node_instances (inv_scheduler i)"
    and "transition_queue c = transition_queue (inv_scheduler i)"
    and "waiting_executions c = waiting_executions (inv_scheduler i)"
  shows "cursor_step W i (i\<lparr>inv_scheduler := c\<rparr>)"
  using assms by (auto simp: cursor_step_def frame_kept_def list.rel_refl)

lemma cursor_step_lifecycle:
  assumes "frame_kept i j" and "inv_scheduler j = inv_scheduler i"
  shows "cursor_step W i j"
  using assms by (auto simp: cursor_step_def)

interpretation step: cursor_relation W "cursor_step W" for W
proof
  fix i j k e st act s l ls key err u ed t es sel re ist n inc acts
  show "cursor_step W i i" by (rule cursor_step_lifecycle) simp_all
  show "cursor_step W i k" if "cursor_step W i j" "cursor_step W j k"
    using that unfolding cursor_step_def
    by (meson frame_kept_trans cursor_extends_trans requests_added_trans cursor_extends_def)
  show "cursor_step W i j" if "on_scheduler_res (resolve_edge e st act s) i = Inr j"
    using that by (auto simp: on_scheduler_res_eq_Inr dest: resolve_edge_extends resolve_edge_frame
        intro!: cursor_step_cursor)
  show "cursor_step W i j" if "on_scheduler_res (resolve_loop_boundary l ls e st act) i = Inr j"
    using that by (auto simp: on_scheduler_res_eq_Inr dest: resolve_loop_boundary_extends
        resolve_loop_boundary_frame intro!: cursor_step_cursor)
  show "cursor_step W i (add_skipped key i)" unfolding add_skipped_def
    by (rule cursor_step_cursor) (auto simp: cursor_extends_def)
  show "cursor_step W i (add_entered key i)" unfolding add_entered_def
    by (rule cursor_step_cursor) (auto simp: cursor_extends_def)
  show "cursor_step W i (add_exited key i)" unfolding add_exited_def
    by (rule cursor_step_cursor) (auto simp: cursor_extends_def)
  show "cursor_step W i (mark_failed err i)"
    by (rule cursor_step_lifecycle) (simp_all add: mark_failed_def frame_kept_def list.rel_refl)
  have "evaluations_added x (add_edge_evaluation ed t es sel re x)" for x
    by (auto simp: evaluations_added_def add_edge_evaluation_def)
  then show "cursor_step W i (update_execution u (add_edge_evaluation ed t es sel re) i)"
    by (intro cursor_step_lifecycle)
      (simp_all add: update_execution_def frame_kept_def list_all2_update_first)
  show "cursor_step W i j" if "defer_terminal err ist i = Inr j"
    using that by (intro cursor_step_lifecycle)
      (auto simp: defer_terminal_def frame_kept_def list.rel_refl split: if_splits)
  show "cursor_step W i (on_scheduler (enqueue_ready n acts s) (add_scheduled (node_instance_key n s) i))"
    if "node_instance_key n s \<notin> scheduled_node_instances (inv_scheduler i)"
      "incoming_edges_for_instance W n s = Inr inc" "inc \<noteq> []"
      "None \<notin> set (instance_resolutions (inv_scheduler i) inc s)"
      "acts = selected_activations (instance_resolutions (inv_scheduler i) inc s)" "acts \<noteq> []"
    using that unfolding cursor_step_def
    by (auto simp: frame_kept_def list.rel_refl add_scheduled_def enqueue_ready_def
        enqueue_request_def mk_request_def cursor_extends_def requests_added_def request_key_def
        justified_def instance_resolutions_def)
qed

end
