(* ===== verification/Settling.thy ===== *)
theory Settling
  imports Prelude
begin

text \<open>
  Fuelled computations that settle. The scheduler's definitions are bounded by two budgets, the
  nesting of boundary finalisations and the rounds of a pending loop. A computation settles when
  some bounds are enough: from there on its result no longer depends on the budgets, it is not the
  exhausted budget, and it satisfies a postcondition. Settling composes along \<open>bindR\<close> and \<open>foldR\<close>.
\<close>

section \<open>Postconditions of results\<close>

definition post :: "('a \<Rightarrow> bool) \<Rightarrow> 'a res \<Rightarrow> bool" where
  "post P x \<longleftrightarrow> (case x of Inl e \<Rightarrow> e \<noteq> OutOfFuel | Inr y \<Rightarrow> P y)"

lemma post_simps [simp]:
  "post P (Inl e) \<longleftrightarrow> e \<noteq> OutOfFuel"
  "post P (Inr y) \<longleftrightarrow> P y"
  by (simp_all add: post_def)

lemma post_mono: "post P x \<Longrightarrow> (\<And>y. P y \<Longrightarrow> Q y) \<Longrightarrow> post Q x"
  by (cases x) auto

lemma post_iff: "post P x \<longleftrightarrow> x \<noteq> Inl OutOfFuel \<and> (\<forall>y. x = Inr y \<longrightarrow> P y)"
  by (cases x) auto

lemma post_bind: "post P m \<Longrightarrow> (\<And>y. m = Inr y \<Longrightarrow> P y \<Longrightarrow> post Q (f y)) \<Longrightarrow> post Q (bindR m f)"
  by (cases m) auto

lemma post_foldR:
  assumes "P s" and "\<And>s x. x \<in> set xs \<Longrightarrow> P s \<Longrightarrow> post P (f s x)"
  shows "post P (foldR f s xs)"
  using assms by (induction xs arbitrary: s) (auto intro!: post_bind)

lemma post_mapR: "(\<And>x. x \<in> set xs \<Longrightarrow> f x \<noteq> Inl OutOfFuel) \<Longrightarrow> mapR f xs \<noteq> Inl OutOfFuel"
  by (induction xs) (auto simp: bindR_eq_Inl)

section \<open>Settling\<close>

type_synonym 'a fuelled = "nat \<Rightarrow> nat \<Rightarrow> nat \<Rightarrow> 'a res"

definition settles :: "('a \<Rightarrow> bool) \<Rightarrow> 'a fuelled \<Rightarrow> bool" where
  "settles P g \<longleftrightarrow> (\<exists>x. post P x \<and> (\<exists>N. \<forall>k \<ge> N. \<forall>d \<ge> N. \<forall>r \<ge> N. g k d r = x))"

lemma settlesI: "post P x \<Longrightarrow> (\<And>k d r. N \<le> k \<Longrightarrow> N \<le> d \<Longrightarrow> N \<le> r \<Longrightarrow> g k d r = x) \<Longrightarrow> settles P g"
  unfolding settles_def by blast

lemma settlesE:
  assumes "settles P g"
  obtains x N where "post P x" "\<And>k d r. N \<le> k \<Longrightarrow> N \<le> d \<Longrightarrow> N \<le> r \<Longrightarrow> g k d r = x"
  using assms unfolding settles_def by blast

lemma settles_const: "post P x \<Longrightarrow> settles P (\<lambda>k d r. x)"
  by (rule settlesI [where N = 0]) simp_all

lemma settles_mono: "settles P g \<Longrightarrow> (\<And>y. P y \<Longrightarrow> Q y) \<Longrightarrow> settles Q g"
  by (elim settlesE) (blast intro: settlesI post_mono)

lemma settles_if:
  "(b \<Longrightarrow> settles P f) \<Longrightarrow> (\<not> b \<Longrightarrow> settles P g) \<Longrightarrow> settles P (\<lambda>k d r. if b then f k d r else g k d r)"
  by (cases b) simp_all

lemma settles_bind:
  assumes "settles P g" and "\<And>y. P y \<Longrightarrow> settles Q (\<lambda>k d r. h k d r y)"
  shows "settles Q (\<lambda>k d r. bindR (g k d r) (h k d r))"
proof -
  obtain x N where x: "post P x" "\<And>k d r. N \<le> k \<Longrightarrow> N \<le> d \<Longrightarrow> N \<le> r \<Longrightarrow> g k d r = x"
    using assms(1) by (rule settlesE) blast
  show ?thesis
  proof (cases x)
    case (Inl e)
    with x show ?thesis by (intro settlesI [of Q "Inl e" N]) auto
  next
    case (Inr y)
    then have "settles Q (\<lambda>k d r. h k d r y)" using assms(2) x(1) by simp
    then obtain z M where "post Q z" "\<And>k d r. M \<le> k \<Longrightarrow> M \<le> d \<Longrightarrow> M \<le> r \<Longrightarrow> h k d r y = z"
      by (rule settlesE) blast
    with x(2) Inr show ?thesis by (intro settlesI [of Q z "max N M"]) auto
  qed
qed

lemma settles_bind_const:
  assumes "post P m" and "\<And>y. m = Inr y \<Longrightarrow> P y \<Longrightarrow> settles Q (\<lambda>k d r. h k d r y)"
  shows "settles Q (\<lambda>k d r. bindR m (h k d r))"
  using assms by (cases m) (auto intro: settles_const)

lemma settles_then_const:
  assumes "settles P g" and "\<And>y. P y \<Longrightarrow> post Q (f y)"
  shows "settles Q (\<lambda>k d r. bindR (g k d r) f)"
  by (rule settles_bind [where P = P and h = "\<lambda>_ _ _. f", OF assms(1)]) (rule settles_const [OF assms(2)])

lemma settles_foldR:
  assumes "P s" and "\<And>s x. x \<in> set xs \<Longrightarrow> P s \<Longrightarrow> settles P (\<lambda>k d r. f k d r s x)"
  shows "settles P (\<lambda>k d r. foldR (f k d r) s xs)"
  using assms
proof (induction xs arbitrary: s)
  case Nil
  then show ?case by (auto intro: settles_const)
next
  case (Cons x xs)
  have "settles P (\<lambda>k d r. bindR (f k d r s x) (\<lambda>s'. foldR (f k d r) s' xs))"
  proof (rule settles_bind [where P = P and h = "\<lambda>k d r s'. foldR (f k d r) s' xs"])
    show "settles P (\<lambda>k d r. f k d r s x)" by (rule Cons.prems(2)) (simp_all add: Cons.prems(1))
    show "settles P (\<lambda>k d r. foldR (f k d r) y xs)" if "P y" for y
      by (rule Cons.IH [OF that]) (use Cons.prems(2) in auto)
  qed
  then show ?case by simp
qed

text \<open>Spending one unit of a budget, and using the same budget twice.\<close>

lemma settles_rounds_Suc:
  "settles P g \<Longrightarrow> (\<And>k d r. f k d (Suc r) = g k d r) \<Longrightarrow> settles P f"
proof (elim settlesE)
  fix x N assume "post P x" "\<And>k d r. N \<le> k \<Longrightarrow> N \<le> d \<Longrightarrow> N \<le> r \<Longrightarrow> g k d r = x"
    and "\<And>k d r. f k d (Suc r) = g k d r"
  then show "settles P f" by (intro settlesI [of P x "Suc N"]) (auto simp: Suc_le_eq dest!: gr0_implies_Suc less_imp_Suc_add)
qed

lemma settles_depth_Suc:
  "settles P g \<Longrightarrow> (\<And>k d r. f k (Suc d) r = g k d r) \<Longrightarrow> settles P f"
proof (elim settlesE)
  fix x N assume "post P x" "\<And>k d r. N \<le> k \<Longrightarrow> N \<le> d \<Longrightarrow> N \<le> r \<Longrightarrow> g k d r = x"
    and "\<And>k d r. f k (Suc d) r = g k d r"
  then show "settles P f" by (intro settlesI [of P x "Suc N"]) (auto simp: Suc_le_eq dest!: gr0_implies_Suc less_imp_Suc_add)
qed

lemma settles_diagonal: "settles P g \<Longrightarrow> settles P (\<lambda>k d r. g k d k)"
  by (elim settlesE) (blast intro: settlesI)

end
