(* ===== verification/Scheduler_Returns.thy ===== *)
theory Scheduler_Returns
  imports Scheduler_Routing Settling
begin

text \<open>
  The scheduler returns. Its methods call each other through the finalisation of loop boundaries
  and its pending loops run until no instance is left, so the definitions carry two budgets; here
  budgets are found that always suffice. Every round that recurses skips an instance that was not
  skipped before, within a finite universe of instances, or moves to a strictly shorter scope; the
  continuation of a loop never recurses, because the header of the next iteration has an activation.
\<close>

section \<open>Keys of loop boundaries\<close>

lemma append_digits_inj:
  assumes "str_nat a @ x = str_nat b @ y" and "x \<noteq> []" "y \<noteq> []" "\<not> is_digit (hd x)" "\<not> is_digit (hd y)"
  shows "a = b \<and> x = y"
proof -
  have split: "takeWhile is_digit (str_nat n @ z) = str_nat n" if "z \<noteq> []" "\<not> is_digit (hd z)" for n z
    using that str_nat_digits [of _ n] by (cases z) (auto simp: takeWhile_append2)
  have "str_nat a = str_nat b" using split [of x a] split [of y b] assms by metis
  then show ?thesis using assms(1) by (auto dest: str_nat_inj)
qed

text \<open>What follows a scope's key: the edge of a boundary, or nothing.\<close>

fun scope_suffix :: "execution_scope \<Rightarrow> string \<Rightarrow> string" where
  "scope_suffix [] e = '':'' @ e"
| "scope_suffix (f # fs) e = ''/'' @ frame_key f @ scope_suffix fs e"

lemma scope_suffix_hd [simp]: "scope_suffix s e \<noteq> []" "\<not> is_digit (hd (scope_suffix s e))"
  by (cases s; simp)+

lemma joined_scope: "join_str ''/'' (map frame_key (f # fs)) @ '':'' @ e = frame_key f @ scope_suffix fs e"
  by (induction fs arbitrary: f) simp_all

lemma frame_suffix_inj:
  assumes "frame_key f @ scope_suffix s a = frame_key g @ scope_suffix t b"
    and "clean_region (frame_region f)" "clean_region (frame_region g)"
  shows "scope_suffix s a = scope_suffix t b"
proof -
  have "frame_region f @ CHR '':'' # (str_nat (frame_iteration f) @ scope_suffix s a)
      = frame_region g @ CHR '':'' # (str_nat (frame_iteration g) @ scope_suffix t b)"
    using assms(1) by (simp add: frame_key_def)
  then have "str_nat (frame_iteration f) @ scope_suffix s a = str_nat (frame_iteration g) @ scope_suffix t b"
    using append_sep_inj assms(2,3) by (metis clean_region_def)
  then show ?thesis using append_digits_inj by (metis scope_suffix_hd)
qed

lemma scope_suffix_inj:
  "scope_suffix s a = scope_suffix t b \<Longrightarrow> clean_scope s \<Longrightarrow> clean_scope t \<Longrightarrow> a = b"
proof (induction s arbitrary: t)
  case Nil
  then show ?case by (cases t) auto
next
  case (Cons f s)
  then obtain g t' where t: "t = g # t'" by (cases t) auto
  have "frame_key f @ scope_suffix s a = frame_key g @ scope_suffix t' b" using Cons.prems(1) t by simp
  then have "scope_suffix s a = scope_suffix t' b"
    by (rule frame_suffix_inj) (use Cons.prems t in \<open>simp_all add: clean_scope_def\<close>)
  then show ?case by (rule Cons.IH) (use Cons.prems t in \<open>simp_all add: clean_scope_def\<close>)
qed

text \<open>A boundary's key determines its edge.\<close>

lemma loop_boundary_key_edge:
  assumes "loop_boundary_key l s a = loop_boundary_key m t b"
    and "s \<noteq> []" "t \<noteq> []" "clean_region l" "clean_region m" "clean_scope s" "clean_scope t"
  shows "a = b"
proof -
  obtain f fs g gs where st: "s = f # fs" "t = g # gs" using assms(2,3) by (cases s; cases t) auto
  let ?f = "LoopIteration (l @ ''@'' @ frame_region f) (frame_iteration f)"
  let ?g = "LoopIteration (m @ ''@'' @ frame_region g) (frame_iteration g)"
  have "l @ ''@'' @ frame_key f @ scope_suffix fs a = m @ ''@'' @ frame_key g @ scope_suffix gs b"
    using assms(1) joined_scope [of f fs a] joined_scope [of g gs b]
    unfolding loop_boundary_key_def st execution_scope_key_def by (simp del: list.map)
  then have "frame_key ?f @ scope_suffix fs a = frame_key ?g @ scope_suffix gs b"
    by (simp add: frame_key_def)
  then have "scope_suffix fs a = scope_suffix gs b"
    by (rule frame_suffix_inj) (use assms st in \<open>simp_all add: clean_scope_def clean_region_def\<close>)
  then show ?thesis
    by (rule scope_suffix_inj) (use assms st in \<open>simp_all add: clean_scope_def\<close>)
qed

section \<open>The universe of a scheduler call\<close>

text \<open>
  The frames \<open>F\<close> and the length \<open>L\<close> bound every scope a call handles, except the scope of a next
  iteration, in which nothing recurses.
\<close>

definition scope_universe :: "workflow_ir \<Rightarrow> loop_iteration set \<Rightarrow> nat \<Rightarrow> bool" where
  "scope_universe W F L \<longleftrightarrow>
     wf_ir W \<and> finite F \<and> (\<forall>f \<in> F. clean_region (frame_region f))
     \<and> (\<forall>n. (\<lambda>rid. LoopIteration rid 0) ` set (loop_stack_of W n) \<subseteq> F \<and> length (loop_stack_of W n) \<le> L)"

definition scopes :: "loop_iteration set \<Rightarrow> nat \<Rightarrow> execution_scope set" where
  "scopes F L = {s. set s \<subseteq> F \<and> length s \<le> L}"

definition instances :: "workflow_ir \<Rightarrow> loop_iteration set \<Rightarrow> nat \<Rightarrow> target set" where
  "instances W F L = {(n, s). n \<in> set (dict_keys (wf_nodes W)) \<and> s \<in> scopes F L
     \<and> length s = length (loop_stack_of W n)}"

definition instance_keys :: "workflow_ir \<Rightarrow> loop_iteration set \<Rightarrow> nat \<Rightarrow> string set" where
  "instance_keys W F L = (\<lambda>(n, s). node_instance_key n s) ` instances W F L"

definition remaining :: "workflow_ir \<Rightarrow> loop_iteration set \<Rightarrow> nat \<Rightarrow> invocation \<Rightarrow> nat" where
  "remaining W F L i = card (instance_keys W F L - skipped_node_instances (inv_scheduler i))"

lemma finite_instance_keys: "finite F \<Longrightarrow> finite (instance_keys W F L)"
proof -
  assume "finite F"
  then have "finite (set (dict_keys (wf_nodes W)) \<times> scopes F L)"
    by (simp add: scopes_def finite_lists_length_le)
  then have "finite (instances W F L)"
    by (rule rev_finite_subset) (auto simp: instances_def)
  then show ?thesis by (simp add: instance_keys_def)
qed

lemma remaining_mono:
  "finite F \<Longrightarrow> skipped_node_instances (inv_scheduler i) \<subseteq> skipped_node_instances (inv_scheduler j)
   \<Longrightarrow> remaining W F L j \<le> remaining W F L i"
  unfolding remaining_def by (rule card_mono) (auto simp: finite_instance_keys)

lemma remaining_less:
  assumes "finite F" and "skipped_node_instances (inv_scheduler i) \<subseteq> skipped_node_instances (inv_scheduler j)"
    and "(n, s) \<in> instances W F L" and "node_instance_key n s \<notin> skipped_node_instances (inv_scheduler i)"
    and "node_instance_key n s \<in> skipped_node_instances (inv_scheduler j)"
  shows "remaining W F L j < remaining W F L i"
proof -
  have "node_instance_key n s \<in> instance_keys W F L" using assms(3) by (auto simp: instance_keys_def)
  then show ?thesis
    unfolding remaining_def using assms by (intro psubset_card_mono) (auto simp: finite_instance_keys)
qed

subsection \<open>What the cursor records\<close>

text \<open>
  A resolution stored for a boundary is the one of the edge its key names, and a selected edge
  carries an activation.
\<close>

definition boundaries_sound :: "workflow_ir \<Rightarrow> edge_resolution dict \<Rightarrow> bool" where
  "boundaries_sound W d \<longleftrightarrow> (\<forall>(k, r) \<in> set d. er_scope r \<noteq> [] \<and> clean_scope (er_scope r)
     \<and> (\<exists>rid \<in> set (dict_keys (gr_loop_regions (wf_graph W))).
          k = loop_boundary_key rid (er_scope r) (er_edge_id r)))"

definition selections_carry :: "edge_resolution dict \<Rightarrow> bool" where
  "selections_carry d \<longleftrightarrow> (\<forall>(k, r) \<in> set d. er_state r = Selected \<longrightarrow> er_activation r \<noteq> None)"

definition cursor_sound :: "workflow_ir \<Rightarrow> scheduler_context \<Rightarrow> bool" where
  "cursor_sound W c \<longleftrightarrow>
     boundaries_sound W (loop_boundary_resolutions c) \<and> selections_carry (edge_resolutions c)"

definition sound :: "workflow_ir \<Rightarrow> loop_iteration set \<Rightarrow> nat \<Rightarrow> invocation \<Rightarrow> bool" where
  "sound W F L i \<longleftrightarrow> cursor_sound W (inv_scheduler i)
     \<and> (\<forall>n \<in> set (inv_node_executions i). ne_scope n \<in> scopes F L)"

text \<open>What every step of the scheduler keeps, from \<open>i\<close> on.\<close>

definition advanced :: "workflow_ir \<Rightarrow> loop_iteration set \<Rightarrow> nat \<Rightarrow> invocation \<Rightarrow> invocation \<Rightarrow> bool" where
  "advanced W F L i j \<longleftrightarrow> sound W F L j
     \<and> skipped_node_instances (inv_scheduler i) \<subseteq> skipped_node_instances (inv_scheduler j)"

lemma advanced_refl [simp]: "advanced W F L i i \<longleftrightarrow> sound W F L i"
  by (simp add: advanced_def)

lemma advanced_trans: "advanced W F L i j \<Longrightarrow> advanced W F L j k \<Longrightarrow> advanced W F L i k"
  by (auto simp: advanced_def)

lemma advanced_sound: "advanced W F L i j \<Longrightarrow> sound W F L j"
  by (simp add: advanced_def)

lemma advanced_then:
  "advanced W F L i j \<Longrightarrow> (sound W F L j \<Longrightarrow> advanced W F L j k) \<Longrightarrow> advanced W F L i k"
  using advanced_trans advanced_sound by blast

lemma advanced_remaining: "finite F \<Longrightarrow> advanced W F L i j \<Longrightarrow> remaining W F L j \<le> remaining W F L i"
  by (simp add: advanced_def remaining_mono)

lemma set_dict_set: "set (dict_set k v d) \<subseteq> insert (k, v) (set d)"
  by (induction d) (auto simp: dict_set_def)

lemma ball_dict_set:
  "\<forall>(k, r) \<in> set d. P k r \<Longrightarrow> P k v \<Longrightarrow> \<forall>(k, r) \<in> set (dict_set k v d). P k r"
  using set_dict_set [of k v d] by fastforce

lemma boundaries_sound_set:
  "boundaries_sound W d \<Longrightarrow> er_scope r \<noteq> [] \<Longrightarrow> clean_scope (er_scope r)
   \<Longrightarrow> rid \<in> set (dict_keys (gr_loop_regions (wf_graph W)))
   \<Longrightarrow> boundaries_sound W (dict_set (loop_boundary_key rid (er_scope r) (er_edge_id r)) r d)"
  unfolding boundaries_sound_def by (rule ball_dict_set) auto

lemma selections_carry_set:
  "selections_carry d \<Longrightarrow> (er_state r = Selected \<longrightarrow> er_activation r \<noteq> None) \<Longrightarrow> selections_carry (dict_set k r d)"
  unfolding selections_carry_def by (rule ball_dict_set) auto

lemma sound_cursor:
  assumes "sound W F L i" and "cursor_sound W c"
    and "skipped_node_instances (inv_scheduler i) \<subseteq> skipped_node_instances c"
  shows "advanced W F L i (i\<lparr>inv_scheduler := c\<rparr>)"
  using assms by (simp add: advanced_def sound_def)

lemma resolve_edge_advances:
  assumes "sound W F L i"
  shows "post (advanced W F L i) (on_scheduler_res (resolve_edge e st act s) i)"
  using assms
  by (auto simp: on_scheduler_res_def resolve_edge_def Let_def sound_def cursor_sound_def
      intro!: sound_cursor selections_carry_set split: option.splits)

lemma resolve_boundary_advances:
  assumes "sound W F L i" and "rid \<in> set (dict_keys (gr_loop_regions (wf_graph W)))" and "s \<noteq> []" "clean_scope s"
  shows "post (advanced W F L i) (on_scheduler_res (resolve_loop_boundary rid s e st act) i)"
proof -
  have "boundaries_sound W (dict_set (loop_boundary_key rid s e)
      \<lparr>er_edge_id = e, er_state = st, er_activation = act, er_scope = s\<rparr> (loop_boundary_resolutions (inv_scheduler i)))"
    using boundaries_sound_set [of W _ "\<lparr>er_edge_id = e, er_state = st, er_activation = act, er_scope = s\<rparr>" rid] assms
    by (simp add: sound_def cursor_sound_def)
  then show ?thesis
    using assms
    by (auto simp: on_scheduler_res_def resolve_loop_boundary_def Let_def sound_def cursor_sound_def
        intro!: sound_cursor split: option.splits)
qed

lemma bookkeeping_advances [simp]:
  "advanced W F L i (add_skipped key i) \<longleftrightarrow> sound W F L i"
  "advanced W F L i (add_entered key i) \<longleftrightarrow> sound W F L i"
  "advanced W F L i (add_exited key i) \<longleftrightarrow> sound W F L i"
  "advanced W F L i (add_scheduled key i) \<longleftrightarrow> sound W F L i"
  "advanced W F L i (on_scheduler (enqueue_ready n acts s) i) \<longleftrightarrow> sound W F L i"
  "advanced W F L i (mark_failed err i) \<longleftrightarrow> sound W F L i"
  by (auto simp: advanced_def sound_def cursor_sound_def add_skipped_def add_entered_def add_exited_def
      add_scheduled_def mark_failed_def enqueue_ready_def enqueue_request_def)

lemma evaluation_advances:
  "sound W F L i \<Longrightarrow> advanced W F L i (update_execution u (add_edge_evaluation ed t es sel re) i)"
  using set_update_first [of "\<lambda>n. ne_id n = u" "add_edge_evaluation ed t es sel re" "inv_node_executions i"]
  by (fastforce simp: advanced_def sound_def cursor_sound_def update_execution_def add_edge_evaluation_def)

lemma defer_advances: "sound W F L i \<Longrightarrow> post (advanced W F L i) (defer_terminal err st i)"
  by (auto simp: defer_terminal_def advanced_def sound_def)

section \<open>Scopes and regions\<close>

lemma loop_scope_prefix:
  "loop_scope s rid = Inr ls \<Longrightarrow>
     (\<exists>t. s = ls @ t) \<and> ls \<noteq> [] \<and> loop_scope ls rid = Inr ls
     \<and> frame_region (last ls) = rid \<and> (\<forall>f \<in> set (butlast ls). frame_region f \<noteq> rid)"
  by (induction s arbitrary: ls) (auto simp: bindR_eq_Inr split: if_splits)

lemma lookups_not_fuel [simp]:
  "loop_scope s rid \<noteq> Inl OutOfFuel" "frame_of s rid \<noteq> Inl OutOfFuel"
  "header_region_in W n rids \<noteq> Inl OutOfFuel" "header_region W n \<noteq> Inl OutOfFuel"
  "boundary_owner_in W e s \<noteq> Inl OutOfFuel" "boundary_owner W e s \<noteq> Inl OutOfFuel"
  "outer_boundary W e s \<noteq> Inl OutOfFuel" "resolution_for rs eid \<noteq> Inl OutOfFuel"
proof -
  show scope: "loop_scope s rid \<noteq> Inl OutOfFuel" by (induction s) (auto simp: bindR_eq_Inl)
  show "frame_of s rid \<noteq> Inl OutOfFuel" by (induction s) auto
  show header: "header_region_in W n rids \<noteq> Inl OutOfFuel" for rids
    by (induction rids) (auto simp: bindR_eq_Inl)
  show owner: "boundary_owner_in W e s \<noteq> Inl OutOfFuel" for s
    by (induction s) (auto simp: bindR_eq_Inl)
  show "header_region W n \<noteq> Inl OutOfFuel" by (simp add: header_region_def header)
  show "boundary_owner W e s \<noteq> Inl OutOfFuel" by (simp add: boundary_owner_def owner)
  show "outer_boundary W e s \<noteq> Inl OutOfFuel" by (simp add: owner)
  show "resolution_for rs eid \<noteq> Inl OutOfFuel" by (simp add: resolution_for_def split: option.splits)
qed

lemma instance_key_not_fuel [simp]: "loop_instance_key s rid \<noteq> Inl OutOfFuel"
  by (simp add: loop_instance_key_def bindR_eq_Inl)

lemma post_lookup: "m \<noteq> Inl OutOfFuel \<Longrightarrow> post (\<lambda>_. True) m"
  by (cases m) auto

lemma enter_loops_advances:
  "sound W F L i \<Longrightarrow> post (advanced W F L i) (enter_loops s i)"
  unfolding enter_loops_def
  by (rule post_foldR)
    (auto intro!: post_bind [OF post_lookup] elim!: advanced_then)

lemma incoming_not_fuel [simp]: "incoming_edges_for_instance W n s \<noteq> Inl OutOfFuel"
  by (auto simp: incoming_edges_for_instance_def bindR_eq_Inl split: option.splits)

lemma ordered_targets_not_fuel [simp]: "ordered_targets W ts \<noteq> Inl OutOfFuel"
  by (auto simp: ordered_targets_def Let_def bindR_eq_Inl dest!: post_mapR [THEN notE, rotated])

lemma ordered_targets_set: "ordered_targets W ts = Inr us \<Longrightarrow> set us = set ts"
  by (auto simp: ordered_targets_def Let_def bindR_eq_Inr)

lemma universeD:
  assumes "scope_universe W F L"
  shows "wf_ir W" "finite F" "f \<in> F \<Longrightarrow> clean_region (frame_region f)"
    "rid \<in> set (loop_stack_of W n) \<Longrightarrow> LoopIteration rid 0 \<in> F" "length (loop_stack_of W n) \<le> L"
  using assms by (auto simp: scope_universe_def)

lemma scopes_append: "s @ t \<in> scopes F L \<Longrightarrow> s \<in> scopes F L"
  by (auto simp: scopes_def)

lemma scopes_butlast: "s \<in> scopes F L \<Longrightarrow> butlast s \<in> scopes F L"
  by (auto simp: scopes_def dest: in_set_butlastD)

lemma scopes_clean: "scope_universe W F L \<Longrightarrow> s \<in> scopes F L \<Longrightarrow> clean_scope s"
  by (auto simp: scopes_def clean_scope_def scope_universe_def)

lemma wf_region:
  assumes "wf_ir W" and "region_of W rid = Inr r"
  shows "region_ok W rid r" and "lr_id r = rid" and "rid \<in> set (dict_keys (gr_loop_regions (wf_graph W)))"
proof -
  have mem: "(rid, r) \<in> set (gr_loop_regions (wf_graph W))"
    using assms(2) by (auto simp: dict_index_eq_Inr dict_get_mem)
  then show "region_ok W rid r" using assms(1) by (fastforce simp: wf_ir_def)
  then show "lr_id r = rid" by (simp add: region_ok_def)
  show "rid \<in> set (dict_keys (gr_loop_regions (wf_graph W)))" using mem by (force simp: dict_keys_def)
qed

lemma wf_edge:
  "wf_ir W \<Longrightarrow> edge_of W eid = Inr e \<Longrightarrow> ed_id e = eid \<and> ed_to_node e \<in> set (dict_keys (wf_nodes W))"
  by (fastforce simp: wf_ir_def dict_index_eq_Inr dest: dict_get_mem)

text \<open>A boundary the scheduler finalises: a region and the scope that ends at its frame.\<close>

definition valid_boundary ::
  "workflow_ir \<Rightarrow> loop_iteration set \<Rightarrow> nat \<Rightarrow> loop_region_ir \<Rightarrow> execution_scope \<Rightarrow> bool" where
  "valid_boundary W F L region ls \<longleftrightarrow>
     region_of W (lr_id region) = Inr region \<and> ls \<in> scopes F L \<and> loop_scope ls (lr_id region) = Inr ls"

lemma boundary_owner_in_region:
  "wf_ir W \<Longrightarrow> boundary_owner_in W e fs = Inr (Some r) \<Longrightarrow> region_of W (lr_id r) = Inr r"
  by (induction fs) (auto simp: bindR_eq_Inr wf_region(2) split: if_splits)

lemma loop_scope_valid:
  assumes "s \<in> scopes F L" and "loop_scope s (lr_id r) = Inr ls" and "region_of W (lr_id r) = Inr r"
  shows "valid_boundary W F L r ls" and "length ls \<le> length s" and "ls \<noteq> []"
  using loop_scope_prefix [OF assms(2)] assms by (auto simp: valid_boundary_def dest: scopes_append)

lemma target_scope_instance:
  assumes "scope_universe W F L" and "edge_of W eid = Inr e" and "s \<in> scopes F L"
  shows "(ed_to_node e, target_scope W e s) \<in> instances W F L"
proof -
  let ?stack = "loop_stack_of W (ed_to_node e)" and ?c = "common_len (map frame_region s) (loop_stack_of W (ed_to_node e))"
  have le: "?c \<le> length s" "?c \<le> length ?stack"
    using common_len_le [of "map frame_region s" ?stack] by simp_all
  have "LoopIteration rid 0 \<in> F" if "rid \<in> set (drop ?c ?stack)" for rid
    using that universeD(4) [OF assms(1)] by (meson in_set_dropD)
  moreover have "set (take ?c s) \<subseteq> F"
    using assms(3) by (auto simp: scopes_def dest: in_set_takeD)
  ultimately have "set (target_scope W e s) \<subseteq> F"
    by (auto simp: target_scope_def Let_def)
  moreover have "length (target_scope W e s) = length ?stack"
    using le by (simp add: target_scope_def Let_def)
  ultimately show ?thesis
    using wf_edge [OF universeD(1) [OF assms(1)] assms(2)] universeD(5) [OF assms(1)]
    by (simp add: instances_def scopes_def)
qed

section \<open>Routing\<close>

definition routed :: "workflow_ir \<Rightarrow> loop_iteration set \<Rightarrow> nat \<Rightarrow> invocation \<Rightarrow> routing \<Rightarrow> bool" where
  "routed W F L i r \<longleftrightarrow> advanced W F L i (ro_invocation r) \<and> set (ro_targets r) \<subseteq> instances W F L
     \<and> (\<forall>(rid, ls) \<in> set (ro_boundaries r). \<forall>region. region_of W rid = Inr region \<longrightarrow> valid_boundary W F L region ls)"

lemma route_edge_routed:
  assumes "scope_universe W F L" and "routed W F L i r" and "edge_of W eid = Inr e" and "s \<in> scopes F L"
  shows "post (routed W F L i) (route_edge W e s st act r)"
proof -
  note wf = universeD(1) [OF assms(1)]
  have sound: "sound W F L (ro_invocation r)" using assms(2) by (simp add: routed_def advanced_def)
  have "post (routed W F L i) (case owner of
        Some region \<Rightarrow> bindR (loop_scope s (lr_id region))
          (\<lambda>ls. bindR (on_scheduler_res (resolve_loop_boundary (lr_id region) ls (ed_id e) st act) (ro_invocation r))
            (\<lambda>i. Inr (r\<lparr>ro_invocation := i, ro_boundaries := List.insert (lr_id region, ls) (ro_boundaries r)\<rparr>)))
      | None \<Rightarrow> bindR (on_scheduler_res (resolve_edge (ed_id e) st act (target_scope W e s)) (ro_invocation r))
            (\<lambda>i. Inr (r\<lparr>ro_invocation := i, ro_targets := ro_targets r @ [(ed_to_node e, target_scope W e s)]\<rparr>)))"
    if owner: "boundary_owner W e s = Inr owner" for owner
  proof (cases owner)
    case None
    show ?thesis
      unfolding None option.case
      by (rule post_bind [OF resolve_edge_advances [OF sound]])
        (use assms(2) target_scope_instance [OF assms(1,3,4)] in \<open>auto simp: routed_def intro: advanced_trans\<close>)
  next
    case (Some region)
    then have reg: "region_of W (lr_id region) = Inr region"
      using owner boundary_owner_in_region [OF wf] by (simp add: boundary_owner_def)
    show ?thesis
      unfolding Some option.case
    proof (rule post_bind [OF post_lookup])
      fix ls assume ls: "loop_scope s (lr_id region) = Inr ls"
      note valid = loop_scope_valid [OF assms(4) ls reg]
      have "clean_scope ls" using valid(1) scopes_clean [OF assms(1)] by (simp add: valid_boundary_def)
      note adv = resolve_boundary_advances [OF sound wf_region(3) [OF wf reg] valid(3) this]
      show "post (routed W F L i) (bindR (on_scheduler_res (resolve_loop_boundary (lr_id region) ls (ed_id e) st act)
            (ro_invocation r)) (\<lambda>i. Inr (r\<lparr>ro_invocation := i, ro_boundaries := List.insert (lr_id region, ls) (ro_boundaries r)\<rparr>)))"
        by (rule post_bind [OF adv])
          (use assms(2) valid(1) reg in \<open>auto simp: routed_def valid_boundary_def intro: advanced_trans\<close>)
    qed simp
  qed
  then show ?thesis
    unfolding route_edge_def Let_def by (intro post_bind [OF post_lookup]) simp_all
qed

section \<open>Skipping and propagation\<close>

abbreviation fin_within :: "workflow_ir \<Rightarrow> nat \<Rightarrow> nat \<Rightarrow> finalizer" where
  "fin_within W k d \<equiv> finalize_loop_boundary W k d"

text \<open>
  The induction hypothesis: finalisation settles where fewer than \<open>M\<close> instances remain to be
  skipped, and for scopes shorter than \<open>l\<close> also where \<open>M\<close> remain.
\<close>

definition boundary_settles :: "workflow_ir \<Rightarrow> loop_iteration set \<Rightarrow> nat \<Rightarrow> nat \<Rightarrow> nat \<Rightarrow> bool" where
  "boundary_settles W F L M l \<longleftrightarrow> (\<forall>region ls i. valid_boundary W F L region ls \<longrightarrow> sound W F L i
     \<longrightarrow> remaining W F L i < M \<or> remaining W F L i \<le> M \<and> length ls < l
     \<longrightarrow> settles (advanced W F L i) (\<lambda>k d r. fin_within W k d region ls i))"

definition stepped :: "workflow_ir \<Rightarrow> loop_iteration set \<Rightarrow> nat \<Rightarrow> invocation \<Rightarrow> invocation \<times> target list \<Rightarrow> bool" where
  "stepped W F L i = (\<lambda>(j, ts). advanced W F L i j \<and> set ts \<subseteq> instances W F L)"

lemma stepped_iff [simp]: "stepped W F L i (j, ts) \<longleftrightarrow> advanced W F L i j \<and> set ts \<subseteq> instances W F L"
  by (simp add: stepped_def)

lemma boundary_settlesD:
  assumes "boundary_settles W F L M l" and "finite F" and "advanced W F L i j" and "valid_boundary W F L region ls"
    and "remaining W F L i < M \<or> remaining W F L i \<le> M \<and> length ls < l"
  shows "settles (advanced W F L i) (\<lambda>k d r. fin_within W k d region ls j)"
proof -
  have "settles (advanced W F L j) (\<lambda>k d r. fin_within W k d region ls j)"
    using assms advanced_remaining [OF assms(2,3)] advanced_sound [OF assms(3)]
    unfolding boundary_settles_def by fastforce
  then show ?thesis by (rule settles_mono) (rule advanced_trans [OF assms(3)])
qed

lemma finalize_all_settles:
  assumes "boundary_settles W F L M l" and "finite F" and "sound W F L i" and "remaining W F L i < M"
    and "\<And>rid ls region. (rid, ls) \<in> set bs \<Longrightarrow> region_of W rid = Inr region \<Longrightarrow> valid_boundary W F L region ls"
  shows "settles (advanced W F L i) (\<lambda>k d r. finalize_all W (fin_within W k d) bs i)"
  unfolding finalize_all_def
proof (rule settles_foldR)
  show "advanced W F L i i" using assms(3) by simp
  fix j b assume "b \<in> set bs" and adv: "advanced W F L i j"
  obtain rid ls where b: "b = (rid, ls)" by (cases b)
  have "settles (advanced W F L i) (\<lambda>k d r. bindR (region_of W rid) (\<lambda>region. fin_within W k d region ls j))"
    by (rule settles_bind_const [OF post_lookup])
      (use boundary_settlesD [OF assms(1,2) adv] assms(4,5) \<open>b \<in> set bs\<close> b in auto)
  then show "settles (advanced W F L i) (\<lambda>k d r. case b of (rid, ls) \<Rightarrow>
      bindR (region_of W rid) (\<lambda>region. fin_within W k d region ls j))"
    by (simp add: b)
qed

lemma skip_fresh_settles:
  assumes "boundary_settles W F L M l" and "scope_universe W F L" and "sound W F L i" and "s \<in> scopes F L"
    and "node_instance_key n s \<notin> skipped_node_instances (inv_scheduler i)"
    and "remaining W F L (add_skipped (node_instance_key n s) i) < M"
  shows "settles (stepped W F L (add_skipped (node_instance_key n s) i))
    (\<lambda>k d r. skip_node_instance W (fin_within W k d) n s i)"
proof -
  note fin = universeD(2) [OF assms(2)]
  let ?i = "add_skipped (node_instance_key n s) i"
  let ?r = "\<lparr>ro_invocation = ?i, ro_targets = [], ro_boundaries = []\<rparr>"
  have adv: "advanced W F L i ?i" using assms(3) by simp
  have "post (routed W F L ?i) (foldR (\<lambda>r eid. bindR (edge_of W eid) (\<lambda>e. route_edge W e s Skipped None r)) ?r (outgoing_of W n))"
    by (rule post_foldR)
      (use advanced_sound [OF adv] in \<open>auto simp: routed_def [of _ _ _ _ ?r] intro!: post_bind [OF post_lookup]
        route_edge_routed [OF assms(2) _ _ assms(4)]\<close>)
  moreover have "settles (stepped W F L ?i) (\<lambda>k d _. bindR (finalize_all W (fin_within W k d) (ro_boundaries r) (ro_invocation r))
      (\<lambda>i'. Inr (i', ro_targets r)))" if "routed W F L ?i r" for r
  proof (rule settles_then_const)
    have r: "advanced W F L ?i (ro_invocation r)" using that by (simp add: routed_def)
    show "settles (advanced W F L (ro_invocation r))
        (\<lambda>k d _. finalize_all W (fin_within W k d) (ro_boundaries r) (ro_invocation r))"
      by (rule finalize_all_settles [OF assms(1) fin advanced_sound [OF r]])
        (use assms(6) advanced_remaining [OF fin r] that in \<open>auto simp: routed_def\<close>)
    show "post (stepped W F L ?i) (Inr (j, ro_targets r))" if "advanced W F L (ro_invocation r) j" for j
      using advanced_trans [OF r that] \<open>routed W F L ?i r\<close> by (simp add: routed_def)
  qed
  ultimately show ?thesis
    using assms(5) unfolding skip_node_instance_def Let_def
    by (simp add: settles_bind_const)
qed

lemma skip_node_settles:
  assumes "boundary_settles W F L M l" and "scope_universe W F L" and "sound W F L i" and "s \<in> scopes F L"
    and "remaining W F L i < M"
  shows "settles (stepped W F L i) (\<lambda>k d r. skip_node_instance W (fin_within W k d) n s i)"
proof (cases "node_instance_key n s \<in> skipped_node_instances (inv_scheduler i)")
  case True
  then show ?thesis using assms(3) by (simp add: skip_node_instance_def Let_def settles_const)
next
  case False
  have adv: "advanced W F L i (add_skipped (node_instance_key n s) i)" using assms(3) by simp
  show ?thesis
  proof (rule settles_mono [OF skip_fresh_settles [OF assms(1-4) False]])
    show "remaining W F L (add_skipped (node_instance_key n s) i) < M"
      using assms(5) advanced_remaining [OF universeD(2) [OF assms(2)] adv] by simp
    show "stepped W F L i y" if "stepped W F L (add_skipped (node_instance_key n s) i) y" for y
      using that advanced_trans [OF adv] by (cases y) simp
  qed
qed

lemma propagate_settles:
  assumes "boundary_settles W F L M l" and "scope_universe W F L" and "advanced W F L i j" and "ls \<in> scopes F L"
    and "remaining W F L i < M \<or> remaining W F L i \<le> M \<and> length ls \<le> l" and "edge_of W eid = Inr e"
  shows "settles (stepped W F L i) (\<lambda>k d r. propagate_finalized_boundary_edge W (fin_within W k d) ls e st act j)"
proof -
  note wf = universeD(1) [OF assms(2)] and fin = universeD(2) [OF assms(2)] and sound = advanced_sound [OF assms(3)]
  have "settles (stepped W F L i) (\<lambda>k d r. case outer of
           Some region \<Rightarrow> bindR (loop_scope (butlast ls) (lr_id region))
               (\<lambda>owner. bindR (on_scheduler_res (resolve_loop_boundary (lr_id region) owner (ed_id e) st act) j)
                 (\<lambda>i1. bindR (fin_within W k d region owner i1) (\<lambda>i2. Inr (i2, []))))
         | None \<Rightarrow> bindR (on_scheduler_res (resolve_edge (ed_id e) st act (target_scope W e ls)) j)
                (\<lambda>i1. Inr (i1, [(ed_to_node e, target_scope W e ls)])))"
    if outer: "outer_boundary W e (rev (butlast ls)) = Inr outer" for outer
  proof (cases outer)
    case None
    have "post (stepped W F L i) (bindR (on_scheduler_res (resolve_edge (ed_id e) st act (target_scope W e ls)) j)
        (\<lambda>i1. Inr (i1, [(ed_to_node e, target_scope W e ls)])))"
      by (rule post_bind [OF resolve_edge_advances [OF sound]])
        (use target_scope_instance [OF assms(2,6,4)] advanced_trans [OF assms(3)] in auto)
    then show ?thesis unfolding None option.case by (rule settles_const)
  next
    case (Some region)
    then have reg: "region_of W (lr_id region) = Inr region"
      using outer boundary_owner_in_region [OF wf] by simp
    show ?thesis
      unfolding Some option.case
    proof (rule settles_bind_const [OF post_lookup])
      fix owner assume "loop_scope (butlast ls) (lr_id region) = Inr owner"
      note valid = loop_scope_valid [OF scopes_butlast [OF assms(4)] this reg]
      have "clean_scope owner" using valid(1) scopes_clean [OF assms(2)] by (simp add: valid_boundary_def)
      note adv = resolve_boundary_advances [OF sound wf_region(3) [OF wf reg] valid(3) this]
      have "length owner < length ls \<or> ls = []" using valid(2) by (cases "length ls") auto
      then have small: "remaining W F L i < M \<or> remaining W F L i \<le> M \<and> length owner < l"
        using assms(5) valid by auto
      show "settles (stepped W F L i) (\<lambda>k d r. bindR (on_scheduler_res (resolve_loop_boundary (lr_id region) owner (ed_id e) st act) j)
          (\<lambda>i1. bindR (fin_within W k d region owner i1) (\<lambda>i2. Inr (i2, []))))"
        by (rule settles_bind_const [OF adv], rule settles_then_const)
          (use boundary_settlesD [OF assms(1) fin advanced_trans [OF assms(3)] valid(1) small] in auto)
    qed simp
  qed
  then show ?thesis
    unfolding propagate_finalized_boundary_edge_def Let_def
    by (intro settles_bind_const [OF post_lookup]) (simp_all del: outer_boundary.simps)
qed

lemma propagate_exits_settles:
  assumes "boundary_settles W F L M l" and "scope_universe W F L" and "advanced W F L i j" and "ls \<in> scopes F L"
    and "remaining W F L i < M \<or> remaining W F L i \<le> M \<and> length ls \<le> l" and "\<And>eid. resolution eid \<noteq> Inl OutOfFuel"
  shows "settles (stepped W F L i) (\<lambda>k d r. propagate_exits W (fin_within W k d) ls resolution eids (j, []))"
  unfolding propagate_exits_def
proof (rule settles_foldR)
  show "stepped W F L i (j, [])" using assms(3) by simp
  fix s eid assume "eid \<in> set eids" "stepped W F L i s"
  then obtain i1 ts where s: "s = (i1, ts)" "advanced W F L i i1" "set ts \<subseteq> instances W F L" by (cases s) auto
  have "settles (stepped W F L i) (\<lambda>k d r. bindR (edge_of W eid) (\<lambda>e. bindR (resolution eid)
      (\<lambda>(st, act). bindR (propagate_finalized_boundary_edge W (fin_within W k d) ls e st act i1)
         (\<lambda>(i', more). Inr (i', ts @ more)))))"
    by (rule settles_bind_const [OF post_lookup], simp, rule settles_bind_const [OF post_lookup], rule assms(6),
        simp only: split_beta, rule settles_then_const [OF propagate_settles [OF assms(1,2) s(2) assms(4,5)]])
      (use s(3) in auto)
  then show "settles (stepped W F L i) (\<lambda>k d r. (case s of (i1, ts) \<Rightarrow> \<lambda>eid. bindR (edge_of W eid) (\<lambda>e. bindR (resolution eid)
      (\<lambda>(st, act). bindR (propagate_finalized_boundary_edge W (fin_within W k d) ls e st act i1)
         (\<lambda>(i', more). Inr (i', ts @ more))))) eid)"
    by (simp add: s(1))
qed

section \<open>The pending loop\<close>

lemma foldl_skipped:
  "advanced W F L i (foldl (\<lambda>i n. add_skipped (f n) i) i ns) \<longleftrightarrow> sound W F L i"
  "n \<in> set ns \<Longrightarrow> f n \<in> skipped_node_instances (inv_scheduler (foldl (\<lambda>i n. add_skipped (f n) i) i ns))"
proof -
  have skipped: "skipped_node_instances (inv_scheduler (foldl (\<lambda>i n. add_skipped (f n) i) i ns))
      = skipped_node_instances (inv_scheduler i) \<union> f ` set ns" for i
    by (induction ns arbitrary: i) (auto simp: add_skipped_def)
  have "sound W F L (foldl (\<lambda>i n. add_skipped (f n) i) i ns) \<longleftrightarrow> sound W F L i" for i
    by (induction ns arbitrary: i) (simp_all add: add_skipped_def sound_def cursor_sound_def)
  with skipped show "advanced W F L i (foldl (\<lambda>i n. add_skipped (f n) i) i ns) \<longleftrightarrow> sound W F L i"
    "n \<in> set ns \<Longrightarrow> f n \<in> skipped_node_instances (inv_scheduler (foldl (\<lambda>i n. add_skipped (f n) i) i ns))"
    by (simp_all add: advanced_def)
qed

lemma header_region_ok:
  assumes "wf_ir W" and "header_region W n = Inr (Some r)"
  shows "lr_header_node_id r = n" and "lr_id r \<in> set (loop_stack_of W n)"
    and "region_of W (lr_id r) = Inr r" and "region_ok W (lr_id r) r"
proof -
  have found: "header_region_in W n rids = Inr (Some r) \<Longrightarrow>
      lr_header_node_id r = n \<and> (\<exists>rid \<in> set rids. region_of W rid = Inr r)" for rids
    by (induction rids) (auto simp: bindR_eq_Inr split: if_splits)
  from found [of "rev (loop_stack_of W n)"] assms(2)
  obtain rid where rid: "rid \<in> set (loop_stack_of W n)" "region_of W rid = Inr r" "lr_header_node_id r = n"
    by (auto simp: header_region_def)
  with wf_region [OF assms(1) rid(2)] show "lr_header_node_id r = n" "lr_id r \<in> set (loop_stack_of W n)"
    "region_of W (lr_id r) = Inr r" "region_ok W (lr_id r) r" by simp_all
qed

text \<open>One round: it adds targets only when it skips an instance.\<close>

definition progressed :: "workflow_ir \<Rightarrow> loop_iteration set \<Rightarrow> nat \<Rightarrow> invocation \<Rightarrow> invocation \<times> target list \<Rightarrow> bool" where
  "progressed W F L i = (\<lambda>(j, ts). advanced W F L i j \<and> set ts \<subseteq> instances W F L
     \<and> (ts \<noteq> [] \<longrightarrow> remaining W F L j < remaining W F L i))"

lemma progressed_iff [simp]:
  "progressed W F L i (j, ts) \<longleftrightarrow> advanced W F L i j \<and> set ts \<subseteq> instances W F L
     \<and> (ts \<noteq> [] \<longrightarrow> remaining W F L j < remaining W F L i)"
  by (simp add: progressed_def)

lemma stepped_progressed:
  assumes "finite F" and "remaining W F L j < remaining W F L i" and "advanced W F L i j" and "stepped W F L j y"
  shows "progressed W F L i y"
proof -
  obtain i' ts where y: "y = (i', ts)" "advanced W F L j i'" "set ts \<subseteq> instances W F L"
    using assms(4) by (cases y) simp
  then show ?thesis using assms advanced_remaining [OF assms(1) y(2)] advanced_trans [OF assms(3) y(2)] by simp
qed

lemma skip_inactive_settles:
  assumes "boundary_settles W F L M l" and "scope_universe W F L" and "sound W F L i"
    and "(n, s) \<in> instances W F L" and "header_region W n = Inr (Some r)"
    and "node_instance_key n s \<notin> skipped_node_instances (inv_scheduler i)" and "remaining W F L i \<le> M"
  shows "settles (progressed W F L i) (\<lambda>k d rounds. skip_inactive_loop W (fin_within W k d) r (take (lr_depth r + 1) s) i)"
proof -
  note wf = universeD(1) [OF assms(2)] and fin = universeD(2) [OF assms(2)]
  note r = header_region_ok [OF wf assms(5)]
  let ?ls = "take (lr_depth r + 1) s"
  let ?i = "foldl (\<lambda>i n. add_skipped (node_instance_key n (scope_for_node W n ?ls)) i) i (lr_node_ids r)"
  have len: "length s = length (loop_stack_of W n)" "lr_depth r + 1 = length (loop_stack_of W n)" "n \<in> set (lr_node_ids r)"
    using assms(4) r by (auto simp: instances_def region_ok_def)
  then have "scope_for_node W n ?ls = s" by (simp add: scope_for_node_def Let_def)
  then have key: "node_instance_key n s \<in> skipped_node_instances (inv_scheduler ?i)"
    using foldl_skipped(2) [OF len(3), of "\<lambda>n. node_instance_key n (scope_for_node W n ?ls)" i] by simp
  have adv: "advanced W F L i ?i" using assms(3) by (simp add: foldl_skipped(1))
  have less: "remaining W F L ?i < remaining W F L i"
    using adv by (intro remaining_less [OF fin _ assms(4,6) key]) (simp add: advanced_def)
  then have small: "remaining W F L ?i < M" using assms(7) by simp
  have scope: "?ls \<in> scopes F L" using assms(4) len by (simp add: instances_def)
  have "settles (progressed W F L i) (\<lambda>k d rounds. propagate_exits W (fin_within W k d) ?ls (\<lambda>eid. Inr (Skipped, None))
      (lr_exit_edge_ids r) (add_exited key ?i, []))" for key
  proof (rule settles_mono)
    show "settles (stepped W F L ?i) (\<lambda>k d rounds. propagate_exits W (fin_within W k d) ?ls (\<lambda>eid. Inr (Skipped, None))
        (lr_exit_edge_ids r) (add_exited key ?i, []))"
      by (rule propagate_exits_settles [OF assms(1,2) _ scope]) (use advanced_sound [OF adv] small in simp_all)
    show "progressed W F L i y" if "stepped W F L ?i y" for y
      by (rule stepped_progressed [OF fin less adv that])
  qed
  then show ?thesis
    unfolding skip_inactive_loop_def Let_def by (intro settles_bind_const [OF post_lookup]) simp_all
qed

lemma resolve_instance_settles:
  assumes "boundary_settles W F L M l" and "scope_universe W F L" and "sound W F L i"
    and "(n, s) \<in> instances W F L" and "remaining W F L i \<le> M"
  shows "settles (progressed W F L i) (\<lambda>k d r. resolve_instance W (fin_within W k d) n s i)"
proof -
  let ?key = "node_instance_key n s" and ?c = "inv_scheduler i"
  note fin = universeD(2) [OF assms(2)]
  have stop: "settles (progressed W F L i) (\<lambda>k d r. Inr (i, []))"
    using assms(3) by (intro settles_const) simp
  have skip: "settles (progressed W F L i) (\<lambda>k d r. skip_node_instance W (fin_within W k d) n s i)"
    if new: "?key \<notin> skipped_node_instances ?c"
  proof -
    have adv: "advanced W F L i (add_skipped ?key i)" using assms(3) by simp
    have less: "remaining W F L (add_skipped ?key i) < remaining W F L i"
      using adv by (intro remaining_less [OF fin _ assms(4) new]) (simp_all add: advanced_def add_skipped_def)
    show ?thesis
      by (rule settles_mono [OF skip_fresh_settles [OF assms(1-3) _ new]])
        (use assms(4,5) less stepped_progressed [OF fin less adv] in \<open>auto simp: instances_def\<close>)
  qed
  have ready: "post (progressed W F L i) (bindR (enter_loops s (on_scheduler (enqueue_ready n acts s) (add_scheduled ?key i)))
      (\<lambda>i'. Inr (i', [])))" for acts
  proof -
    have "advanced W F L i (on_scheduler (enqueue_ready n acts s) (add_scheduled ?key i))"
      by (rule advanced_then [of _ _ _ _ "add_scheduled ?key i"]) (use assms(3) in simp_all)
    then show ?thesis
      using advanced_trans by (intro post_bind [OF enter_loops_advances [OF advanced_sound]]) (auto intro: advanced_trans)
  qed
  have header: "settles (progressed W F L i) (\<lambda>k d rounds. case h of
        Some r \<Rightarrow> bindR (frame_of s (lr_id r))
          (\<lambda>f. if frame_iteration f = 0 then skip_inactive_loop W (fin_within W k d) r (take (lr_depth r + 1) s) i
               else skip_node_instance W (fin_within W k d) n s i)
      | None \<Rightarrow> skip_node_instance W (fin_within W k d) n s i)"
    if new: "?key \<notin> skipped_node_instances ?c" and h: "header_region W n = Inr h" for h
  proof (cases h)
    case (Some r)
    have branch: "settles (progressed W F L i) (\<lambda>k d rounds. if frame_iteration f = 0
          then skip_inactive_loop W (fin_within W k d) r (take (lr_depth r + 1) s) i
          else skip_node_instance W (fin_within W k d) n s i)" for f
      using skip_inactive_settles [OF assms(1-4) h [unfolded Some] new assms(5)] skip [OF new]
      by (rule settles_if)
    show ?thesis
      unfolding Some option.case by (rule settles_bind_const [OF post_lookup]) (use branch in simp_all)
  qed (simp add: skip [OF new])
  show ?thesis
  proof (cases "?key \<in> scheduled_node_instances ?c \<or> ?key \<in> skipped_node_instances ?c")
    case True
    then show ?thesis using stop by (simp add: resolve_instance_alt Let_def)
  next
    case False
    then have new: "?key \<notin> skipped_node_instances ?c" by simp
    have "settles (progressed W F L i) (\<lambda>k d rounds.
        if incoming = [] \<or> None \<in> set (instance_resolutions ?c incoming s) then Inr (i, [])
        else if selected_activations (instance_resolutions ?c incoming s) \<noteq> []
        then bindR (enter_loops s (on_scheduler (enqueue_ready n (selected_activations (instance_resolutions ?c incoming s)) s)
              (add_scheduled ?key i))) (\<lambda>i'. Inr (i', []))
        else bindR (header_region W n) (\<lambda>h. case h of
          Some r \<Rightarrow> bindR (frame_of s (lr_id r))
            (\<lambda>f. if frame_iteration f = 0 then skip_inactive_loop W (fin_within W k d) r (take (lr_depth r + 1) s) i
                 else skip_node_instance W (fin_within W k d) n s i)
        | None \<Rightarrow> skip_node_instance W (fin_within W k d) n s i))" for incoming
      by (intro settles_if stop settles_const [OF ready] settles_bind_const [OF post_lookup header [OF new]]) simp_all
    then show ?thesis
      using False by (simp add: resolve_instance_alt Let_def settles_bind_const [OF post_lookup])
  qed
qed

lemma resolve_pending_settles:
  assumes "boundary_settles W F L M l" and "scope_universe W F L"
  shows "sound W F L i \<Longrightarrow> remaining W F L i \<le> m \<Longrightarrow> m \<le> M \<Longrightarrow> set pending \<subseteq> instances W F L
    \<Longrightarrow> settles (advanced W F L i) (\<lambda>k d r. resolve_pending W (fin_within W k d) r pending i)"
proof (induction m arbitrary: pending i rule: less_induct)
  case (less m)
  then show ?case
  proof (induction pending arbitrary: i)
    case Nil
    have "resolve_pending W f r [] i = Inr i" for f r by (cases r) auto
    then show ?case using Nil.prems(2) by (auto intro: settles_const)
  next
    case (Cons t rest)
    obtain n s where t: "t = (n, s)" by (cases t)
    show ?case
    proof (cases "inv_state i = InvFailed")
      case True
      then have "resolve_pending W f r p i = Inr i" for f r p by (cases r) auto
      then show ?thesis using Cons.prems(2) by (auto intro: settles_const)
    next
      case False
      have "settles (advanced W F L i) (\<lambda>k d r. bindR (resolve_instance W (fin_within W k d) n s i)
          (\<lambda>(i', more). resolve_pending W (fin_within W k d) r (rest @ more) i'))"
      proof (rule settles_bind [OF resolve_instance_settles [OF assms Cons.prems(2)]])
        show "(n, s) \<in> instances W F L" "remaining W F L i \<le> M" using Cons.prems t by auto
        fix y assume "progressed W F L i y"
        then obtain i' more where y: "y = (i', more)" "advanced W F L i i'" "set more \<subseteq> instances W F L"
          "more \<noteq> [] \<longrightarrow> remaining W F L i' < remaining W F L i" by (cases y) simp
        note i' = advanced_sound [OF y(2)] advanced_remaining [OF universeD(2) [OF assms(2)] y(2)]
        have rest: "set rest \<subseteq> instances W F L" using Cons.prems(5) by simp
        have "settles (advanced W F L i') (\<lambda>k d r. resolve_pending W (fin_within W k d) r (rest @ more) i')"
        proof (cases more)
          case Nil
          then show ?thesis using Cons.IH [OF Cons.prems(1) i'(1) _ Cons.prems(4) rest] Cons.prems(3) i'(2) by simp
        next
          case (Cons t' more')
          then have "remaining W F L i' < m" using y(4) less.prems(2) \<open>remaining W F L i \<le> m\<close> by simp
          note IH = less.IH [OF this i'(1) order_refl]
          show ?thesis
            by (rule IH) (use \<open>remaining W F L i' < m\<close> less.prems(3) y(3) rest in auto)
        qed
        then show "settles (advanced W F L i) (\<lambda>k d r. case y of (i', more) \<Rightarrow> resolve_pending W (fin_within W k d) r (rest @ more) i')"
          unfolding y(1) prod.case by (rule settles_mono) (rule advanced_trans [OF y(2)])
      qed
      then show ?thesis by (rule settles_rounds_Suc) (simp add: t False)
    qed
  qed
qed

lemma resolve_nodes_settles:
  assumes "boundary_settles W F L M l" and "scope_universe W F L" and "sound W F L i" and "remaining W F L i \<le> M"
    and "set ts \<subseteq> instances W F L"
  shows "settles (advanced W F L i) (\<lambda>k d r. resolve_node_instances W (fin_within W k d) r ts i)"
  unfolding resolve_node_instances_def
  by (rule settles_bind_const [OF post_lookup])
    (use resolve_pending_settles [OF assms(1,2,3) order_refl assms(4)] assms(5) ordered_targets_set in auto)

section \<open>Continuing a loop\<close>

lemma boundary_lookup:
  assumes "scope_universe W F L" and "cursor_sound W c" and "valid_boundary W F L region ls"
    and "dict_get (loop_boundary_resolutions c) (loop_boundary_key (lr_id region) ls eid) = Some r"
  shows "er_edge_id r = eid"
proof -
  note wf = universeD(1) [OF assms(1)]
  have clean: "clean_region rid" if "rid \<in> set (dict_keys (gr_loop_regions (wf_graph W)))" for rid
  proof -
    from that obtain q where "region_of W rid = Inr q"
      by (metis dict_get_None_iff dict_index_eq_Inr not_Some_eq)
    from wf_region(1) [OF wf this] show ?thesis by (simp add: region_ok_def)
  qed
  obtain rid where rid: "er_scope r \<noteq> []" "clean_scope (er_scope r)"
    "rid \<in> set (dict_keys (gr_loop_regions (wf_graph W)))"
    "loop_boundary_key (lr_id region) ls eid = loop_boundary_key rid (er_scope r) (er_edge_id r)"
    using assms(2) dict_get_mem [OF assms(4)] by (fastforce simp: cursor_sound_def boundaries_sound_def)
  have ls: "ls \<noteq> []" "clean_scope ls" "region_of W (lr_id region) = Inr region"
    using assms(3) scopes_clean [OF assms(1)] by (auto simp: valid_boundary_def)
  show ?thesis
    by (rule loop_boundary_key_edge [OF rid(4), symmetric])
      (use rid ls clean wf_region(3) [OF wf ls(3)] in auto)
qed

text \<open>A selected back edge is found as selected.\<close>

lemma selected_resolution:
  assumes "scope_universe W F L" and "cursor_sound W c" and "valid_boundary W F L region ls"
    and "None \<notin> set (boundary_resolutions region ls c)" and "rs = map the (boundary_resolutions region ls c)"
    and "r \<in> set rs"
  shows "resolution_for rs (er_edge_id r) = Inr (er_state r, er_activation r)"
proof -
  have stored: "dict_get (loop_boundary_resolutions c) (loop_boundary_key (lr_id region) ls (er_edge_id q)) = Some q"
    if "q \<in> set rs" for q
  proof -
    from that assms(5) obtain eid where eid: "eid \<in> set (lr_back_edge_ids region @ lr_exit_edge_ids region)"
      "q = the (dict_get (loop_boundary_resolutions c) (loop_boundary_key (lr_id region) ls eid))"
      by (auto simp: boundary_resolutions_def)
    have "dict_get (loop_boundary_resolutions c) (loop_boundary_key (lr_id region) ls eid) \<in> set (boundary_resolutions region ls c)"
      using eid(1) by (auto simp: boundary_resolutions_def)
    with assms(4) obtain q' where
      "dict_get (loop_boundary_resolutions c) (loop_boundary_key (lr_id region) ls eid) = Some q'"
      by (cases "dict_get (loop_boundary_resolutions c) (loop_boundary_key (lr_id region) ls eid)") auto
    with eid(2) have "dict_get (loop_boundary_resolutions c) (loop_boundary_key (lr_id region) ls eid) = Some q" by simp
    moreover from boundary_lookup [OF assms(1-3) this] have "er_edge_id q = eid" .
    ultimately show ?thesis by simp
  qed
  obtain q where q: "find (\<lambda>x. er_edge_id x = er_edge_id r) rs = Some q"
    using assms(6) by (cases "find (\<lambda>x. er_edge_id x = er_edge_id r) rs") (auto simp: find_None_iff)
  then have "q \<in> set rs" "er_edge_id q = er_edge_id r" by (auto simp: find_Some_iff)
  with stored [OF assms(6)] stored [of q] have "q = r" by simp
  with q show ?thesis by (simp add: resolution_for_def)
qed

lemma continued_edges:
  assumes "foldR (\<lambda>i eid. bindR (resolution_for rs eid) (\<lambda>(st, act). on_scheduler_res (resolve_edge eid st act s) i)) i eids = Inr j"
    and "eid \<in> set eids"
  shows "\<exists>r. dict_get (edge_resolutions (inv_scheduler j)) (edge_occurrence_key eid s) = Some r
    \<and> resolution_for rs eid = Inr (er_state r, er_activation r)"
  using assms
proof (induction eids arbitrary: i)
  case (Cons x eids)
  then obtain st act i1 where x: "resolution_for rs x = Inr (st, act)"
    "on_scheduler_res (resolve_edge x st act s) i = Inr i1"
    and rest: "foldR (\<lambda>i eid. bindR (resolution_for rs eid) (\<lambda>(st, act). on_scheduler_res (resolve_edge eid st act s) i)) i1 eids = Inr j"
    by (auto simp: bindR_eq_Inr)
  show ?case
  proof (cases "eid \<in> set eids")
    case True
    then show ?thesis by (rule Cons.IH [OF rest])
  next
    case False
    obtain r where "dict_get (edge_resolutions (inv_scheduler i1)) (edge_occurrence_key x s) = Some r"
      "er_state r = st" "er_activation r = act"
      using x(2) by (auto simp: on_scheduler_res_eq_Inr dest!: resolve_edge_lookup)
    moreover have "map_extends (edge_resolutions (inv_scheduler i1)) (edge_resolutions (inv_scheduler j))"
      using step.fin.R_continue_edges [OF rest] by (simp add: cursor_step_def cursor_extends_def)
    ultimately show ?thesis using False Cons.prems(2) x(1) by (auto simp: map_extends_def)
  qed
qed simp

lemma next_frame:
  assumes "\<forall>f \<in> set fs. frame_region f \<noteq> rid"
  shows "frame_of (fs @ [LoopIteration rid k]) rid = Inr (LoopIteration rid k)"
  using assms by (induction fs) auto

lemma own_header:
  assumes "wf_ir W" and "region_of W (lr_id region) = Inr region"
  shows "header_region W (lr_header_node_id region) = Inr (Some region)"
proof -
  have "loop_stack_of W (lr_header_node_id region) \<noteq> []"
    "last (loop_stack_of W (lr_header_node_id region)) = lr_id region"
    using wf_region(1) [OF assms] by (simp_all add: region_ok_def)
  then obtain rids where "rev (loop_stack_of W (lr_header_node_id region)) = lr_id region # rids"
    by (metis append_butlast_last_id rev_eq_Cons_iff rev_rev_ident)
  then show ?thesis using assms(2) by (simp add: header_region_def)
qed

text \<open>The header of the next iteration is scheduled, unless it was before: nothing is skipped.\<close>

lemma resolve_header_pure:
  assumes "header_region W n = Inr (Some region)" and "frame_of s (lr_id region) = Inr f" and "frame_iteration f \<noteq> 0"
    and "sound W F L i"
    and "\<And>eid. eid \<in> set (lr_back_edge_ids region) \<Longrightarrow>
      dict_get (edge_resolutions (inv_scheduler i)) (edge_occurrence_key eid s) \<noteq> None"
    and "eid \<in> set (lr_back_edge_ids region)"
    and "dict_get (edge_resolutions (inv_scheduler i)) (edge_occurrence_key eid s) = Some r" "er_state r = Selected"
  shows "\<exists>x. post (\<lambda>(j, ts). advanced W F L i j \<and> ts = []) x \<and> (\<forall>fin. resolve_instance W fin n s i = x)"
proof -
  let ?c = "inv_scheduler i" and ?key = "node_instance_key n s"
  let ?rs = "instance_resolutions ?c (lr_back_edge_ids region) s"
  have incoming: "incoming_edges_for_instance W n s = Inr (lr_back_edge_ids region)"
    using assms(1-3) by (simp add: incoming_edges_for_instance_def)
  have "er_activation r \<noteq> None"
    using assms(4,8) dict_get_mem [OF assms(7)] by (fastforce simp: sound_def cursor_sound_def selections_carry_def)
  then have selected: "selected_activations ?rs \<noteq> []"
    using assms(6-8) by (force simp: selected_activations_def instance_resolutions_def map_filter_def filter_empty_conv)
  have resolved: "lr_back_edge_ids region \<noteq> []" "None \<notin> set ?rs"
    using assms(5,6) by (force simp: instance_resolutions_def)+
  let ?x = "if ?key \<in> scheduled_node_instances ?c \<or> ?key \<in> skipped_node_instances ?c then Inr (i, [])
    else bindR (enter_loops s (on_scheduler (enqueue_ready n (selected_activations ?rs) s) (add_scheduled ?key i)))
      (\<lambda>i'. Inr (i', []))"
  have queued: "advanced W F L i (on_scheduler (enqueue_ready n acts s) (add_scheduled ?key i))" for acts
    by (rule advanced_then [of _ _ _ _ "add_scheduled ?key i"]) (use assms(4) in simp_all)
  have "post (\<lambda>(j, ts). advanced W F L i j \<and> ts = []) ?x"
    using assms(4) by (auto intro!: post_bind [OF enter_loops_advances [OF advanced_sound [OF queued]]]
      intro: advanced_trans [OF queued])
  moreover have "resolve_instance W fin n s i = ?x" for fin
    using incoming selected resolved by (simp add: resolve_instance_alt Let_def)
  ultimately show ?thesis by blast
qed

lemma continue_settles:
  assumes "scope_universe W F L" and "sound W F L i" and "valid_boundary W F L region ls"
    and "None \<notin> set (boundary_resolutions region ls (inv_scheduler i))"
    and "rs = map the (boundary_resolutions region ls (inv_scheduler i))"
    and "b \<in> set rs" "er_edge_id b \<in> set (lr_back_edge_ids region)" "er_state b = Selected"
  shows "settles (advanced W F L i) (\<lambda>k d r. continue_loop W (fin_within W k d) r region ls rs i)"
  unfolding continue_loop_def
proof (rule settles_bind_const)
  note wf = universeD(1) [OF assms(1)]
  have valid: "region_of W (lr_id region) = Inr region" "loop_scope ls (lr_id region) = Inr ls"
    using assms(3) by (simp_all add: valid_boundary_def)
  show "post (\<lambda>_. True) (next_iteration_scope region ls)"
    by (rule post_lookup) (simp add: next_iteration_scope_def bindR_eq_Inl)
  fix s assume "next_iteration_scope region ls = Inr s"
  then obtain f where "s = butlast ls @ [LoopIteration (lr_id region) (frame_iteration f + 1)]"
    by (auto simp: next_iteration_scope_def bindR_eq_Inr)
  then have frame: "frame_of s (lr_id region) = Inr (LoopIteration (lr_id region) (frame_iteration f + 1))"
    using loop_scope_prefix [OF valid(2)] next_frame by simp
  let ?edges = "foldR (\<lambda>i eid. bindR (resolution_for rs eid) (\<lambda>(st, act). on_scheduler_res (resolve_edge eid st act s) i))
      i (lr_back_edge_ids region)"
  let ?h = "lr_header_node_id region"
  show "settles (advanced W F L i) (\<lambda>k d r. bindR ?edges (\<lambda>i'. resolve_node_instances W (fin_within W k d) r [(?h, s)] i'))"
  proof (rule settles_bind_const)
    show "post (advanced W F L i) ?edges"
    proof (rule post_foldR)
      fix j eid assume adv: "advanced W F L i j"
      show "post (advanced W F L i) (bindR (resolution_for rs eid) (\<lambda>(st, act). on_scheduler_res (resolve_edge eid st act s) j))"
        by (rule post_bind [OF post_lookup]) (auto intro: post_mono [OF resolve_edge_advances [OF advanced_sound [OF adv]]]
            advanced_trans [OF adv])
    qed (use assms(2) in simp)
    fix j assume edges: "?edges = Inr j" and adv: "advanced W F L i j"
    note found = continued_edges [OF edges]
    have "cursor_sound W (inv_scheduler i)" using assms(2) by (simp add: sound_def)
    from selected_resolution [OF assms(1) this assms(3-6)] found [OF assms(7)] assms(8)
    obtain r where r: "dict_get (edge_resolutions (inv_scheduler j)) (edge_occurrence_key (er_edge_id b) s) = Some r"
      "er_state r = Selected" by auto
    obtain x where x: "post (\<lambda>(j', ts). advanced W F L j j' \<and> ts = []) x"
      "\<And>fin. resolve_instance W fin ?h s j = x"
      using resolve_header_pure [OF own_header [OF wf valid(1)] frame _ advanced_sound [OF adv] _ assms(7) r] found
      by fastforce
    have "settles (advanced W F L j) (\<lambda>k d r. resolve_pending W (fin_within W k d) r [(?h, s)] j)"
    proof (cases "inv_state j = InvFailed")
      case True
      then have "resolve_pending W f r p j = Inr j" for f r p by (cases r) auto
      then show ?thesis using advanced_sound [OF adv] by (auto intro: settles_const)
    next
      case False
      have no_round: "resolve_pending W fin r [] i = Inr i" for fin r i by (cases r) auto
      have "settles (advanced W F L j) (\<lambda>k d r. bindR x (\<lambda>(i', more). resolve_pending W (fin_within W k d) r more i'))"
        by (rule settles_bind_const [OF x(1)]) (auto simp: no_round intro!: settles_const)
      then show ?thesis by (rule settles_rounds_Suc) (simp add: False x(2))
    qed
    then have "settles (advanced W F L i) (\<lambda>k d r. resolve_pending W (fin_within W k d) r [(?h, s)] j)"
      by (rule settles_mono) (rule advanced_trans [OF adv])
    moreover have "ordered_targets W [(?h, s)] = Inr us \<Longrightarrow> us = [(?h, s)]" for us
      by (auto simp: ordered_targets_def Let_def bindR_eq_Inr sort_key_def)
    ultimately show "settles (advanced W F L i) (\<lambda>k d r. resolve_node_instances W (fin_within W k d) r [(?h, s)] j)"
      unfolding resolve_node_instances_def by (intro settles_bind_const [OF post_lookup]) auto
  qed
qed

section \<open>Finalisation returns\<close>

lemma exit_settles:
  assumes "boundary_settles W F L M l" and "scope_universe W F L" and "sound W F L i"
    and "valid_boundary W F L region ls" and "remaining W F L i \<le> M" and "length ls \<le> l"
  shows "settles (advanced W F L i) (\<lambda>k d r. exit_loop W (fin_within W k d) r region ls rs i)"
  unfolding exit_loop_def
proof (rule settles_bind_const [OF post_lookup])
  fix key assume "loop_instance_key ls (lr_id region) = Inr key"
  show "settles (advanced W F L i) (\<lambda>k d r. bindR
      (propagate_exits W (fin_within W k d) ls (resolution_for rs) (lr_exit_edge_ids region) (add_exited key i, []))
      (\<lambda>(i', targets). resolve_node_instances W (fin_within W k d) r targets i'))"
  proof (rule settles_bind)
    show "settles (stepped W F L i) (\<lambda>k d r. propagate_exits W (fin_within W k d) ls (resolution_for rs)
        (lr_exit_edge_ids region) (add_exited key i, []))"
      by (rule propagate_exits_settles [OF assms(1,2)]) (use assms(3-6) in \<open>auto simp: valid_boundary_def\<close>)
    fix y assume "stepped W F L i y"
    then obtain j ts where y: "y = (j, ts)" "advanced W F L i j" "set ts \<subseteq> instances W F L" by (cases y) simp
    have "settles (advanced W F L j) (\<lambda>k d r. resolve_node_instances W (fin_within W k d) r ts j)"
      by (rule resolve_nodes_settles [OF assms(1,2) advanced_sound [OF y(2)] _ y(3)])
        (use advanced_remaining [OF universeD(2) [OF assms(2)] y(2)] assms(5) in simp)
    then show "settles (advanced W F L i) (\<lambda>k d r. case y of (i', targets) \<Rightarrow> resolve_node_instances W (fin_within W k d) r targets i')"
      unfolding y(1) prod.case by (rule settles_mono) (rule advanced_trans [OF y(2)])
  qed
qed simp

lemma finalize_step_settles:
  assumes "boundary_settles W F L M l" and "scope_universe W F L" and "sound W F L i"
    and "valid_boundary W F L region ls" and "remaining W F L i \<le> M" and "length ls \<le> l"
  shows "settles (advanced W F L i) (\<lambda>k d r. finalize_step W (fin_within W k d) r region ls i)"
  unfolding finalize_step_def Let_def
proof (intro settles_if)
  let ?rs = "map the (boundary_resolutions region ls (inv_scheduler i))"
  assume found: "None \<notin> set (boundary_resolutions region ls (inv_scheduler i))"
  show "settles (advanced W F L i) (\<lambda>k d r. continue_loop W (fin_within W k d) r region ls ?rs i)"
    if "filter (\<lambda>r. er_edge_id r \<in> set (lr_back_edge_ids region) \<and> er_state r = Selected) ?rs \<noteq> []"
    using that by (auto simp: filter_empty_conv intro!: continue_settles [OF assms(2-4) found refl])
qed (use assms(3) exit_settles [OF assms] in \<open>auto intro: settles_const\<close>)

lemma boundary_settles_all:
  assumes "scope_universe W F L"
  shows "boundary_settles W F L M l"
proof (induction M arbitrary: l rule: less_induct)
  case (less M)
  show ?case
  proof (induction l)
    case 0
    show ?case
      unfolding boundary_settles_def
    proof (intro allI impI)
      fix region ls i
      assume "valid_boundary W F L region ls" "sound W F L i" "remaining W F L i < M \<or> remaining W F L i \<le> M \<and> length ls < 0"
      with less [of "remaining W F L i" "Suc (length ls)"]
      show "settles (advanced W F L i) (\<lambda>k d r. fin_within W k d region ls i)"
        unfolding boundary_settles_def by simp
    qed
  next
    case (Suc l)
    show ?case
      unfolding boundary_settles_def
    proof (intro allI impI)
      fix region ls i
      assume valid: "valid_boundary W F L region ls" and sound: "sound W F L i"
        and small: "remaining W F L i < M \<or> remaining W F L i \<le> M \<and> length ls < Suc l"
      show "settles (advanced W F L i) (\<lambda>k d r. fin_within W k d region ls i)"
      proof (cases "remaining W F L i < M")
        case True
        then show ?thesis using Suc valid sound unfolding boundary_settles_def by simp
      next
        case False
        with small have "remaining W F L i \<le> M" "length ls \<le> l" by simp_all
        from settles_diagonal [OF finalize_step_settles [OF Suc assms sound valid this]]
        show ?thesis by (rule settles_depth_Suc) simp
      qed
    qed
  qed
qed

section \<open>The entry points return\<close>

abbreviation fuel_of :: "nat \<Rightarrow> nat \<Rightarrow> fuel" where
  "fuel_of k d \<equiv> \<lparr>fu_rounds = k, fu_depth = d\<rparr>"

lemma settle_routing_settles:
  assumes "scope_universe W F L" and "routed W F L i r"
  shows "settles (advanced W F L i) (\<lambda>k d _. settle_routing W (fuel_of k d) r)"
proof -
  note fin = universeD(2) [OF assms(1)] and all = boundary_settles_all [OF assms(1)]
  have r: "advanced W F L i (ro_invocation r)" "set (ro_targets r) \<subseteq> instances W F L"
    using assms(2) by (simp_all add: routed_def)
  have "settles (advanced W F L i) (\<lambda>k d rounds. resolve_node_instances W (fin_within W k d) rounds (ro_targets r) (ro_invocation r))"
    using resolve_nodes_settles [OF all assms(1) advanced_sound [OF r(1)] order_refl r(2)]
    by (rule settles_mono) (rule advanced_trans [OF r(1)])
  from settles_diagonal [OF this]
  have "settles (advanced W F L i) (\<lambda>k d rounds. bindR
      (resolve_node_instances W (fin_within W k d) k (ro_targets r) (ro_invocation r))
      (\<lambda>j. finalize_all W (fin_within W k d) (ro_boundaries r) j))"
  proof (rule settles_bind)
    fix j assume adv: "advanced W F L i j"
    have "settles (advanced W F L j) (\<lambda>k d rounds. finalize_all W (fin_within W k d) (ro_boundaries r) j)"
      by (rule finalize_all_settles [OF all fin advanced_sound [OF adv] lessI])
        (use assms(2) in \<open>auto simp: routed_def\<close>)
    then show "settles (advanced W F L i) (\<lambda>k d rounds. finalize_all W (fin_within W k d) (ro_boundaries r) j)"
      by (rule settles_mono) (rule advanced_trans [OF adv])
  qed
  then show ?thesis by (simp add: settle_routing_def)
qed

lemma routed_start: "sound W F L i \<Longrightarrow> routed W F L i \<lparr>ro_invocation = i, ro_targets = [], ro_boundaries = []\<rparr>"
  by (simp add: routed_def)

lemma routed_evaluation:
  "routed W F L i r \<Longrightarrow>
   routed W F L i (r\<lparr>ro_invocation := update_execution u (add_edge_evaluation ed t es sel re) (ro_invocation r)\<rparr>)"
  by (auto simp: routed_def elim!: advanced_then intro: evaluation_advances)

lemma route_completed_post:
  assumes "scope_universe W F L" and "ne_scope n \<in> scopes F L"
  shows "routed W F L i r \<Longrightarrow> post (\<lambda>out. case out of Inl j \<Rightarrow> advanced W F L i j | Inr r' \<Rightarrow> routed W F L i r')
    (route_completed W sctx n eids r)"
proof (induction eids arbitrary: r)
  case (Cons eid eids)
  have failed: "advanced W F L i (mark_failed err (update_execution u (add_edge_evaluation ed t es sel re) (ro_invocation r)))"
    for err u ed t es sel re
    using routed_evaluation [OF Cons.prems, of u ed t es sel re]
    by (auto simp: routed_def elim!: advanced_then)
  show ?case
    unfolding route_completed.simps
    by (rule post_bind [OF post_lookup])
      (auto simp: failed split: prod.split option.split
        intro!: post_bind [OF route_edge_routed [OF assms(1) routed_evaluation [OF Cons.prems] _ assms(2)]] Cons.IH)
qed simp

lemma advance_completed_settles:
  assumes "scope_universe W F L" and "sound W F L i"
  shows "settles (advanced W F L i) (\<lambda>k d _. advance_completed W (fuel_of k d) sctx t i)"
proof (cases "get_node_execution (tr_node_execution_id t) i")
  case None
  then show ?thesis using assms(2) by (auto simp: advance_completed_def intro!: settles_const)
next
  case (Some n)
  then have "ne_scope n \<in> scopes F L"
    using assms(2) by (auto simp: sound_def get_node_execution_def find_Some_iff)
  note routes = route_completed_post [OF assms(1) this routed_start [OF assms(2)]]
  show ?thesis
    unfolding advance_completed_def Some option.case
    by (rule settles_bind_const [OF routes])
      (auto split: sum.splits intro: settle_routing_settles [OF assms(1)] settles_const)
qed

lemma advance_blocked_settles:
  assumes "scope_universe W F L" and "sound W F L i" and "ne_scope n \<in> scopes F L"
  shows "settles (advanced W F L i) (\<lambda>k d _. advance_blocked_execution W (fuel_of k d) n reason i)"
  unfolding advance_blocked_execution_def
proof (rule settles_bind_const [OF post_foldR])
  show "routed W F L i \<lparr>ro_invocation = i, ro_targets = [], ro_boundaries = []\<rparr>" by (rule routed_start [OF assms(2)])
  show "post (routed W F L i) (bindR (edge_of W eid) (\<lambda>e. route_edge W e (ne_scope n) Skipped None
      (r\<lparr>ro_invocation := update_execution (ne_id n) (add_edge_evaluation (ed_id e) (ed_to_node e) EvalSkipped False (Some reason))
          (ro_invocation r)\<rparr>)))" if "routed W F L i r" for r eid
    by (rule post_bind [OF post_lookup])
      (auto intro: route_edge_routed [OF assms(1) routed_evaluation [OF that] _ assms(3)])
  show "settles (advanced W F L i) (\<lambda>k d _. settle_routing W (fuel_of k d) r)" if "routed W F L i r" for r
    by (rule settle_routing_settles [OF assms(1) that])
qed

lemma advance_failed_settles:
  assumes "scope_universe W F L" and "sound W F L i"
  shows "settles (advanced W F L i) (\<lambda>k d _. advance_failed W (fuel_of k d) t i)"
proof -
  have next_step: "settles (advanced W F L i) (\<lambda>k d _. case get_node_execution (tr_node_execution_id t) i of
      None \<Rightarrow> Inr j | Some n \<Rightarrow> advance_blocked_execution W (fuel_of k d) n reason j)"
    if "advanced W F L i j" for j reason
  proof (cases "get_node_execution (tr_node_execution_id t) i")
    case None
    then show ?thesis using that by (auto intro: settles_const)
  next
    case (Some n)
    then have "ne_scope n \<in> scopes F L"
      using assms(2) by (auto simp: sound_def get_node_execution_def find_Some_iff)
    from advance_blocked_settles [OF assms(1) advanced_sound [OF that] this]
    show ?thesis unfolding Some option.case by (rule settles_mono) (rule advanced_trans [OF that])
  qed
  show ?thesis
    unfolding advance_failed_def Let_def
    by (intro settles_if settles_bind_const [OF defer_advances [OF assms(2)] next_step])
      (use assms(2) in \<open>auto intro!: settles_const\<close>)
qed

lemma scheduler_next_settles:
  assumes "scope_universe W F L"
  shows "sound W F L i \<Longrightarrow> settles (advanced W F L i) (\<lambda>k d _. scheduler_next W (fuel_of k d) sctx ts i)"
proof (induction ts arbitrary: i)
  case Nil
  then show ?case by (auto intro: settles_const)
next
  case (Cons t ts)
  have "settles (advanced W F L i) (\<lambda>k d _. case tr_state t of
      NodeCompleted \<Rightarrow> advance_completed W (fuel_of k d) sctx t i
    | NodeFailed \<Rightarrow> advance_failed W (fuel_of k d) t i
    | _ \<Rightarrow> Inr i)"
    using Cons.prems advance_completed_settles [OF assms Cons.prems] advance_failed_settles [OF assms Cons.prems]
    by (cases "tr_state t") (auto intro: settles_const)
  moreover have "settles (advanced W F L i) (\<lambda>k d _. scheduler_next W (fuel_of k d) sctx ts j)" if "advanced W F L i j" for j
    using Cons.IH [OF advanced_sound [OF that]] by (rule settles_mono) (rule advanced_trans [OF that])
  ultimately show ?case
    unfolding scheduler_next.simps
    by (intro settles_if settles_bind [where P = "advanced W F L i"])
      (use Cons.prems in \<open>auto intro: settles_const\<close>)
qed

lemma skip_ready_settles:
  assumes "scope_universe W F L" and "sound W F L i" and "rq_scope q \<in> scopes F L"
  shows "settles (advanced W F L i) (\<lambda>k d _. skip_ready_request W (fuel_of k d) q i)"
proof -
  note all = boundary_settles_all [OF assms(1)]
  have "settles (advanced W F L i) (\<lambda>k d r. bindR (skip_node_instance W (fin_within W k d) (rq_node_id q) (rq_scope q) i)
      (\<lambda>(i', targets). resolve_node_instances W (fin_within W k d) r targets i'))"
  proof (rule settles_bind [OF skip_node_settles [OF all assms(1-3) lessI]])
    fix y assume "stepped W F L i y"
    then obtain j ts where y: "y = (j, ts)" "advanced W F L i j" "set ts \<subseteq> instances W F L" by (cases y) simp
    from resolve_nodes_settles [OF all assms(1) advanced_sound [OF y(2)] order_refl y(3)]
    show "settles (advanced W F L i) (\<lambda>k d r. case y of (i', targets) \<Rightarrow> resolve_node_instances W (fin_within W k d) r targets i')"
      unfolding y(1) prod.case by (rule settles_mono) (rule advanced_trans [OF y(2)])
  qed
  from settles_diagonal [OF this] show ?thesis by (simp add: skip_ready_request_def)
qed

lemma initialize_settles:
  assumes "scope_universe W F L" and "sound W F L i"
  shows "settles (advanced W F L i) (\<lambda>k d _. initialize W (fuel_of k d) i)"
proof -
  have scope: "initial_scope W n \<in> scopes F L" for n
    using universeD(4,5) [OF assms(1)] by (auto simp: initial_scope_def scopes_def)
  let ?i = "on_scheduler (\<lambda>c. c\<lparr>entry_paths_initialized := True\<rparr>) i"
  have start: "advanced W F L i (add_scheduled key (?i\<lparr>inv_scheduler := enqueue_ready n acts s
      ((inv_scheduler ?i)\<lparr>ready_queue := []\<rparr>)\<rparr>))" for key n acts s
    using assms(2) by (auto simp: advanced_def sound_def cursor_sound_def enqueue_ready_def enqueue_request_def add_scheduled_def)
  have skips: "settles (advanced W F L i) (\<lambda>k d r. foldR (\<lambda>i n. if n = entry then Inr i
      else bindR (skip_node_instance W (fin_within W k d) n (initial_scope W n) i) (\<lambda>(i', _). Inr i')) i3 ns)"
    if "advanced W F L i i3" for i3 entry ns
  proof (rule settles_foldR [where P = "advanced W F L i"], fact that)
    fix j n assume adv: "advanced W F L i j"
    have "settles (advanced W F L i) (\<lambda>k d r. bindR (skip_node_instance W (fin_within W k d) n (initial_scope W n) j) (\<lambda>(i', _). Inr i'))"
      by (rule settles_then_const [OF skip_node_settles [OF boundary_settles_all [OF assms(1)] assms(1) advanced_sound [OF adv] scope lessI]])
        (auto intro: advanced_trans [OF adv])
    then show "settles (advanced W F L i) (\<lambda>k d r. if n = entry then Inr j
        else bindR (skip_node_instance W (fin_within W k d) n (initial_scope W n) j) (\<lambda>(i', _). Inr i'))"
      using adv by (intro settles_if) (auto intro: settles_const)
  qed
  show ?thesis
    unfolding initialize_def Let_def drain_ready_None prod.case fuel.select_convs
    by (intro settles_if settles_bind_const [OF post_mono [OF enter_loops_advances [OF advanced_sound [OF start]] advanced_trans [OF start]]])
      (use assms(2) skips in \<open>auto intro: settles_const\<close>)
qed

end
