(* ===== verification/Samples.thy ===== *)
theory Samples
  imports Scheduler_Routing
begin

text \<open>
  A concrete compiled workflow and its invocations, on which the properties are instantiated:
  an entry node, a loop of a header and a body with a back and an exit edge, and a final node.
  The back and exit edges are conditional on the body's boolean output.
\<close>

definition sample_node :: "string \<Rightarrow> bool \<Rightarrow> bool \<Rightarrow> node_ir" where
  "sample_node n entry exit = \<lparr>nd_id = n, nd_local_id = None, nd_scope_node_ids = [],
     nd_workflow_path = [], nd_capability = BindCallable \<lparr>op_id = n, op_capability_id = None,
       op_priority = 0, op_enabled = True, op_is_async = True, op_output_contract = (\<lambda>_. None)\<rparr>, nd_parameters = [],
     nd_input_contract = Inr, nd_input_schema = PyNone, nd_operator_output_contract = (\<lambda>_. None),
     nd_output_contract = (\<lambda>_. None), nd_input_plan = None, nd_output_binding = None, nd_policy = None,
     nd_stream_mappings = [], nd_event_stream = None, nd_entry = entry,
     nd_exit = exit\<rparr>"

definition sample_edge :: "string \<Rightarrow> string \<Rightarrow> string \<Rightarrow> edge_condition \<Rightarrow> nat \<Rightarrow> edge_ir" where
  "sample_edge e a b cond k = \<lparr>ed_id = e, ed_local_id = None, ed_local_from_node = None,
     ed_local_to_node = None, ed_scope_node_ids = [], ed_workflow_path = [], ed_from_node = a,
     ed_to_node = b, ed_condition = cond, ed_map_policy = None, ed_order = k\<rparr>"

definition output_is :: "bool \<Rightarrow> edge_condition" where
  "output_is b = CallableCondition (\<lambda>c. Inr (cc_source_output c = PyBool b))"

definition sample_region :: loop_region_ir where
  "sample_region = \<lparr>lr_id = ''loop_1'', lr_node_ids = [''h'', ''b''], lr_header_node_id = ''h'',
     lr_internal_edge_ids = [''hb'', ''bh''], lr_external_entry_edge_ids = [''sh''],
     lr_back_edge_ids = [''bh''], lr_exit_edge_ids = [''be''], lr_parent = None,
     lr_children = [], lr_depth = 0\<rparr>"

definition sample_workflow :: workflow_ir where
  "sample_workflow = \<lparr>wf_workflow_id = ''sample'', wf_definition_hash = ''0'',
     wf_failure_mode = FailFast,
     wf_nodes = map (\<lambda>(n, a, z). (n, sample_node n a z))
       [(''s'', True, False), (''h'', False, False), (''b'', False, False), (''e'', False, True)],
     wf_edges = map (\<lambda>(e, a, b, c, k). (e, sample_edge e a b c k))
       [(''sh'', ''s'', ''h'', NoCondition, 0), (''hb'', ''h'', ''b'', NoCondition, 1),
        (''bh'', ''b'', ''h'', output_is True, 2), (''be'', ''b'', ''e'', output_is False, 3)],
     wf_graph = \<lparr>
       gr_outgoing_edges = [(''s'', [''sh'']), (''h'', [''hb'']), (''b'', [''bh'', ''be'']), (''e'', [])],
       gr_incoming_edges = [(''s'', []), (''h'', [''sh'', ''bh'']), (''b'', [''hb'']), (''e'', [''be''])],
       gr_predecessors = [(''s'', []), (''h'', [''s'', ''b'']), (''b'', [''h'']), (''e'', [''b''])],
       gr_successors = [(''s'', [''h'']), (''h'', [''b'']), (''b'', [''h'', ''e'']), (''e'', [])],
       gr_loop_regions = [(''loop_1'', sample_region)],
       gr_node_loop_stacks = [(''s'', []), (''h'', [''loop_1'']), (''b'', [''loop_1'']), (''e'', [])]\<rparr>,
     wf_entry_node_ids = [''s''], wf_exit_node_ids = [''e'']\<rparr>"

definition sample_fuel :: fuel where
  "sample_fuel = \<lparr>fu_rounds = 10, fu_depth = 3\<rparr>"

definition sample_invocation :: invocation where
  "sample_invocation = new_invocation 0 ''sample'' None ''s'' [] EvStandard"

text \<open>One node executed to completion: the request popped, its execution run, its transition taken.\<close>

definition run_one ::
  "uuid \<Rightarrow> pyval \<Rightarrow> invocation \<Rightarrow> node_transition list \<times> invocation" where
  "run_one uid out i =
     (case pop_ready (inv_scheduler i) of
        (None, _) \<Rightarrow> ([], i)
      | (Some r, c) \<Rightarrow>
          (let (n, i1) = create_node_execution uid r PyNone (i\<lparr>inv_scheduler := c\<rparr>) in
           case mark_node_completed 0 (ne_id n) out i1 of
             Inl e \<Rightarrow> ([], i1)
           | Inr i2 \<Rightarrow>
               (let (ts, c') = drain_transitions None (inv_scheduler i2)
                in (ts, i2\<lparr>inv_scheduler := c'\<rparr>))))"

definition sample_round :: "uuid \<Rightarrow> pyval \<Rightarrow> invocation \<Rightarrow> invocation" where
  "sample_round uid out i =
     (let (ts, i') = run_one uid out i in
      projr (scheduler_next sample_workflow sample_fuel empty_runtime_context ts i'))"

text \<open>After the entry node, the header, and the body whose output is \<open>True\<close> (it continues).\<close>

definition sample_started :: invocation where
  "sample_started = projr (initialize sample_workflow sample_fuel sample_invocation)"

definition sample_at_body :: invocation where
  "sample_at_body = sample_round 2 PyNone (sample_round 1 PyNone sample_started)"

definition sample_body_done :: "bool \<Rightarrow> node_transition list \<times> invocation" where
  "sample_body_done b = run_one 3 (PyBool b) sample_at_body"

text \<open>Two nodes in a row, the second of which may run once.\<close>

definition sample_policy :: node_policy where
  "sample_policy = \<lparr>np_selection = None, np_retry = None,
     np_recovery = Some \<lparr>rec_mode = RecReplaySafe, rec_max_attempts = 2\<rparr>, np_timeout_ms = None,
     np_resource = Some \<lparr>rs_max_node_executions = Some 1, rs_max_operator_attempts = None,
       rs_max_runtime_ms = None\<rparr>, np_replication = None, np_max_concurrency = None\<rparr>"

definition sample_pair :: workflow_ir where
  "sample_pair = \<lparr>wf_workflow_id = ''pair'', wf_definition_hash = ''1'',
     wf_failure_mode = FailFast,
     wf_nodes = [(''a'', sample_node ''a'' True False),
       (''z'', (sample_node ''z'' False True)\<lparr>nd_policy := Some sample_policy\<rparr>)],
     wf_edges = [(''az'', sample_edge ''az'' ''a'' ''z'' NoCondition 0)],
     wf_graph = \<lparr>
       gr_outgoing_edges = [(''a'', [''az'']), (''z'', [])],
       gr_incoming_edges = [(''a'', []), (''z'', [''az''])],
       gr_predecessors = [(''a'', []), (''z'', [''a''])],
       gr_successors = [(''a'', [''z'']), (''z'', [])],
       gr_loop_regions = [], gr_node_loop_stacks = [(''a'', []), (''z'', [])]\<rparr>,
     wf_entry_node_ids = [''a''], wf_exit_node_ids = [''z'']\<rparr>"

lemma sample_pair_wf: "wf_ir sample_pair"
  by code_simp

lemma sample_workflow_wf: "wf_ir sample_workflow"
  by code_simp

lemma sample_continues:
  "(let (ts, i) = sample_body_done True in
    map request_key (ready_queue (inv_scheduler
      (projr (scheduler_next sample_workflow sample_fuel empty_runtime_context ts i)))))
   = [''h@loop_1:1'']"
  by code_simp

end
