(* ===== verification/Scheduler_Totality.thy ===== *)
theory Scheduler_Totality
  imports Scheduler_Returns Samples
begin

text \<open>
  Every invocation of a well-formed workflow lies in a finite universe of scopes, so the calls of
  the scheduler return: some budgets suffice, and with them the result no longer depends on them.
\<close>

lemma stack_region_clean:
  assumes "wf_ir W" and "rid \<in> set (loop_stack_of W n)"
  shows "clean_region rid"
proof -
  have "n \<in> set (dict_keys (gr_node_loop_stacks (wf_graph W)))"
    using assms(2) by (cases "dict_get (gr_node_loop_stacks (wf_graph W)) n")
      (auto simp: dict_get_default_def dest: dict_get_in_keys)
  then have "node_ok W n" using assms(1) by (auto simp: wf_ir_def)
  then obtain r where "r \<in> set (map snd (gr_loop_regions (wf_graph W)))" "lr_id r = rid"
    using assms(2) unfolding node_ok_def by blast
  then show ?thesis using assms(1) by (fastforce simp: wf_ir_def region_ok_def)
qed

text \<open>The frames of the given scopes and the first iterations of every loop.\<close>

lemma universe_exists:
  assumes "wf_ir W" and "cursor_sound W (inv_scheduler i)"
    and "\<forall>n \<in> set (inv_node_executions i). clean_scope (ne_scope n)" and "clean_scope s"
  obtains F L where "scope_universe W F L" and "sound W F L i" and "s \<in> scopes F L"
proof -
  let ?given = "s # map ne_scope (inv_node_executions i)"
  let ?stacks = "[] # map snd (gr_node_loop_stacks (wf_graph W))"
  let ?F = "set (concat ?given) \<union> (\<lambda>rid. LoopIteration rid 0) ` (\<Union>n. set (loop_stack_of W n))"
  let ?L = "Max (set (map length ?given @ map length ?stacks))"
  have stack: "loop_stack_of W n \<in> set ?stacks" for n
    by (force simp: dict_get_default_def dest: dict_get_mem split: option.splits)
  then have "(\<Union>n. set (loop_stack_of W n)) \<subseteq> set (concat ?stacks)"
    unfolding set_concat by (intro UN_least) blast
  then have "finite (\<Union>n. set (loop_stack_of W n))" by (rule finite_subset) simp
  then have "finite ?F" by simp
  moreover have "clean_region (frame_region f)" if "f \<in> ?F" for f
    using that assms(3,4) stack_region_clean [OF assms(1)] by (auto simp: clean_scope_def)
  moreover have "length (loop_stack_of W n) \<le> ?L" for n
    using imageI [OF stack [of n], of length] by (intro Max_ge finite_set)
      (simp only: set_map set_append Un_iff simp_thms)
  moreover have "(\<lambda>rid. LoopIteration rid 0) ` set (loop_stack_of W n) \<subseteq> ?F" for n by blast
  ultimately have "scope_universe W ?F ?L"
    using assms(1) unfolding scope_universe_def by simp
  moreover have "t \<in> scopes ?F ?L" if "t \<in> set ?given" for t
  proof -
    have "length t \<le> ?L" using that by (intro Max_ge) auto
    moreover have "set t \<subseteq> ?F" using that by auto
    ultimately show ?thesis by (simp only: scopes_def mem_Collect_eq)
  qed
  then have "s \<in> scopes ?F ?L" "sound W ?F ?L i"
    using assms(2) by (auto simp: sound_def simp del: concat.simps)
  ultimately show ?thesis using that by blast
qed

text \<open>A fuelled call that returns: from some budgets on it has one result, and that satisfies \<open>P\<close>.\<close>

definition returns :: "(fuel \<Rightarrow> 'a res) \<Rightarrow> ('a \<Rightarrow> bool) \<Rightarrow> bool" where
  "returns f P \<longleftrightarrow> (\<exists>N x. x \<noteq> Inl OutOfFuel \<and> (\<forall>y. x = Inr y \<longrightarrow> P y)
     \<and> (\<forall>fu. N \<le> fu_rounds fu \<and> N \<le> fu_depth fu \<longrightarrow> f fu = x))"

lemma settles_returns:
  assumes "settles Q (\<lambda>k d _. f (fuel_of k d))" and "\<And>y. Q y \<Longrightarrow> P y"
  shows "returns f P"
proof -
  obtain x N where "post Q x" "\<And>k d r. N \<le> k \<Longrightarrow> N \<le> d \<Longrightarrow> N \<le> r \<Longrightarrow> f (fuel_of k d) = x"
    using assms(1) by (rule settlesE) blast
  moreover have "fu = fuel_of (fu_rounds fu) (fu_depth fu)" for fu :: fuel by simp
  ultimately show ?thesis
    unfolding returns_def using assms(2) by (intro exI [of _ N] exI [of _ x]) (metis post_iff order_refl)
qed

lemma settles_sound:
  "settles (advanced W F L i) (\<lambda>k d _. f (fuel_of k d)) \<Longrightarrow> returns f (\<lambda>j. cursor_sound W (inv_scheduler j))"
  by (erule settles_returns) (simp add: advanced_def sound_def)

text \<open>
  C4: The scheduler always returns. On a well-formed workflow and a sound cursor each of its entry
  points has budgets from which on it returns one result that is not the exhausted budget, and
  which, unless it is an exception, has a sound cursor again: the mutual recursion of skipping,
  propagation and loop finalisation ends for every graph of nested loops.
\<close>

theorem scheduler_returns:
  assumes "wf_ir W" and "cursor_sound W (inv_scheduler i)"
    and "\<forall>n \<in> set (inv_node_executions i). clean_scope (ne_scope n)" and "clean_scope (rq_scope q)"
  shows "returns (\<lambda>fu. scheduler_next W fu sctx ts i) (\<lambda>j. cursor_sound W (inv_scheduler j))
     \<and> returns (\<lambda>fu. skip_ready_request W fu q i) (\<lambda>j. cursor_sound W (inv_scheduler j))
     \<and> returns (\<lambda>fu. initialize W fu i) (\<lambda>j. cursor_sound W (inv_scheduler j))"
proof -
  obtain F L where U: "scope_universe W F L" "sound W F L i" "rq_scope q \<in> scopes F L"
    by (rule universe_exists [OF assms])
  show ?thesis
    using settles_sound [OF scheduler_next_settles [OF U(1,2)]] settles_sound [OF skip_ready_settles [OF U]]
      settles_sound [OF initialize_settles [OF U(1,2)]] by blast
qed

lemma sample_scopes_clean:
  "list_all (\<lambda>n. clean_scope (ne_scope n)) (inv_node_executions (snd (sample_body_done True)))"
  by code_simp

lemma sample_cursor_sound: "cursor_sound sample_workflow (inv_scheduler (snd (sample_body_done True)))"
  by code_simp

lemma scheduler_returns_witness:
  "returns (\<lambda>fu. scheduler_next sample_workflow fu empty_runtime_context (fst (sample_body_done True)) (snd (sample_body_done True)))
     (\<lambda>j. cursor_sound sample_workflow (inv_scheduler j))"
  using scheduler_returns [OF sample_workflow_wf sample_cursor_sound, where q = "mk_request [] [] [] None None 0"]
    sample_scopes_clean
  by (auto simp: list_all_iff mk_request_def clean_scope_def)

end
