(* ===== verification/Workflow_Executor.thy ===== *)
theory Workflow_Executor
  imports Runtime_Events
begin

text \<open>
  The control loop of one invocation: \<open>core/executor/workflow_executor.py\<close>, class
  \<open>WorkflowExecutor\<close>. Every method is a function on the executor's state; what surrounds it (the
  compiled workflow, the operator registry, the clock's reading, the budgets of the scheduler
  and the messages that cancelled tasks still publish) is the environment \<open>exec_env\<close>. Exceptions
  of user hooks are values of \<open>user_exn\<close>, those of the framework values of \<open>py_error\<close>. User
  events, logging and elapsed times are left out.
\<close>

record exec_env =
  env_workflow :: workflow_ir
  env_registry :: operator_registry
  env_fuel :: fuel
  env_now :: int
  env_late :: "node_message list"

section \<open>Limits and gates\<close>

definition node_resource :: "node_ir \<Rightarrow> resource_policy option" where
  "node_resource nd = (case nd_policy nd of None \<Rightarrow> None | Some p \<Rightarrow> np_resource p)"

definition node_recovery :: "node_ir \<Rightarrow> recovery_policy option" where
  "node_recovery nd = (case nd_policy nd of None \<Rightarrow> None | Some p \<Rightarrow> np_recovery p)"

definition resource_error :: "string \<Rightarrow> string \<Rightarrow> string \<Rightarrow> int \<Rightarrow> int \<Rightarrow> runtime_error_info" where
  "resource_error msg resource n limit actual =
     mk_error ''RESOURCE_LIMIT_EXCEEDED'' msg
       [(''scope'', PyStr ''invocation''), (''resource'', PyStr resource), (''node_id'', PyStr n),
        (''limit'', PyInt limit), (''actual'', PyInt actual)]"

definition check_node_execution_resource :: "invocation \<Rightarrow> node_ir \<Rightarrow> runtime_error_info option" where
  "check_node_execution_resource i nd =
     (case (case node_resource nd of None \<Rightarrow> None | Some r \<Rightarrow> rs_max_node_executions r) of
        None \<Rightarrow> None
      | Some limit \<Rightarrow>
          (let actual = int (count_node_executions (nd_id nd) i) in
           if limit \<le> actual
           then Some (resource_error ''Node execution limit exceeded.'' ''node_executions'' (nd_id nd)
                  limit (actual + 1))
           else None))"

definition check_operator_attempt_resource :: "invocation \<Rightarrow> node_ir \<Rightarrow> runtime_error_info option" where
  "check_operator_attempt_resource i nd =
     (case (case node_resource nd of None \<Rightarrow> None | Some r \<Rightarrow> rs_max_operator_attempts r) of
        None \<Rightarrow> None
      | Some limit \<Rightarrow>
          (let actual = int (count_operator_attempts (nd_id nd) i) in
           if limit \<le> actual
           then Some (resource_error ''Operator attempt limit exceeded.'' ''operator_executions''
                  (nd_id nd) limit (actual + 1))
           else None))"

definition remaining_operator_attempts :: "invocation \<Rightarrow> node_ir \<Rightarrow> nat option" where
  "remaining_operator_attempts i nd =
     (case (case node_resource nd of None \<Rightarrow> None | Some r \<Rightarrow> rs_max_operator_attempts r) of
        None \<Rightarrow> None
      | Some limit \<Rightarrow> Some (nat (limit - int (count_operator_attempts (nd_id nd) i))))"

definition check_runtime_resource_after_result ::
  "node_ir \<Rightarrow> invocation \<Rightarrow> runtime_error_info option" where
  "check_runtime_resource_after_result nd i =
     (case (case node_resource nd of None \<Rightarrow> None | Some r \<Rightarrow> rs_max_runtime_ms r) of
        None \<Rightarrow> None
      | Some limit \<Rightarrow>
          (let actual = sum_node_runtime_ms (nd_id nd) i in
           if limit < actual
           then Some (resource_error ''Runtime limit exceeded.'' ''runtime_ms'' (nd_id nd) limit actual)
           else None))"

definition recovery_rejection_reason :: "node_ir option \<Rightarrow> node_execution \<Rightarrow> string option" where
  "recovery_rejection_reason ndo n =
     (case ndo of
        None \<Rightarrow> Some (''Interrupted node is absent from current Workflow: '' @ ne_node_id n)
      | Some nd \<Rightarrow> (case node_recovery nd of
          None \<Rightarrow> Some (''Node '' @ ne_node_id n @ '' does not permit crash recovery.'')
        | Some rp \<Rightarrow>
            if rec_mode rp = RecNever
            then Some (''Node '' @ ne_node_id n @ '' does not permit crash recovery.'')
            else if rec_max_attempts rp \<le> ne_recovery_attempt n
            then Some (''Node '' @ ne_node_id n @ '' exhausted RecoveryPolicy.max_attempts.'')
            else None))"

text \<open>The gate of \<open>_submit_ready_requests\<close> in recovery mode.\<close>

definition submission_rejected :: "node_ir \<Rightarrow> node_request \<Rightarrow> bool" where
  "submission_rejected nd r \<longleftrightarrow>
     (case node_recovery nd of None \<Rightarrow> True
      | Some rp \<Rightarrow> rec_mode rp = RecNever \<or> rec_max_attempts rp < rq_recovery_attempt r)"

definition is_completed :: "workflow_ir \<Rightarrow> invocation \<Rightarrow> bool" where
  "is_completed W i \<longleftrightarrow> (\<exists>n \<in> set (inv_node_executions i).
     ne_state n = NodeCompleted \<and> ne_node_id n \<in> set (wf_exit_node_ids W))"

definition build_invocation_result :: "workflow_ir \<Rightarrow> invocation \<Rightarrow> pyval dict" where
  "build_invocation_result W i =
     (let outputs = foldl (\<lambda>d nid. case latest_node_execution nid i of
            Some n \<Rightarrow> if ne_state n = NodeCompleted then dict_set nid (ne_output n) d else d
          | None \<Rightarrow> d) [] (wf_exit_node_ids W)
      in case outputs of
           [(_, v)] \<Rightarrow> [(''output'', v)]
         | _ \<Rightarrow> [(''outputs'', PyDict outputs)])"

section \<open>Building a node's input\<close>

text \<open>\<open>str(KeyError(s))\<close> is the quoted text.\<close>

definition key_error :: "string \<Rightarrow> user_exn" where
  "key_error s = UserExn ''KeyError'' (CHR 39 # s @ [CHR 39])"

fun build_incoming_outputs ::
  "invocation \<Rightarrow> edge_activation list \<Rightarrow> user_exn + incoming_output list" where
  "build_incoming_outputs i [] = Inr []"
| "build_incoming_outputs i (a # as) =
     (case get_node_execution (act_source_execution_id a) i of
        None \<Rightarrow> Inl (key_error (''Ready request references unknown source execution: ''
            @ uuid_str (act_source_execution_id a)))
      | Some n \<Rightarrow> (case build_incoming_outputs i as of
          Inl x \<Rightarrow> Inl x
        | Inr outs \<Rightarrow> Inr (\<lparr>io_edge_id = act_edge_id a, io_source_node_id = act_source_node_id a,
              io_source_execution_id = act_source_execution_id a, io_value = ne_output n\<rparr> # outs)))"

definition scope_incoming_outputs ::
  "workflow_ir \<Rightarrow> node_ir \<Rightarrow> incoming_output list \<Rightarrow> incoming_output list" where
  "scope_incoming_outputs W nd incoming = map (\<lambda>it.
     case dict_get (wf_edges W) (io_edge_id it) of
       Some e \<Rightarrow>
         if ed_workflow_path e = nd_workflow_path nd
         then it\<lparr>io_edge_id := str_or (ed_local_id e) (ed_id e),
                 io_source_node_id := str_or (ed_local_from_node e) (io_source_node_id it)\<rparr>
         else it
     | None \<Rightarrow> it) incoming"

fun map_policies :: "workflow_ir \<Rightarrow> edge_activation list \<Rightarrow> user_exn + map_policy list" where
  "map_policies W [] = Inr []"
| "map_policies W (a # as) =
     (case dict_get (wf_edges W) (act_edge_id a) of
        None \<Rightarrow> Inl (key_error (act_edge_id a))
      | Some e \<Rightarrow> (case map_policies W as of
          Inl x \<Rightarrow> Inl x
        | Inr ps \<Rightarrow> Inr (case ed_map_policy e of None \<Rightarrow> ps | Some p \<Rightarrow> p # ps)))"

definition map_policy_for_request :: "workflow_ir \<Rightarrow> node_request \<Rightarrow> user_exn + map_policy option" where
  "map_policy_for_request W r =
     (case map_policies W (rq_activations r) of
        Inl x \<Rightarrow> Inl x
      | Inr [] \<Rightarrow> Inr None
      | Inr [p] \<Rightarrow> Inr (Some p)
      | Inr _ \<Rightarrow> Inl (UserExn ''ValueError''
          ''A NodeExecution cannot be triggered by multiple MapPolicy edges.''))"

definition build_node_input ::
  "workflow_ir \<Rightarrow> runtime_context \<Rightarrow> invocation \<Rightarrow> node_ir \<Rightarrow> node_request \<Rightarrow> map_policy option
   \<Rightarrow> user_exn + pyval" where
  "build_node_input W sctx i nd r mp =
     (case build_incoming_outputs i (rq_activations r) of
        Inl x \<Rightarrow> Inl x
      | Inr incoming \<Rightarrow>
          let scoped = scope_incoming_outputs W nd incoming in
          if mp \<noteq> None then
            (case incoming of
               [it] \<Rightarrow> Inr (io_value it)
             | _ \<Rightarrow> Inl (UserExn ''ValueError'' ''MapPolicy requires exactly one incoming activation.''))
          else (case nd_input_plan nd of
              Some f \<Rightarrow> f \<lparr>hc_invocation_input = inv_input i,
                  hc_invocation_context = capture_context (inv_context i),
                  hc_session_context = capture_context sctx,
                  hc_outputs = view_scoped (inv_outputs i) (nd_scope_node_ids nd),
                  im_node_id = str_or (nd_local_id nd) (nd_id nd),
                  im_workflow_path = nd_workflow_path nd, im_incoming = scoped\<rparr>
            | None \<Rightarrow>
                if incoming_of W (nd_id nd) = [] then Inr (PyDict (inv_input i))
                else (case incoming of
                    [it] \<Rightarrow> Inr (io_value it)
                  | _ \<Rightarrow> Inr (PyDict (foldl (\<lambda>d it. dict_set (io_source_node_id it) (io_value it) d)
                       [] scoped)))))"

text \<open>The body of the \<open>try\<close> block around the input mapping.\<close>

definition prepare_input ::
  "workflow_ir \<Rightarrow> runtime_context \<Rightarrow> invocation \<Rightarrow> node_ir \<Rightarrow> node_request \<Rightarrow> string
   \<Rightarrow> user_exn + map_policy option \<times> pyval" where
  "prepare_input W sctx i nd r key =
     (case map_policy_for_request W r of
        Inl x \<Rightarrow> Inl x
      | Inr mp \<Rightarrow> (case build_node_input W sctx i nd r mp of
          Inl x \<Rightarrow> Inl x
        | Inr v \<Rightarrow>
            if (case node_recovery nd of None \<Rightarrow> False | Some rp \<Rightarrow> rec_mode rp = RecIdempotent) then
              if ''idempotency_key'' \<notin> set (nd_parameters nd) then
                Inl (UserExn ''ValueError''
                  ''Idempotent RecoveryPolicy requires an idempotency_key Operator parameter.'')
              else if mp = None then
                (case v of
                   PyDict d \<Rightarrow> Inr (mp, PyDict (dict_set ''idempotency_key'' (PyStr key) d))
                 | _ \<Rightarrow> Inl (UserExn ''TypeError'' ''Idempotent recovery requires mapping Node input.''))
              else Inr (mp, v)
            else Inr (mp, v)))"

section \<open>Ending executions\<close>

definition execution_detail :: "node_execution \<Rightarrow> (string \<times> pyval) list" where
  "execution_detail n = [(''node_id'', PyStr (ne_node_id n)), (''node_execution_id'', enc_uuid (ne_id n)),
     (''state'', PyStr (node_state_str (ne_state n)))]"

text \<open>The event \<open>node.<state>\<close> of an execution as it now is, with its error.\<close>

definition record_node_state :: "uuid \<Rightarrow> exec_state \<Rightarrow> exec_state" where
  "record_node_state u s =
     (case get_node_execution u (xs_invocation s) of
        None \<Rightarrow> s
      | Some n \<Rightarrow> record_detail (''node.'' @ node_state_str (ne_state n)) [u]
          (execution_detail n @ [(''error'', opt_error_record (ne_error n))]) s)"

definition record_terminal_node_events :: "uuid list \<Rightarrow> exec_state \<Rightarrow> exec_state" where
  "record_terminal_node_events us s = foldl (\<lambda>s u. record_node_state u s) s us"

definition active_executions :: "invocation \<Rightarrow> uuid list" where
  "active_executions i = map ne_id (filter (\<lambda>n. active_state (ne_state n)) (inv_node_executions i))"

definition abandon_workers :: "exec_env \<Rightarrow> exec_state \<Rightarrow> exec_state" where
  "abandon_workers E s = s\<lparr>xs_mailbox := snd (abandon (env_late E) (xs_mailbox s))\<rparr>"

definition cancel_unfinished_nodes ::
  "exec_env \<Rightarrow> runtime_error_info \<Rightarrow> exec_state \<Rightarrow> uuid list \<times> exec_state" where
  "cancel_unfinished_nodes E err s =
     (let us = active_executions (xs_invocation s);
          s1 = on_invocation (cancel_active_node_executions (env_now E) err) s
      in (us, record_terminal_node_events us (abandon_workers E s1)))"

definition interrupt_unfinished_nodes ::
  "exec_env \<Rightarrow> bool \<Rightarrow> runtime_error_info \<Rightarrow> exec_state \<Rightarrow> uuid list \<times> exec_state" where
  "interrupt_unfinished_nodes E workers err s =
     (let us = active_executions (xs_invocation s);
          s1 = on_invocation (interrupt_active_node_executions (env_now E) err) s
      in (us, record_terminal_node_events us (if workers then abandon_workers E s1 else s1)))"

definition failed_fast_error :: "invocation \<Rightarrow> runtime_error_info" where
  "failed_fast_error i =
     mk_error ''INVOCATION_FAILED_FAST''
       ''Node execution was cancelled after fail-fast invocation failure.''
       [(''invocation_error'', opt_error_record (inv_error i))]"

definition close_state :: "exec_state \<Rightarrow> exec_state" where
  "close_state s = s\<lparr>xs_mailbox := close_mailbox (xs_mailbox s)\<rparr>"

definition finish_failed_invocation :: "exec_env \<Rightarrow> exec_state \<Rightarrow> exec_state" where
  "finish_failed_invocation E s =
     (let (us, s1) = cancel_unfinished_nodes E (failed_fast_error (xs_invocation s)) s in
      close_state (record_event ''invocation.failed'' us True
        [(''state'', PyStr ''failed''), (''error'', opt_error_record (inv_error (xs_invocation s1)))]
        PyNone PyNone s1))"

definition interrupt_recovery :: "exec_env \<Rightarrow> string \<Rightarrow> string \<Rightarrow> exec_state \<Rightarrow> exec_state" where
  "interrupt_recovery E code msg s =
     (let err = mk_error code msg [];
          (us, s1) = interrupt_unfinished_nodes E False err s
      in record_event ''recovery.interrupted'' us True
           [(''code'', PyStr code), (''message'', PyStr msg)] PyNone PyNone
           (on_invocation (mark_interrupted (Some err)) s1))"

definition cancelled_error :: runtime_error_info where
  "cancelled_error = mk_error ''INVOCATION_CANCELLED'' ''Invocation was cancelled by its caller.'' []"

definition cancel_invocation :: "exec_env \<Rightarrow> exec_state \<Rightarrow> exec_state" where
  "cancel_invocation E s =
     (let (us, s1) = cancel_unfinished_nodes E cancelled_error s in
      record_event ''invocation.cancelled'' us False [] PyNone PyNone (on_invocation mark_cancelled s1))"

definition acancel :: "exec_env \<Rightarrow> exec_state \<Rightarrow> exec_state res" where
  "acancel E s =
     (if inv_state (xs_invocation s) \<notin> {InvCreated, InvRunning, InvWaiting}
      then Inl (ValueError (''Invocation cannot be cancelled from state ''
             @ invocation_state_str (inv_state (xs_invocation s)) @ ''.''))
      else Inr (cancel_invocation E s))"

text \<open>\<open>afail_infrastructure\<close>, when the store accepts the events.\<close>

definition infrastructure_error :: "user_exn \<Rightarrow> runtime_error_info" where
  "infrastructure_error x =
     mk_error ''INVOCATION_INFRASTRUCTURE_ERROR''
       ''Invocation failed because execution infrastructure raised an unexpected error.''
       [(''exception_type'', PyStr (exn_type x)), (''message'', PyStr (exn_message x))]"

definition afail_infrastructure :: "exec_env \<Rightarrow> user_exn \<Rightarrow> exec_state \<Rightarrow> exec_state" where
  "afail_infrastructure E x s =
     (if inv_state (xs_invocation s) \<in> {InvCompleted, InvFailed, InvCancelled, InvInterrupted} then s
      else
        let err = infrastructure_error x;
            (_, s1) = cancel_unfinished_nodes E err (on_invocation (mark_failed err) s)
        in record_event ''invocation.failed'' [] True
             [(''state'', PyStr ''failed''), (''error'', error_to_record err)] PyNone PyNone s1)"

section \<open>Submitting ready requests\<close>

datatype submit_outcome =
    SubmitStop exec_state
  | SubmitNext exec_state
  | SubmitJob exec_state job

definition recovery_rejected_error :: "string \<Rightarrow> string \<Rightarrow> runtime_error_info" where
  "recovery_rejected_error msg n = mk_error ''NODE_RECOVERY_REJECTED'' msg [(''node_id'', PyStr n)]"

definition replay_message :: "string \<Rightarrow> string" where
  "replay_message n = ''Node '' @ n @ '' does not permit another crash-recovery replay.''"

definition block_recovery :: "exec_env \<Rightarrow> node_request \<Rightarrow> exec_state \<Rightarrow> submit_outcome res" where
  "block_recovery E r s =
     (let W = env_workflow E; err = recovery_rejected_error (replay_message (rq_node_id r)) (rq_node_id r) in
      if wf_failure_mode W = FailFast
      then Inr (SubmitStop (interrupt_recovery E (err_code err) (err_message err) s))
      else bindR (on_invocation_res (defer_terminal err InvInterrupted) s)
        (\<lambda>s1. bindR (on_invocation_res (skip_ready_request W (env_fuel E) r) s1)
          (\<lambda>s2. Inr (SubmitNext (record_detail ''recovery.node_skipped'' []
                  [(''recovery_blocked_node_id'', PyStr (rq_node_id r))] s2)))))"

definition base_revisions :: "uuid \<Rightarrow> nat \<Rightarrow> nat \<Rightarrow> node_execution \<Rightarrow> node_execution" where
  "base_revisions u inv_rev ses_rev n =
     n\<lparr>ne_idempotency_key := (case ne_idempotency_key n of None \<Rightarrow> Some (uuid_str u) | Some k \<Rightarrow> Some k),
       ne_base_invocation_revision := inv_rev, ne_base_session_revision := ses_rev\<rparr>"

definition start_execution :: "exec_env \<Rightarrow> node_ir \<Rightarrow> node_request \<Rightarrow> exec_state \<Rightarrow> (uuid \<times> exec_state) res"
where
  "start_execution E nd r s =
     (let u = xs_supply s;
          i1 = snd (create_node_execution u (r\<lparr>rq_node_id := nd_id nd\<rparr>) PyNone (xs_invocation s));
          i2 = add_scheduled (node_instance_key (nd_id nd) (rq_scope r))
                 (update_execution u (base_revisions u (ctx_revision (inv_context i1))
                    (ctx_revision (xs_session s))) i1)
      in bindR (mark_node_running (env_now E) u PyNone i2)
           (\<lambda>i3. Inr (u, record_detail ''node.running'' [u]
              [(''node_id'', PyStr (nd_id nd)), (''node_execution_id'', enc_uuid u),
               (''state'', PyStr ''running'')]
              (s\<lparr>xs_invocation := i3, xs_supply := Suc u\<rparr>))))"

definition fail_mapping :: "exec_env \<Rightarrow> node_ir \<Rightarrow> uuid \<Rightarrow> user_exn \<Rightarrow> exec_state \<Rightarrow> exec_state res" where
  "fail_mapping E nd u x s =
     (let s1 = record_detail ''input_mapping.completed'' [u]
            [(''node_id'', PyStr (nd_id nd)), (''state'', PyStr ''failed''),
             (''error_type'', PyStr (exn_type x))] s
      in bindR (on_invocation_res (mark_node_failed (env_now E) u
                 (mk_error ''INPUT_MAPPING_FAILED'' (exn_message x)
                   [(''node_id'', PyStr (nd_id nd)), (''error_type'', PyStr (exn_type x))])) s1)
          (\<lambda>s2. Inr (record_detail ''node.failed'' [u]
             [(''node_id'', PyStr (nd_id nd)), (''phase'', PyStr ''input_mapping''),
              (''state'', PyStr ''failed'')] s2)))"

definition make_job :: "exec_env \<Rightarrow> node_ir \<Rightarrow> node_execution \<Rightarrow> pyval \<Rightarrow> map_policy option \<Rightarrow> exec_state \<Rightarrow> job"
where
  "make_job E nd n v mp s =
     (let i = xs_invocation s in
      \<lparr>job_node = nd, job_execution = n, job_input = v,
       job_max_operator_attempts = remaining_operator_attempts i nd, job_map_policy = mp,
       job_concurrency_key = Some (wf_workflow_id (env_workflow E) @ '':'' @ nd_id nd),
       job_recovery = (inv_execution_mode i = ModeRecovery),
       job_hook_context = Some (capture_hook_context (inv_input i) (inv_context i) (xs_session s)
         (view_scoped (inv_outputs i) (nd_scope_node_ids nd))),
       job_event_mode = inv_event_mode i\<rparr>)"

text \<open>After the input is built: the event, the attempt limit and the job.\<close>

definition finish_submission ::
  "exec_env \<Rightarrow> node_ir \<Rightarrow> uuid \<Rightarrow> map_policy option \<Rightarrow> pyval \<Rightarrow> exec_state \<Rightarrow> submit_outcome res" where
  "finish_submission E nd u mp v s =
     (let s1 = record_event ''input_mapping.completed'' [u] False
            [(''node_id'', PyStr (nd_id nd)), (''node_execution_id'', enc_uuid u),
             (''state'', PyStr ''completed'')] PyNone v
            (on_invocation (update_execution u (\<lambda>n. n\<lparr>ne_input := v\<rparr>)) s)
      in case check_operator_attempt_resource (xs_invocation s1) nd of
           Some err \<Rightarrow>
             bindR (on_invocation_res (mark_node_failed (env_now E) u err) s1) (\<lambda>s2. Inr (SubmitNext s2))
         | None \<Rightarrow>
             bindR (require_node_execution u (xs_invocation s1))
               (\<lambda>n. Inr (SubmitJob s1 (make_job E nd n v mp s1))))"

definition run_request :: "exec_env \<Rightarrow> node_ir \<Rightarrow> node_request \<Rightarrow> exec_state \<Rightarrow> submit_outcome res" where
  "run_request E nd r s =
     (case check_node_execution_resource (xs_invocation s) nd of
        Some err \<Rightarrow> Inr (SubmitStop (on_invocation (mark_failed err) s))
      | None \<Rightarrow>
          bindR (start_execution E nd r s)
            (\<lambda>(u, s1). case prepare_input (env_workflow E) (xs_session s1) (xs_invocation s1) nd r
                   (case rq_idempotency_key r of None \<Rightarrow> uuid_str u | Some k \<Rightarrow> k) of
               Inl x \<Rightarrow> bindR (fail_mapping E nd u x s1) (\<lambda>s2. Inr (SubmitNext s2))
             | Inr (mp, v) \<Rightarrow> finish_submission E nd u mp v s1))"

definition unknown_node_error :: "string \<Rightarrow> runtime_error_info" where
  "unknown_node_error n =
     mk_error ''UNKNOWN_NODE'' (''Ready request references unknown node: '' @ n) []"

definition submit_request :: "exec_env \<Rightarrow> node_request \<Rightarrow> exec_state \<Rightarrow> submit_outcome res" where
  "submit_request E r s =
     (case dict_get (wf_nodes (env_workflow E)) (rq_node_id r) of
        None \<Rightarrow> Inr (SubmitStop (on_invocation (mark_failed (unknown_node_error (rq_node_id r))) s))
      | Some nd \<Rightarrow>
          if inv_execution_mode (xs_invocation s) = ModeRecovery \<and> submission_rejected nd r
          then block_recovery E r s
          else run_request E nd r s)"

fun submit_ready_requests ::
  "exec_env \<Rightarrow> node_request list \<Rightarrow> exec_state \<Rightarrow> job list \<Rightarrow> (exec_state \<times> job list) res" where
  "submit_ready_requests E [] s jobs = Inr (s, jobs)"
| "submit_ready_requests E (r # rs) s jobs =
     bindR (submit_request E r s)
       (\<lambda>out. case out of
          SubmitStop s' \<Rightarrow> Inr (s', jobs)
        | SubmitNext s' \<Rightarrow> submit_ready_requests E rs s' jobs
        | SubmitJob s' j \<Rightarrow> submit_ready_requests E rs s' (jobs @ [j]))"

section \<open>Output bindings\<close>

definition py_quote :: "string \<Rightarrow> string" where
  "py_quote s = CHR 39 # s @ [CHR 39]"

definition commit_exception :: "commit_error \<Rightarrow> user_exn" where
  "commit_exception e = (case e of
      ConcurrentContextWrite n paths base current \<Rightarrow>
        UserExn ''ConcurrentContextWriteError''
          (''Concurrent Context write overlaps a path changed after this Node started: node_id='' @ n
           @ '', paths=['' @ join_str '', '' (map py_quote paths) @ ''], base_revision=''
           @ str_nat base @ '', current_revision='' @ str_nat current)
    | CommitCrash _ \<Rightarrow> UserExn ''KeyError'' '''')"

text \<open>
  Both candidate commits are computed before either context is replaced. The working copies of
  the hook are detached, so what the hook does to them is what it returns.
\<close>

definition run_output_binding ::
  "node_ir \<Rightarrow> node_execution \<Rightarrow> pyval \<Rightarrow> exec_state \<Rightarrow> user_exn + exec_state" where
  "run_output_binding nd n out s =
     (case nd_output_binding nd of
        None \<Rightarrow> Inr s
      | Some f \<Rightarrow>
          let i = xs_invocation s in
          (case f \<lparr>ob_invocation_input = inv_input i, ob_invocation_context = inv_context i,
                   ob_session_context = xs_session s,
                   ob_outputs = view_scoped (inv_outputs i) (nd_scope_node_ids nd),
                   ob_node_id = str_or (nd_local_id nd) (nd_id nd), ob_output = out,
                   ob_workflow_path = nd_workflow_path nd\<rparr> of
             Inl x \<Rightarrow> Inl x
           | Inr (working_inv, working_ses) \<Rightarrow>
               (case commit_isolated working_inv (ne_base_invocation_revision n) (ne_node_id n)
                       (inv_context i) of
                  Inl e \<Rightarrow> Inl (commit_exception e)
                | Inr (ctx1, _) \<Rightarrow>
                    (case commit_isolated working_ses (ne_base_session_revision n) (ne_node_id n)
                            (xs_session s) of
                       Inl e \<Rightarrow> Inl (commit_exception e)
                     | Inr (ctx2, _) \<Rightarrow>
                         Inr (s\<lparr>xs_invocation := i\<lparr>inv_context := ctx1\<rparr>, xs_session := ctx2\<rparr>)))))"

definition binding_failed_error :: "node_execution \<Rightarrow> user_exn \<Rightarrow> runtime_error_info" where
  "binding_failed_error n x =
     mk_error ''OUTPUT_BINDING_FAILED'' (exn_message x)
       [(''node_id'', PyStr (ne_node_id n)), (''error_type'', PyStr (exn_type x))]"

section \<open>Applying worker messages\<close>

definition record_operator_call :: "node_execution \<Rightarrow> operator_execution \<Rightarrow> exec_state \<Rightarrow> exec_state" where
  "record_operator_call n oe s =
     (case oe of
        Direct d \<Rightarrow> record_event ''operator_call.completed'' [ne_id n] False
          [(''node_id'', PyStr (ne_node_id n)), (''node_execution_id'', enc_uuid (ne_id n)),
           (''operator_call_id'', enc_uuid (de_id d)), (''operator_id'', PyStr (de_operator_id d)),
           (''reason'', PyStr (operator_reason_str (de_reason d))),
           (''state'', PyStr (operator_state_str (de_state d))),
           (''streaming'', PyBool (de_streaming d)),
           (''stream_chunk_count'', py_nat (de_stream_chunk_count d)),
           (''error'', opt_error_record (de_error d))] (de_input d) (de_output d) s
      | Parallel p \<Rightarrow> record_event ''operator_call.completed'' [ne_id n] False
          [(''node_id'', PyStr (ne_node_id n)), (''node_execution_id'', enc_uuid (ne_id n)),
           (''operator_call_id'', enc_uuid (pe_id p)), (''kind'', PyStr (parallel_kind_str (pe_kind p))),
           (''operator_ids'', enc_list PyStr (pe_operator_ids p)),
           (''state'', PyStr (operator_state_str (pe_state p))),
           (''summary'', summary_to_record (pe_summary p)),
           (''error'', opt_error_record (pe_error p))] PyNone PyNone s)"

text \<open>An operator execution that is already recorded is ignored.\<close>

definition add_operator_execution :: "uuid \<Rightarrow> operator_execution \<Rightarrow> exec_state \<Rightarrow> exec_state" where
  "add_operator_execution u oe s =
     (case get_node_execution u (xs_invocation s) of
        None \<Rightarrow> s
      | Some n \<Rightarrow>
          if \<exists>x \<in> set (ne_operator_executions n). oe_id x = oe_id oe then s
          else record_operator_call n oe (on_invocation (update_execution u
                 (\<lambda>n. n\<lparr>ne_operator_executions := ne_operator_executions n @ [oe]\<rparr>)) s))"

definition record_phase :: "node_execution \<Rightarrow> phase_result \<Rightarrow> exec_state \<Rightarrow> exec_state" where
  "record_phase n ph s = record_event (ph_name ph) [ne_id n] False
     [(''node_id'', PyStr (ne_node_id n)), (''state'', PyStr (ph_status ph))] (ph_input ph) (ph_output ph) s"

definition unknown_message_error :: "string \<Rightarrow> string \<Rightarrow> uuid \<Rightarrow> runtime_error_info" where
  "unknown_message_error code msg u = mk_error code msg [(''node_execution_id'', enc_uuid u)]"

definition apply_progress :: "uuid \<Rightarrow> node_message \<Rightarrow> exec_state \<Rightarrow> exec_state" where
  "apply_progress u x s =
     (case get_node_execution u (xs_invocation s) of
        None \<Rightarrow> on_invocation (mark_failed (unknown_message_error ''UNKNOWN_NODE_EXECUTION_PROGRESS''
            ''NodeExecutor returned progress for an unknown NodeExecution.'' u)) s
      | Some n \<Rightarrow> (case x of
            OperatorProgress _ oe \<Rightarrow> add_operator_execution u oe s
          | PhaseProgress _ ph \<Rightarrow>
              record_phase n ph
                (if ph_name ph = ''aggregation.completed'' \<and> ph_status ph = ''completed''
                 then on_invocation (update_execution u (\<lambda>n. n\<lparr>ne_output := ph_output ph\<rparr>)) s else s)
          | _ \<Rightarrow> s))"

text \<open>The common tail of a successful result: the binding and the end of the node.\<close>

definition report_binding ::
  "node_ir \<Rightarrow> node_execution \<Rightarrow> pyval \<Rightarrow> bool \<Rightarrow> (string \<times> pyval) list \<Rightarrow> exec_state \<Rightarrow> exec_state" where
  "report_binding nd n out events extra s =
     (if events \<and> nd_output_binding nd \<noteq> None
      then record_event ''output_binding.completed'' [ne_id n] False
             ((''node_id'', PyStr (ne_node_id n)) # extra) out PyNone s
      else s)"

definition settle_completed ::
  "exec_env \<Rightarrow> node_ir \<Rightarrow> uuid \<Rightarrow> pyval \<Rightarrow> bool \<Rightarrow> exec_state \<Rightarrow> exec_state res" where
  "settle_completed E nd u out events s =
     bindR (require_node_execution u (xs_invocation s))
       (\<lambda>n. case run_output_binding nd n out s of
            Inl x \<Rightarrow> on_invocation_res (mark_node_failed (env_now E) u (binding_failed_error n x))
              (report_binding nd n out events
                [(''state'', PyStr ''failed''), (''error_type'', PyStr (exn_type x))] s)
          | Inr s1 \<Rightarrow> on_invocation_res (mark_node_completed (env_now E) u out)
              (report_binding nd n out events [(''state'', PyStr ''completed'')] s1))"

definition wait_conflict_error :: "node_execution \<Rightarrow> string \<Rightarrow> runtime_error_info" where
  "wait_conflict_error n msg = mk_error ''WAIT_KEY_CONFLICT'' msg [(''node_id'', PyStr (ne_node_id n))]"

text \<open>A conflicting wait key is noticed after the execution took the pending output.\<close>

definition settle_waiting :: "exec_env \<Rightarrow> node_result \<Rightarrow> node_execution \<Rightarrow> exec_state \<Rightarrow> exec_state res" where
  "settle_waiting E r n s =
     (let u = nr_execution_id r;
          key = str_or (nr_wait_key r) (uuid_str u);
          payload = (case nr_wait_payload r of None \<Rightarrow> [] | Some d \<Rightarrow> d)
      in case on_invocation_res (mark_node_waiting u key (nr_wait_type r) payload None (nr_output r)) s of
           Inr s1 \<Rightarrow> Inr s1
         | Inl (ValueError msg) \<Rightarrow>
             on_invocation_res (mark_node_failed (env_now E) u (wait_conflict_error n msg))
               (on_invocation (update_execution u (\<lambda>m. node_mark_waiting None (m\<lparr>ne_output := nr_output r\<rparr>))) s)
         | Inl e \<Rightarrow> Inl e)"

definition node_failed_default :: runtime_error_info where
  "node_failed_default = mk_error ''NODE_EXECUTION_FAILED'' ''Node execution failed.'' []"

definition settle_result :: "exec_env \<Rightarrow> node_result \<Rightarrow> node_execution \<Rightarrow> node_ir \<Rightarrow> exec_state \<Rightarrow> exec_state res"
where
  "settle_result E r n nd s =
     (let u = nr_execution_id r in
      case check_runtime_resource_after_result nd (xs_invocation s) of
        Some err \<Rightarrow> bindR (on_invocation_res (mark_node_failed (env_now E) u err) s)
          (\<lambda>s1. Inr (record_detail ''node.failed'' [u]
             [(''node_id'', PyStr (ne_node_id n)), (''node_execution_id'', enc_uuid u),
              (''state'', PyStr ''failed''), (''error'', error_to_record err)] s1))
      | None \<Rightarrow>
          bindR (if nr_state r = NodeCompleted then
                   settle_completed E nd u (nr_output r) True
                     (on_invocation (update_execution u (\<lambda>n. n\<lparr>ne_output := nr_output r\<rparr>)) s)
                 else if nr_state r = NodeWaiting then settle_waiting E r n s
                 else on_invocation_res (mark_node_failed (env_now E) u
                   (case nr_error r of Some e \<Rightarrow> e | None \<Rightarrow> node_failed_default)) s)
            (\<lambda>s1. Inr (record_node_state u s1)))"

definition apply_result :: "exec_env \<Rightarrow> node_result \<Rightarrow> exec_state \<Rightarrow> exec_state res" where
  "apply_result E r s =
     (let u = nr_execution_id r in
      case get_node_execution u (xs_invocation s) of
        None \<Rightarrow> Inr (on_invocation (mark_failed (unknown_message_error ''UNKNOWN_NODE_EXECUTION_RESULT''
            ''NodeExecutor returned a result for an unknown NodeExecution.'' u)) s)
      | Some n \<Rightarrow>
          let selection = (\<lambda>ph. ph_name ph = ''item_selection.completed'');
              s1 = foldl (\<lambda>s ph. record_phase n ph s) s (filter selection (nr_phases r));
              s2 = foldl (\<lambda>s oe. add_operator_execution u oe s) s1 (nr_operator_executions r);
              after = filter (\<lambda>ph. \<not> selection ph) (nr_phases r);
              s3 = on_invocation (update_execution u (\<lambda>n. n\<lparr>ne_usage := nr_usage r,
                     ne_output := (if after \<noteq> [] \<and> nr_state r = NodeCompleted then nr_output r
                                   else ne_output n)\<rparr>)) s2;
              s4 = foldl (\<lambda>s ph. record_phase n ph s) s3 after
          in bindR (dict_index (wf_nodes (env_workflow E)) (ne_node_id n))
               (\<lambda>nd. settle_result E r n nd s4))"

fun apply_message :: "exec_env \<Rightarrow> exec_state \<Rightarrow> node_message \<Rightarrow> exec_state res" where
  "apply_message E s (ResultMessage r) = apply_result E r s"
| "apply_message E s (PhaseProgress u ph) = Inr (apply_progress u (PhaseProgress u ph) s)"
| "apply_message E s (OperatorProgress u oe) = Inr (apply_progress u (OperatorProgress u oe) s)"
| "apply_message E s (UserEventProgress u es) = Inr (apply_progress u (UserEventProgress u es) s)"

section \<open>The control loop\<close>

text \<open>
  The edge decisions one scheduler call reports, in the order it took them: the evaluations it
  added to the completed executions among its transitions.
\<close>

definition new_evaluations :: "invocation \<Rightarrow> invocation \<Rightarrow> uuid \<Rightarrow> edge_evaluation list" where
  "new_evaluations i j u =
     (case (get_node_execution u i, get_node_execution u j) of
        (Some n, Some m) \<Rightarrow> drop (length (ne_edge_evaluations n)) (ne_edge_evaluations m)
      | _ \<Rightarrow> [])"

definition record_edge_event :: "node_execution \<Rightarrow> edge_evaluation \<Rightarrow> exec_state \<Rightarrow> exec_state" where
  "record_edge_event n e s = record_detail ''edge.evaluated'' [ne_id n]
     [(''edge_id'', PyStr (ee_edge_id e)), (''node_id'', PyStr (ne_node_id n)),
      (''source_execution_id'', enc_uuid (ne_id n)),
      (''target_node_id'', PyStr (ee_target_node_id e)),
      (''state'', PyStr (evaluation_state_str (ee_state e))), (''selected'', PyBool (ee_selected e)),
      (''reason'', enc_opt PyStr (ee_reason e))] s"

definition record_edge_events :: "node_transition list \<Rightarrow> invocation \<Rightarrow> exec_state \<Rightarrow> exec_state" where
  "record_edge_events ts before s =
     (let after = xs_invocation s in
      foldl (\<lambda>s t.
        if tr_state t = NodeCompleted then
          (case get_node_execution (tr_node_execution_id t) after of
             None \<Rightarrow> s
           | Some n \<Rightarrow> foldl (\<lambda>s e. record_edge_event n e s) s
               (new_evaluations before after (tr_node_execution_id t)))
        else s) s ts)"

definition record_new_skipped_nodes :: "string set \<Rightarrow> exec_state \<Rightarrow> exec_state" where
  "record_new_skipped_nodes previous s =
     foldl (\<lambda>s key. record_detail ''node.skipped'' []
         [(''node_id'', PyStr (before_first (CHR ''@'') key)), (''node_instance_key'', PyStr key),
          (''state'', PyStr ''skipped'')] s) s
       (sorted_list_of_set (skipped_node_instances (inv_scheduler (xs_invocation s)) - previous))"

datatype drive_outcome =
    Continue exec_state
  | Returned exec_state
  | AwaitWorkers exec_state

fun outcome_state :: "drive_outcome \<Rightarrow> exec_state" where
  "outcome_state (Continue s) = s"
| "outcome_state (Returned s) = s"
| "outcome_state (AwaitWorkers s) = s"

definition drive_transitions :: "exec_env \<Rightarrow> node_transition list \<Rightarrow> exec_state \<Rightarrow> drive_outcome res" where
  "drive_transitions E ts s =
     (let before = xs_invocation s in
      bindR (on_invocation_res (scheduler_next (env_workflow E) (env_fuel E) (xs_session s) ts) s)
        (\<lambda>s1. let s2 = record_new_skipped_nodes (skipped_node_instances (inv_scheduler before))
                        (record_edge_events ts before s1)
              in Inr (if inv_state (xs_invocation s2) = InvFailed
                      then Returned (finish_failed_invocation E s2) else Continue s2)))"

definition drive_ready :: "exec_env \<Rightarrow> node_request list \<Rightarrow> exec_state \<Rightarrow> drive_outcome res" where
  "drive_ready E requests s =
     bindR (submit_ready_requests E requests s [])
       (\<lambda>(s1, jobs). bindR (if jobs = [] then Inr s1
                            else bindR (submit_batch (env_registry E) jobs (xs_mailbox s1))
                              (\<lambda>m. Inr (s1\<lparr>xs_mailbox := m\<rparr>)))
         (\<lambda>s2. Inr (if inv_state (xs_invocation s2) = InvInterrupted then Returned s2
                    else if inv_state (xs_invocation s2) = InvFailed
                    then Returned (finish_failed_invocation E s2)
                    else Continue s2)))"

definition drive_messages :: "exec_env \<Rightarrow> exec_state \<Rightarrow> drive_outcome res" where
  "drive_messages E s =
     (case wait_for_messages (xs_mailbox s) of
        (Messages xs, m) \<Rightarrow> bindR (foldR (apply_message E) (s\<lparr>xs_mailbox := m\<rparr>) xs) (\<lambda>s1. Inr (Continue s1))
      | (NothingRunning, m) \<Rightarrow> Inr (Continue (s\<lparr>xs_mailbox := m\<rparr>))
      | (Blocked, m) \<Rightarrow> Inr (AwaitWorkers (s\<lparr>xs_mailbox := m\<rparr>)))"

definition drive_waiting :: "exec_state \<Rightarrow> exec_state" where
  "drive_waiting s =
     (let s1 = on_invocation mark_waiting s;
          waits = waiting_executions (inv_scheduler (xs_invocation s1));
          keys = sort (dict_keys waits)
      in record_event ''wait.created'' (map (\<lambda>(k, w). we_node_execution_id w) waits) True
           [(''state'', PyStr ''waiting''), (''wait_keys'', enc_list PyStr keys),
            (''waits'', enc_list waiting_to_record (List.map_filter (dict_get waits) keys))]
           PyNone PyNone s1)"

definition deferred_default :: runtime_error_info where
  "deferred_default = mk_error ''DEFERRED_BRANCH_FAILURE'' ''A branch could not complete.'' []"

definition drive_deferred :: "exec_env \<Rightarrow> invocation_state \<Rightarrow> exec_state \<Rightarrow> exec_state" where
  "drive_deferred E terminal s =
     (let err = (case inv_deferred_error (xs_invocation s) of Some e \<Rightarrow> e | None \<Rightarrow> deferred_default) in
      if terminal = InvInterrupted then
        (let (us, s1) = interrupt_unfinished_nodes E True err s in
         close_state (record_event ''recovery.interrupted'' us True
           [(''state'', PyStr ''interrupted''), (''error'', error_to_record err)] PyNone PyNone
           (on_invocation (mark_interrupted (Some err)) s1)))
      else finish_failed_invocation E (on_invocation (mark_failed err) s))"

definition dead_end :: runtime_error_info where
  "dead_end = mk_error ''WORKFLOW_DEAD_END''
     ''Workflow has no ready, running, waiting, or completed exit node.'' []"

definition drive_completed :: "exec_env \<Rightarrow> exec_state \<Rightarrow> exec_state" where
  "drive_completed E s =
     close_state (record_detail ''invocation.completed'' []  []
       (on_invocation (\<lambda>i. mark_completed (Some (build_invocation_result (env_workflow E) i)) i) s))"

text \<open>One turn of \<open>while True\<close> in \<open>_drive\<close>.\<close>

definition drive_step :: "exec_env \<Rightarrow> exec_state \<Rightarrow> drive_outcome res" where
  "drive_step E s =
     (let i = xs_invocation s; c = inv_scheduler i in
      if inv_state i = InvFailed then Inr (Returned (finish_failed_invocation E s))
      else if transition_queue c \<noteq> [] then
        drive_transitions E (transition_queue c)
          (on_invocation (\<lambda>i. i\<lparr>inv_scheduler := snd (drain_transitions None c)\<rparr>) s)
      else if ready_queue c \<noteq> [] then
        drive_ready E (ready_queue c)
          (on_invocation (\<lambda>i. i\<lparr>inv_scheduler := snd (drain_ready None c)\<rparr>) s)
      else if has_pending (xs_mailbox s) then drive_messages E s
      else if waiting_executions c \<noteq> [] then Inr (Returned (drive_waiting s))
      else (case inv_deferred_terminal_state i of
          Some terminal \<Rightarrow> Inr (Returned (drive_deferred E terminal s))
        | None \<Rightarrow>
            if is_completed (env_workflow E) i then Inr (Returned (drive_completed E s))
            else Inr (Returned (finish_failed_invocation E (on_invocation (mark_failed dead_end) s)))))"

section \<open>Entry points\<close>

text \<open>What \<open>ainvoke\<close> does before it drives.\<close>

definition begin_invocation :: "exec_env \<Rightarrow> exec_state \<Rightarrow> exec_state res" where
  "begin_invocation E s =
     (let s1 = (if inv_state (xs_invocation s) = InvCreated
                then record_detail ''invocation.running'' [] [(''state'', PyStr ''running'')]
                       (on_invocation mark_running s)
                else s)
      in bindR (on_invocation_res (initialize (env_workflow E) (env_fuel E)) s1)
           (\<lambda>s2. Inr (record_new_skipped_nodes
              (skipped_node_instances (inv_scheduler (xs_invocation s1))) s2)))"

text \<open>
  \<open>_complete_resumed_execution\<close>: the binding of a resumed node runs without events of its own; a
  node that is absent from the workflow fails like a binding that raises.
\<close>

definition complete_resumed_execution ::
  "exec_env \<Rightarrow> node_execution \<Rightarrow> pyval \<Rightarrow> exec_state \<Rightarrow> exec_state res" where
  "complete_resumed_execution E n out s =
     (case dict_get (wf_nodes (env_workflow E)) (ne_node_id n) of
        Some nd \<Rightarrow> settle_completed E nd (ne_id n) out False s
      | None \<Rightarrow> on_invocation_res (mark_node_failed (env_now E) (ne_id n)
          (binding_failed_error n (key_error (ne_node_id n)))) s)"

definition announce_resumed :: "string \<Rightarrow> node_execution \<Rightarrow> exec_state \<Rightarrow> exec_state res" where
  "announce_resumed key n s =
     bindR (require_node_execution (ne_id n) (xs_invocation s))
       (\<lambda>m. let s1 = record_detail (''node.'' @ node_state_str (ne_state m)) [ne_id n]
               [(''node_id'', PyStr (ne_node_id n)), (''node_execution_id'', enc_uuid (ne_id n)),
                (''resumed'', PyBool True)] s
            in Inr (if waiting_executions (inv_scheduler (xs_invocation s1)) = []
                    then record_detail ''invocation.running'' []
                      [(''state'', PyStr ''running''), (''resumed_wait_key'', PyStr key)]
                      (on_invocation mark_running s1)
                    else s1))"

text \<open>\<open>_aresume_impl\<close> up to its call of \<open>_drive\<close>; \<open>out = None\<close> keeps the pending output.\<close>

definition signal_wait :: "string \<Rightarrow> node_execution \<Rightarrow> pyval \<Rightarrow> scheduler_context \<Rightarrow> exec_state \<Rightarrow> exec_state"
where
  "signal_wait key n out c s =
     record_detail ''wait.resumed'' [ne_id n]
       [(''node_id'', PyStr (ne_node_id n)), (''node_execution_id'', enc_uuid (ne_id n)),
        (''wait_key'', PyStr key), (''resumed'', PyBool True)]
       (on_invocation (\<lambda>i. update_execution (ne_id n) (\<lambda>n. n\<lparr>ne_output := out\<rparr>)
          (i\<lparr>inv_scheduler := c\<rparr>)) s)"

definition resume_wait :: "exec_env \<Rightarrow> string \<Rightarrow> pyval option \<Rightarrow> exec_state \<Rightarrow> exec_state res" where
  "resume_wait E key out s =
     (case dict_get (waiting_executions (inv_scheduler (xs_invocation s))) key of
        None \<Rightarrow> Inl (KeyError (''Unknown wait key: '' @ key))
      | Some w \<Rightarrow> (case get_node_execution (we_node_execution_id w) (xs_invocation s) of
          None \<Rightarrow> Inl (KeyError (''Unknown waiting NodeExecution: '' @ uuid_str (we_node_execution_id w)))
        | Some n \<Rightarrow>
            let final = (case out of None \<Rightarrow> ne_output n | Some v \<Rightarrow> v) in
            bindR (remove_waiting_execution key (inv_scheduler (xs_invocation s)))
              (\<lambda>(_, c). bindR (complete_resumed_execution E n final (signal_wait key n final c s))
                 (announce_resumed key n))))"

text \<open>The loop of \<open>arecover\<close> over the executions that were active when the process ended.\<close>

definition worker_lost :: runtime_error_info where
  "worker_lost = mk_error ''WORKER_LOST'' ''Process ended while this NodeExecution was running.'' []"

datatype recover_outcome = RecoverStop exec_state | RecoverNext exec_state

fun recover_state :: "recover_outcome \<Rightarrow> exec_state" where
  "recover_state (RecoverStop s) = s"
| "recover_state (RecoverNext s) = s"

definition recover_execution :: "exec_env \<Rightarrow> uuid \<Rightarrow> exec_state \<Rightarrow> recover_outcome res" where
  "recover_execution E u s0 =
     (let W = env_workflow E;
          s = record_node_state u (on_invocation
                (update_execution u (node_mark_interrupted (env_now E) (Some worker_lost))) s0)
      in bindR (require_node_execution u (xs_invocation s))
        (\<lambda>n. case recovery_rejection_reason (dict_get (wf_nodes W) (ne_node_id n)) n of
            Some reason \<Rightarrow>
              (let err = recovery_rejected_error reason (ne_node_id n) in
               if wf_failure_mode W = FailFast
               then Inr (RecoverStop (interrupt_recovery E (err_code err) (err_message err) s))
               else bindR (on_invocation_res (defer_terminal err InvInterrupted) s)
                 (\<lambda>s1. bindR (on_invocation_res (skip_ready_request W (env_fuel E)
                          (mk_request (ne_node_id n) (ne_incoming_activations n) (ne_scope n) None None 0)) s1)
                   (\<lambda>s2. Inr (RecoverNext s2))))
          | None \<Rightarrow> Inr (RecoverNext (on_invocation (on_scheduler (enqueue_request
              (mk_request (ne_node_id n) (ne_incoming_activations n) (ne_scope n)
                (Some (str_or (ne_idempotency_key n) (uuid_str (ne_id n))))
                (Some (ne_id n)) (ne_recovery_attempt n + 1)))) s))))"

fun recover_executions :: "exec_env \<Rightarrow> uuid list \<Rightarrow> exec_state \<Rightarrow> recover_outcome res" where
  "recover_executions E [] s = Inr (RecoverNext s)"
| "recover_executions E (u # us) s =
     bindR (recover_execution E u s)
       (\<lambda>out. case out of
          RecoverStop s' \<Rightarrow> Inr (RecoverStop s')
        | RecoverNext s' \<Rightarrow> recover_executions E us s')"

text \<open>
  \<open>arecover\<close> up to its call of \<open>_drive\<close> or \<open>ainvoke\<close>: whether the invocation is finished with
  (\<open>RecoverStop\<close>) or is driven further.
\<close>

definition begin_recovery :: "exec_env \<Rightarrow> exec_state \<Rightarrow> recover_outcome res" where
  "begin_recovery E s0 =
     (let W = env_workflow E; i = xs_invocation s0 in
      if inv_state i \<notin> {InvCreated, InvRunning} then Inr (RecoverStop s0)
      else if inv_definition_hash i \<noteq> Some (wf_definition_hash W) then
        Inr (RecoverStop (interrupt_recovery E ''WORKFLOW_DEFINITION_CHANGED''
          ''Current Workflow definition does not match interrupted work.'' s0))
      else
        let s = on_invocation (\<lambda>i. i\<lparr>inv_execution_mode := ModeRecovery\<rparr>) s0 in
        if inv_state i = InvCreated then bindR (begin_invocation E s) (\<lambda>s1. Inr (RecoverNext s1))
        else
          let active = map ne_id (filter (\<lambda>n. ne_state n \<in> {NodeCreated, NodeReady, NodeRunning})
                 (inv_node_executions i)) in
          if active = [] then Inr (RecoverNext (on_invocation mark_running s))
          else bindR (recover_executions E active s)
            (\<lambda>out. Inr (case out of
               RecoverStop s1 \<Rightarrow> RecoverStop s1
             | RecoverNext s1 \<Rightarrow> RecoverNext (record_detail ''recovery.requeued'' active
                 [(''recovery_requeued'', enc_list enc_uuid active)] (on_invocation mark_running s1)))))"

section \<open>The loop and its workers\<close>

text \<open>
  The executor as a transition system: a turn of the loop that continues, a running task that
  publishes progress, and one that ends with its result.
\<close>

definition message_id :: "node_message \<Rightarrow> uuid" where
  "message_id x = (case x of ResultMessage r \<Rightarrow> nr_execution_id r | PhaseProgress u _ \<Rightarrow> u
     | OperatorProgress u _ \<Rightarrow> u | UserEventProgress u _ \<Rightarrow> u)"

inductive run_step :: "exec_env \<Rightarrow> exec_state \<Rightarrow> exec_state \<Rightarrow> bool" for E where
  run_control: "drive_step E s = Inr (Continue s') \<Longrightarrow> run_step E s s'"
| run_progress: "dict_get (mb_running (xs_mailbox s)) t = Some u \<Longrightarrow> message_id x = u \<Longrightarrow>
    (\<forall>r. x \<noteq> ResultMessage r) \<Longrightarrow> run_step E s (s\<lparr>xs_mailbox := put_message x (xs_mailbox s)\<rparr>)"
| run_finish: "dict_get (mb_running (xs_mailbox s)) t = Some u \<Longrightarrow> nr_execution_id r = u \<Longrightarrow>
    finish_task t (ResultMessage r) (xs_mailbox s) = Inr m \<Longrightarrow> run_step E s (s\<lparr>xs_mailbox := m\<rparr>)"

inductive runs :: "exec_env \<Rightarrow> exec_state \<Rightarrow> exec_state \<Rightarrow> bool" for E where
  runs_refl: "runs E s s"
| runs_step: "runs E s t \<Longrightarrow> run_step E t u \<Longrightarrow> runs E s u"

inductive_cases run_stepE: "run_step E s t"

end
