(* ===== verification/Scheduler_Safety.thy ===== *)
theory Scheduler_Safety
  imports Samples
begin

text \<open>
  What one call of the scheduler does to an invocation, over the interpretation of
  \<open>cursor_relation\<close>: the requests it adds, what it may not touch, and that its decisions are
  final.
\<close>

section \<open>Requests\<close>

lemma cursor_stepD:
  assumes "cursor_step W i j"
  shows "frame_kept i j" "cursor_extends (inv_scheduler i) (inv_scheduler j)"
    "requests_added W (inv_scheduler i) (inv_scheduler j)"
  using assms by (simp_all add: cursor_step_def)

lemma justified_iff:
  "justified W c r \<longleftrightarrow>
     (\<exists>incoming. incoming_edges_for_instance W (rq_node_id r) (rq_scope r) = Inr incoming
        \<and> (\<forall>e \<in> set incoming. \<exists>x. dict_get (edge_resolutions c) (edge_occurrence_key e (rq_scope r)) = Some x)
        \<and> rq_activations r = selected_activations (instance_resolutions c incoming (rq_scope r))
        \<and> rq_activations r \<noteq> [])"
  unfolding justified_def
proof (intro iff_exI iffI; elim conjE)
  fix incoming
  assume ok: "None \<notin> set (instance_resolutions c incoming (rq_scope r))"
    and rest: "incoming_edges_for_instance W (rq_node_id r) (rq_scope r) = Inr incoming"
      "rq_activations r = selected_activations (instance_resolutions c incoming (rq_scope r))"
      "rq_activations r \<noteq> []"
  have "\<forall>e \<in> set incoming. \<exists>x. dict_get (edge_resolutions c) (edge_occurrence_key e (rq_scope r)) = Some x"
    using ok by (force simp: instance_resolutions_def)
  with rest show "incoming_edges_for_instance W (rq_node_id r) (rq_scope r) = Inr incoming
      \<and> (\<forall>e \<in> set incoming. \<exists>x. dict_get (edge_resolutions c) (edge_occurrence_key e (rq_scope r)) = Some x)
      \<and> rq_activations r = selected_activations (instance_resolutions c incoming (rq_scope r))
      \<and> rq_activations r \<noteq> []" by simp
next
  fix incoming
  assume ok: "\<forall>e \<in> set incoming. \<exists>x. dict_get (edge_resolutions c) (edge_occurrence_key e (rq_scope r)) = Some x"
    and rest: "incoming_edges_for_instance W (rq_node_id r) (rq_scope r) = Inr incoming"
      "rq_activations r = selected_activations (instance_resolutions c incoming (rq_scope r))"
      "rq_activations r \<noteq> []"
  have "incoming \<noteq> []" using rest(2,3) by (auto simp: instance_resolutions_def selected_activations_def)
  moreover have "None \<notin> set (instance_resolutions c incoming (rq_scope r))"
    using ok by (force simp: instance_resolutions_def)
  ultimately show "incoming_edges_for_instance W (rq_node_id r) (rq_scope r) = Inr incoming
      \<and> incoming \<noteq> [] \<and> None \<notin> set (instance_resolutions c incoming (rq_scope r))
      \<and> rq_activations r = selected_activations (instance_resolutions c incoming (rq_scope r))
      \<and> rq_activations r \<noteq> []" using rest by simp
qed

definition sample_step :: "bool \<Rightarrow> invocation res" where
  "sample_step b = (let (ts, i) = sample_body_done b in
     scheduler_next sample_workflow sample_fuel empty_runtime_context ts i)"

lemma sample_step_next:
  "sample_step b = scheduler_next sample_workflow sample_fuel empty_runtime_context
     (fst (sample_body_done b)) (snd (sample_body_done b))"
  by (simp add: sample_step_def case_prod_unfold Let_def)

text \<open>
  C1: A scheduler call appends requests to the ready queue and removes none. The appended
  requests name pairwise distinct node instances, none of which was scheduled before, and the
  schedule grows by exactly these instances: no node instance is ever requested twice.
\<close>

theorem scheduler_next_requests_fresh:
  assumes "scheduler_next W fu sctx ts i = Inr j"
  shows "\<exists>rs. ready_queue (inv_scheduler j) = ready_queue (inv_scheduler i) @ rs
     \<and> distinct (map request_key rs)
     \<and> set (map request_key rs) \<inter> scheduled_node_instances (inv_scheduler i) = {}
     \<and> scheduled_node_instances (inv_scheduler j)
         = scheduled_node_instances (inv_scheduler i) \<union> set (map request_key rs)"
  using cursor_stepD(3) [OF step.R_next [OF assms]] unfolding requests_added_def
  by (elim exE) (rule exI, auto)

lemma sample_step_ok:
  "\<exists>j. sample_step True = Inr j
     \<and> drop (length (ready_queue (inv_scheduler (snd (sample_body_done True)))))
         (ready_queue (inv_scheduler j))
       = [mk_request ''h'' [EdgeActivation ''bh'' ''b'' 3] [LoopIteration ''loop_1'' 1] None None 0]"
proof -
  have "case sample_step True of Inl e \<Rightarrow> False | Inr j \<Rightarrow>
      drop (length (ready_queue (inv_scheduler (snd (sample_body_done True)))))
        (ready_queue (inv_scheduler j))
      = [mk_request ''h'' [EdgeActivation ''bh'' ''b'' 3] [LoopIteration ''loop_1'' 1] None None 0]"
    by code_simp
  then show ?thesis by (cases "sample_step True") auto
qed

lemma scheduler_next_requests_fresh_witness:
  "\<exists>j. sample_step True = Inr j \<and> (\<exists>rs. rs \<noteq> []
     \<and> ready_queue (inv_scheduler j) = ready_queue (inv_scheduler (snd (sample_body_done True))) @ rs
     \<and> distinct (map request_key rs))"
proof -
  from sample_step_ok obtain j where j: "sample_step True = Inr j"
    "drop (length (ready_queue (inv_scheduler (snd (sample_body_done True)))))
       (ready_queue (inv_scheduler j)) \<noteq> []"
    by (metis list.distinct(1))
  from scheduler_next_requests_fresh [OF j(1) [unfolded sample_step_next]] j show ?thesis by auto
qed

text \<open>
  C2: The join rule. Every request a scheduler call adds is for an instance all of whose
  incoming edges (the external entry edges of a loop header in its first iteration, its back
  edges in a later one) have been resolved in the instance's scope, at least one of them with
  an activation, and the request carries exactly the activations of the selected edges in the
  order of the incoming edges.
\<close>

theorem scheduler_next_join:
  assumes "scheduler_next W fu sctx ts i = Inr j"
    and "r \<in> set (drop (length (ready_queue (inv_scheduler i))) (ready_queue (inv_scheduler j)))"
  shows "\<exists>incoming. incoming_edges_for_instance W (rq_node_id r) (rq_scope r) = Inr incoming
     \<and> (\<forall>e \<in> set incoming. \<exists>x. dict_get (edge_resolutions (inv_scheduler j))
           (edge_occurrence_key e (rq_scope r)) = Some x)
     \<and> rq_activations r
         = selected_activations (instance_resolutions (inv_scheduler j) incoming (rq_scope r))
     \<and> rq_activations r \<noteq> []"
proof -
  from cursor_stepD(3) [OF step.R_next [OF assms(1)]] assms(2)
  have "justified W (inv_scheduler j) r" by (auto simp: requests_added_def)
  then show ?thesis by (simp only: justified_iff)
qed

lemma scheduler_next_join_witness:
  "\<exists>j incoming. sample_step True = Inr j
     \<and> incoming_edges_for_instance sample_workflow ''h'' [LoopIteration ''loop_1'' 1] = Inr incoming
     \<and> selected_activations (instance_resolutions (inv_scheduler j) incoming [LoopIteration ''loop_1'' 1])
       = [EdgeActivation ''bh'' ''b'' 3]"
proof -
  from sample_step_ok obtain j where j: "sample_step True = Inr j"
    "mk_request ''h'' [EdgeActivation ''bh'' ''b'' 3] [LoopIteration ''loop_1'' 1] None None 0
     \<in> set (drop (length (ready_queue (inv_scheduler (snd (sample_body_done True)))))
       (ready_queue (inv_scheduler j)))" by auto
  from scheduler_next_join [OF j(1) [unfolded sample_step_next] j(2)] j(1) show ?thesis
    by (force simp: mk_request_def)
qed



end
