(* ===== verification/Executor_Relations.thy ===== *)
theory Executor_Relations
  imports Workflow_Executor Scheduler_Safety
begin

text \<open>
  What the executor's functions do to its state, stated once for every relation closed under
  their primitive effects. \<open>quiet_relation\<close> covers the functions that leave the states of the
  node executions, the waits and the mailbox alone; \<open>exec_relation\<close> covers them all.
\<close>

section \<open>Effects on an invocation\<close>

text \<open>The executions keep their identity; nothing is added or removed.\<close>

definition evolves :: "invocation \<Rightarrow> invocation \<Rightarrow> bool" where
  "evolves i j \<longleftrightarrow> inv_id j = inv_id i \<and> inv_input j = inv_input i \<and> inv_context j = inv_context i
     \<and> inv_event_mode j = inv_event_mode i \<and> inv_event_sequence j = inv_event_sequence i
     \<and> list_all2 same_identity (inv_node_executions i) (inv_node_executions j)"

text \<open>Moreover the invocation keeps its state, unless it fails.\<close>

definition settles :: "invocation \<Rightarrow> invocation \<Rightarrow> bool" where
  "settles i j \<longleftrightarrow> evolves i j \<and> (inv_state j = inv_state i \<or> inv_state j = InvFailed)"

text \<open>Moreover every execution keeps its state, and the waits stay.\<close>

definition quiet :: "invocation \<Rightarrow> invocation \<Rightarrow> bool" where
  "quiet i j \<longleftrightarrow> settles i j
     \<and> map ne_state (inv_node_executions j) = map ne_state (inv_node_executions i)
     \<and> waiting_executions (inv_scheduler j) = waiting_executions (inv_scheduler i)"

lemma settles_evolves: "settles i j \<Longrightarrow> evolves i j"
  by (simp add: settles_def)

lemma quiet_settles: "quiet i j \<Longrightarrow> settles i j"
  by (simp add: quiet_def)

lemma quiet_evolves: "quiet i j \<Longrightarrow> evolves i j"
  by (simp add: quiet_def settles_def)

lemma evolves_refl [simp]: "evolves i i"
  by (simp add: evolves_def list.rel_refl)

lemma quiet_refl [simp]: "quiet i i"
  by (simp add: quiet_def settles_def)

lemma list_all2_identity_trans:
  "list_all2 same_identity xs ys \<Longrightarrow> list_all2 same_identity ys zs \<Longrightarrow> list_all2 same_identity xs zs"
  by (rule list_all2_trans [OF same_identity_trans])

lemma evolves_trans: "evolves i j \<Longrightarrow> evolves j k \<Longrightarrow> evolves i k"
  unfolding evolves_def by (auto intro: list_all2_identity_trans)

lemma settles_trans: "settles i j \<Longrightarrow> settles j k \<Longrightarrow> settles i k"
  unfolding settles_def by (auto intro: evolves_trans)

lemma quiet_trans [trans]: "quiet i j \<Longrightarrow> quiet j k \<Longrightarrow> quiet i k"
  unfolding quiet_def by (auto intro: settles_trans)

lemma evolves_lifecycle:
  assumes "inv_id j = inv_id i" "inv_input j = inv_input i" "inv_context j = inv_context i"
    "inv_event_mode j = inv_event_mode i" "inv_event_sequence j = inv_event_sequence i"
    "inv_node_executions j = inv_node_executions i"
  shows "evolves i j"
  using assms by (simp add: evolves_def list.rel_refl)

lemma quiet_lifecycle:
  assumes "inv_id j = inv_id i" "inv_input j = inv_input i" "inv_context j = inv_context i"
    "inv_event_mode j = inv_event_mode i" "inv_event_sequence j = inv_event_sequence i"
    "inv_node_executions j = inv_node_executions i"
    "waiting_executions (inv_scheduler j) = waiting_executions (inv_scheduler i)"
    "inv_state j = inv_state i \<or> inv_state j = InvFailed"
  shows "quiet i j"
  using assms by (simp add: quiet_def settles_def evolves_lifecycle)

lemma quiet_failed [simp]: "quiet i (mark_failed e i)"
  by (rule quiet_lifecycle; simp add: inv_mark_defs)

lemma evolves_marks [simp]:
  "evolves i (mark_running i)" "evolves i (mark_waiting i)" "evolves i (mark_completed r i)"
  "evolves i (mark_failed e i)" "evolves i (mark_cancelled i)" "evolves i (mark_interrupted eo i)"
  by (rule evolves_lifecycle; simp add: inv_mark_defs)+

lemma quiet_deferred: "defer_terminal e st i = Inr j \<Longrightarrow> quiet i j"
  by (rule quiet_lifecycle) (auto simp: defer_terminal_def split: if_splits)

lemma evaluations_added_state: "evaluations_added n m \<Longrightarrow> ne_state m = ne_state n"
  by (auto simp: evaluations_added_def)

lemma frame_kept_quiet:
  assumes "frame_kept i j"
  shows "quiet i j"
proof -
  have all: "list_all2 evaluations_added (inv_node_executions i) (inv_node_executions j)"
    using assms by (simp add: frame_kept_def)
  then have "map ne_state (inv_node_executions j) = map ne_state (inv_node_executions i)"
    by (induction rule: list_all2_induct) (auto simp: evaluations_added_state)
  moreover have "list_all2 same_identity (inv_node_executions i) (inv_node_executions j)"
    using all by (rule list_all2_mono) (rule evaluations_added_identity)
  ultimately show ?thesis using assms by (auto simp: frame_kept_def quiet_def settles_def evolves_def)
qed

lemma cursor_step_quiet: "cursor_step W i j \<Longrightarrow> quiet i j"
  by (simp add: cursor_step_def frame_kept_quiet)

lemma list_all2_map_self: "(\<And>x. x \<in> set xs \<Longrightarrow> Q x (f x)) \<Longrightarrow> list_all2 Q xs (map f xs)"
  by (induction xs) auto

lemma update_execution_evolves:
  assumes "\<And>n. same_identity n (f n)"
  shows "evolves i (update_execution u f i)"
  using assms by (simp add: evolves_def update_execution_def list_all2_update_first)

lemma update_execution_quiet:
  assumes "\<And>n. same_identity n (f n)" and "\<And>n. ne_state (f n) = ne_state n"
  shows "quiet i (update_execution u f i)"
  using assms by (simp add: quiet_def settles_def update_execution_evolves)
    (simp add: update_execution_def map_update_first)

text \<open>The updates of an execution that are no marking method.\<close>

lemma same_identity_updates [simp]:
  "same_identity n (n\<lparr>ne_output := v\<rparr>)" "same_identity n (n\<lparr>ne_input := v\<rparr>)"
  "same_identity n (n\<lparr>ne_operator_executions := ops\<rparr>)"
  "same_identity n (n\<lparr>ne_usage := us, ne_output := v\<rparr>)"
  "same_identity n (base_revisions u a b n)"
  "same_identity n (node_mark_waiting r (n\<lparr>ne_output := v\<rparr>))"
  by (auto simp: same_identity_def base_revisions_def node_mark_waiting_def Let_def split: option.splits)

lemma same_states_updates [simp]:
  "ne_state (n\<lparr>ne_usage := us, ne_output := v\<rparr>) = ne_state n"
  "ne_state (base_revisions u a b n) = ne_state n"
  by (simp_all add: base_revisions_def)

lemma evolves_cancel: "evolves i (cancel_active_node_executions now e i)"
  by (auto simp: evolves_def cancel_active_node_executions_def intro!: list_all2_map_self)

lemma evolves_interrupt: "evolves i (interrupt_active_node_executions now e i)"
  by (auto simp: evolves_def interrupt_active_node_executions_def intro!: list_all2_map_self)

lemma evolves_expose: "evolves i j \<Longrightarrow> evolves i (expose_transition n j)"
  by (simp add: evolves_def expose_transition_def)

lemma evolves_index: "evolves i j \<Longrightarrow> evolves i (j\<lparr>inv_output_index := x\<rparr>)"
  by (simp add: evolves_def)

lemma evolves_mark_node_completed: "mark_node_completed now u out i = Inr j \<Longrightarrow> evolves i j"
  by (auto simp: mark_node_completed_def bindR_eq_Inr Let_def
      intro!: evolves_expose evolves_index update_execution_evolves)

lemma evolves_mark_node_failed: "mark_node_failed now u e i = Inr j \<Longrightarrow> evolves i j"
  by (auto simp: mark_node_failed_def bindR_eq_Inr intro!: evolves_expose update_execution_evolves)

lemma evolves_mark_node_running: "mark_node_running now u inp i = Inr j \<Longrightarrow> evolves i j"
proof -
  assume "mark_node_running now u inp i = Inr j"
  then have "j = mark_running (update_execution u (node_mark_running now inp) i)"
    by (auto simp: mark_node_running_def bindR_eq_Inr)
  moreover have "evolves i (update_execution u (node_mark_running now inp) i)"
    by (rule update_execution_evolves) simp
  ultimately show ?thesis by (metis evolves_trans evolves_marks(1))
qed

lemma evolves_mark_node_waiting: "mark_node_waiting u k t p r out i = Inr j \<Longrightarrow> evolves i j"
proof -
  assume "mark_node_waiting u k t p r out i = Inr j"
  then obtain n c where "j = expose_transition (node_mark_waiting r (n\<lparr>ne_output := out\<rparr>))
      ((update_execution u (\<lambda>m. node_mark_waiting r (m\<lparr>ne_output := out\<rparr>)) i)\<lparr>inv_scheduler := c\<rparr>)"
    by (auto simp: mark_node_waiting_def bindR_eq_Inr Let_def on_scheduler_res_eq_Inr)
  moreover have "evolves i (update_execution u (\<lambda>m. node_mark_waiting r (m\<lparr>ne_output := out\<rparr>)) i)"
    by (rule update_execution_evolves) simp
  then have "evolves i ((update_execution u (\<lambda>m. node_mark_waiting r (m\<lparr>ne_output := out\<rparr>)) i)
      \<lparr>inv_scheduler := c\<rparr>)" by (simp add: evolves_def)
  ultimately show ?thesis by (auto intro: evolves_expose)
qed

lemma inv_state_simps [simp]:
  "inv_state (update_execution u f i) = inv_state i" "inv_state (expose_transition n i) = inv_state i"
  by (simp_all add: update_execution_def expose_transition_def)

lemma settles_mark_node_completed: "mark_node_completed now u out i = Inr j \<Longrightarrow> settles i j"
  by (simp add: settles_def evolves_mark_node_completed)
    (auto simp: mark_node_completed_def bindR_eq_Inr Let_def)

lemma settles_mark_node_failed: "mark_node_failed now u e i = Inr j \<Longrightarrow> settles i j"
  by (simp add: settles_def evolves_mark_node_failed) (auto simp: mark_node_failed_def bindR_eq_Inr)

lemma settles_mark_node_waiting: "mark_node_waiting u k t p r out i = Inr j \<Longrightarrow> settles i j"
  by (simp add: settles_def evolves_mark_node_waiting)
    (auto simp: mark_node_waiting_def bindR_eq_Inr Let_def on_scheduler_res_eq_Inr)

text \<open>The entry paths of an invocation.\<close>

lemma quiet_scheduler:
  assumes "waiting_executions (f (inv_scheduler i)) = waiting_executions (inv_scheduler i)"
  shows "quiet i (on_scheduler f i)"
  using assms by (intro quiet_lifecycle) simp_all

lemma quiet_initialize:
  assumes "initialize W fu i = Inr j"
  shows "quiet i j"
proof (cases "entry_paths_initialized (inv_scheduler i)")
  case True
  with assms show ?thesis by (simp add: initialize_def)
next
  case False
  define i0 where "i0 = on_scheduler (\<lambda>c. c\<lparr>entry_paths_initialized := True\<rparr>) i"
  let ?entry = "inv_entry_node_id i" and ?scope = "initial_scope W (inv_entry_node_id i)"
  define acts where "acts = (case ready_queue (inv_scheduler i) of [] \<Rightarrow> [] | r # _ \<Rightarrow> rq_activations r)"
  define c where "c = (inv_scheduler i0)\<lparr>ready_queue := []\<rparr>"
  have c_waits: "waiting_executions c = waiting_executions (inv_scheduler i)" by (simp add: c_def i0_def)
  from False assms obtain i3 where
    enter: "enter_loops ?scope (add_scheduled (node_instance_key ?entry ?scope)
        (i0\<lparr>inv_scheduler := enqueue_ready ?entry acts ?scope c\<rparr>)) = Inr i3"
    and skips: "foldR (\<lambda>i n. if n = ?entry then Inr i
         else bindR (skip_node_instance W (fin_of W fu) n (initial_scope W n) i) (\<lambda>(i', _). Inr i'))
       i3 (wf_entry_node_ids W) = Inr j"
    by (auto simp: initialize_def Let_def bindR_eq_Inr i0_def acts_def c_def)
  have "quiet i (add_scheduled (node_instance_key ?entry ?scope)
      (i0\<lparr>inv_scheduler := enqueue_ready ?entry acts ?scope c\<rparr>))"
    by (rule quiet_lifecycle)
      (simp_all add: i0_def add_scheduled_def enqueue_ready_def enqueue_request_def c_waits)
  also have "quiet \<dots> i3" by (rule cursor_step_quiet [OF step.R_enter_loops [OF enter]])
  also have "quiet i3 j"
    by (rule foldR_invariant [OF skips, where P = "quiet i3"])
      (auto simp: bindR_eq_Inr split: if_splits
        intro: quiet_trans cursor_step_quiet dest: step.fin.R_skip_node)
  finally show ?thesis .
qed

section \<open>Relations on the executor's state\<close>

locale quiet_relation =
  fixes R :: "exec_state \<Rightarrow> exec_state \<Rightarrow> bool"
  assumes R_refl: "R s s"
    and R_trans: "R s t \<Longrightarrow> R t u \<Longrightarrow> R s u"
    and R_event: "R s (record_event name ids force d inp out s)"
    and R_quiet: "quiet (xs_invocation s) j \<Longrightarrow> R s (s\<lparr>xs_invocation := j\<rparr>)"
    and R_commit:
      "commit_isolated w b n (inv_context (xs_invocation s)) = Inr (c, p) \<Longrightarrow>
       commit_isolated w' b' n' (xs_session s) = Inr (c', p') \<Longrightarrow>
       R s (s\<lparr>xs_invocation := (xs_invocation s)\<lparr>inv_context := c\<rparr>, xs_session := c'\<rparr>)"
begin

lemma R_foldl:
  assumes "\<And>s x. x \<in> set xs \<Longrightarrow> R s (f s x)"
  shows "R s (foldl f s xs)"
  using assms
proof (induction xs arbitrary: s)
  case Nil
  then show ?case by (simp add: R_refl)
next
  case (Cons x xs)
  have "R s (f s x)" by (rule Cons.prems) simp
  moreover have "R (f s x) (foldl f (f s x) xs)" by (rule Cons.IH) (simp add: Cons.prems)
  ultimately show ?case by (simp add: R_trans [of s "f s x"])
qed

lemma R_quiet_event:
  "quiet (xs_invocation s) j \<Longrightarrow> R s (record_event name ids force d inp out (s\<lparr>xs_invocation := j\<rparr>))"
  by (rule R_trans [OF R_quiet R_event])

lemma R_quiet_res:
  assumes "on_invocation_res f s = Inr t" and "\<And>j. f (xs_invocation s) = Inr j \<Longrightarrow> quiet (xs_invocation s) j"
  shows "R s t"
  using assms by (auto simp: on_invocation_res_def bindR_eq_Inr intro: R_quiet)

lemma R_record_node_state: "R s (record_node_state u s)"
  by (auto simp: record_node_state_def R_refl R_event split: option.splits)

lemma R_record_terminal: "R s (record_terminal_node_events us s)"
  unfolding record_terminal_node_events_def by (rule R_foldl) (rule R_record_node_state)

lemma R_record_operator_call: "R s (record_operator_call n oe s)"
  by (auto simp: record_operator_call_def R_event split: operator_execution.splits)

lemma R_add_operator_execution: "R s (add_operator_execution u oe s)"
  unfolding add_operator_execution_def
  by (auto intro!: R_refl R_trans [OF R_quiet R_record_operator_call] update_execution_quiet
      split: option.splits)

lemma R_record_phase: "R s (record_phase n ph s)"
  by (simp add: record_phase_def R_event)

lemma R_apply_progress: "R s (apply_progress u x s)"
  unfolding apply_progress_def
  by (auto intro!: R_refl R_quiet R_add_operator_execution R_record_phase update_execution_quiet
      R_trans [OF R_quiet R_record_phase] split: option.splits node_message.splits)

lemma R_run_output_binding: "run_output_binding nd n out s = Inr t \<Longrightarrow> R s t"
  by (auto simp: run_output_binding_def Let_def R_refl R_commit
      split: option.splits sum.splits prod.splits)

lemma R_record_edge_event: "R s (record_edge_event n e s)"
  by (simp add: record_edge_event_def R_event)

lemma R_record_edge_events: "R s (record_edge_events ts before s)"
  unfolding record_edge_events_def Let_def
  by (rule R_foldl) (auto intro!: R_refl R_foldl R_record_edge_event split: option.splits)

lemma R_record_new_skipped: "R s (record_new_skipped_nodes previous s)"
  unfolding record_new_skipped_nodes_def by (rule R_foldl) (rule R_event)

lemma R_drained:
  "waiting_executions c = waiting_executions (inv_scheduler (xs_invocation s)) \<Longrightarrow>
   R s (on_invocation (\<lambda>i. i\<lparr>inv_scheduler := c\<rparr>) s)"
  by (rule R_quiet) (simp add: quiet_lifecycle)

lemma R_scheduled:
  assumes "on_invocation_res (scheduler_next W fu sctx ts) s = Inr t"
  shows "R s t"
  using assms by (rule R_quiet_res) (rule cursor_step_quiet [OF step.R_next])

lemma R_skipped_request:
  assumes "on_invocation_res (skip_ready_request W fu r) s = Inr t"
  shows "R s t"
  using assms by (rule R_quiet_res) (rule cursor_step_quiet [OF step.R_skip_ready])

lemma R_deferred:
  assumes "on_invocation_res (defer_terminal e st) s = Inr t"
  shows "R s t"
  using assms by (rule R_quiet_res) (rule quiet_deferred)

end

section \<open>The functions that change executions and the mailbox\<close>

locale settle_relation = quiet_relation +
  assumes R_settle: "settles (xs_invocation s) j \<Longrightarrow> R s (s\<lparr>xs_invocation := j\<rparr>)"
begin

lemma R_settle_res:
  assumes "on_invocation_res f s = Inr t" and "\<And>j. f (xs_invocation s) = Inr j \<Longrightarrow> settles (xs_invocation s) j"
  shows "R s t"
  using assms by (auto simp: on_invocation_res_def bindR_eq_Inr intro: R_settle)

lemma R_node_completed: "on_invocation_res (mark_node_completed now u out) s = Inr t \<Longrightarrow> R s t"
  by (erule R_settle_res) (rule settles_mark_node_completed)

lemma R_node_failed: "on_invocation_res (mark_node_failed now u e) s = Inr t \<Longrightarrow> R s t"
  by (erule R_settle_res) (rule settles_mark_node_failed)

lemma R_node_waiting: "on_invocation_res (mark_node_waiting u k ty p r out) s = Inr t \<Longrightarrow> R s t"
  by (erule R_settle_res) (rule settles_mark_node_waiting)

lemma R_fail_mapping:
  assumes "fail_mapping E nd u x s = Inr t"
  shows "R s t"
  using assms unfolding fail_mapping_def Let_def bindR_eq_Inr
  by (auto intro!: R_trans [OF R_event R_trans [OF R_node_failed R_event]])

lemma R_finish_submission:
  assumes "finish_submission E nd u mp v s = Inr out"
  shows "case out of SubmitStop t \<Rightarrow> R s t | SubmitNext t \<Rightarrow> R s t | SubmitJob t j \<Rightarrow> R s t"
proof -
  define s1 where "s1 = record_event ''input_mapping.completed'' [u] False
      [(''node_id'', PyStr (nd_id nd)), (''node_execution_id'', enc_uuid u),
       (''state'', PyStr ''completed'')] PyNone v
      (on_invocation (update_execution u (\<lambda>n. n\<lparr>ne_input := v\<rparr>)) s)"
  have "R s s1" unfolding s1_def by (rule R_quiet_event) (simp add: update_execution_quiet)
  moreover have "case out of SubmitStop t \<Rightarrow> R s1 t | SubmitNext t \<Rightarrow> R s1 t | SubmitJob t j \<Rightarrow> R s1 t"
    using assms unfolding finish_submission_def Let_def s1_def [symmetric]
    by (auto simp: bindR_eq_Inr R_refl intro: R_node_failed split: option.splits)
  ultimately show ?thesis by (auto intro: R_trans split: submit_outcome.splits)
qed

lemma R_report_binding: "R s (report_binding nd n out ev extra s)"
  by (simp add: report_binding_def R_refl R_event)

lemma R_settle_completed:
  assumes "settle_completed E nd u out ev s = Inr t"
  shows "R s t"
proof -
  from assms obtain n where "(case run_output_binding nd n out s of
            Inl x \<Rightarrow> on_invocation_res (mark_node_failed (env_now E) u (binding_failed_error n x))
              (report_binding nd n out ev
                [(''state'', PyStr ''failed''), (''error_type'', PyStr (exn_type x))] s)
          | Inr s1 \<Rightarrow> on_invocation_res (mark_node_completed (env_now E) u out)
              (report_binding nd n out ev [(''state'', PyStr ''completed'')] s1)) = Inr t"
    by (auto simp: settle_completed_def bindR_eq_Inr)
  then show ?thesis
    by (auto dest!: R_node_failed R_node_completed R_run_output_binding
        intro: R_trans [OF R_report_binding] R_trans [OF _ R_trans [OF R_report_binding]]
        split: sum.splits)
qed

lemma R_settle_waiting:
  assumes "settle_waiting E r n s = Inr t"
  shows "R s t"
proof -
  have "R s (on_invocation (update_execution u (\<lambda>m. node_mark_waiting None (m\<lparr>ne_output := v\<rparr>))) s)" for u v
    by (rule R_settle) (simp add: settles_def update_execution_evolves)
  with assms show ?thesis
    by (auto simp: settle_waiting_def Let_def intro: R_trans [OF _ R_node_failed] R_node_waiting
        split: sum.splits py_error.splits)
qed

lemma R_settle_result:
  assumes "settle_result E r n nd s = Inr t"
  shows "R s t"
proof -
  have "R s (on_invocation (update_execution u (\<lambda>n. n\<lparr>ne_output := v\<rparr>)) s)" for u v
    by (rule R_quiet) (simp add: update_execution_quiet)
  note completed = R_trans [OF this R_settle_completed]
  show ?thesis
    using assms unfolding settle_result_def Let_def
    by (auto simp: bindR_eq_Inr dest!: completed R_settle_waiting R_node_failed
        intro: R_trans R_event R_record_node_state split: option.splits if_splits)
qed

lemma R_apply_result:
  assumes "apply_result E r s = Inr t"
  shows "R s t"
proof (cases "get_node_execution (nr_execution_id r) (xs_invocation s)")
  case None
  with assms show ?thesis by (auto simp: apply_result_def Let_def R_quiet)
next
  case (Some n)
  let ?u = "nr_execution_id r"
  define sel where "sel = (\<lambda>ph :: phase_result. ph_name ph = ''item_selection.completed'')"
  define s1 where "s1 = foldl (\<lambda>s ph. record_phase n ph s) s (filter sel (nr_phases r))"
  define s2 where "s2 = foldl (\<lambda>s oe. add_operator_execution ?u oe s) s1 (nr_operator_executions r)"
  define after where "after = filter (\<lambda>ph. \<not> sel ph) (nr_phases r)"
  define s3 where "s3 = on_invocation (update_execution ?u (\<lambda>n. n\<lparr>ne_usage := nr_usage r,
      ne_output := (if after \<noteq> [] \<and> nr_state r = NodeCompleted then nr_output r else ne_output n)\<rparr>)) s2"
  define s4 where "s4 = foldl (\<lambda>s ph. record_phase n ph s) s3 after"
  from assms Some obtain nd where "settle_result E r n nd s4 = Inr t"
    by (auto simp: apply_result_def Let_def bindR_eq_Inr s4_def s3_def s2_def s1_def after_def sel_def)
  then have "R s4 t" by (rule R_settle_result)
  moreover have "R s s1" unfolding s1_def by (rule R_foldl) (rule R_record_phase)
  moreover have "R s1 s2" unfolding s2_def by (rule R_foldl) (rule R_add_operator_execution)
  moreover have "R s2 s3" unfolding s3_def by (rule R_quiet) (simp add: update_execution_quiet)
  moreover have "R s3 s4" unfolding s4_def by (rule R_foldl) (rule R_record_phase)
  ultimately show ?thesis by (blast intro: R_trans)
qed

lemma R_apply_message: "apply_message E s x = Inr t \<Longrightarrow> R s t"
  by (cases x) (auto simp: R_apply_progress dest: R_apply_result)

lemma R_apply_messages: "foldR (apply_message E) s xs = Inr t \<Longrightarrow> R s t"
  by (rule foldR_invariant [where P = "R s"])
    (auto intro: R_refl R_trans R_apply_message)

end

locale evolve_relation = settle_relation +
  assumes R_evolve: "evolves (xs_invocation s) j \<Longrightarrow> R s (s\<lparr>xs_invocation := j\<rparr>)"
    and R_mailbox: "R s (s\<lparr>xs_mailbox := m\<rparr>)"
begin

lemma R_evolve_event:
  "evolves (xs_invocation s) j \<Longrightarrow> R s (record_event name ids force d inp out (s\<lparr>xs_invocation := j\<rparr>))"
  by (rule R_trans [OF R_evolve R_event])

lemma R_abandon: "R s (abandon_workers E s)"
  by (simp add: abandon_workers_def R_mailbox)

lemma R_close: "R s (close_state s)"
  by (simp add: close_state_def R_mailbox)

lemma R_cancel_unfinished: "R s (snd (cancel_unfinished_nodes E err s))"
  unfolding cancel_unfinished_nodes_def Let_def snd_conv
  by (rule R_trans [OF R_evolve [OF evolves_cancel] R_trans [OF R_abandon R_record_terminal]])

lemma R_interrupt_unfinished: "R s (snd (interrupt_unfinished_nodes E w err s))"
proof -
  define s1 where "s1 = on_invocation (interrupt_active_node_executions (env_now E) err) s"
  have "R s s1" unfolding s1_def by (rule R_evolve) (rule evolves_interrupt)
  moreover have "R s1 (record_terminal_node_events us (if w then abandon_workers E s1 else s1))" for us
    by (simp add: R_record_terminal R_trans [OF R_abandon R_record_terminal])
  ultimately show ?thesis
    unfolding interrupt_unfinished_nodes_def Let_def snd_conv s1_def by (rule R_trans)
qed

lemma R_finish_failed: "R s (finish_failed_invocation E s)"
  unfolding finish_failed_invocation_def Let_def case_prod_unfold
  by (rule R_trans [OF R_cancel_unfinished R_trans [OF R_event R_close]])

lemma R_interrupt_recovery: "R s (interrupt_recovery E code msg s)"
  unfolding interrupt_recovery_def Let_def case_prod_unfold
  by (rule R_trans [OF R_interrupt_unfinished R_evolve_event]) simp

lemma R_cancel_invocation: "R s (cancel_invocation E s)"
  unfolding cancel_invocation_def Let_def case_prod_unfold
  by (rule R_trans [OF R_cancel_unfinished R_evolve_event]) simp

lemma R_afail: "R s (afail_infrastructure E x s)"
  unfolding afail_infrastructure_def Let_def case_prod_unfold
  by (auto intro!: R_refl R_trans [OF R_quiet R_trans [OF R_cancel_unfinished R_event]])

lemma R_block_recovery:
  assumes "block_recovery E r s = Inr out"
  shows "case out of SubmitStop t \<Rightarrow> R s t | SubmitNext t \<Rightarrow> R s t | SubmitJob t j \<Rightarrow> R s t"
proof (cases "wf_failure_mode (env_workflow E) = FailFast")
  case True
  with assms show ?thesis by (auto simp: block_recovery_def Let_def R_interrupt_recovery)
next
  case False
  with assms obtain s1 s2 where
    "on_invocation_res (defer_terminal (recovery_rejected_error (replay_message (rq_node_id r)) (rq_node_id r))
        InvInterrupted) s = Inr s1"
    "on_invocation_res (skip_ready_request (env_workflow E) (env_fuel E) r) s1 = Inr s2"
    "out = SubmitNext (record_detail ''recovery.node_skipped'' []
        [(''recovery_blocked_node_id'', PyStr (rq_node_id r))] s2)"
    by (auto simp: block_recovery_def Let_def bindR_eq_Inr)
  then show ?thesis
    by (auto intro: R_trans [OF R_deferred R_trans [OF R_skipped_request R_event]])
qed

lemma R_drive_transitions:
  assumes "drive_transitions E ts s = Inr out"
  shows "R s (outcome_state out)"
proof -
  define W where "W = env_workflow E"
  from assms obtain s1 s2 where next_step: "on_invocation_res (scheduler_next W (env_fuel E) (xs_session s) ts) s = Inr s1"
    and s2: "s2 = record_new_skipped_nodes (skipped_node_instances (inv_scheduler (xs_invocation s)))
        (record_edge_events ts (xs_invocation s) s1)"
    and out: "out = (if inv_state (xs_invocation s2) = InvFailed
        then Returned (finish_failed_invocation E s2) else Continue s2)"
    by (auto simp: drive_transitions_def Let_def bindR_eq_Inr W_def)
  have "R s s1" by (rule R_scheduled [OF next_step])
  moreover have "R s1 s2" unfolding s2 by (rule R_trans [OF R_record_edge_events R_record_new_skipped])
  moreover have "R s2 (outcome_state out)" by (simp add: out R_refl R_finish_failed)
  ultimately show ?thesis by (blast intro: R_trans)
qed

lemma R_drive_messages:
  assumes "drive_messages E s = Inr out"
  shows "R s (outcome_state out)"
  using assms unfolding drive_messages_def
  by (auto simp: bindR_eq_Inr R_mailbox intro: R_trans [OF R_mailbox R_apply_messages]
      split: prod.splits wait_outcome.splits)

lemma R_drive_waiting: "R s (drive_waiting s)"
  unfolding drive_waiting_def Let_def by (rule R_evolve_event) simp

lemma R_drive_deferred: "R s (drive_deferred E st s)"
proof (cases "st = InvInterrupted")
  case True
  then show ?thesis unfolding drive_deferred_def Let_def case_prod_unfold
    by (simp add: R_trans [OF R_interrupt_unfinished R_trans [OF R_evolve_event R_close]])
next
  case False
  then show ?thesis by (simp add: drive_deferred_def Let_def R_trans [OF R_quiet R_finish_failed])
qed

lemma R_drive_completed: "R s (drive_completed E s)"
  unfolding drive_completed_def by (rule R_trans [OF R_evolve_event R_close]) simp

lemma R_record_state_marked:
  "R s (record_node_state u (on_invocation (update_execution u (node_mark_interrupted now e)) s))"
  by (rule R_trans [OF R_evolve R_record_node_state]) (rule update_execution_evolves, simp)

lemma R_resume_wait:
  assumes "resume_wait E key out s = Inr t"
  shows "R s t"
proof -
  from assms obtain n c v s1 where rest: "complete_resumed_execution E n v (signal_wait key n v c s) = Inr s1"
      "announce_resumed key n s1 = Inr t"
    by (auto simp: resume_wait_def bindR_eq_Inr Let_def split: option.splits prod.splits)
  have "evolves (xs_invocation s) (update_execution (ne_id n) (\<lambda>n. n\<lparr>ne_output := v\<rparr>)
      ((xs_invocation s)\<lparr>inv_scheduler := c\<rparr>))"
    by (rule evolves_trans [OF evolves_lifecycle update_execution_evolves]) simp_all
  then have "R s (signal_wait key n v c s)"
    unfolding signal_wait_def by (rule R_trans [OF R_evolve R_event])
  moreover have "R (signal_wait key n v c s) s1" using rest(1)
    by (auto simp: complete_resumed_execution_def dest: R_settle_completed R_node_failed split: option.splits)
  moreover have "R s1 t" using rest(2) unfolding announce_resumed_def Let_def
    by (auto simp: bindR_eq_Inr intro!: R_event R_trans [OF R_event R_evolve_event])
  ultimately show ?thesis by (blast intro: R_trans)
qed

lemma R_begin_invocation:
  assumes "begin_invocation E s = Inr t"
  shows "R s t"
proof -
  define s1 where "s1 = (if inv_state (xs_invocation s) = InvCreated
      then record_detail ''invocation.running'' [] [(''state'', PyStr ''running'')]
             (on_invocation mark_running s) else s)"
  from assms obtain s2 where s2: "on_invocation_res (initialize (env_workflow E) (env_fuel E)) s1 = Inr s2"
    and t: "t = record_new_skipped_nodes (skipped_node_instances (inv_scheduler (xs_invocation s1))) s2"
    by (auto simp: begin_invocation_def Let_def bindR_eq_Inr s1_def)
  have "R s s1" by (simp add: s1_def R_refl R_evolve_event)
  moreover have "R s1 s2" using s2 by (rule R_quiet_res) (rule quiet_initialize)
  moreover have "R s2 t" by (simp add: t R_record_new_skipped)
  ultimately show ?thesis by (blast intro: R_trans)
qed

lemma R_requeued: "R s (on_invocation (on_scheduler (enqueue_request r)) s)"
  by (rule R_quiet) (rule quiet_scheduler, simp add: enqueue_request_def)

lemma R_recover_execution:
  assumes "recover_execution E u s0 = Inr out"
  shows "R s0 (recover_state out)"
proof -
  define s where "s = record_node_state u (on_invocation
      (update_execution u (node_mark_interrupted (env_now E) (Some worker_lost))) s0)"
  have marked: "R s0 s" unfolding s_def by (rule R_record_state_marked)
  from assms obtain n where n: "require_node_execution u (xs_invocation s) = Inr n"
    by (auto simp: recover_execution_def Let_def bindR_eq_Inr s_def)
  show ?thesis
  proof (cases "recovery_rejection_reason (dict_get (wf_nodes (env_workflow E)) (ne_node_id n)) n")
    case None
    with assms n have "recover_state out = on_invocation (on_scheduler (enqueue_request
        (mk_request (ne_node_id n) (ne_incoming_activations n) (ne_scope n)
          (Some (str_or (ne_idempotency_key n) (uuid_str (ne_id n))))
          (Some (ne_id n)) (ne_recovery_attempt n + 1)))) s"
      by (auto simp: recover_execution_def Let_def s_def [symmetric])
    with marked show ?thesis by (auto intro: R_trans R_requeued)
  next
    case (Some reason)
    have "R s (recover_state out)"
      using assms n Some unfolding recover_execution_def Let_def s_def [symmetric]
      by (auto simp: R_interrupt_recovery bindR_eq_Inr intro: R_trans [OF R_deferred R_skipped_request]
          split: if_splits)
    with marked show ?thesis by (rule R_trans)
  qed
qed

lemma R_recover_executions: "recover_executions E us s = Inr out \<Longrightarrow> R s (recover_state out)"
proof (induction us arbitrary: s)
  case Nil
  then show ?case by (auto simp: R_refl)
next
  case (Cons u us)
  then obtain o1 where o1: "recover_execution E u s = Inr o1"
    "(case o1 of RecoverStop s' \<Rightarrow> Inr (RecoverStop s') | RecoverNext s' \<Rightarrow> recover_executions E us s') = Inr out"
    by (auto simp: bindR_eq_Inr)
  with R_recover_execution [OF o1(1)] Cons.IH show ?case
    by (auto intro: R_trans split: recover_outcome.splits)
qed

lemma R_begin_recovery:
  assumes "begin_recovery E s = Inr out"
  shows "R s (recover_state out)"
proof -
  define s1 where "s1 = on_invocation (\<lambda>i. i\<lparr>inv_execution_mode := ModeRecovery\<rparr>) s"
  have s1: "R s s1" unfolding s1_def by (rule R_quiet) (rule quiet_lifecycle, simp_all)
  have requeued: "R s2 (record_detail name ids d (on_invocation mark_running s2))" for s2 name ids d
    by (rule R_evolve_event) simp
  have marked: "R s2 (on_invocation mark_running s2)" for s2 by (rule R_evolve) simp
  have after: "R s (record_detail name ids d (on_invocation mark_running s2))"
    if "recover_executions E us s1 = Inr (RecoverNext s2)" for us s2 name ids d
    using R_recover_executions [OF that] s1 requeued by (auto intro: R_trans)
  have stopped: "R s s2" if "recover_executions E us s1 = Inr (RecoverStop s2)" for us s2
    using R_recover_executions [OF that] s1 by (auto intro: R_trans)
  have all: "R s (recover_state (case o1 of RecoverStop s2 \<Rightarrow> RecoverStop s2
      | RecoverNext s2 \<Rightarrow> RecoverNext (record_detail name ids d (on_invocation mark_running s2))))"
    if "recover_executions E us s1 = Inr o1" for us o1 name ids d
    using that after stopped by (cases o1) auto
  have begun: "R s (recover_state (RecoverNext s2))" if "begin_invocation E s1 = Inr s2" for s2
    using R_trans [OF s1 R_begin_invocation [OF that]] by simp
  have idle: "R s (recover_state (RecoverNext (on_invocation mark_running s1)))"
    using R_trans [OF s1 marked] by simp
  show ?thesis
    using assms unfolding begin_recovery_def Let_def s1_def [symmetric]
    by (auto simp: R_refl R_interrupt_recovery bindR_eq_Inr simp del: recover_state.simps(2)
        intro: all begun idle split: if_splits)
qed

end

text \<open>The functions that create executions.\<close>

locale exec_relation = evolve_relation +
  assumes R_create:
      "R s (s\<lparr>xs_invocation := snd (create_node_execution (xs_supply s) r inp (xs_invocation s)),
              xs_supply := Suc (xs_supply s)\<rparr>)"
begin

lemma R_start_execution:
  assumes "start_execution E nd r s = Inr (u, t)"
  shows "R s t"
proof -
  define i1 where "i1 = snd (create_node_execution (xs_supply s) (r\<lparr>rq_node_id := nd_id nd\<rparr>) PyNone
    (xs_invocation s))"
  define i2 where "i2 = add_scheduled (node_instance_key (nd_id nd) (rq_scope r))
    (update_execution (xs_supply s) (base_revisions (xs_supply s) (ctx_revision (inv_context i1))
      (ctx_revision (xs_session s))) i1)"
  from assms obtain i3 where run: "mark_node_running (env_now E) (xs_supply s) PyNone i2 = Inr i3"
    and t: "t = record_detail ''node.running'' [xs_supply s]
      [(''node_id'', PyStr (nd_id nd)), (''node_execution_id'', enc_uuid (xs_supply s)),
       (''state'', PyStr ''running'')] (s\<lparr>xs_invocation := i3, xs_supply := Suc (xs_supply s)\<rparr>)"
    by (auto simp: start_execution_def Let_def bindR_eq_Inr i1_def i2_def)
  have "evolves i1 (update_execution (xs_supply s) (base_revisions (xs_supply s)
      (ctx_revision (inv_context i1)) (ctx_revision (xs_session s))) i1)"
    by (rule update_execution_evolves) simp
  then have "evolves i1 i2" by (simp add: i2_def add_scheduled_def evolves_def)
  then have "evolves i1 i3" using evolves_mark_node_running [OF run] by (rule evolves_trans)
  define s1 where "s1 = s\<lparr>xs_invocation := i1, xs_supply := Suc (xs_supply s)\<rparr>"
  have "R s s1" unfolding s1_def i1_def by (rule R_create)
  moreover have "R s1 (s1\<lparr>xs_invocation := i3\<rparr>)"
    by (rule R_evolve) (simp add: s1_def \<open>evolves i1 i3\<close>)
  moreover have same: "s1\<lparr>xs_invocation := i3\<rparr> = s\<lparr>xs_invocation := i3, xs_supply := Suc (xs_supply s)\<rparr>"
    by (simp add: s1_def)
  moreover have "R (s1\<lparr>xs_invocation := i3\<rparr>) t" unfolding same t by (rule R_event)
  ultimately show ?thesis by (blast intro: R_trans)
qed

text \<open>The state a submission ends in.\<close>

lemma R_run_request:
  assumes "run_request E nd r s = Inr out"
  shows "case out of SubmitStop t \<Rightarrow> R s t | SubmitNext t \<Rightarrow> R s t | SubmitJob t j \<Rightarrow> R s t"
proof (cases "check_node_execution_resource (xs_invocation s) nd")
  case (Some err)
  with assms show ?thesis by (auto simp: run_request_def R_quiet)
next
  case None
  with assms obtain u s1 where start: "start_execution E nd r s = Inr (u, s1)"
    and rest: "(case prepare_input (env_workflow E) (xs_session s1) (xs_invocation s1) nd r
          (case rq_idempotency_key r of None \<Rightarrow> uuid_str u | Some k \<Rightarrow> k) of
        Inl x \<Rightarrow> bindR (fail_mapping E nd u x s1) (\<lambda>s2. Inr (SubmitNext s2))
      | Inr (mp, v) \<Rightarrow> finish_submission E nd u mp v s1) = Inr out"
    by (auto simp: run_request_def bindR_eq_Inr)
  have "case out of SubmitStop t \<Rightarrow> R s1 t | SubmitNext t \<Rightarrow> R s1 t | SubmitJob t j \<Rightarrow> R s1 t"
    using rest R_finish_submission [of E nd u _ _ s1 out]
    by (auto simp: bindR_eq_Inr dest: R_fail_mapping split: sum.splits prod.splits)
  with R_start_execution [OF start] show ?thesis by (auto intro: R_trans split: submit_outcome.splits)
qed

lemma R_submit_request:
  assumes "submit_request E r s = Inr out"
  shows "case out of SubmitStop t \<Rightarrow> R s t | SubmitNext t \<Rightarrow> R s t | SubmitJob t j \<Rightarrow> R s t"
  using assms R_run_request R_block_recovery
  by (auto simp: submit_request_def R_quiet split: option.splits if_splits)

lemma R_submit_ready:
  "submit_ready_requests E rs s jobs = Inr (t, js) \<Longrightarrow> R s t"
proof (induction rs arbitrary: s jobs)
  case Nil
  then show ?case by (simp add: R_refl)
next
  case (Cons r rs)
  then obtain out where out: "submit_request E r s = Inr out" by (auto simp: bindR_eq_Inr)
  note step = R_submit_request [OF out]
  show ?case
  proof (cases out)
    case (SubmitStop s')
    with Cons.prems out step show ?thesis by simp
  next
    case (SubmitNext s')
    with Cons.prems out have "submit_ready_requests E rs s' jobs = Inr (t, js)" by simp
    from Cons.IH [OF this] step SubmitNext show ?thesis by (auto intro: R_trans)
  next
    case (SubmitJob s' j)
    with Cons.prems out have "submit_ready_requests E rs s' (jobs @ [j]) = Inr (t, js)" by simp
    from Cons.IH [OF this] step SubmitJob show ?thesis by (auto intro: R_trans)
  qed
qed

lemma R_drive_ready:
  assumes "drive_ready E rs s = Inr out"
  shows "R s (outcome_state out)"
proof -
  from assms obtain s1 jobs m where submit: "submit_ready_requests E rs s [] = Inr (s1, jobs)"
    and out: "out = (let s2 = (if jobs = [] then s1 else s1\<lparr>xs_mailbox := m\<rparr>) in
       if inv_state (xs_invocation s2) = InvInterrupted then Returned s2
       else if inv_state (xs_invocation s2) = InvFailed then Returned (finish_failed_invocation E s2)
       else Continue s2)"
    by (force simp: drive_ready_def bindR_eq_Inr split: if_splits)
  define s2 where "s2 = (if jobs = [] then s1 else s1\<lparr>xs_mailbox := m\<rparr>)"
  have "R s s1" by (rule R_submit_ready [OF submit])
  moreover have "R s1 s2" by (simp add: s2_def R_refl R_mailbox)
  moreover have "R s2 (outcome_state out)" by (simp add: out s2_def [symmetric] Let_def R_refl R_finish_failed)
  ultimately show ?thesis by (blast intro: R_trans)
qed

lemma R_drive_step:
  assumes "drive_step E s = Inr out"
  shows "R s (outcome_state out)"
proof -
  let ?c = "inv_scheduler (xs_invocation s)"
  have dead: "R s (finish_failed_invocation E (on_invocation (mark_failed dead_end) s))"
    by (rule R_trans [OF R_quiet R_finish_failed]) simp
  have drain1: "R s (on_invocation (\<lambda>i. i\<lparr>inv_scheduler := ?c\<lparr>transition_queue := []\<rparr>\<rparr>) s)"
    and drain2: "R s (on_invocation (\<lambda>i. i\<lparr>inv_scheduler := ?c\<lparr>ready_queue := []\<rparr>\<rparr>) s)"
    by (rule R_drained; simp)+
  show ?thesis
    using assms R_trans [OF drain1 R_drive_transitions] R_trans [OF drain2 R_drive_ready]
    unfolding drive_step_def Let_def
    by (auto simp: R_finish_failed R_drive_waiting R_drive_deferred R_drive_completed dead
        intro: R_drive_messages split: if_splits option.splits)
qed

lemma R_run_step:
  assumes "run_step E s t"
  shows "R s t"
  using assms
proof (cases rule: run_step.cases)
  case run_control
  then show ?thesis using R_drive_step [of E s "Continue t"] by simp
qed (auto simp: R_mailbox)

lemma R_runs: "runs E s t \<Longrightarrow> R s t"
  by (induction rule: runs.induct) (auto intro: R_refl R_trans R_run_step)

end

end
