(* ===== verification/Executor_Life.thy ===== *)
theory Executor_Life
  imports Executor_Relations
begin

text \<open>
  The life of an invocation in one executor: every call of the executor's methods, and every
  message a running task publishes, is a step. What all steps preserve: the event log, the
  history of executions, the revisions of the contexts, the limits on executions.
\<close>

section \<open>Steps\<close>

inductive executor_step :: "workflow_ir \<Rightarrow> exec_state \<Rightarrow> exec_state \<Rightarrow> bool" for W where
  step_turn: "env_workflow E = W \<Longrightarrow> drive_step E s = Inr out \<Longrightarrow> executor_step W s (outcome_state out)"
| step_message: "env_workflow E = W \<Longrightarrow> run_step E s t \<Longrightarrow> executor_step W s t"
| step_begin: "env_workflow E = W \<Longrightarrow> begin_invocation E s = Inr t \<Longrightarrow> executor_step W s t"
| step_resume: "env_workflow E = W \<Longrightarrow> resume_wait E key v s = Inr t \<Longrightarrow> executor_step W s t"
| step_recover: "env_workflow E = W \<Longrightarrow> begin_recovery E s = Inr out \<Longrightarrow> executor_step W s (recover_state out)"
| step_cancel: "env_workflow E = W \<Longrightarrow> executor_step W s (cancel_invocation E s)"
| step_fail: "env_workflow E = W \<Longrightarrow> executor_step W s (afail_infrastructure E x s)"

abbreviation lifetime :: "workflow_ir \<Rightarrow> exec_state \<Rightarrow> exec_state \<Rightarrow> bool" where
  "lifetime W \<equiv> (executor_step W)\<^sup>*\<^sup>*"

context exec_relation begin

lemma R_executor_step: "executor_step W s t \<Longrightarrow> R s t"
  by (induction rule: executor_step.induct)
    (auto intro: R_drive_step R_run_step R_begin_invocation R_resume_wait R_begin_recovery
      R_cancel_invocation R_afail)

lemma R_lifetime: "lifetime W s t \<Longrightarrow> R s t"
  by (induction rule: rtranclp_induct) (auto intro: R_refl R_trans R_executor_step)

end

section \<open>The event log\<close>

text \<open>The numbers after \<open>a\<close> up to \<open>b\<close>.\<close>

definition numbers :: "nat \<Rightarrow> nat \<Rightarrow> nat list" where
  "numbers a b = [a + 1..<b + 1]"

lemma numbers_simps [simp]: "numbers a a = []" "numbers a (Suc a) = [Suc a]"
  by (simp_all add: numbers_def)

lemma numbers_split: "a \<le> b \<Longrightarrow> b \<le> c \<Longrightarrow> numbers a b @ numbers b c = numbers a c"
  unfolding numbers_def by (metis add_le_mono1 le_add_diff_inverse upt_add_eq_append)

lemma upt_split: "a \<le> b \<Longrightarrow> b \<le> c \<Longrightarrow> [a..<b] @ [b..<c] = [a..<c]"
  by (metis le_add_diff_inverse upt_add_eq_append)

text \<open>What was logged stays, and the new events carry the next sequence numbers, one each.\<close>

definition logged :: "exec_state \<Rightarrow> exec_state \<Rightarrow> bool" where
  "logged s t \<longleftrightarrow> inv_event_mode (xs_invocation t) = inv_event_mode (xs_invocation s)
     \<and> inv_event_sequence (xs_invocation s) \<le> inv_event_sequence (xs_invocation t)
     \<and> (inv_event_mode (xs_invocation s) = EvMinimal \<longrightarrow>
          inv_event_sequence (xs_invocation t) = inv_event_sequence (xs_invocation s))
     \<and> (\<exists>new. xs_log t = xs_log s @ new
          \<and> event_sequences new = numbers (inv_event_sequence (xs_invocation s))
                (inv_event_sequence (xs_invocation t)))"

lemma logged_same:
  "xs_log t = xs_log s \<Longrightarrow> inv_event_mode (xs_invocation t) = inv_event_mode (xs_invocation s) \<Longrightarrow>
   inv_event_sequence (xs_invocation t) = inv_event_sequence (xs_invocation s) \<Longrightarrow> logged s t"
  by (auto simp: logged_def event_sequences_def map_filter_def)

lemma logged_trans: "logged s t \<Longrightarrow> logged t u \<Longrightarrow> logged s u"
  unfolding logged_def by (elim conjE exE) (auto simp: numbers_split)

lemma record_event_logged: "logged s (record_event name ids force d inp out s)"
  unfolding record_event_def Let_def next_event_sequence_def case_prod_unfold
  by (simp add: logged_same) (simp add: logged_def logged_same)

interpretation log: exec_relation logged
proof
  fix s t u j m r inp name ids force d out w b n c p w' b' n' c' p'
  show "logged s s" by (rule logged_same) simp_all
  show "logged s u" if "logged s t" "logged t u" using that by (rule logged_trans)
  show "logged s (record_event name ids force d inp out s)" by (rule record_event_logged)
  show ev: "logged s (s\<lparr>xs_invocation := j\<rparr>)" if "evolves (xs_invocation s) j"
    using that by (intro logged_same) (simp_all add: evolves_def)
  show "logged s (s\<lparr>xs_invocation := j\<rparr>)" if "quiet (xs_invocation s) j"
    using that ev by (simp add: quiet_evolves)
  show "logged s (s\<lparr>xs_invocation := j\<rparr>)" if "settles (xs_invocation s) j"
    using that ev by (simp add: settles_evolves)
  show "logged s (s\<lparr>xs_invocation := (xs_invocation s)\<lparr>inv_context := c\<rparr>, xs_session := c'\<rparr>)"
    by (rule logged_same) simp_all
  show "logged s (s\<lparr>xs_mailbox := m\<rparr>)" by (rule logged_same) simp_all
  show "logged s (s\<lparr>xs_invocation := snd (create_node_execution (xs_supply s) r inp (xs_invocation s)),
      xs_supply := Suc (xs_supply s)\<rparr>)"
    by (rule logged_same) (simp_all add: create_node_execution_def Let_def)
qed

text \<open>
  C20: The event log is append-only and gapless. Whatever an executor does, from the first call
  to the last message, the events it has reported before stay, and the new ones carry the
  following sequence numbers, each exactly once and in order; in minimal mode no event is
  reported at all.
\<close>

theorem event_log_gapless:
  assumes "lifetime W s t"
  shows "\<exists>new. xs_log t = xs_log s @ new
     \<and> event_sequences new
         = [inv_event_sequence (xs_invocation s) + 1 ..< inv_event_sequence (xs_invocation t) + 1]
     \<and> (inv_event_mode (xs_invocation s) = EvMinimal \<longrightarrow> event_sequences new = [])"
  using log.R_lifetime [OF assms] unfolding logged_def numbers_def by auto

section \<open>The history of executions\<close>

text \<open>Executions are never removed, reordered or renamed; new ones take the next identifiers.\<close>

definition history_grows :: "exec_state \<Rightarrow> exec_state \<Rightarrow> bool" where
  "history_grows s t \<longleftrightarrow>
     (let before = inv_node_executions (xs_invocation s); after = inv_node_executions (xs_invocation t) in
      xs_supply s \<le> xs_supply t
      \<and> (\<exists>old new. after = old @ new \<and> list_all2 same_identity before old
           \<and> map ne_id new = [xs_supply s..<xs_supply t]
           \<and> map ne_sequence new = numbers (length before) (length after)))"

lemma history_evolves:
  assumes "xs_supply t = xs_supply s"
    and "list_all2 same_identity (inv_node_executions (xs_invocation s)) (inv_node_executions (xs_invocation t))"
  shows "history_grows s t"
  using assms list_all2_lengthD [OF assms(2)] by (auto simp: history_grows_def)

lemma history_trans:
  assumes "history_grows s t" and "history_grows t u"
  shows "history_grows s u"
proof -
  let ?e = "\<lambda>s. inv_node_executions (xs_invocation s)"
  from assms(1) obtain o1 n1 where 1: "?e t = o1 @ n1" "list_all2 same_identity (?e s) o1"
    "map ne_id n1 = [xs_supply s..<xs_supply t]" "map ne_sequence n1 = numbers (length (?e s)) (length (?e t))"
    "xs_supply s \<le> xs_supply t" by (auto simp: history_grows_def Let_def)
  from assms(2) obtain o2 n2 where 2: "?e u = o2 @ n2" "list_all2 same_identity (?e t) o2"
    "map ne_id n2 = [xs_supply t..<xs_supply u]" "map ne_sequence n2 = numbers (length (?e t)) (length (?e u))"
    "xs_supply t \<le> xs_supply u" by (auto simp: history_grows_def Let_def)
  from 2(2) 1(1) obtain a b where ab: "o2 = a @ b" "list_all2 same_identity o1 a" "list_all2 same_identity n1 b"
    by (auto simp: list_all2_append1)
  have keep: "map ne_id b = map ne_id n1" "map ne_sequence b = map ne_sequence n1"
    using ab(3) by (induction rule: list_all2_induct) (auto simp: same_identity_def)
  have "length (?e s) \<le> length (?e t)" using list_all2_lengthD [OF 1(2)] 1(1) by simp
  moreover have "length (?e t) \<le> length (?e u)" using list_all2_lengthD [OF 2(2)] 2(1) by simp
  ultimately have "map ne_sequence (b @ n2) = numbers (length (?e s)) (length (?e u))"
    using keep 1(4) 2(4) by (simp add: numbers_split)
  moreover have "map ne_id (b @ n2) = [xs_supply s..<xs_supply u]"
    using keep 1(3,5) 2(3,5) by (simp add: upt_split)
  moreover have "list_all2 same_identity (?e s) a" using 1(2) ab(2) by (rule list_all2_identity_trans)
  ultimately show ?thesis
    using 1(5) 2(1,5) ab(1) unfolding history_grows_def Let_def
    by (intro conjI exI [of _ a] exI [of _ "b @ n2"]) simp_all
qed

lemma history_same:
  "inv_node_executions (xs_invocation t) = inv_node_executions (xs_invocation s) \<Longrightarrow>
   xs_supply t = xs_supply s \<Longrightarrow> history_grows s t"
  by (rule history_evolves) (simp_all add: list.rel_refl)

interpretation history: exec_relation history_grows
proof
  fix s t u j m r inp name ids force d out w b n c p w' b' n' c' p'
  show "history_grows s s" by (rule history_same) simp_all
  show "history_grows s u" if "history_grows s t" "history_grows t u" using that by (rule history_trans)
  show "history_grows s (record_event name ids force d inp out s)" by (rule history_same) simp_all
  show ev: "history_grows s (s\<lparr>xs_invocation := j\<rparr>)" if "evolves (xs_invocation s) j"
    using that by (intro history_evolves) (simp_all add: evolves_def)
  show "history_grows s (s\<lparr>xs_invocation := j\<rparr>)" if "quiet (xs_invocation s) j"
    using that ev by (simp add: quiet_evolves)
  show "history_grows s (s\<lparr>xs_invocation := j\<rparr>)" if "settles (xs_invocation s) j"
    using that ev by (simp add: settles_evolves)
  show "history_grows s (s\<lparr>xs_invocation := (xs_invocation s)\<lparr>inv_context := c\<rparr>, xs_session := c'\<rparr>)"
    by (rule history_same) simp_all
  show "history_grows s (s\<lparr>xs_mailbox := m\<rparr>)" by (rule history_same) simp_all
  show "history_grows s (s\<lparr>xs_invocation := snd (create_node_execution (xs_supply s) r inp (xs_invocation s)),
      xs_supply := Suc (xs_supply s)\<rparr>)"
    by (simp add: history_grows_def create_node_execution_def Let_def mark_ready_def,
        rule exI [of _ "inv_node_executions (xs_invocation s)"], rule exI, rule conjI, rule refl,
        simp add: list.rel_refl)
qed

text \<open>Identifiers in use are below the supply, and sequence numbers are positions.\<close>

definition history_fresh :: "exec_state \<Rightarrow> bool" where
  "history_fresh s \<longleftrightarrow> history_ok (xs_invocation s)
     \<and> (\<forall>n \<in> set (inv_node_executions (xs_invocation s)). ne_id n < xs_supply s)"

lemma list_all2_identity_maps:
  assumes "list_all2 same_identity xs ys"
  shows "map ne_id ys = map ne_id xs" "map ne_sequence ys = map ne_sequence xs"
    "map ne_node_id ys = map ne_node_id xs" "length ys = length xs"
    "map (\<lambda>n. (ne_node_id n, ne_scope n, ne_incoming_activations n, ne_recovery_attempt n)) ys
     = map (\<lambda>n. (ne_node_id n, ne_scope n, ne_incoming_activations n, ne_recovery_attempt n)) xs"
  using assms by (induction rule: list_all2_induct) (auto simp: same_identity_def)

lemma history_fresh_grows:
  assumes "history_grows s t" and "history_fresh s"
  shows "history_fresh t"
proof -
  let ?e = "\<lambda>s. inv_node_executions (xs_invocation s)"
  from assms(1) obtain old new where g: "?e t = old @ new" "list_all2 same_identity (?e s) old"
    "map ne_id new = [xs_supply s..<xs_supply t]" "map ne_sequence new = numbers (length (?e s)) (length (?e t))"
    "xs_supply s \<le> xs_supply t" by (auto simp: history_grows_def Let_def)
  note same = list_all2_identity_maps [OF g(2)]
  from assms(2) have f: "map ne_sequence (?e s) = numbers 0 (length (?e s))" "distinct (map ne_id (?e s))"
    "\<forall>u \<in> set (map ne_id (?e s)). u < xs_supply s"
    by (auto simp: history_fresh_def history_ok_def numbers_def)
  have ids: "set (map ne_id old) = set (map ne_id (?e s))" "set (map ne_id new) = {xs_supply s..<xs_supply t}"
    by (simp_all only: same(1) g(3) set_upt)
  have "\<forall>u \<in> set (map ne_id (?e t)). u < xs_supply t"
    using f(3) g(5) ids by (auto simp: g(1))
  moreover have "distinct (map ne_id (?e t))"
  proof -
    have "distinct (map ne_id new)" by (simp add: g(3))
    moreover have "set (map ne_id old) \<inter> set (map ne_id new) = {}"
      using f(3) unfolding ids by auto
    ultimately show ?thesis using f(2) by (simp add: g(1) same(1))
  qed
  moreover have "map ne_sequence (?e t) = numbers 0 (length (?e t))"
  proof -
    have "length (?e s) \<le> length (?e t)" using same(4) g(1) by simp
    then show ?thesis using f(1) same(2) g(4) by (simp add: g(1) numbers_split)
  qed
  ultimately show ?thesis by (auto simp: history_fresh_def history_ok_def numbers_def)
qed

text \<open>
  C21: The history of node executions is append-only through the whole life of an invocation,
  crash recovery included: executions keep their identifier, node, sequence number, scope and
  activations, new ones follow with the next sequence numbers, and no identifier is ever
  used twice.
\<close>

theorem execution_history_append_only:
  assumes "lifetime W s t" and "history_fresh s"
  shows "(\<exists>old new. inv_node_executions (xs_invocation t) = old @ new
       \<and> list_all2 same_identity (inv_node_executions (xs_invocation s)) old)
     \<and> map ne_sequence (inv_node_executions (xs_invocation t))
         = [1..<length (inv_node_executions (xs_invocation t)) + 1]
     \<and> distinct (map ne_id (inv_node_executions (xs_invocation t)))"
proof -
  have "history_grows s t" by (rule history.R_lifetime [OF assms(1)])
  with history_fresh_grows [OF _ assms(2)] show ?thesis
    by (auto simp: history_grows_def Let_def history_fresh_def history_ok_def)
qed

section \<open>Limits on executions\<close>

definition counts_kept :: "exec_state \<Rightarrow> exec_state \<Rightarrow> bool" where
  "counts_kept s t \<longleftrightarrow>
     map ne_node_id (inv_node_executions (xs_invocation t)) = map ne_node_id (inv_node_executions (xs_invocation s))"

interpretation counts: evolve_relation counts_kept
proof
  fix s t u j m name ids force d inp out w b n c p w' b' n' c' p'
  show "counts_kept s s" by (simp add: counts_kept_def)
  show "counts_kept s u" if "counts_kept s t" "counts_kept t u" using that by (simp add: counts_kept_def)
  show "counts_kept s (record_event name ids force d inp out s)" by (simp add: counts_kept_def)
  show ev: "counts_kept s (s\<lparr>xs_invocation := j\<rparr>)" if "evolves (xs_invocation s) j"
    using that by (simp add: counts_kept_def evolves_def list_all2_identity_maps)
  show "counts_kept s (s\<lparr>xs_invocation := j\<rparr>)" if "quiet (xs_invocation s) j"
    using that ev by (simp add: quiet_evolves)
  show "counts_kept s (s\<lparr>xs_invocation := j\<rparr>)" if "settles (xs_invocation s) j"
    using that ev by (simp add: settles_evolves)
  show "counts_kept s (s\<lparr>xs_invocation := (xs_invocation s)\<lparr>inv_context := c\<rparr>, xs_session := c'\<rparr>)"
    by (simp add: counts_kept_def)
  show "counts_kept s (s\<lparr>xs_mailbox := m\<rparr>)" by (simp add: counts_kept_def)
qed

lemma count_node_executions_map:
  "count_node_executions n i = count_list (map ne_node_id (inv_node_executions i)) n"
proof -
  have "length (filter (\<lambda>m. ne_node_id m = n) xs) = count_list (map ne_node_id xs) n" for xs
    by (induction xs) auto
  then show ?thesis by (simp add: count_node_executions_def)
qed

definition max_executions :: "node_ir \<Rightarrow> int option" where
  "max_executions nd = (case node_resource nd of None \<Rightarrow> None | Some r \<Rightarrow> rs_max_node_executions r)"

definition within_limits :: "workflow_ir \<Rightarrow> exec_state \<Rightarrow> bool" where
  "within_limits W s \<longleftrightarrow> (\<forall>n nd limit. dict_get (wf_nodes W) n = Some nd \<longrightarrow>
     max_executions nd = Some limit \<longrightarrow> int (count_node_executions n (xs_invocation s)) \<le> limit)"

lemma within_limits_kept: "counts_kept s t \<Longrightarrow> within_limits W s \<Longrightarrow> within_limits W t"
  by (simp add: within_limits_def count_node_executions_map counts_kept_def)

lemma within_limits_failed [simp]:
  "within_limits W (on_invocation (mark_failed e) s) = within_limits W s"
  by (simp add: within_limits_def count_node_executions_map mark_failed_def)

lemma start_execution_counts:
  assumes "start_execution E nd r s = Inr (u, t)"
  shows "map ne_node_id (inv_node_executions (xs_invocation t))
       = map ne_node_id (inv_node_executions (xs_invocation s)) @ [nd_id nd]"
proof -
  define i1 where "i1 = snd (create_node_execution (xs_supply s) (r\<lparr>rq_node_id := nd_id nd\<rparr>) PyNone
    (xs_invocation s))"
  define i2 where "i2 = add_scheduled (node_instance_key (nd_id nd) (rq_scope r))
    (update_execution (xs_supply s) (base_revisions (xs_supply s) (ctx_revision (inv_context i1))
      (ctx_revision (xs_session s))) i1)"
  from assms obtain i3 where run: "mark_node_running (env_now E) (xs_supply s) PyNone i2 = Inr i3"
    and t: "inv_node_executions (xs_invocation t) = inv_node_executions i3"
    by (auto simp: start_execution_def Let_def bindR_eq_Inr i1_def i2_def)
  have "evolves i1 (update_execution (xs_supply s) (base_revisions (xs_supply s)
      (ctx_revision (inv_context i1)) (ctx_revision (xs_session s))) i1)"
    by (rule update_execution_evolves) simp
  then have "evolves i1 i2" by (simp add: i2_def add_scheduled_def evolves_def)
  then have "evolves i1 i3" using evolves_mark_node_running [OF run] by (rule evolves_trans)
  then have "map ne_node_id (inv_node_executions i3) = map ne_node_id (inv_node_executions i1)"
    by (simp add: evolves_def list_all2_identity_maps)
  then show ?thesis by (simp add: t i1_def create_node_execution_def Let_def mark_ready_def)
qed

text \<open>The three ways a submission can end, as one predicate on the state it ends in.\<close>

definition submitted :: "(exec_state \<Rightarrow> bool) \<Rightarrow> submit_outcome \<Rightarrow> bool" where
  "submitted P out = (case out of SubmitStop t \<Rightarrow> P t | SubmitNext t \<Rightarrow> P t | SubmitJob t j \<Rightarrow> P t)"

lemma run_request_limits:
  assumes "run_request E nd r s = Inr out" and "within_limits W s"
    and "dict_get (wf_nodes W) (nd_id nd) = Some nd"
  shows "submitted (within_limits W) out"
proof (cases "check_node_execution_resource (xs_invocation s) nd")
  case (Some err)
  with assms show ?thesis
    by (auto simp: run_request_def submitted_def)
next
  case None
  with assms(1) obtain u s1 where start: "start_execution E nd r s = Inr (u, s1)"
    and rest: "(case prepare_input (env_workflow E) (xs_session s1) (xs_invocation s1) nd r
          (case rq_idempotency_key r of None \<Rightarrow> uuid_str u | Some k \<Rightarrow> k) of
        Inl x \<Rightarrow> bindR (fail_mapping E nd u x s1) (\<lambda>s2. Inr (SubmitNext s2))
      | Inr (mp, v) \<Rightarrow> finish_submission E nd u mp v s1) = Inr out"
    by (auto simp: run_request_def bindR_eq_Inr)
  have "within_limits W s1"
    unfolding within_limits_def
  proof (intro allI impI)
    fix n nd' limit
    assume nd': "dict_get (wf_nodes W) n = Some nd'" "max_executions nd' = Some limit"
    show "int (count_node_executions n (xs_invocation s1)) \<le> limit"
    proof (cases "n = nd_id nd")
      case True
      with nd' assms(3) None have "int (count_node_executions n (xs_invocation s)) < limit"
        by (auto simp: check_node_execution_resource_def max_executions_def Let_def
            split: option.splits if_splits)
      with True show ?thesis
        by (simp add: count_node_executions_map start_execution_counts [OF start])
    next
      case False
      with assms(2) nd' show ?thesis
        by (simp add: within_limits_def count_node_executions_map start_execution_counts [OF start])
    qed
  qed
  moreover have "submitted (counts_kept s1) out"
    using rest counts.R_finish_submission [of E nd u _ _ s1 out]
    by (auto simp: bindR_eq_Inr submitted_def dest: counts.R_fail_mapping split: sum.splits prod.splits)
  ultimately show ?thesis
    by (auto simp: submitted_def intro: within_limits_kept split: submit_outcome.splits)
qed

lemma submit_request_limits:
  assumes "submit_request E r s = Inr out" and "within_limits (env_workflow E) s"
    and "wf_ir (env_workflow E)"
  shows "submitted (within_limits (env_workflow E)) out"
proof (cases "dict_get (wf_nodes (env_workflow E)) (rq_node_id r)")
  case None
  with assms show ?thesis
    by (auto simp: submit_request_def submitted_def)
next
  case (Some nd)
  then have nd: "dict_get (wf_nodes (env_workflow E)) (nd_id nd) = Some nd"
    using assms(3) dict_get_mem [OF Some] by (auto simp: wf_ir_def)
  have "submitted (counts_kept s) out" if "block_recovery E r s = Inr out"
    using counts.R_block_recovery [OF that] by (simp add: submitted_def)
  then show ?thesis
    using assms(1,2) Some run_request_limits [OF _ assms(2) nd, of E r out]
    by (auto simp: submit_request_def submitted_def intro: within_limits_kept
        split: submit_outcome.splits if_splits)
qed

lemma submit_ready_limits:
  assumes "submit_ready_requests E rs s jobs = Inr (t, js)" and "within_limits (env_workflow E) s"
    and "wf_ir (env_workflow E)"
  shows "within_limits (env_workflow E) t"
  using assms
proof (induction rs arbitrary: s jobs)
  case (Cons r rs)
  then obtain out where out: "submit_request E r s = Inr out" by (auto simp: bindR_eq_Inr)
  with submit_request_limits [OF out Cons.prems(2,3)] Cons show ?case
    by (auto simp: submitted_def split: submit_outcome.splits)
qed simp

lemma drive_ready_limits:
  assumes "drive_ready E rs s = Inr out" and "within_limits (env_workflow E) s" and "wf_ir (env_workflow E)"
  shows "within_limits (env_workflow E) (outcome_state out)"
proof -
  from assms(1) obtain s1 jobs m where submit: "submit_ready_requests E rs s [] = Inr (s1, jobs)"
    and out: "out = (let s2 = (if jobs = [] then s1 else s1\<lparr>xs_mailbox := m\<rparr>) in
       if inv_state (xs_invocation s2) = InvInterrupted then Returned s2
       else if inv_state (xs_invocation s2) = InvFailed then Returned (finish_failed_invocation E s2)
       else Continue s2)"
    by (force simp: drive_ready_def bindR_eq_Inr split: if_splits)
  define s2 where "s2 = (if jobs = [] then s1 else s1\<lparr>xs_mailbox := m\<rparr>)"
  have "counts_kept s1 s2" by (simp add: s2_def counts_kept_def)
  moreover have "counts_kept s2 (outcome_state out)"
    by (simp add: out s2_def [symmetric] Let_def counts.R_refl counts.R_finish_failed)
  ultimately show ?thesis
    using submit_ready_limits [OF submit assms(2,3)] by (blast intro: within_limits_kept)
qed

lemma drive_step_limits:
  assumes "drive_step E s = Inr out" and "within_limits (env_workflow E) s" and "wf_ir (env_workflow E)"
  shows "within_limits (env_workflow E) (outcome_state out)"
proof -
  let ?c = "inv_scheduler (xs_invocation s)" and ?W = "env_workflow E"
  have drain1: "counts_kept s (on_invocation (\<lambda>i. i\<lparr>inv_scheduler := ?c\<lparr>transition_queue := []\<rparr>\<rparr>) s)"
    and drain2: "within_limits ?W (on_invocation (\<lambda>i. i\<lparr>inv_scheduler := ?c\<lparr>ready_queue := []\<rparr>\<rparr>) s)"
    using assms(2) by (simp_all add: counts_kept_def within_limits_def count_node_executions_map)
  have kept: "within_limits ?W t" if "counts_kept s t" for t
    using that assms(2) by (rule within_limits_kept)
  have dead: "counts_kept s (finish_failed_invocation E (on_invocation (mark_failed dead_end) s))"
    by (rule counts.R_trans [OF counts.R_quiet counts.R_finish_failed]) simp
  show ?thesis
    using assms(1) counts.R_trans [OF drain1 counts.R_drive_transitions] drive_ready_limits [OF _ drain2 assms(3)]
    unfolding drive_step_def Let_def
    by (auto simp: kept counts.R_finish_failed counts.R_drive_waiting counts.R_drive_deferred
        counts.R_drive_completed dead intro: kept counts.R_drive_messages split: if_splits option.splits)
qed

lemma executor_step_limits:
  assumes "executor_step W s t" and "within_limits W s" and "wf_ir W"
  shows "within_limits W t"
  using assms
proof (induction rule: executor_step.induct)
  case (step_message E s t)
  have "within_limits W t" if "\<exists>m. t = s\<lparr>xs_mailbox := m\<rparr>"
    using that step_message.prems(1) by (auto simp: within_limits_def)
  with step_message drive_step_limits [of E s "Continue t"] show ?case
    by (auto elim: run_step.cases)
qed (use drive_step_limits in \<open>auto intro: within_limits_kept counts.R_begin_invocation
      counts.R_resume_wait counts.R_begin_recovery counts.R_cancel_invocation counts.R_afail\<close>)

text \<open>
  C22: The limit on executions of a node is never exceeded: from a state within the limits, no
  sequence of turns, worker messages, resumptions, recoveries and cancellations leads to a
  state in which a node with \<open>max_node_executions\<close> has more executions than that.
\<close>

theorem node_execution_limit:
  assumes "lifetime W s t" and "wf_ir W" and "within_limits W s"
  shows "\<forall>n nd limit. dict_get (wf_nodes W) n = Some nd \<and> max_executions nd = Some limit \<longrightarrow>
     int (count_node_executions n (xs_invocation t)) \<le> limit"
proof -
  have "within_limits W t"
    using assms by (induction rule: rtranclp_induct) (auto intro: executor_step_limits)
  then show ?thesis by (simp add: within_limits_def)
qed

end
