(* ===== verification/Executor_Balance.thy ===== *)
theory Executor_Balance
  imports Executor_Life
begin

text \<open>
  The books of the executor: every running node execution is owed exactly one result, by a
  running task or an unread message, and every waiting one has exactly one entry among the
  waits. From this: a message never meets an unknown execution, an invocation ends only when
  nothing is running any more, and no work is orphaned.
\<close>

section \<open>States of executions\<close>

definition statuses :: "invocation \<Rightarrow> (uuid \<times> node_state) list" where
  "statuses i = map (\<lambda>n. (ne_id n, ne_state n)) (inv_node_executions i)"

definition ids_in :: "node_state set \<Rightarrow> (uuid \<times> node_state) list \<Rightarrow> uuid multiset" where
  "ids_in S ps = mset (map fst (filter (\<lambda>(u, st). st \<in> S) ps))"

definition set_status :: "uuid \<Rightarrow> node_state \<Rightarrow> (uuid \<times> node_state) list \<Rightarrow> (uuid \<times> node_state) list" where
  "set_status u st ps = map (\<lambda>(v, old). (v, if v = u then st else old)) ps"

lemma ids_in_append [simp]: "ids_in S (ps @ qs) = ids_in S ps + ids_in S qs"
  by (simp add: ids_in_def)

lemma ids_in_simps [simp]:
  "ids_in S [] = {#}" "ids_in S ((u, st) # ps) = (if st \<in> S then add_mset u (ids_in S ps) else ids_in S ps)"
  by (simp_all add: ids_in_def)

lemma fst_statuses [simp]: "map fst (statuses i) = map ne_id (inv_node_executions i)"
  by (simp add: statuses_def comp_def)

lemma fst_set_status [simp]: "map fst (set_status u st ps) = map fst ps"
  by (simp add: set_status_def comp_def case_prod_unfold)

lemma set_status_twice [simp]: "set_status u st (set_status u st' ps) = set_status u st ps"
  by (induction ps) (auto simp: set_status_def)

lemma set_status_append: "set_status u st (ps @ qs) = set_status u st ps @ set_status u st qs"
  by (simp add: set_status_def)

lemma set_status_single [simp]: "set_status u st [(u, old)] = [(u, st)]"
  by (simp add: set_status_def)

lemma ids_in_count: "u \<notin> set (map fst ps) \<Longrightarrow> ids_in S (set_status u st ps) = ids_in S ps"
  by (induction ps) (auto simp: set_status_def split: prod.splits)

lemma ids_in_set_status:
  assumes "distinct (map fst ps)" and "(u, old) \<in> set ps"
  shows "ids_in S (set_status u st ps)
       = (if st \<in> S then {#u#} else {#}) + (ids_in S ps - (if old \<in> S then {#u#} else {#}))"
  using assms
proof (induction ps)
  case (Cons p ps)
  obtain v x where p: "p = (v, x)" by (cases p)
  show ?case
  proof (cases "v = u")
    case True
    with Cons.prems p have "x = old" "u \<notin> set (map fst ps)" by (auto simp: rev_image_eqI)
    moreover from this(2) have "ids_in S (set_status u st ps) = ids_in S ps" by (rule ids_in_count)
    ultimately show ?thesis using True p by (simp add: set_status_def)
  next
    case False
    with Cons.prems p have mem: "distinct (map fst ps)" "(u, old) \<in> set ps" by auto
    note IH = Cons.IH [OF this]
    from mem(2) have "old \<in> S \<Longrightarrow> u \<in># ids_in S ps" by (force simp: ids_in_def)
    with IH False p show ?thesis by (auto simp: set_status_def multiset_eq_iff)
  qed
qed simp

lemma ids_in_mem: "u \<in># ids_in S (statuses i) \<longleftrightarrow> (\<exists>n \<in> set (inv_node_executions i). ne_id n = u \<and> ne_state n \<in> S)"
  by (auto simp: ids_in_def statuses_def filter_map comp_def)

lemma ids_in_distinct:
  assumes "distinct (map fst ps)"
  shows "count (ids_in S ps) u \<le> 1"
proof -
  have "distinct (map fst (filter (\<lambda>(u, st). st \<in> S) ps))" using assms by (rule distinct_map_filter)
  then show ?thesis unfolding ids_in_def by (simp only: distinct_count_atmost_1) simp
qed

lemma map_update_first_status:
  assumes "distinct (map ne_id xs)" and "\<And>n. ne_id (f n) = ne_id n" and "\<And>n. ne_state (f n) = st"
  shows "map (\<lambda>n. (ne_id n, ne_state n)) (update_first (\<lambda>n. ne_id n = u) f xs)
       = set_status u st (map (\<lambda>n. (ne_id n, ne_state n)) xs)"
  using assms
proof (induction xs)
  case (Cons x xs)
  show ?case
  proof (cases "ne_id x = u")
    case True
    with Cons.prems have "set_status u st (map (\<lambda>n. (ne_id n, ne_state n)) xs)
        = map (\<lambda>n. (ne_id n, ne_state n)) xs"
      by (auto simp: set_status_def) (metis image_eqI)
    with True Cons.prems show ?thesis by (simp add: set_status_def)
  next
    case False
    with Cons show ?thesis by (simp add: set_status_def)
  qed
qed (simp add: set_status_def)

lemma statuses_update:
  assumes "distinct (map ne_id (inv_node_executions i))"
    and "\<And>n. ne_id (f n) = ne_id n" and "\<And>n. ne_state (f n) = st"
  shows "statuses (update_execution u f i) = set_status u st (statuses i)"
  using map_update_first_status [OF assms] by (simp add: statuses_def update_execution_def)

lemma update_execution_waits [simp]:
  "inv_scheduler (update_execution u f i) = inv_scheduler i"
  by (simp add: update_execution_def)

lemma statuses_expose [simp]: "statuses (expose_transition n i) = statuses i"
  by (simp add: statuses_def expose_transition_def)

lemma waits_expose [simp]:
  "waiting_executions (inv_scheduler (expose_transition n i)) = waiting_executions (inv_scheduler i)"
  by (simp add: expose_transition_def enqueue_transition_def)

lemma statuses_scheduler [simp]:
  "statuses (i\<lparr>inv_scheduler := c\<rparr>) = statuses i"
  "statuses (i\<lparr>inv_output_index := x\<rparr>) = statuses i"
  by (simp_all add: statuses_def)

lemma node_mark_states [simp]:
  "ne_id (node_mark_running now inp n) = ne_id n" "ne_state (node_mark_running now inp n) = NodeRunning"
  "ne_id (node_mark_waiting r n) = ne_id n" "ne_state (node_mark_waiting r n) = NodeWaiting"
  "ne_id (node_mark_completed now out n) = ne_id n" "ne_state (node_mark_completed now out n) = NodeCompleted"
  "ne_id (node_mark_failed now e n) = ne_id n" "ne_state (node_mark_failed now e n) = NodeFailed"
  "ne_id (node_mark_interrupted now eo n) = ne_id n" "ne_state (node_mark_interrupted now eo n) = NodeInterrupted"
  "ne_id (node_mark_cancelled now eo n) = ne_id n" "ne_state (node_mark_cancelled now eo n) = NodeCancelled"
  by (auto simp: node_mark_defs split: option.splits)

section \<open>The books\<close>

abbreviation waits_of :: "invocation \<Rightarrow> (string \<times> waiting_execution) list" where
  "waits_of i \<equiv> waiting_executions (inv_scheduler i)"

definition waiting_ids :: "invocation \<Rightarrow> uuid multiset" where
  "waiting_ids i = mset (map (\<lambda>(k, w). we_node_execution_id w) (waits_of i))"

text \<open>
  \<open>pend\<close> are the results taken from the mailbox, or the jobs prepared, but not yet settled;
  \<open>woken\<close> the waiting executions whose entry is already removed.
\<close>

definition books :: "uuid multiset \<Rightarrow> uuid multiset \<Rightarrow> exec_state \<Rightarrow> bool" where
  "books pend woken s \<longleftrightarrow>
     (let i = xs_invocation s; m = xs_mailbox s in
      history_fresh s
      \<and> ids_in {NodeRunning} (statuses i) = mset (outstanding m) + pend
      \<and> ids_in {NodeWaiting} (statuses i) = waiting_ids i + woken
      \<and> ids_in {NodeCreated, NodeReady} (statuses i) = {#}
      \<and> distinct (dict_keys (waits_of i))
      \<and> (\<forall>(t, u) \<in> set (mb_running m). t = u)
      \<and> mb_accepting m)"

abbreviation balanced_with :: "uuid multiset \<Rightarrow> exec_state \<Rightarrow> bool" where
  "balanced_with pend \<equiv> books pend {#}"

abbreviation balanced :: "exec_state \<Rightarrow> bool" where
  "balanced \<equiv> balanced_with {#}"

text \<open>What keeps the books as they are.\<close>

definition calm :: "exec_state \<Rightarrow> exec_state \<Rightarrow> bool" where
  "calm s t \<longleftrightarrow> statuses (xs_invocation t) = statuses (xs_invocation s)
     \<and> map ne_sequence (inv_node_executions (xs_invocation t)) = map ne_sequence (inv_node_executions (xs_invocation s))
     \<and> waits_of (xs_invocation t) = waits_of (xs_invocation s)
     \<and> xs_mailbox t = xs_mailbox s \<and> xs_supply t = xs_supply s"

lemma statuses_zip: "statuses i = zip (map ne_id (inv_node_executions i)) (map ne_state (inv_node_executions i))"
  by (simp add: statuses_def zip_map_map zip_same_conv_map)

lemma quiet_statuses:
  assumes "quiet i j"
  shows "statuses j = statuses i" "map ne_sequence (inv_node_executions j) = map ne_sequence (inv_node_executions i)"
    "waits_of j = waits_of i"
  using assms by (auto simp: quiet_def settles_def evolves_def statuses_zip list_all2_identity_maps)

interpretation calm: quiet_relation calm
proof
  fix s t u j name ids force d inp out w b n c p w' b' n' c' p'
  show "calm s s" by (simp add: calm_def)
  show "calm s u" if "calm s t" "calm t u" using that by (simp add: calm_def)
  show "calm s (record_event name ids force d inp out s)" by (simp add: calm_def statuses_def)
  show "calm s (s\<lparr>xs_invocation := j\<rparr>)" if "quiet (xs_invocation s) j"
    using quiet_statuses [OF that] by (simp add: calm_def)
  show "calm s (s\<lparr>xs_invocation := (xs_invocation s)\<lparr>inv_context := c\<rparr>, xs_session := c'\<rparr>)"
    by (simp add: calm_def statuses_def)
qed

lemma history_fresh_statuses:
  "history_fresh s \<longleftrightarrow>
     map ne_sequence (inv_node_executions (xs_invocation s)) = numbers 0 (length (inv_node_executions (xs_invocation s)))
     \<and> distinct (map fst (statuses (xs_invocation s)))
     \<and> (\<forall>u \<in> set (map fst (statuses (xs_invocation s))). u < xs_supply s)"
  by (auto simp: history_fresh_def history_ok_def numbers_def)

lemma calm_balanced:
  assumes "calm s t" and "books pend woken s"
  shows "books pend woken t"
proof -
  have "length (statuses (xs_invocation t)) = length (statuses (xs_invocation s))"
    using assms(1) by (simp only: calm_def)
  then have "length (inv_node_executions (xs_invocation t)) = length (inv_node_executions (xs_invocation s))"
    by (simp add: statuses_def)
  with assms show ?thesis
    by (simp add: books_def calm_def history_fresh_statuses waiting_ids_def Let_def)
qed

lemma balanced_failed: "balanced_with pend s \<Longrightarrow> balanced_with pend (on_invocation (mark_failed e) s)"
  by (rule calm_balanced [OF calm.R_quiet]) simp_all

section \<open>Settling an execution\<close>

lemma evolves_sequences:
  "evolves i j \<Longrightarrow> map ne_sequence (inv_node_executions j) = map ne_sequence (inv_node_executions i)
     \<and> length (inv_node_executions j) = length (inv_node_executions i)
     \<and> map ne_id (inv_node_executions j) = map ne_id (inv_node_executions i)"
  by (simp add: evolves_def list_all2_identity_maps)

lemma history_fresh_evolves:
  assumes "history_fresh s" and "evolves (xs_invocation s) (xs_invocation t)" and "xs_supply t = xs_supply s"
  shows "history_fresh t"
  using assms by (simp add: history_fresh_statuses evolves_sequences)

lemma balanced_distinct:
  "books pend woken s \<Longrightarrow> distinct (map ne_id (inv_node_executions (xs_invocation s)))"
  by (simp add: books_def history_fresh_def history_ok_def Let_def)

lemma ids_in_status: "u \<in># ids_in {st} (statuses i) \<Longrightarrow> (u, st) \<in> set (statuses i)"
  by (auto simp: ids_in_mem) (force simp: statuses_def)

lemma balanced_running:
  assumes "books pend woken s" and "u \<in># mset (outstanding (xs_mailbox s)) + pend"
  shows "(u, NodeRunning) \<in> set (statuses (xs_invocation s))"
  using assms by (intro ids_in_status) (simp add: books_def Let_def)

text \<open>\<open>u\<close> is about to leave the running executions, or the waiting ones.\<close>

definition settling :: "uuid \<Rightarrow> uuid multiset \<Rightarrow> exec_state \<Rightarrow> bool" where
  "settling u pend s \<longleftrightarrow> books (add_mset u pend) {#} s \<or> books pend {#u#} s"

lemma settling_running: "balanced_with (add_mset u pend) s \<Longrightarrow> settling u pend s"
  by (simp add: settling_def)

lemma settling_calm: "calm s t \<Longrightarrow> settling u pend s \<Longrightarrow> settling u pend t"
  by (auto simp: settling_def dest: calm_balanced)

lemma settling_distinct: "settling u pend s \<Longrightarrow> distinct (map ne_id (inv_node_executions (xs_invocation s)))"
  by (auto simp: settling_def dest: balanced_distinct)

text \<open>The execution ends.\<close>

lemma balanced_settle:
  assumes "settling u pend s"
    and "evolves (xs_invocation s) (xs_invocation t)" and "xs_supply t = xs_supply s"
    and "xs_mailbox t = xs_mailbox s"
    and "statuses (xs_invocation t) = set_status u st (statuses (xs_invocation s))"
    and "\<not> active_state st" and "waits_of (xs_invocation t) = waits_of (xs_invocation s)"
  shows "balanced_with pend t"
proof -
  have d: "distinct (map fst (statuses (xs_invocation s)))" using settling_distinct [OF assms(1)] by simp
  have st: "st \<notin> {NodeRunning, NodeWaiting, NodeCreated, NodeReady}"
    using assms(6) by (auto simp: active_state_def)
  show ?thesis
  proof (cases "books (add_mset u pend) {#} s")
    case True
    have "(u, NodeRunning) \<in> set (statuses (xs_invocation s))" by (rule balanced_running [OF True]) simp
    note set = ids_in_set_status [OF d this]
    show ?thesis
      using True assms(3-5,7) st history_fresh_evolves [OF _ assms(2,3)]
      by (auto simp: books_def Let_def set waiting_ids_def)
  next
    case False
    with assms(1) have w: "books pend {#u#} s" by (simp add: settling_def)
    have "(u, NodeWaiting) \<in> set (statuses (xs_invocation s))"
      by (rule ids_in_status) (use w in \<open>simp add: books_def Let_def\<close>)
    note set = ids_in_set_status [OF d this]
    show ?thesis
      using w assms(3-5,7) st history_fresh_evolves [OF _ assms(2,3)]
      by (auto simp: books_def Let_def set waiting_ids_def)
  qed
qed

text \<open>The execution leaves the running ones to wait under a new key.\<close>

lemma balanced_settle_wait:
  assumes "balanced_with (add_mset u pend) s"
    and "evolves (xs_invocation s) (xs_invocation t)" and "xs_supply t = xs_supply s"
    and "xs_mailbox t = xs_mailbox s"
    and "statuses (xs_invocation t) = set_status u NodeWaiting (statuses (xs_invocation s))"
    and "waiting_ids (xs_invocation t) = add_mset u (waiting_ids (xs_invocation s))"
    and "distinct (dict_keys (waits_of (xs_invocation t)))"
  shows "balanced_with pend t"
proof -
  have d: "distinct (map fst (statuses (xs_invocation s)))" using balanced_distinct [OF assms(1)] by simp
  have "(u, NodeRunning) \<in> set (statuses (xs_invocation s))" by (rule balanced_running [OF assms(1)]) simp
  note set = ids_in_set_status [OF d this]
  show ?thesis
    using assms history_fresh_evolves [OF _ assms(2,3)] by (auto simp: books_def Let_def set)
qed

lemma mark_node_failed_statuses:
  assumes "mark_node_failed now u e i = Inr j" and "distinct (map ne_id (inv_node_executions i))"
  shows "statuses j = set_status u NodeFailed (statuses i)" "waits_of j = waits_of i"
  using assms by (auto simp: mark_node_failed_def bindR_eq_Inr statuses_update)

lemma mark_node_completed_statuses:
  assumes "mark_node_completed now u out i = Inr j" and "distinct (map ne_id (inv_node_executions i))"
  shows "statuses j = set_status u NodeCompleted (statuses i)" "waits_of j = waits_of i"
  using assms by (auto simp: mark_node_completed_def bindR_eq_Inr Let_def statuses_update)

lemma mark_node_waiting_statuses:
  assumes "mark_node_waiting u k ty p r out i = Inr j" and "distinct (map ne_id (inv_node_executions i))"
  shows "statuses j = set_status u NodeWaiting (statuses i)"
    "waiting_ids j = add_mset u (waiting_ids i)"
    "distinct (dict_keys (waits_of i)) \<Longrightarrow> distinct (dict_keys (waits_of j))"
proof -
  let ?f = "\<lambda>m. node_mark_waiting r (m\<lparr>ne_output := out\<rparr>)"
  from assms(1) obtain n c where n: "get_node_execution u i = Some n"
    and c: "add_waiting_execution k (ne_id n) (ne_node_id n) ty p (inv_scheduler i) = Inr c"
    and j: "j = expose_transition (?f n) ((update_execution u ?f i)\<lparr>inv_scheduler := c\<rparr>)"
    by (auto simp: mark_node_waiting_def bindR_eq_Inr Let_def on_scheduler_res_eq_Inr
        require_node_execution_def split: option.splits)
  show "statuses j = set_status u NodeWaiting (statuses i)"
    using assms(2) by (simp add: j statuses_update)
  show "waiting_ids j = add_mset u (waiting_ids i)"
    using c get_node_execution_id [OF n]
    by (auto simp: j waiting_ids_def add_waiting_execution_def dict_set_new split: if_splits)
  show "distinct (dict_keys (waits_of j))" if "distinct (dict_keys (waits_of i))"
    using c that by (auto simp: j add_waiting_execution_def distinct_dict_set split: if_splits)
qed

lemma balanced_node_failed:
  assumes "on_invocation_res (mark_node_failed now u e) s = Inr t" and "settling u pend s"
  shows "balanced_with pend t"
proof -
  from assms(1) obtain j where j: "mark_node_failed now u e (xs_invocation s) = Inr j" "t = s\<lparr>xs_invocation := j\<rparr>"
    by (auto simp: on_invocation_res_def bindR_eq_Inr)
  with mark_node_failed_statuses [OF j(1) settling_distinct [OF assms(2)]] show ?thesis
    by (intro balanced_settle [OF assms(2), where st = NodeFailed]) (auto simp: evolves_mark_node_failed)
qed

lemma balanced_node_completed:
  assumes "on_invocation_res (mark_node_completed now u out) s = Inr t" and "settling u pend s"
  shows "balanced_with pend t"
proof -
  from assms(1) obtain j where j: "mark_node_completed now u out (xs_invocation s) = Inr j" "t = s\<lparr>xs_invocation := j\<rparr>"
    by (auto simp: on_invocation_res_def bindR_eq_Inr)
  with mark_node_completed_statuses [OF j(1) settling_distinct [OF assms(2)]] show ?thesis
    by (intro balanced_settle [OF assms(2), where st = NodeCompleted]) (auto simp: evolves_mark_node_completed)
qed

lemma balanced_node_waiting:
  assumes "on_invocation_res (mark_node_waiting u k ty p r out) s = Inr t" and "balanced_with (add_mset u pend) s"
  shows "balanced_with pend t"
proof -
  from assms(1) obtain j where j: "mark_node_waiting u k ty p r out (xs_invocation s) = Inr j" "t = s\<lparr>xs_invocation := j\<rparr>"
    by (auto simp: on_invocation_res_def bindR_eq_Inr)
  have "distinct (dict_keys (waits_of (xs_invocation s)))"
    using assms(2) by (simp add: books_def Let_def)
  with j mark_node_waiting_statuses [OF j(1) balanced_distinct [OF assms(2)]] show ?thesis
    by (intro balanced_settle_wait [OF assms(2)]) (auto simp: evolves_mark_node_waiting)
qed

lemma balanced_settle_completed:
  assumes "settle_completed E nd u out ev s = Inr t" and "settling u pend s"
  shows "balanced_with pend t"
proof -
  from assms obtain n where n: "(case run_output_binding nd n out s of
            Inl x \<Rightarrow> on_invocation_res (mark_node_failed (env_now E) u (binding_failed_error n x))
              (report_binding nd n out ev
                [(''state'', PyStr ''failed''), (''error_type'', PyStr (exn_type x))] s)
          | Inr s1 \<Rightarrow> on_invocation_res (mark_node_completed (env_now E) u out)
              (report_binding nd n out ev [(''state'', PyStr ''completed'')] s1)) = Inr t"
    by (auto simp: settle_completed_def bindR_eq_Inr)
  have report: "calm s' (report_binding nd n out ev extra s')" for extra s'
    by (simp add: report_binding_def calm.R_refl calm.R_event)
  show ?thesis
  proof (cases "run_output_binding nd n out s")
    case (Inl x)
    with n show ?thesis
      by (auto intro: balanced_node_failed settling_calm [OF report assms(2)])
  next
    case (Inr s1)
    have "calm s s1" by (rule calm.R_run_output_binding [OF Inr])
    then have "settling u pend s1" by (rule settling_calm) (rule assms(2))
    with n Inr show ?thesis by (auto intro: balanced_node_completed settling_calm [OF report])
  qed
qed

lemma balanced_settle_waiting:
  assumes "settle_waiting E r n s = Inr t" and "balanced_with (add_mset (nr_execution_id r) pend) s"
  shows "balanced_with pend t"
proof -
  let ?u = "nr_execution_id r" and ?f = "\<lambda>m. node_mark_waiting None (m\<lparr>ne_output := nr_output r\<rparr>)"
  from assms(1) consider k ty p where
      "on_invocation_res (mark_node_waiting ?u k ty p None (nr_output r)) s = Inr t"
    | msg where "on_invocation_res (mark_node_failed (env_now E) ?u (wait_conflict_error n msg))
        (on_invocation (update_execution ?u ?f) s) = Inr t"
    by (auto simp: settle_waiting_def Let_def split: sum.splits py_error.splits)
  then show ?thesis
  proof cases
    case 1
    then show ?thesis using assms(2) by (rule balanced_node_waiting)
  next
    case 2
    let ?i = "update_execution ?u ?f (xs_invocation s)"
    note d = balanced_distinct [OF assms(2)]
    have ev: "evolves (xs_invocation s) ?i" by (rule update_execution_evolves) simp
    from 2 obtain j where j: "mark_node_failed (env_now E) ?u (wait_conflict_error n msg) ?i = Inr j"
      "t = s\<lparr>xs_invocation := j\<rparr>" by (auto simp: on_invocation_res_def bindR_eq_Inr)
    have "distinct (map ne_id (inv_node_executions ?i))" using d ev by (simp add: evolves_sequences)
    note st = mark_node_failed_statuses [OF j(1) this]
    have "statuses j = set_status ?u NodeFailed (statuses (xs_invocation s))"
      by (simp add: st statuses_update [OF d])
    moreover have "evolves (xs_invocation s) j"
      using ev evolves_mark_node_failed [OF j(1)] by (rule evolves_trans)
    ultimately show ?thesis using st(2) j(2)
      by (intro balanced_settle [OF settling_running [OF assms(2)], where st = NodeFailed]) auto
  qed
qed

lemma balanced_settle_result:
  assumes "settle_result E r n nd s = Inr t" and "balanced_with (add_mset (nr_execution_id r) pend) s"
  shows "balanced_with pend t"
proof -
  let ?u = "nr_execution_id r"
  have node_state: "balanced_with pend (record_node_state ?u s')" if "balanced_with pend s'" for s'
    using that by (rule calm_balanced [OF calm.R_record_node_state])
  have "calm s (on_invocation (update_execution ?u (\<lambda>n. n\<lparr>ne_output := nr_output r\<rparr>)) s)"
    by (rule calm.R_quiet) (simp add: update_execution_quiet)
  note taken = calm_balanced [OF this assms(2)]
  show ?thesis
  proof (cases "check_runtime_resource_after_result nd (xs_invocation s)")
    case (Some err)
    with assms(1) obtain s1 where s1: "on_invocation_res (mark_node_failed (env_now E) ?u err) s = Inr s1"
      and t: "calm s1 t"
      by (auto simp: settle_result_def Let_def bindR_eq_Inr calm.R_event)
    from balanced_node_failed [OF s1 settling_running [OF assms(2)]] show ?thesis by (rule calm_balanced [OF t])
  next
    case None
    with assms(1) obtain s1 where s1: "(if nr_state r = NodeCompleted then
                   settle_completed E nd ?u (nr_output r) True
                     (on_invocation (update_execution ?u (\<lambda>n. n\<lparr>ne_output := nr_output r\<rparr>)) s)
                 else if nr_state r = NodeWaiting then settle_waiting E r n s
                 else on_invocation_res (mark_node_failed (env_now E) ?u
                   (case nr_error r of Some e \<Rightarrow> e | None \<Rightarrow> node_failed_default)) s) = Inr s1"
      and t: "t = record_node_state ?u s1"
      by (auto simp: settle_result_def Let_def bindR_eq_Inr)
    have "balanced_with pend s1"
      using s1 balanced_settle_completed [OF _ settling_running [OF taken]] balanced_settle_waiting [OF _ assms(2)]
        balanced_node_failed [OF _ settling_running [OF assms(2)]] by (auto split: if_splits)
    then show ?thesis unfolding t by (rule node_state)
  qed
qed

section \<open>Messages\<close>

lemma balanced_apply_result:
  assumes "apply_result E r s = Inr t" and "balanced_with (add_mset (nr_execution_id r) pend) s"
  shows "balanced_with pend t"
proof -
  let ?u = "nr_execution_id r"
  have "(?u, NodeRunning) \<in> set (statuses (xs_invocation s))" by (rule balanced_running [OF assms(2)]) simp
  then obtain n where n: "get_node_execution ?u (xs_invocation s) = Some n"
    by (cases "get_node_execution ?u (xs_invocation s)")
      (auto simp: statuses_def get_node_execution_def find_None_iff)
  define sel where "sel = (\<lambda>ph :: phase_result. ph_name ph = ''item_selection.completed'')"
  define s1 where "s1 = foldl (\<lambda>s ph. record_phase n ph s) s (filter sel (nr_phases r))"
  define s2 where "s2 = foldl (\<lambda>s oe. add_operator_execution ?u oe s) s1 (nr_operator_executions r)"
  define after where "after = filter (\<lambda>ph. \<not> sel ph) (nr_phases r)"
  define s3 where "s3 = on_invocation (update_execution ?u (\<lambda>n. n\<lparr>ne_usage := nr_usage r,
      ne_output := (if after \<noteq> [] \<and> nr_state r = NodeCompleted then nr_output r else ne_output n)\<rparr>)) s2"
  define s4 where "s4 = foldl (\<lambda>s ph. record_phase n ph s) s3 after"
  from assms(1) n obtain nd where settle: "settle_result E r n nd s4 = Inr t"
    by (auto simp: apply_result_def Let_def bindR_eq_Inr s4_def s3_def s2_def s1_def after_def sel_def)
  have "calm s s1" unfolding s1_def by (rule calm.R_foldl) (rule calm.R_record_phase)
  moreover have "calm s1 s2" unfolding s2_def by (rule calm.R_foldl) (rule calm.R_add_operator_execution)
  moreover have "calm s2 s3" unfolding s3_def by (rule calm.R_quiet) (simp add: update_execution_quiet)
  moreover have "calm s3 s4" unfolding s4_def by (rule calm.R_foldl) (rule calm.R_record_phase)
  ultimately have "calm s s4" by (blast intro: calm.R_trans)
  then have "balanced_with (add_mset ?u pend) s4" by (rule calm_balanced) (rule assms(2))
  with settle show ?thesis by (rule balanced_settle_result)
qed

lemma balanced_apply_messages:
  "foldR (apply_message E) s xs = Inr t \<Longrightarrow> balanced_with (mset (result_ids xs)) s \<Longrightarrow> balanced t"
proof (induction xs arbitrary: s)
  case (Cons x xs)
  then obtain s1 where s1: "apply_message E s x = Inr s1" "foldR (apply_message E) s1 xs = Inr t"
    by (auto simp: bindR_eq_Inr)
  have "balanced_with (mset (result_ids xs)) s1"
  proof (cases x)
    case (ResultMessage r)
    with s1(1) Cons.prems(2) show ?thesis by (auto intro: balanced_apply_result)
  qed (use s1(1) Cons.prems(2) in \<open>auto intro: calm_balanced [OF calm.R_apply_progress]\<close>)
  with s1(2) show ?case by (rule Cons.IH)
qed simp

lemma balanced_mailbox:
  assumes "balanced_with pend s" and "mset (outstanding m) + pend' = mset (outstanding (xs_mailbox s)) + pend"
    and "mb_accepting m" and "\<forall>(t, u) \<in> set (mb_running m). t = u"
  shows "balanced_with pend' (s\<lparr>xs_mailbox := m\<rparr>)"
  using assms by (simp add: books_def Let_def history_fresh_def)

lemma balanced_drive_messages:
  assumes "drive_messages E s = Inr out" and "balanced s"
  shows "balanced (outcome_state out)"
proof -
  let ?m = "xs_mailbox s"
  have b: "mb_accepting ?m" "\<forall>(t, u) \<in> set (mb_running ?m). t = u"
    using assms(2) by (auto simp: books_def Let_def)
  have "balanced_with (mset (result_ids (mb_messages ?m))) (s\<lparr>xs_mailbox := ?m\<lparr>mb_messages := []\<rparr>\<rparr>)"
    by (rule balanced_mailbox [OF assms(2)]) (use b in \<open>auto simp: outstanding_def\<close>)
  with assms(1) show ?thesis
    by (auto simp: drive_messages_def wait_for_messages_def drain_messages_def Let_def bindR_eq_Inr
        dest: balanced_apply_messages split: if_splits)
qed

section \<open>Workers\<close>

lemma count_le_distinct: "(\<And>u. count (mset xs) u \<le> 1) \<Longrightarrow> distinct xs"
proof (induction xs)
  case (Cons x xs)
  have "count (mset xs) u \<le> 1" for u
    by (rule order_trans [OF _ Cons.prems [of u]]) simp
  moreover have "x \<notin> set xs" using Cons.prems [of x] by simp
  ultimately show ?case using Cons.IH by simp
qed simp

lemma mset_remove_key:
  assumes "distinct (map fst d)" and "dict_get d t = Some u"
  shows "mset (map snd d) = add_mset u (mset (map snd (dict_pop t d)))"
  using assms
proof (induction d)
  case (Cons p d)
  obtain k v where p: "p = (k, v)" by (cases p)
  show ?case
  proof (cases "k = t")
    case True
    with Cons.prems p have "dict_pop t d = d"
      by (auto simp: dict_pop_def intro: delete_idem)
    with True Cons.prems p show ?thesis by (simp add: dict_pop_def)
  next
    case False
    with Cons p show ?thesis by (auto simp: dict_pop_def)
  qed
qed simp

lemma balanced_worker_finish:
  assumes "balanced s" and "dict_get (mb_running (xs_mailbox s)) t = Some (nr_execution_id r)"
    and "finish_task t (ResultMessage r) (xs_mailbox s) = Inr m"
  shows "balanced (s\<lparr>xs_mailbox := m\<rparr>)"
proof (rule balanced_mailbox [OF assms(1)])
  let ?m = "xs_mailbox s"
  have b: "mb_accepting ?m" and tu: "\<forall>(t, u) \<in> set (mb_running ?m). t = u"
    using assms(1) by (auto simp: books_def Let_def)
  have m: "m = ?m\<lparr>mb_running := dict_pop t (mb_running ?m), mb_messages := mb_messages ?m @ [ResultMessage r]\<rparr>"
    using assms(2,3) b by (auto simp: finish_task_def put_message_def)
  have eq: "map fst (mb_running ?m) = map snd (mb_running ?m)" using tu by (auto intro!: map_cong)
  have "distinct (map snd (mb_running ?m))"
  proof -
    have "count (mset (map snd (mb_running ?m))) u \<le> 1" for u
    proof -
      have "count (mset (map snd (mb_running ?m))) u \<le> count (ids_in {NodeRunning} (statuses (xs_invocation s))) u"
        using assms(1) by (simp add: books_def Let_def outstanding_def)
      also have "\<dots> \<le> 1" by (rule ids_in_distinct) (simp add: balanced_distinct [OF assms(1)])
      finally show ?thesis .
    qed
    then show ?thesis by (blast intro: count_le_distinct)
  qed
  then have "distinct (map fst (mb_running ?m))" by (simp only: eq)
  then have "mset (map snd (mb_running ?m))
      = add_mset (nr_execution_id r) (mset (map snd (dict_pop t (mb_running ?m))))"
    by (rule mset_remove_key) (rule assms(2))
  then show "mset (outstanding m) + {#} = mset (outstanding ?m) + {#}" by (simp add: m outstanding_def)
  show "mb_accepting m" by (simp add: m b)
  have "set (dict_pop t (mb_running ?m)) \<subseteq> set (mb_running ?m)"
    by (simp add: dict_pop_def AList.delete_eq)
  then show "\<forall>(t, u) \<in> set (mb_running m). t = u" using tu by (auto simp: m)
qed

lemma balanced_worker_progress:
  assumes "balanced s" and "\<forall>r. x \<noteq> ResultMessage r"
  shows "balanced (s\<lparr>xs_mailbox := put_message x (xs_mailbox s)\<rparr>)"
  using assms(1)
  by (rule balanced_mailbox) (use assms in \<open>cases x; auto simp: books_def Let_def outstanding_def put_message_def\<close>)+

section \<open>Submissions\<close>

lemma start_execution_books:
  assumes "start_execution E nd r s = Inr (u, t)" and "balanced_with pend s"
  shows "balanced_with (add_mset u pend) t"
proof -
  define i1 where "i1 = snd (create_node_execution (xs_supply s) (r\<lparr>rq_node_id := nd_id nd\<rparr>) PyNone
    (xs_invocation s))"
  define i2 where "i2 = add_scheduled (node_instance_key (nd_id nd) (rq_scope r))
    (update_execution (xs_supply s) (base_revisions (xs_supply s) (ctx_revision (inv_context i1))
      (ctx_revision (xs_session s))) i1)"
  from assms obtain i3 where run: "mark_node_running (env_now E) (xs_supply s) PyNone i2 = Inr i3"
    and u: "u = xs_supply s"
    and t: "t = record_detail ''node.running'' [xs_supply s]
      [(''node_id'', PyStr (nd_id nd)), (''node_execution_id'', enc_uuid (xs_supply s)),
       (''state'', PyStr ''running'')] (s\<lparr>xs_invocation := i3, xs_supply := Suc (xs_supply s)\<rparr>)"
    by (auto simp: start_execution_def Let_def bindR_eq_Inr i1_def i2_def)
  have grows: "history_grows s t" by (rule history.R_start_execution [OF assms(1)])
  have fresh: "history_fresh s" using assms(2) by (simp add: books_def Let_def)
  have ids1: "map ne_id (inv_node_executions i1) = map ne_id (inv_node_executions (xs_invocation s)) @ [xs_supply s]"
    and st1: "statuses i1 = statuses (xs_invocation s) @ [(xs_supply s, NodeReady)]"
    by (simp_all add: i1_def create_node_execution_def Let_def mark_ready_def statuses_def)
  have d1: "distinct (map ne_id (inv_node_executions i1))"
    using fresh by (auto simp: ids1 history_fresh_def history_ok_def)
  have ev: "evolves i1 i2"
  proof -
    have "evolves i1 (update_execution (xs_supply s) (base_revisions (xs_supply s)
        (ctx_revision (inv_context i1)) (ctx_revision (xs_session s))) i1)"
      by (rule update_execution_evolves) simp
    then show ?thesis by (simp add: i2_def add_scheduled_def evolves_def)
  qed
  have d2: "distinct (map ne_id (inv_node_executions i2))" using d1 by (simp add: evolves_sequences [OF ev])
  have st2: "statuses i2 = statuses i1"
    by (simp add: i2_def add_scheduled_def statuses_def update_execution_def map_update_first base_revisions_def)
  have i3: "i3 = mark_running (update_execution (xs_supply s) (node_mark_running (env_now E) PyNone) i2)"
    using run by (auto simp: mark_node_running_def bindR_eq_Inr)
  have "statuses i3 = set_status (xs_supply s) NodeRunning (statuses i2)"
    using statuses_update [OF d2, of "node_mark_running (env_now E) PyNone" NodeRunning "xs_supply s"]
    by (simp add: i3 mark_running_def statuses_def)
  moreover have "set_status (xs_supply s) NodeRunning (statuses (xs_invocation s)) = statuses (xs_invocation s)"
    using fresh by (auto simp: set_status_def statuses_def history_fresh_def)
  moreover have stt: "statuses (xs_invocation t) = statuses i3" by (simp add: t statuses_def)
  ultimately have st: "statuses (xs_invocation t) = statuses (xs_invocation s) @ [(u, NodeRunning)]"
    using st1 st2 stt by (simp add: u set_status_append)
  have waits: "waits_of (xs_invocation t) = waits_of (xs_invocation s)"
    by (simp add: t i3 mark_running_def i2_def add_scheduled_def i1_def create_node_execution_def Let_def)
  have "xs_mailbox t = xs_mailbox s" by (simp add: t)
  with assms(2) history_fresh_grows [OF grows fresh] st waits show ?thesis
    by (auto simp: books_def Let_def waiting_ids_def)
qed

lemma balanced_run_request:
  assumes "run_request E nd r s = Inr out" and "balanced_with pend s"
  shows "case out of SubmitJob t j \<Rightarrow> balanced_with (add_mset (job_id j) pend) t
     | SubmitNext t \<Rightarrow> balanced_with pend t | SubmitStop t \<Rightarrow> balanced_with pend t"
proof (cases "check_node_execution_resource (xs_invocation s) nd")
  case (Some err)
  with assms show ?thesis
    by (auto simp: run_request_def balanced_failed)
next
  case None
  with assms(1) obtain u s1 where start: "start_execution E nd r s = Inr (u, s1)"
    and rest: "(case prepare_input (env_workflow E) (xs_session s1) (xs_invocation s1) nd r
          (case rq_idempotency_key r of None \<Rightarrow> uuid_str u | Some k \<Rightarrow> k) of
        Inl x \<Rightarrow> bindR (fail_mapping E nd u x s1) (\<lambda>s2. Inr (SubmitNext s2))
      | Inr (mp, v) \<Rightarrow> finish_submission E nd u mp v s1) = Inr out"
    by (auto simp: run_request_def bindR_eq_Inr)
  note b = start_execution_books [OF start assms(2)]
  show ?thesis
  proof (cases "prepare_input (env_workflow E) (xs_session s1) (xs_invocation s1) nd r
          (case rq_idempotency_key r of None \<Rightarrow> uuid_str u | Some k \<Rightarrow> k)")
    case (Inl x)
    with rest obtain s2 s3 s4 where "calm s1 s2" and fail: "on_invocation_res (mark_node_failed (env_now E) u
          (mk_error ''INPUT_MAPPING_FAILED'' (exn_message x)
            [(''node_id'', PyStr (nd_id nd)), (''error_type'', PyStr (exn_type x))])) s2 = Inr s3"
      "calm s3 s4" "out = SubmitNext s4"
      by (auto simp: fail_mapping_def Let_def bindR_eq_Inr intro: calm.R_event)
    from \<open>calm s1 s2\<close> b have "balanced_with (add_mset u pend) s2" by (rule calm_balanced)
    with fail(1) have "balanced_with pend s3" by (rule balanced_node_failed [OF _ settling_running])
    with fail(2) have "balanced_with pend s4" by (rule calm_balanced)
    with fail(3) show ?thesis by simp
  next
    case (Inr mv)
    then obtain mp v where mv: "prepare_input (env_workflow E) (xs_session s1) (xs_invocation s1) nd r
          (case rq_idempotency_key r of None \<Rightarrow> uuid_str u | Some k \<Rightarrow> k) = Inr (mp, v)" by (cases mv) auto
    define s2 where "s2 = record_event ''input_mapping.completed'' [u] False
        [(''node_id'', PyStr (nd_id nd)), (''node_execution_id'', enc_uuid u),
         (''state'', PyStr ''completed'')] PyNone v
        (on_invocation (update_execution u (\<lambda>n. n\<lparr>ne_input := v\<rparr>)) s1)"
    have "calm s1 s2" unfolding s2_def by (rule calm.R_quiet_event) (simp add: update_execution_quiet)
    then have b2: "balanced_with (add_mset u pend) s2" using b by (rule calm_balanced)
    from rest mv have fin: "finish_submission E nd u mp v s1 = Inr out" by simp
    show ?thesis
    proof (cases "check_operator_attempt_resource (xs_invocation s2) nd")
      case (Some err)
      with fin obtain s3 where "on_invocation_res (mark_node_failed (env_now E) u err) s2 = Inr s3"
        "out = SubmitNext s3"
        by (auto simp: finish_submission_def Let_def bindR_eq_Inr s2_def)
      with b2 show ?thesis by (auto intro: balanced_node_failed [OF _ settling_running])
    next
      case None
      with fin obtain n where "require_node_execution u (xs_invocation s2) = Inr n"
        "out = SubmitJob s2 (make_job E nd n v mp s2)"
        by (auto simp: finish_submission_def Let_def bindR_eq_Inr s2_def)
      with b2 get_node_execution_id [of u "xs_invocation s2" n] show ?thesis
        by (auto simp: make_job_def Let_def require_node_execution_def split: option.splits)
    qed
  qed
qed

text \<open>Settling an execution changes the invocation's state only to failed.\<close>

definition state_kept :: "exec_state \<Rightarrow> exec_state \<Rightarrow> bool" where
  "state_kept s t \<longleftrightarrow> inv_state (xs_invocation t) = inv_state (xs_invocation s)
     \<or> inv_state (xs_invocation t) = InvFailed"

interpretation kept: settle_relation state_kept
proof
  fix s t u j name ids force d inp out w b n c p w' b' n' c' p'
  show "state_kept s s" by (simp add: state_kept_def)
  show "state_kept s u" if "state_kept s t" "state_kept t u" using that by (auto simp: state_kept_def)
  show "state_kept s (record_event name ids force d inp out s)" by (simp add: state_kept_def)
  show ev: "state_kept s (s\<lparr>xs_invocation := j\<rparr>)" if "settles (xs_invocation s) j"
    using that by (simp add: state_kept_def settles_def)
  show "state_kept s (s\<lparr>xs_invocation := j\<rparr>)" if "quiet (xs_invocation s) j"
    using that ev by (simp add: quiet_settles)
  show "state_kept s (s\<lparr>xs_invocation := (xs_invocation s)\<lparr>inv_context := c\<rparr>, xs_session := c'\<rparr>)"
    by (simp add: state_kept_def)
qed

abbreviation interrupted :: "exec_state \<Rightarrow> bool" where
  "interrupted s \<equiv> inv_state (xs_invocation s) = InvInterrupted"

definition none_active :: "invocation \<Rightarrow> bool" where
  "none_active i \<longleftrightarrow> (\<forall>n \<in> set (inv_node_executions i). \<not> active_state (ne_state n))"

lemma none_active_statuses: "none_active i \<longleftrightarrow> (\<forall>(u, st) \<in> set (statuses i). \<not> active_state st)"
  by (auto simp: none_active_def statuses_def)

lemma none_active_calm: "calm s t \<Longrightarrow> none_active (xs_invocation s) \<Longrightarrow> none_active (xs_invocation t)"
  by (simp add: none_active_statuses calm_def)

lemma interrupt_none_active:
  "none_active (interrupt_active_node_executions now e i)" "none_active (cancel_active_node_executions now e i)"
  by (auto simp: none_active_def dest: interrupt_active_none_active cancel_active_none_active)

lemma none_active_marks [simp]:
  "none_active (mark_interrupted eo i) = none_active i" "none_active (mark_failed e i) = none_active i"
  "none_active (mark_completed r i) = none_active i" "none_active (mark_cancelled i) = none_active i"
  by (simp_all add: none_active_def inv_mark_defs)

lemma record_terminal_calm: "calm s (record_terminal_node_events us s)"
  by (rule calm.R_record_terminal)

lemma interrupt_unfinished_none_active:
  "none_active (xs_invocation (snd (interrupt_unfinished_nodes E w err s)))"
  unfolding interrupt_unfinished_nodes_def Let_def snd_conv
  by (rule none_active_calm [OF record_terminal_calm]) (simp add: interrupt_none_active abandon_workers_def)

lemma cancel_unfinished_none_active:
  "none_active (xs_invocation (snd (cancel_unfinished_nodes E err s)))"
  unfolding cancel_unfinished_nodes_def Let_def snd_conv
  by (rule none_active_calm [OF record_terminal_calm]) (simp add: interrupt_none_active abandon_workers_def)

lemma none_active_event [simp]:
  "none_active (xs_invocation (record_event name ids f d inp out s)) = none_active (xs_invocation s)"
  by (simp add: none_active_def)

lemma interrupt_recovery_ends:
  "interrupted (interrupt_recovery E code msg s) \<and> none_active (xs_invocation (interrupt_recovery E code msg s))"
  unfolding interrupt_recovery_def Let_def case_prod_unfold
  by (simp add: interrupt_unfinished_none_active) (simp add: mark_interrupted_def)

definition stopped :: "uuid multiset \<Rightarrow> exec_state \<Rightarrow> bool" where
  "stopped pend t \<longleftrightarrow> inv_state (xs_invocation t) = InvFailed \<and> balanced_with pend t
     \<or> interrupted t \<and> none_active (xs_invocation t)"

lemma finish_submission_goes_on: "finish_submission E nd u mp v s \<noteq> Inr (SubmitStop t)"
  by (auto simp: finish_submission_def Let_def bindR_eq_Inr split: option.splits)

lemma balanced_submit_request:
  assumes "submit_request E r s = Inr out" and "balanced_with pend s" and "\<not> interrupted s"
  shows "case out of SubmitJob t j \<Rightarrow> balanced_with (add_mset (job_id j) pend) t \<and> \<not> interrupted t
     | SubmitNext t \<Rightarrow> balanced_with pend t \<and> \<not> interrupted t | SubmitStop t \<Rightarrow> stopped pend t"
proof -
  have failed: "stopped pend (on_invocation (mark_failed e) s)" for e
    using balanced_failed [OF assms(2), of e] by (simp add: stopped_def mark_failed_def)
  have blocked: ?thesis if "block_recovery E r s = Inr out"
  proof (cases "wf_failure_mode (env_workflow E) = FailFast")
    case True
    with that show ?thesis
      by (auto simp: block_recovery_def Let_def stopped_def interrupt_recovery_ends)
  next
    case False
    with that obtain s1 s2 where d: "on_invocation_res (defer_terminal (recovery_rejected_error
          (replay_message (rq_node_id r)) (rq_node_id r)) InvInterrupted) s = Inr s1"
      "on_invocation_res (skip_ready_request (env_workflow E) (env_fuel E) r) s1 = Inr s2"
      "out = SubmitNext (record_detail ''recovery.node_skipped'' []
          [(''recovery_blocked_node_id'', PyStr (rq_node_id r))] s2)"
      by (auto simp: block_recovery_def Let_def bindR_eq_Inr)
    let ?t = "record_detail ''recovery.node_skipped'' [] [(''recovery_blocked_node_id'', PyStr (rq_node_id r))] s2"
    have "calm s ?t"
      by (rule calm.R_trans [OF calm.R_deferred [OF d(1)] calm.R_trans [OF calm.R_skipped_request [OF d(2)] calm.R_event]])
    moreover have "state_kept s ?t"
      by (rule kept.R_trans [OF kept.R_deferred [OF d(1)] kept.R_trans [OF kept.R_skipped_request [OF d(2)] kept.R_event]])
    ultimately show ?thesis using assms(2,3) d(3) by (auto simp: state_kept_def dest: calm_balanced)
  qed
  have run: ?thesis if run: "run_request E nd r s = Inr out" for nd
  proof -
    have alive: "case out of SubmitJob t j \<Rightarrow> \<not> interrupted t | SubmitNext t \<Rightarrow> \<not> interrupted t
        | SubmitStop t \<Rightarrow> inv_state (xs_invocation t) = InvFailed"
    proof (cases "check_node_execution_resource (xs_invocation s) nd")
      case (Some err)
      with run show ?thesis by (auto simp: run_request_def mark_failed_def)
    next
      case None
      with run obtain u s1 where start: "start_execution E nd r s = Inr (u, s1)"
        and rest: "(case prepare_input (env_workflow E) (xs_session s1) (xs_invocation s1) nd r
              (case rq_idempotency_key r of None \<Rightarrow> uuid_str u | Some k \<Rightarrow> k) of
            Inl x \<Rightarrow> bindR (fail_mapping E nd u x s1) (\<lambda>s2. Inr (SubmitNext s2))
          | Inr (mp, v) \<Rightarrow> finish_submission E nd u mp v s1) = Inr out"
        by (auto simp: run_request_def bindR_eq_Inr)
      from start have "inv_state (xs_invocation s1) = InvRunning"
        by (auto simp: start_execution_def Let_def bindR_eq_Inr mark_node_running_def mark_running_def)
      moreover have "case out of SubmitJob t j \<Rightarrow> state_kept s1 t | SubmitNext t \<Rightarrow> state_kept s1 t
          | SubmitStop t \<Rightarrow> False"
        using rest kept.R_finish_submission [of E nd u _ _ s1 out] finish_submission_goes_on
        by (auto simp: bindR_eq_Inr dest: kept.R_fail_mapping
            split: sum.splits prod.splits submit_outcome.splits)
      ultimately show ?thesis by (auto simp: state_kept_def split: submit_outcome.splits)
    qed
    with balanced_run_request [OF run assms(2)] show ?thesis
      by (auto simp: stopped_def split: submit_outcome.splits)
  qed
  show ?thesis
    using assms(1) failed blocked run
    by (auto simp: submit_request_def split: option.splits if_splits)
qed

lemma balanced_submit_ready:
  assumes "submit_ready_requests E rs s jobs = Inr (t, js)"
    and "balanced_with (mset (map job_id jobs)) s" and "\<not> interrupted s"
  shows "balanced_with (mset (map job_id js)) t \<and> \<not> interrupted t \<or> interrupted t \<and> none_active (xs_invocation t)"
  using assms
proof (induction rs arbitrary: s jobs)
  case (Cons r rs)
  then obtain out where out: "submit_request E r s = Inr out" by (auto simp: bindR_eq_Inr)
  note step = balanced_submit_request [OF out Cons.prems(2,3)]
  show ?case
  proof (cases out)
    case (SubmitStop s')
    with Cons.prems(1) out step show ?thesis by (auto simp: stopped_def)
  next
    case (SubmitNext s')
    with Cons.prems(1) out have "submit_ready_requests E rs s' jobs = Inr (t, js)" by simp
    then show ?thesis by (rule Cons.IH) (use step SubmitNext in auto)
  next
    case (SubmitJob s' j)
    with Cons.prems(1) out have "submit_ready_requests E rs s' (jobs @ [j]) = Inr (t, js)" by simp
    then show ?thesis by (rule Cons.IH) (use step SubmitJob in auto)
  qed
qed simp

end
