(* ===== verification/Executor_Loop.thy ===== *)
theory Executor_Loop
  imports Executor_Balance
begin

text \<open>
  The control loop keeps the books: what holds while it runs, when it waits for its workers and
  when it returns.
\<close>

section \<open>The loop\<close>

definition live :: "exec_state \<Rightarrow> bool" where
  "live s \<longleftrightarrow> balanced s \<and> \<not> interrupted s"

text \<open>What holds when the loop returns.\<close>

definition returned_ok :: "exec_state \<Rightarrow> bool" where
  "returned_ok t \<longleftrightarrow>
     (let i = xs_invocation t in
      inv_state i = InvWaiting \<and> balanced t \<and> ids_in {NodeRunning} (statuses i) = {#} \<and> waits_of i \<noteq> []
      \<or> inv_state i \<in> {InvCompleted, InvFailed} \<and> none_active i \<and> outstanding (xs_mailbox t) = []
      \<or> inv_state i = InvInterrupted \<and> none_active i)"

lemma submit_job_same_ids:
  assumes "submit_job reg m j = Inr m'" and "\<forall>(t, u) \<in> set (mb_running m). t = u"
  shows "\<forall>(t, u) \<in> set (mb_running m'). t = u"
proof -
  have "set (dict_set k v d) \<subseteq> insert (k, v) (set d)" for k v :: nat and d
    unfolding dict_set_def by (induction d) auto
  note set = this [of "job_id j" "job_id j" "mb_running m"]
  from assms(1) obtain d where d: "(case d of Immediate r \<Rightarrow> Inr (put_message (ResultMessage r) m)
      | Started _ \<Rightarrow> track (job_id j) (job_id j) m) = Inr m'"
    by (auto simp: submit_job_def bindR_eq_Inr)
  show ?thesis using d assms(2) set by (cases d) (auto simp: put_message_def track_def split: if_splits)
qed

lemma submit_batch_same_ids:
  assumes "submit_batch reg jobs m = Inr m'" and "\<forall>(t, u) \<in> set (mb_running m). t = u"
  shows "\<forall>(t, u) \<in> set (mb_running m'). t = u"
  using assms unfolding submit_batch_def
  by (rule foldR_invariant [where P = "\<lambda>m. \<forall>(t, u) \<in> set (mb_running m). t = u"])
    (rule submit_job_same_ids)

lemma balanced_distinct_ids:
  assumes "balanced_with (mset us) s"
  shows "distinct us" "set us \<inter> set (map snd (mb_running (xs_mailbox s))) = {}"
proof -
  have c: "count (mset us) u + count (mset (outstanding (xs_mailbox s))) u \<le> 1" for u
  proof -
    have "count (mset us) u + count (mset (outstanding (xs_mailbox s))) u
        = count (ids_in {NodeRunning} (statuses (xs_invocation s))) u"
      using assms by (simp add: books_def Let_def)
    also have "\<dots> \<le> 1" by (rule ids_in_distinct) (simp add: balanced_distinct [OF assms])
    finally show ?thesis .
  qed
  show "distinct us" by (rule count_le_distinct, rule le_trans [OF le_add1 c])
  show "set us \<inter> set (map snd (mb_running (xs_mailbox s))) = {}"
  proof (rule ccontr)
    assume "\<not> ?thesis"
    then obtain u where u: "u \<in> set us" "u \<in> set (outstanding (xs_mailbox s))"
      by (auto simp: outstanding_def)
    then have "count (mset us) u > 0" "count (mset (outstanding (xs_mailbox s))) u > 0"
      by (simp_all only: count_greater_zero_iff set_mset_mset)
    with c [of u] show False by linarith
  qed
qed

lemma balanced_submit_batch:
  assumes "submit_batch reg jobs (xs_mailbox s) = Inr m" and "balanced_with (mset (map job_id jobs)) s"
  shows "balanced (s\<lparr>xs_mailbox := m\<rparr>)"
proof (rule balanced_mailbox [OF assms(2)])
  have b: "mb_accepting (xs_mailbox s)" "\<forall>(t, u) \<in> set (mb_running (xs_mailbox s)). t = u"
    using assms(2) by (auto simp: books_def Let_def)
  have keys: "dict_keys (mb_running (xs_mailbox s)) = map snd (mb_running (xs_mailbox s))"
    using b(2) by (auto simp: dict_keys_def intro!: map_cong)
  have disjoint: "set (map job_id jobs) \<inter> set (dict_keys (mb_running (xs_mailbox s))) = {}"
    unfolding keys by (rule balanced_distinct_ids(2) [OF assms(2)])
  note batch = submit_batch_step [OF assms(1) b(1) balanced_distinct_ids(1) [OF assms(2)] disjoint]
  then show "mset (outstanding m) + {#} = mset (outstanding (xs_mailbox s)) + mset (map job_id jobs)"
    "mb_accepting m" by simp_all
  show "\<forall>(t, u) \<in> set (mb_running m). t = u" by (rule submit_batch_same_ids [OF assms(1) b(2)])
qed

lemma outstanding_abandoned: "outstanding (snd (abandon late m)) = []"
  by (simp add: abandon_def drain_messages_def Let_def outstanding_def)

lemma outstanding_close [simp]: "outstanding (close_mailbox m) = outstanding m"
  by (simp add: close_mailbox_def outstanding_def)

lemma record_terminal_frame:
  "xs_mailbox (record_terminal_node_events us s) = xs_mailbox s"
  "inv_state (xs_invocation (record_terminal_node_events us s)) = inv_state (xs_invocation s)"
proof -
  have node: "xs_mailbox (record_node_state u s) = xs_mailbox s
      \<and> inv_state (xs_invocation (record_node_state u s)) = inv_state (xs_invocation s)" for u s
    by (simp add: record_node_state_def split: option.splits)
  have "xs_mailbox (foldl (\<lambda>s u. record_node_state u s) s us) = xs_mailbox s
      \<and> inv_state (xs_invocation (foldl (\<lambda>s u. record_node_state u s) s us)) = inv_state (xs_invocation s)"
    by (induction us arbitrary: s) (simp_all add: node)
  then show "xs_mailbox (record_terminal_node_events us s) = xs_mailbox s"
    "inv_state (xs_invocation (record_terminal_node_events us s)) = inv_state (xs_invocation s)"
    by (simp_all add: record_terminal_node_events_def)
qed

lemma cancel_unfinished_frame:
  "outstanding (xs_mailbox (snd (cancel_unfinished_nodes E err s))) = []"
  "inv_state (xs_invocation (snd (cancel_unfinished_nodes E err s))) = inv_state (xs_invocation s)"
  unfolding cancel_unfinished_nodes_def Let_def snd_conv
  by (simp_all add: record_terminal_frame abandon_workers_def outstanding_abandoned
      cancel_active_node_executions_def)

lemma finish_failed_returned:
  assumes "inv_state (xs_invocation s) = InvFailed"
  shows "returned_ok (finish_failed_invocation E s)"
  using cancel_unfinished_none_active [of E _ s] cancel_unfinished_frame [of E _ s] assms
  by (simp add: finish_failed_invocation_def Let_def case_prod_unfold returned_ok_def close_state_def)

lemma drive_ready_books:
  assumes "drive_ready E rs s = Inr out" and "live s"
  shows "case out of Continue t \<Rightarrow> live t | AwaitWorkers t \<Rightarrow> False | Returned t \<Rightarrow> returned_ok t"
proof -
  from assms(1) obtain s1 jobs m where submit: "submit_ready_requests E rs s [] = Inr (s1, jobs)"
    and m: "jobs \<noteq> [] \<Longrightarrow> submit_batch (env_registry E) jobs (xs_mailbox s1) = Inr m"
    and out: "out = (let s2 = (if jobs = [] then s1 else s1\<lparr>xs_mailbox := m\<rparr>) in
       if inv_state (xs_invocation s2) = InvInterrupted then Returned s2
       else if inv_state (xs_invocation s2) = InvFailed then Returned (finish_failed_invocation E s2)
       else Continue s2)"
    by (force simp: drive_ready_def bindR_eq_Inr split: if_splits)
  define s2 where "s2 = (if jobs = [] then s1 else s1\<lparr>xs_mailbox := m\<rparr>)"
  have b: "balanced_with (mset (map job_id jobs)) s1 \<and> \<not> interrupted s1
      \<or> interrupted s1 \<and> none_active (xs_invocation s1)"
    by (rule balanced_submit_ready [OF submit]) (use assms(2) in \<open>simp_all add: live_def\<close>)
  have same: "xs_invocation s2 = xs_invocation s1" by (simp add: s2_def)
  show ?thesis
  proof (cases "interrupted s2")
    case True
    with b show ?thesis by (auto simp: out s2_def [symmetric] Let_def returned_ok_def same)
  next
    case False
    with b have "balanced s2" by (auto simp: same s2_def intro: balanced_submit_batch m)
    with False show ?thesis by (auto simp: out s2_def [symmetric] Let_def live_def finish_failed_returned)
  qed
qed

lemma drive_transitions_books:
  assumes "drive_transitions E ts s = Inr out" and "live s"
  shows "case out of Continue t \<Rightarrow> live t | AwaitWorkers t \<Rightarrow> False | Returned t \<Rightarrow> returned_ok t"
proof -
  define W where "W = env_workflow E"
  from assms(1) obtain s1 s2 where next_step: "on_invocation_res (scheduler_next W (env_fuel E) (xs_session s) ts) s = Inr s1"
    and s2: "s2 = record_new_skipped_nodes (skipped_node_instances (inv_scheduler (xs_invocation s)))
        (record_edge_events ts (xs_invocation s) s1)"
    and out: "out = (if inv_state (xs_invocation s2) = InvFailed
        then Returned (finish_failed_invocation E s2) else Continue s2)"
    by (auto simp: drive_transitions_def Let_def bindR_eq_Inr W_def)
  have "calm s s2" unfolding s2
    by (rule calm.R_trans [OF calm.R_scheduled [OF next_step]
          calm.R_trans [OF calm.R_record_edge_events calm.R_record_new_skipped]])
  moreover have "state_kept s s2" unfolding s2
    by (rule kept.R_trans [OF kept.R_scheduled [OF next_step]
          kept.R_trans [OF kept.R_record_edge_events kept.R_record_new_skipped]])
  ultimately show ?thesis
    using assms(2) by (auto simp: out live_def state_kept_def finish_failed_returned dest: calm_balanced)
qed

lemma drive_messages_books:
  assumes "drive_messages E s = Inr out" and "live s" and "has_pending (xs_mailbox s)"
  shows "case out of Continue t \<Rightarrow> live t | AwaitWorkers t \<Rightarrow> live t \<and> mb_running (xs_mailbox t) \<noteq> []
     | Returned t \<Rightarrow> False"
proof -
  have "balanced (outcome_state out)"
    by (rule balanced_drive_messages [OF assms(1)]) (use assms(2) in \<open>simp add: live_def\<close>)
  moreover have "state_kept s (outcome_state out)"
    using assms(1) kept.R_apply_messages
    by (auto simp: drive_messages_def bindR_eq_Inr state_kept_def split: prod.splits wait_outcome.splits)
      (metis exec_state.select_convs(1) exec_state.surjective exec_state.update_convs(3))
  ultimately show ?thesis
    using assms by (auto simp: live_def state_kept_def drive_messages_def wait_for_messages_def
        drain_messages_def Let_def has_pending_def bindR_eq_Inr split: if_splits drive_outcome.splits)
qed

lemma drive_deferred_returned: "returned_ok (drive_deferred E st s)"
proof (cases "st = InvInterrupted")
  case True
  then show ?thesis
    by (simp add: drive_deferred_def Let_def case_prod_unfold returned_ok_def close_state_def
        interrupt_unfinished_none_active) (simp add: mark_interrupted_def)
next
  case False
  then show ?thesis
    by (simp add: drive_deferred_def Let_def finish_failed_returned mark_failed_def)
qed

lemma balanced_idle:
  assumes "balanced s" and "\<not> has_pending (xs_mailbox s)"
  shows "outstanding (xs_mailbox s) = []" "ids_in {NodeRunning} (statuses (xs_invocation s)) = {#}"
  using assms by (simp_all add: has_pending_def books_def Let_def outstanding_def)

lemma none_active_iff:
  "none_active i \<longleftrightarrow> ids_in {NodeRunning} (statuses i) = {#} \<and> ids_in {NodeWaiting} (statuses i) = {#}
     \<and> ids_in {NodeCreated, NodeReady} (statuses i) = {#}"
  by (auto simp: none_active_statuses ids_in_def filter_empty_conv active_state_def)

lemma drive_completed_returned:
  assumes "balanced s" and "\<not> has_pending (xs_mailbox s)" and "waits_of (xs_invocation s) = []"
  shows "returned_ok (drive_completed E s)"
proof -
  have "none_active (xs_invocation s)"
    using assms balanced_idle [OF assms(1,2)] by (simp add: none_active_iff books_def Let_def waiting_ids_def)
  with balanced_idle(1) [OF assms(1,2)] show ?thesis
    by (simp add: drive_completed_def returned_ok_def Let_def close_state_def) (simp add: mark_completed_def)
qed

lemma drive_waiting_returned:
  assumes "balanced s" and "\<not> has_pending (xs_mailbox s)" and "waits_of (xs_invocation s) \<noteq> []"
  shows "returned_ok (drive_waiting s)"
proof -
  let ?t = "drive_waiting s"
  have "calm (on_invocation mark_waiting s) ?t"
    unfolding drive_waiting_def Let_def by (rule calm.R_event)
  moreover have "calm s (on_invocation mark_waiting s)"
    by (simp add: calm_def statuses_def mark_waiting_def)
  ultimately have c: "calm s ?t" by (rule calm.R_trans [rotated])
  have "inv_state (xs_invocation ?t) = InvWaiting"
    by (simp add: drive_waiting_def Let_def) (simp add: mark_waiting_def)
  with calm_balanced [OF c assms(1)] balanced_idle(2) [OF assms(1,2)] c assms(3) show ?thesis
    by (simp add: returned_ok_def Let_def calm_def)
qed

lemma live_drained:
  assumes "live s" and "waiting_executions c = waits_of (xs_invocation s)"
  shows "live (on_invocation (\<lambda>i. i\<lparr>inv_scheduler := c\<rparr>) s)"
proof -
  have "calm s (on_invocation (\<lambda>i. i\<lparr>inv_scheduler := c\<rparr>) s)" by (rule calm.R_drained) (rule assms(2))
  with assms(1) show ?thesis by (auto simp: live_def dest: calm_balanced)
qed

text \<open>The turns of the loop.\<close>

lemma drive_step_cases:
  fixes E s
  defines "i \<equiv> xs_invocation s" and "m \<equiv> xs_mailbox s"
  defines "c \<equiv> inv_scheduler i"
  assumes "drive_step E s = Inr out"
  obtains "inv_state i = InvFailed" "out = Returned (finish_failed_invocation E s)"
    | "inv_state i \<noteq> InvFailed" "transition_queue c \<noteq> []" "drive_transitions E (transition_queue c)
        (s\<lparr>xs_invocation := i\<lparr>inv_scheduler := c\<lparr>transition_queue := []\<rparr>\<rparr>\<rparr>) = Inr out"
    | "inv_state i \<noteq> InvFailed" "transition_queue c = []" "ready_queue c \<noteq> []" "drive_ready E (ready_queue c)
        (s\<lparr>xs_invocation := i\<lparr>inv_scheduler := c\<lparr>ready_queue := []\<rparr>\<rparr>\<rparr>) = Inr out"
    | "inv_state i \<noteq> InvFailed" "transition_queue c = []" "ready_queue c = []" "has_pending m"
      "drive_messages E s = Inr out"
    | "transition_queue c = []" "ready_queue c = []" "\<not> has_pending m" "waiting_executions c \<noteq> []"
      "out = Returned (drive_waiting s)"
    | st where "transition_queue c = []" "ready_queue c = []" "\<not> has_pending m" "waiting_executions c = []"
      "inv_deferred_terminal_state i = Some st" "out = Returned (drive_deferred E st s)"
    | "transition_queue c = []" "ready_queue c = []" "\<not> has_pending m" "waiting_executions c = []"
      "inv_deferred_terminal_state i = None" "is_completed (env_workflow E) i" "out = Returned (drive_completed E s)"
    | "transition_queue c = []" "ready_queue c = []" "\<not> has_pending m" "waiting_executions c = []"
      "inv_deferred_terminal_state i = None" "\<not> is_completed (env_workflow E) i"
      "out = Returned (finish_failed_invocation E (s\<lparr>xs_invocation := mark_failed dead_end i\<rparr>))"
proof -
  note d = assms(4) [unfolded drive_step_def Let_def, folded assms(1,2), folded assms(3)]
  show thesis
  proof (cases "inv_state i = InvFailed")
    case True
    with d show thesis by (intro that(1)) simp_all
  next
    case live: False
    show thesis
    proof (cases "transition_queue c = []")
      case False
      with live d show thesis by (intro that(2)) simp_all
    next
      case t: True
      show thesis
      proof (cases "ready_queue c = []")
        case False
        with live t d show thesis by (intro that(3)) simp_all
      next
        case r: True
        show thesis
        proof (cases "has_pending m \<or> waiting_executions c \<noteq> []")
          case True
          with live t r d show thesis by (cases "has_pending m") (auto intro: that(4,5))
        next
          case False
          with live t r d show thesis
            by (cases "inv_deferred_terminal_state i"; cases "is_completed (env_workflow E) i")
              (auto intro: that(6,7,8))
        qed
      qed
    qed
  qed
qed

lemma drive_step_books:
  assumes "drive_step E s = Inr out" and "live s"
  shows "case out of Continue t \<Rightarrow> live t | AwaitWorkers t \<Rightarrow> live t \<and> mb_running (xs_mailbox t) \<noteq> []
     | Returned t \<Rightarrow> returned_ok t"
proof -
  let ?i = "xs_invocation s" and ?c = "inv_scheduler (xs_invocation s)" and ?m = "xs_mailbox s"
  have b: "balanced s" using assms(2) by (simp add: live_def)
  have drained: "live (on_invocation (\<lambda>i. i\<lparr>inv_scheduler := ?c\<lparr>transition_queue := []\<rparr>\<rparr>) s)"
    "live (on_invocation (\<lambda>i. i\<lparr>inv_scheduler := ?c\<lparr>ready_queue := []\<rparr>\<rparr>) s)"
    by (rule live_drained [OF assms(2)]; simp)+
  note t = drive_transitions_books [OF _ drained(1)] and r = drive_ready_books [OF _ drained(2)]
    and d = drive_messages_books [OF _ assms(2)]
  from assms(1) show ?thesis
  proof (cases rule: drive_step_cases)
    case 1
    then show ?thesis by (simp add: finish_failed_returned)
  next
    case 2
    then show ?thesis by (auto dest: t split: drive_outcome.splits)
  next
    case 3
    then show ?thesis by (auto dest: r split: drive_outcome.splits)
  next
    case 4
    show ?thesis using d [OF 4(5,4)] by (cases out) auto
  next
    case 5
    then show ?thesis using b drive_waiting_returned [of s] by simp
  next
    case (6 st)
    then show ?thesis by (simp add: drive_deferred_returned)
  next
    case 7
    then show ?thesis using b drive_completed_returned [of s E] by simp
  next
    case 8
    have "returned_ok (finish_failed_invocation E (on_invocation (mark_failed dead_end) s))"
      by (rule finish_failed_returned) (simp add: mark_failed_def)
    with 8 show ?thesis by simp
  qed
qed

lemma run_step_live:
  assumes "run_step E s t" and "live s"
  shows "live t"
  using assms(1)
proof (cases rule: run_step.cases)
  case run_control
  with drive_step_books [OF _ assms(2)] show ?thesis by force
next
  case (run_progress t u x)
  with assms(2) show ?thesis by (auto simp: live_def intro: balanced_worker_progress)
next
  case (run_finish t u r m)
  with assms(2) show ?thesis by (auto simp: live_def intro: balanced_worker_finish)
qed

lemma runs_live: "runs E s t \<Longrightarrow> live s \<Longrightarrow> live t"
  by (induction rule: runs.induct) (auto intro: run_step_live)

section \<open>Entering the loop\<close>

text \<open>A fresh executor state for a fresh invocation.\<close>

definition new_state :: "invocation \<Rightarrow> runtime_context \<Rightarrow> nat \<Rightarrow> exec_state" where
  "new_state i session supply = \<lparr>xs_invocation = i, xs_session = session, xs_mailbox = new_mailbox,
     xs_log = [], xs_supply = supply\<rparr>"

lemma new_state_live:
  "live (new_state (new_invocation uid w h entry inp mode) session supply)"
  by (simp add: live_def new_state_def new_invocation_def books_def history_fresh_def history_ok_def
      statuses_def new_mailbox_def outstanding_def waiting_ids_def dict_keys_def empty_context_def
      enqueue_ready_def enqueue_request_def)

lemma begin_invocation_calm:
  assumes "begin_invocation E s = Inr t"
  shows "calm s t" "\<not> interrupted s \<Longrightarrow> \<not> interrupted t"
proof -
  define s1 where "s1 = (if inv_state (xs_invocation s) = InvCreated
      then record_detail ''invocation.running'' [] [(''state'', PyStr ''running'')]
             (on_invocation mark_running s) else s)"
  from assms(1) obtain s2 where s2: "on_invocation_res (initialize (env_workflow E) (env_fuel E)) s1 = Inr s2"
    and t: "t = record_new_skipped_nodes (skipped_node_instances (inv_scheduler (xs_invocation s1))) s2"
    by (auto simp: begin_invocation_def Let_def bindR_eq_Inr s1_def)
  have "calm s s1" by (simp add: s1_def calm_def statuses_def) (simp add: mark_running_def)
  moreover have "calm s1 s2" using s2 by (rule calm.R_quiet_res) (rule quiet_initialize)
  moreover have "calm s2 t" by (simp add: t calm.R_record_new_skipped)
  ultimately show "calm s t" by (blast intro: calm.R_trans)
  have "state_kept s1 s2" using s2 by (rule kept.R_quiet_res) (rule quiet_initialize)
  then have "state_kept s1 t" by (rule kept.R_trans) (simp add: t kept.R_record_new_skipped)
  moreover assume "\<not> interrupted s"
  then have "\<not> interrupted s1" by (simp add: s1_def) (simp add: mark_running_def)
  ultimately show "\<not> interrupted t" by (auto simp: state_kept_def)
qed

lemma begin_invocation_live: "begin_invocation E s = Inr t \<Longrightarrow> live s \<Longrightarrow> live t"
  using begin_invocation_calm [of E s t] by (auto simp: live_def intro: calm_balanced)

lemma resume_wait_live:
  assumes "resume_wait E key out s = Inr t" and "live s"
  shows "live t"
proof -
  from assms(1) obtain w n c v s2 where w: "dict_get (waits_of (xs_invocation s)) key = Some w"
    and n: "get_node_execution (we_node_execution_id w) (xs_invocation s) = Some n"
    and c: "remove_waiting_execution key (inv_scheduler (xs_invocation s)) = Inr (w, c)"
    and s2: "complete_resumed_execution E n v (signal_wait key n v c s) = Inr s2"
    and t: "announce_resumed key n s2 = Inr t"
    by (auto simp: resume_wait_def bindR_eq_Inr Let_def remove_waiting_execution_def dict_index_eq_Inr
        split: option.splits prod.splits)
  let ?u = "ne_id n"
  define s1 where "s1 = signal_wait key n v c s"
  have u: "?u = we_node_execution_id w" by (rule get_node_execution_id [OF n])
  have c': "c = (inv_scheduler (xs_invocation s))\<lparr>waiting_executions := dict_pop key (waits_of (xs_invocation s))\<rparr>"
    using c by (auto simp: remove_waiting_execution_def bindR_eq_Inr)
  have b: "balanced s" and d: "distinct (dict_keys (waits_of (xs_invocation s)))"
    using assms(2) by (simp_all add: live_def books_def Let_def)
  have st1: "statuses (xs_invocation s1) = statuses (xs_invocation s)"
    by (simp add: s1_def signal_wait_def statuses_def update_execution_def map_update_first)
  have seq: "map ne_sequence (inv_node_executions (xs_invocation s1)) = map ne_sequence (inv_node_executions (xs_invocation s))"
    by (simp add: s1_def signal_wait_def update_execution_def map_update_first)
  have "length (inv_node_executions (xs_invocation s1)) = length (inv_node_executions (xs_invocation s))"
    by (simp add: s1_def signal_wait_def update_execution_def)
  then have fresh: "history_fresh s1" using b st1 seq
    by (simp add: history_fresh_statuses books_def Let_def) (simp add: s1_def signal_wait_def)
  have waits1: "waits_of (xs_invocation s1) = dict_pop key (waits_of (xs_invocation s))"
    by (simp add: s1_def signal_wait_def c')
  have "mset (map snd (waits_of (xs_invocation s)))
      = add_mset w (mset (map snd (dict_pop key (waits_of (xs_invocation s)))))"
    by (rule mset_remove_key) (use d w in \<open>simp_all add: dict_keys_def\<close>)
  then have "image_mset we_node_execution_id (mset (map snd (waits_of (xs_invocation s))))
      = add_mset ?u (image_mset we_node_execution_id (mset (map snd (dict_pop key (waits_of (xs_invocation s))))))"
    by (simp add: u)
  then have ids: "waiting_ids (xs_invocation s) = add_mset ?u (waiting_ids (xs_invocation s1))"
    by (simp add: waiting_ids_def waits1 comp_def case_prod_unfold image_mset.compositionality)
  have mb: "xs_mailbox s1 = xs_mailbox s" by (simp add: s1_def signal_wait_def)
  have "books {#} {#?u#} s1"
    using b fresh st1 ids d
    by (simp add: books_def Let_def waits1 distinct_dict_pop mb)
  then have settling: "settling ?u {#} s1" by (simp add: settling_def)
  have "balanced s2"
    using s2 balanced_settle_completed [OF _ settling] balanced_node_failed [OF _ settling]
    by (auto simp: complete_resumed_execution_def s1_def [symmetric] split: option.splits)
  moreover have "state_kept s s1"
    by (simp add: state_kept_def s1_def signal_wait_def)
  moreover have "state_kept s1 s2"
    using s2 by (auto simp: complete_resumed_execution_def s1_def [symmetric]
        dest: kept.R_settle_completed kept.R_node_failed split: option.splits)
  ultimately have live2: "live s2" using assms(2) by (auto simp: live_def state_kept_def)
  have running: "live (record_detail name ids d (on_invocation mark_running s'))" if "live s'" for s' name ids d
  proof -
    have "calm s' (record_detail name ids d (on_invocation mark_running s'))"
      by (simp add: calm_def statuses_def) (simp add: mark_running_def)
    with that show ?thesis by (auto simp: live_def mark_running_def dest: calm_balanced)
  qed
  have event: "live (record_detail name ids d s')" if "live s'" for s' name ids d
    using that calm_balanced [OF calm.R_event, of "{#}" "{#}" s'] by (auto simp: live_def)
  from t obtain m :: node_execution where t': "t = (let s1 = record_detail (''node.'' @ node_state_str (ne_state m)) [?u]
        [(''node_id'', PyStr (ne_node_id n)), (''node_execution_id'', enc_uuid ?u), (''resumed'', PyBool True)] s2
      in if waits_of (xs_invocation s2) = []
         then record_detail ''invocation.running'' [] [(''state'', PyStr ''running''), (''resumed_wait_key'', PyStr key)]
                (on_invocation mark_running s1)
         else s1)"
    unfolding announce_resumed_def bindR_eq_Inr Let_def by auto
  show ?thesis unfolding t' Let_def by (split if_split) (intro conjI impI running event live2)
qed

end
