(* ===== verification/Executor_Recovery.thy ===== *)
theory Executor_Recovery
  imports Executor_Loop
begin

text \<open>
  Crash recovery re-establishes the books: an invocation reloaded from a crashed process, whose
  executions may still be marked as running, is either given up with nothing left active, or
  every lost execution is interrupted and the loop continues on balanced books.
\<close>

section \<open>Reloaded invocations\<close>

abbreviation lost_states :: "node_state set" where
  "lost_states \<equiv> {NodeCreated, NodeReady, NodeRunning}"

text \<open>
  What a reloaded invocation looks like: workers are gone, waits are intact, \<open>us\<close> were lost.
\<close>

definition recovering :: "uuid list \<Rightarrow> exec_state \<Rightarrow> bool" where
  "recovering us s \<longleftrightarrow>
     (let i = xs_invocation s in
      xs_mailbox s = new_mailbox \<and> history_fresh s
      \<and> ids_in {NodeWaiting} (statuses i) = waiting_ids i
      \<and> distinct (dict_keys (waits_of i))
      \<and> ids_in lost_states (statuses i) = mset us)"

definition lost_executions :: "invocation \<Rightarrow> uuid list" where
  "lost_executions i = map ne_id (filter (\<lambda>n. ne_state n \<in> lost_states) (inv_node_executions i))"

lemma lost_executions_ids: "ids_in lost_states (statuses i) = mset (lost_executions i)"
  by (simp add: ids_in_def statuses_def lost_executions_def filter_map comp_def)

lemma recovering_calm:
  assumes "calm s t" and "recovering us s"
  shows "recovering us t"
proof -
  have "length (statuses (xs_invocation t)) = length (statuses (xs_invocation s))"
    using assms(1) by (simp only: calm_def)
  then have "length (inv_node_executions (xs_invocation t)) = length (inv_node_executions (xs_invocation s))"
    by (simp add: statuses_def)
  with assms show ?thesis
    by (simp add: recovering_def calm_def history_fresh_statuses waiting_ids_def Let_def)
qed

lemma ids_in_split:
  "ids_in {NodeCreated, NodeReady} ps + ids_in {NodeRunning} ps = ids_in lost_states ps"
  by (induction ps) auto

lemma recovering_done: "recovering [] s \<Longrightarrow> balanced s"
  using ids_in_split [of "statuses (xs_invocation s)"]
  by (simp add: recovering_def books_def Let_def new_mailbox_def outstanding_def)

lemma recovering_interrupt:
  assumes "recovering (u # us) s"
  shows "recovering us (on_invocation (update_execution u (node_mark_interrupted now e)) s)"
proof -
  let ?i = "xs_invocation s"
  let ?t = "on_invocation (update_execution u (node_mark_interrupted now e)) s"
  have fresh: "history_fresh s" and ids: "ids_in lost_states (statuses ?i) = add_mset u (mset us)"
    using assms by (simp_all add: recovering_def Let_def)
  have d: "distinct (map ne_id (inv_node_executions ?i))"
    using fresh by (simp add: history_fresh_statuses)
  have "u \<in># ids_in lost_states (statuses ?i)" unfolding ids by simp
  then obtain n where "n \<in> set (inv_node_executions ?i)" "ne_id n = u" "ne_state n \<in> lost_states"
    unfolding ids_in_mem by blast
  then have old: "(u, ne_state n) \<in> set (statuses ?i)" "ne_state n \<in> lost_states" "ne_state n \<noteq> NodeWaiting"
    by (auto simp: statuses_def)
  have st: "statuses (update_execution u (node_mark_interrupted now e) ?i) = set_status u NodeInterrupted (statuses ?i)"
    by (rule statuses_update [OF d]) simp_all
  have "distinct (map fst (statuses ?i))" using d by simp
  note set = ids_in_set_status [OF this old(1), of _ NodeInterrupted]
  have "history_fresh ?t"
    by (rule history_fresh_evolves [OF fresh]) (simp_all add: update_execution_evolves)
  with assms old show ?thesis
    by (auto simp: recovering_def Let_def st set waiting_ids_def)
qed

lemma recover_execution_books:
  assumes "recover_execution E u s = Inr out" and "recovering (u # us) s"
  shows "case out of RecoverNext t \<Rightarrow> recovering us t
     | RecoverStop t \<Rightarrow> interrupted t \<and> none_active (xs_invocation t)"
proof -
  define s1 where "s1 = record_node_state u (on_invocation
     (update_execution u (node_mark_interrupted (env_now E) (Some worker_lost))) s)"
  have s1: "recovering us s1"
    unfolding s1_def by (rule recovering_calm [OF calm.R_record_node_state recovering_interrupt [OF assms(2)]])
  have requeued: "recovering us (on_invocation (on_scheduler (enqueue_request r)) s1)" for r
    by (rule recovering_calm [OF _ s1]) (simp add: calm_def statuses_def enqueue_request_def)
  have skipped: "recovering us s3"
    if "on_invocation_res (defer_terminal e x) s1 = Inr s2"
      "on_invocation_res (skip_ready_request (env_workflow E) (env_fuel E) r) s2 = Inr s3" for e x r s2 s3
  proof -
    have "calm s1 s2" using that(1) by (rule calm.R_quiet_res) (rule quiet_deferred)
    moreover have "calm s2 s3" using that(2) by (rule calm.R_skipped_request)
    ultimately show ?thesis using s1 by (blast intro: recovering_calm)
  qed
  show ?thesis
    using assms(1) requeued skipped interrupt_recovery_ends
    by (fastforce simp: recover_execution_def Let_def s1_def [symmetric] bindR_eq_Inr
        split: option.splits if_splits)
qed

lemma recover_executions_books:
  assumes "recover_executions E us s = Inr out" and "recovering us s"
  shows "case out of RecoverNext t \<Rightarrow> recovering [] t
     | RecoverStop t \<Rightarrow> interrupted t \<and> none_active (xs_invocation t)"
  using assms
proof (induction us arbitrary: s)
  case (Cons u us)
  then obtain o1 where o1: "recover_execution E u s = Inr o1"
    and rest: "(case o1 of RecoverStop s' \<Rightarrow> Inr (RecoverStop s')
        | RecoverNext s' \<Rightarrow> recover_executions E us s') = Inr out"
    by (auto simp: bindR_eq_Inr)
  show ?case
    using recover_execution_books [OF o1 Cons.prems(2)] rest Cons.IH by (cases o1) auto
qed auto

text \<open>
  C18: Crash recovery leaves no half-recovered invocation. Starting from a reloaded invocation
  with any set of lost executions, recovery either stops with the invocation untouched because
  it had already ended, or interrupts it with no execution left active, or enters the loop with
  balanced books: no execution is marked as running without a worker, and every waiting one
  still has its entry.
\<close>

theorem recovery_rebalances:
  assumes "begin_recovery E s = Inr out" and "recovering (lost_executions (xs_invocation s)) s"
    and "inv_state (xs_invocation s) = InvCreated \<Longrightarrow> lost_executions (xs_invocation s) = []"
  shows "case out of
      RecoverNext t \<Rightarrow> balanced t \<and> ids_in lost_states (statuses (xs_invocation t)) = {#}
    | RecoverStop t \<Rightarrow> t = s \<and> inv_state (xs_invocation s) \<notin> {InvCreated, InvRunning}
        \<or> inv_state (xs_invocation t) = InvInterrupted \<and> none_active (xs_invocation t)"
proof -
  let ?us = "lost_executions (xs_invocation s)"
  define s1 where "s1 = on_invocation (\<lambda>i. i\<lparr>inv_execution_mode := ModeRecovery\<rparr>) s"
  have mode: "recovering ?us s1"
    by (rule recovering_calm [OF _ assms(2)]) (simp add: s1_def calm_def statuses_def)
  have running: "recovering [] (on_invocation mark_running t)" if "recovering [] t" for t
    by (rule recovering_calm [OF _ that]) (simp add: calm_def statuses_def mark_running_def)
  have event: "recovering [] (record_detail name ids d t)" if "recovering [] t" for name ids d t
    using calm.R_event that by (rule recovering_calm)
  have good: "balanced t \<and> ids_in lost_states (statuses (xs_invocation t)) = {#}"
    if "recovering [] t" for t
    using recovering_done [OF that] that by (simp add: recovering_def Let_def)
  have begun: "recovering [] t" if "begin_invocation E s1 = Inr t" "?us = []" for t
    using begin_invocation_calm(1) [OF that(1)] mode that(2) by (simp add: recovering_calm)
  note lost = lost_executions_def [symmetric]
  have created: "?thesis" if "inv_state (xs_invocation s) = InvCreated"
      "inv_definition_hash (xs_invocation s) = Some (wf_definition_hash (env_workflow E))"
    using assms(1,3) that begun good
    by (auto simp: begin_recovery_def Let_def s1_def [symmetric] bindR_eq_Inr)
  have resumed: "?thesis" if st: "inv_state (xs_invocation s) = InvRunning"
      "inv_definition_hash (xs_invocation s) = Some (wf_definition_hash (env_workflow E))"
  proof -
    have eq: "begin_recovery E s = (if ?us = [] then Inr (RecoverNext (on_invocation mark_running s1))
      else bindR (recover_executions E ?us s1) (\<lambda>out. Inr (case out of
          RecoverStop t \<Rightarrow> RecoverStop t
        | RecoverNext t \<Rightarrow> RecoverNext (record_detail ''recovery.requeued'' ?us
            [(''recovery_requeued'', enc_list enc_uuid ?us)] (on_invocation mark_running t)))))"
      unfolding begin_recovery_def Let_def lost s1_def [symmetric] using st by simp
    show ?thesis
  proof (cases "?us = []")
    case True
    then have "recovering [] (on_invocation mark_running s1)" using mode by (intro running) simp
    with assms(1) True good [OF this] show ?thesis by (auto simp: eq)
  next
    case False
    with assms(1) obtain o1 where "recover_executions E ?us s1 = Inr o1"
      and out: "out = (case o1 of RecoverStop t \<Rightarrow> RecoverStop t
        | RecoverNext t \<Rightarrow> RecoverNext (record_detail ''recovery.requeued'' ?us
            [(''recovery_requeued'', enc_list enc_uuid ?us)] (on_invocation mark_running t)))"
      by (auto simp: eq bindR_eq_Inr)
    from recover_executions_books [OF this(1) mode] show ?thesis
      unfolding out by (cases o1) (auto intro!: good event running)
  qed
  qed
  show ?thesis
  proof (cases "inv_state (xs_invocation s) \<in> {InvCreated, InvRunning}
      \<and> inv_definition_hash (xs_invocation s) = Some (wf_definition_hash (env_workflow E))")
    case True
    with created resumed show ?thesis by auto
  next
    case False
    with assms(1) interrupt_recovery_ends show ?thesis
      by (auto simp: begin_recovery_def Let_def split: if_splits)
  qed
qed

text \<open>
  C19: The two gates of recovery agree. The request that recovery puts into the ready queue for a
  lost execution is accepted when it is submitted exactly if the lost execution passed the gate
  of recovery: the first compares the attempts made, the second the attempt to be made.
\<close>

theorem recovery_gates_agree:
  "recovery_rejection_reason (Some nd) n = None \<longleftrightarrow>
     \<not> submission_rejected nd (mk_request (ne_node_id n) (ne_incoming_activations n) (ne_scope n)
          (Some (str_or (ne_idempotency_key n) (uuid_str (ne_id n)))) (Some (ne_id n))
          (ne_recovery_attempt n + 1))"
  by (auto simp: recovery_rejection_reason_def submission_rejected_def mk_request_def
      split: option.splits)

end
