(* ===== verification/Executor_Guarantees.thy ===== *)
theory Executor_Guarantees
  imports Executor_Recovery Samples
begin

text \<open>
  What the executor guarantees from the first turn of its loop to its return, and concrete runs
  on which the guarantees are instantiated.
\<close>

section \<open>A concrete run\<close>

definition sample_env :: exec_env where
  "sample_env = \<lparr>env_workflow = sample_pair, env_registry = empty_registry,
     env_fuel = sample_fuel, env_now = 0, env_late = []\<rparr>"

definition sample_result :: "uuid \<Rightarrow> pyval \<Rightarrow> node_message" where
  "sample_result u v = ResultMessage (mk_result u NodeCompleted v None)"

definition turn :: "exec_state \<Rightarrow> exec_state" where
  "turn s = outcome_state (projr (drive_step sample_env s))"

definition answer :: "uuid \<Rightarrow> pyval \<Rightarrow> exec_state \<Rightarrow> exec_state" where
  "answer u v s = s\<lparr>xs_mailbox := projr (finish_task u (sample_result u v) (xs_mailbox s))\<rparr>"

datatype action = Turn | Answer uuid pyval

fun act :: "action \<Rightarrow> exec_state \<Rightarrow> exec_state" where
  "act Turn s = turn s"
| "act (Answer u v) s = answer u v s"

definition continues :: "drive_outcome res \<Rightarrow> bool" where
  "continues d = (case d of Inr (Continue s) \<Rightarrow> True | _ \<Rightarrow> False)"

definition returns :: "drive_outcome res \<Rightarrow> bool" where
  "returns d = (case d of Inr (Returned s) \<Rightarrow> True | _ \<Rightarrow> False)"

definition awaits :: "drive_outcome res \<Rightarrow> bool" where
  "awaits d = (case d of Inr (AwaitWorkers s) \<Rightarrow> True | _ \<Rightarrow> False)"

fun possible :: "action \<Rightarrow> exec_state \<Rightarrow> bool" where
  "possible Turn s = continues (drive_step sample_env s)"
| "possible (Answer u v) s = (dict_get (mb_running (xs_mailbox s)) u = Some u)"

fun play :: "action list \<Rightarrow> exec_state \<Rightarrow> exec_state option" where
  "play [] s = Some s"
| "play (a # as) s = (if possible a s then play as (act a s) else None)"

lemma runs_answer:
  assumes "runs sample_env s t" and "dict_get (mb_running (xs_mailbox t)) u = Some u"
  shows "runs sample_env s (answer u v t)"
proof -
  have "run_step sample_env t (answer u v t)"
    unfolding answer_def
    by (rule run_finish [where t = u and u = u and r = "mk_result u NodeCompleted v None"])
      (use assms(2) in \<open>simp_all add: sample_result_def finish_task_def\<close>)
  with assms(1) show ?thesis by (rule runs_step)
qed

lemma runs_act:
  assumes "runs sample_env s t" and "possible a t"
  shows "runs sample_env s (act a t)"
proof (cases a)
  case Turn
  with assms(2) have "drive_step sample_env t = Inr (Continue (turn t))"
    by (auto simp: continues_def turn_def split: sum.splits drive_outcome.splits)
  with assms(1) Turn show ?thesis by (auto intro: runs_step run_control)
next
  case (Answer u v)
  with assms show ?thesis by (simp add: runs_answer)
qed

lemma runs_play: "play as t = Some u \<Longrightarrow> runs sample_env s t \<Longrightarrow> runs sample_env s u"
  by (induction as arbitrary: t) (auto split: if_splits intro: runs_act)

text \<open>The invocation is created and begun.\<close>

definition pair_invocation :: invocation where
  "pair_invocation = new_invocation 0 ''pair'' (Some ''1'') ''a'' [] EvStandard"

definition sample_created :: exec_state where
  "sample_created = new_state pair_invocation empty_runtime_context 0"

definition sample_begun :: exec_state where
  "sample_begun = projr (begin_invocation sample_env sample_created)"

definition after :: "action list \<Rightarrow> exec_state" where
  "after as = the (play as sample_begun)"

text \<open>The first node is submitted; both nodes are submitted, answered, read and routed.\<close>

definition to_submitted :: "action list" where
  "to_submitted = [Turn]"

definition to_end :: "action list" where
  "to_end = [Turn, Answer 0 PyNone, Turn, Turn, Turn, Answer 1 (PyInt 7), Turn, Turn]"

lemma isl_not_Inr: "\<not> isl x \<Longrightarrow> x = Inr (projr x)"
  by (cases x) simp_all

lemma sample_begins: "begin_invocation sample_env sample_created = Inr sample_begun"
  unfolding sample_begun_def by (rule isl_not_Inr) code_simp

lemma sample_begun_live: "live sample_begun"
  by (rule begin_invocation_live [OF sample_begins])
    (simp add: sample_created_def pair_invocation_def new_state_live)

lemma runs_after: "play as sample_begun \<noteq> None \<Longrightarrow> runs sample_env sample_begun (after as)"
  unfolding after_def by (auto intro: runs_play runs_refl)

lemma sample_plays:
  "play to_submitted sample_begun \<noteq> None" "play to_end sample_begun \<noteq> None"
  by code_simp+

lemmas sample_runs = sample_plays [THEN runs_after]

lemma drive_step_after:
  "returns (drive_step sample_env (after as)) \<Longrightarrow> drive_step sample_env (after as) = Inr (Returned (turn (after as)))"
  "awaits (drive_step sample_env (after as)) \<Longrightarrow> drive_step sample_env (after as) = Inr (AwaitWorkers (turn (after as)))"
  by (auto simp: returns_def awaits_def turn_def split: sum.splits drive_outcome.splits)

section \<open>The loop\<close>

lemma find_distinct:
  "distinct (map f xs) \<Longrightarrow> x \<in> set xs \<Longrightarrow> find (\<lambda>y. f y = f x) xs = Some x"
  by (induction xs) (auto simp: rev_image_eqI)

lemma find_distinct_iff:
  "distinct (map f xs) \<Longrightarrow> find (\<lambda>y. f y = v) xs = Some x \<longleftrightarrow> x \<in> set xs \<and> f x = v"
  by (auto simp: find_Some_iff dest: find_distinct)

lemma balanced_results:
  assumes "balanced s"
  shows "distinct (outstanding (xs_mailbox s))"
    "u \<in> set (outstanding (xs_mailbox s)) \<longleftrightarrow>
       (\<exists>n. get_node_execution u (xs_invocation s) = Some n \<and> ne_state n = NodeRunning)"
proof -
  let ?i = "xs_invocation s"
  have ids: "ids_in {NodeRunning} (statuses ?i) = mset (outstanding (xs_mailbox s))"
    using assms by (simp add: books_def Let_def)
  have d: "distinct (map fst (statuses ?i))" using balanced_distinct [OF assms] by simp
  have "count (mset (outstanding (xs_mailbox s))) v \<le> 1" for v
    unfolding ids [symmetric] by (rule ids_in_distinct [OF d])
  then show "distinct (outstanding (xs_mailbox s))" by (rule count_le_distinct)
  have "u \<in> set (outstanding (xs_mailbox s)) \<longleftrightarrow> u \<in># ids_in {NodeRunning} (statuses ?i)"
    by (simp add: ids)
  also have "\<dots> \<longleftrightarrow> (\<exists>n. get_node_execution u ?i = Some n \<and> ne_state n = NodeRunning)"
    using d by (auto simp: ids_in_mem get_node_execution_def find_distinct_iff comp_def)
  finally show "u \<in> set (outstanding (xs_mailbox s)) \<longleftrightarrow>
       (\<exists>n. get_node_execution u ?i = Some n \<and> ne_state n = NodeRunning)" .
qed

text \<open>
  C15: When the loop returns, the invocation is settled. It waits, with at least one wait entry
  and nothing running; or it completed or failed, with no execution still active and no result
  still owed by a worker; or it was interrupted, with no execution still active. In particular
  it never returns while a worker still holds a task of a running execution.
\<close>

theorem loop_returns_settled:
  assumes "live s" and "runs E s t" and "drive_step E t = Inr (Returned u)"
  shows "inv_state (xs_invocation u) = InvWaiting \<and> waits_of (xs_invocation u) \<noteq> []
       \<and> (\<forall>n \<in> set (inv_node_executions (xs_invocation u)). ne_state n \<noteq> NodeRunning)
     \<or> inv_state (xs_invocation u) \<in> {InvCompleted, InvFailed} \<and> none_active (xs_invocation u)
       \<and> outstanding (xs_mailbox u) = []
     \<or> inv_state (xs_invocation u) = InvInterrupted \<and> none_active (xs_invocation u)"
proof -
  have "returned_ok u"
    using drive_step_books [OF assms(3) runs_live [OF assms(2,1)]] by simp
  then show ?thesis
    by (auto simp: returned_ok_def Let_def ids_in_def statuses_def filter_empty_conv)
qed

theorem loop_returns_settled_witness:
  "inv_state (xs_invocation (turn (after to_end))) = InvCompleted
   \<and> none_active (xs_invocation (turn (after to_end)))"
proof -
  have "drive_step sample_env (after to_end) = Inr (Returned (turn (after to_end)))"
    by (rule drive_step_after) code_simp
  from loop_returns_settled [OF sample_begun_live sample_runs(2) this]
  have "inv_state (xs_invocation (turn (after to_end))) = InvCompleted \<longrightarrow> ?thesis" by auto
  moreover have "inv_state (xs_invocation (turn (after to_end))) = InvCompleted" by code_simp
  ultimately show ?thesis by simp
qed



text \<open>
  C17: No result is lost, duplicated or orphaned. At every moment of the loop the results owed by
  the mailbox, by running tasks or unread messages, are pairwise distinct and are exactly the
  executions marked as running; so no message is ever answered by
  \<open>UNKNOWN_NODE_EXECUTION_RESULT\<close>, and no execution runs without a worker.
\<close>

theorem results_are_running_executions:
  assumes "live s" and "runs E s t"
  shows "distinct (outstanding (xs_mailbox t))
     \<and> (\<forall>u. u \<in> set (outstanding (xs_mailbox t)) \<longleftrightarrow>
         (\<exists>n. get_node_execution u (xs_invocation t) = Some n \<and> ne_state n = NodeRunning))"
  using runs_live [OF assms(2,1)] balanced_results [of t] by (simp add: live_def)

theorem results_are_running_executions_witness:
  "\<exists>n. get_node_execution 0 (xs_invocation (after to_submitted)) = Some n \<and> ne_state n = NodeRunning"
proof -
  have "0 \<in> set (outstanding (xs_mailbox (after to_submitted)))" by code_simp
  with results_are_running_executions [OF sample_begun_live sample_runs(1)] show ?thesis by blast
qed

section \<open>The life of the concrete run\<close>

lemma lifetime_runs: "runs E s t \<Longrightarrow> lifetime (env_workflow E) s t"
  by (induction rule: runs.induct)
    (auto intro: rtranclp.rtrancl_into_rtrancl step_message)

lemma sample_lifetime: "lifetime sample_pair sample_created (after to_end)"
proof -
  have env: "env_workflow sample_env = sample_pair" by (simp add: sample_env_def)
  have "executor_step sample_pair sample_created sample_begun"
    by (rule step_begin [OF env sample_begins])
  moreover have "lifetime sample_pair sample_begun (after to_end)"
    using lifetime_runs [OF sample_runs(2)] by (simp add: env)
  ultimately show ?thesis by (rule converse_rtranclp_into_rtranclp)
qed

theorem event_log_gapless_witness:
  "event_sequences (xs_log (after to_end)) = [1..<inv_event_sequence (xs_invocation (after to_end)) + 1]
   \<and> length (xs_log (after to_end)) > 4"
proof -
  have "xs_log sample_created = []" "inv_event_sequence (xs_invocation sample_created) = 0"
    by (simp_all add: sample_created_def new_state_def pair_invocation_def new_invocation_def)
  moreover have "length (xs_log (after to_end)) > 4" by code_simp
  ultimately show ?thesis using event_log_gapless [OF sample_lifetime] by auto
qed

theorem execution_history_append_only_witness:
  "map ne_sequence (inv_node_executions (xs_invocation (after to_end))) = [1, 2]
   \<and> distinct (map ne_id (inv_node_executions (xs_invocation (after to_end))))"
proof -
  have "history_fresh sample_created"
    by (simp add: sample_created_def new_state_def pair_invocation_def new_invocation_def
        history_fresh_def history_ok_def)
  from execution_history_append_only [OF sample_lifetime this]
  have "map ne_sequence (inv_node_executions (xs_invocation (after to_end)))
      = [1..<length (inv_node_executions (xs_invocation (after to_end))) + 1]
    \<and> distinct (map ne_id (inv_node_executions (xs_invocation (after to_end))))" by blast
  moreover have "length (inv_node_executions (xs_invocation (after to_end))) = 2" by code_simp
  ultimately show ?thesis by (simp add: upt_rec)
qed

theorem node_execution_limit_witness:
  "int (count_node_executions ''z'' (xs_invocation (after to_end))) \<le> 1
   \<and> count_node_executions ''z'' (xs_invocation (after to_end)) = 1"
proof -
  have "within_limits sample_pair sample_created"
    by (auto simp: within_limits_def sample_pair_def dict_get_def max_executions_def node_resource_def
        sample_node_def sample_policy_def count_node_executions_def sample_created_def new_state_def
        pair_invocation_def new_invocation_def split: if_splits)
  note limit = node_execution_limit [OF sample_lifetime sample_pair_wf this]
  have "dict_get (wf_nodes sample_pair) ''z'' = Some ((sample_node ''z'' False True)\<lparr>nd_policy := Some sample_policy\<rparr>)"
    by (simp add: sample_pair_def dict_get_def)
  moreover have "max_executions ((sample_node ''z'' False True)\<lparr>nd_policy := Some sample_policy\<rparr>) = Some 1"
    by (simp add: max_executions_def node_resource_def sample_policy_def)
  moreover have "count_node_executions ''z'' (xs_invocation (after to_end)) = 1" by code_simp
  ultimately show ?thesis using limit by blast
qed

text \<open>The process ends while the second node runs; the reloaded invocation has no workers.\<close>

definition sample_crashed :: exec_state where
  "sample_crashed = (after [Turn, Answer 0 PyNone, Turn, Turn, Turn])\<lparr>xs_mailbox := new_mailbox\<rparr>"

theorem recovery_rebalances_witness:
  "\<exists>t. begin_recovery sample_env sample_crashed = Inr (RecoverNext t)
     \<and> lost_executions (xs_invocation sample_crashed) = [1]
     \<and> ids_in lost_states (statuses (xs_invocation t)) = {#}"
proof -
  let ?as = "[Turn, Answer 0 PyNone, Turn, Turn, Turn]"
  have "play ?as sample_begun \<noteq> None" by code_simp
  then have "live (after ?as)" by (rule runs_live [OF runs_after sample_begun_live])
  then have b: "balanced (after ?as)" by (simp add: live_def)
  have lost: "lost_executions (xs_invocation sample_crashed) = [1]" by code_simp
  have "history_fresh sample_crashed" using b by (simp add: books_def Let_def sample_crashed_def history_fresh_def)
  then have r: "recovering (lost_executions (xs_invocation sample_crashed)) sample_crashed"
    using b unfolding recovering_def lost_executions_ids Let_def
    by (simp add: books_def Let_def sample_crashed_def lost_executions_ids)
  have "case begin_recovery sample_env sample_crashed of Inr (RecoverNext t) \<Rightarrow> True | _ \<Rightarrow> False"
    by code_simp
  then obtain t where t: "begin_recovery sample_env sample_crashed = Inr (RecoverNext t)"
    by (auto split: sum.splits recover_outcome.splits)
  have "inv_state (xs_invocation sample_crashed) = InvRunning" by code_simp
  with recovery_rebalances [OF t r] t lost show ?thesis by simp
qed

text \<open>A batch of two jobs: a callable, which starts a task, and a system command, answered at once.\<close>

definition sample_job :: "uuid \<Rightarrow> capability_binding \<Rightarrow> job" where
  "sample_job u cap = \<lparr>job_node = (sample_node ''a'' True True)\<lparr>nd_capability := cap\<rparr>,
     job_execution = fst (create_node_execution u (mk_request ''a'' [] [] None None 0) PyNone pair_invocation),
     job_input = PyDict [(''wait_key'', PyStr ''k'')], job_max_operator_attempts = None, job_map_policy = None,
     job_concurrency_key = None, job_recovery = False, job_hook_context = None,
     job_event_mode = EvStandard\<rparr>"

definition sample_batch :: "job list" where
  "sample_batch = [sample_job 0 (nd_capability (sample_node ''a'' True True)),
     sample_job 1 (BindSystemCommand ''wait'' False)]"

theorem submit_batch_outstanding_witness:
  "\<exists>m. submit_batch empty_registry sample_batch new_mailbox = Inr m
     \<and> mset (outstanding m) = {#0, 1#} \<and> mb_running m = [(0, 0)]"
proof -
  define m where "m = projr (submit_batch empty_registry sample_batch new_mailbox)"
  have m: "submit_batch empty_registry sample_batch new_mailbox = Inr m"
    unfolding m_def by (rule isl_not_Inr) code_simp
  have "map job_id sample_batch = [0, 1]" by code_simp
  then have "mset (outstanding m) = {#0, 1#}"
    using submit_batch_outstanding [OF m] by (simp add: new_mailbox_def outstanding_def dict_keys_def)
  moreover have "mb_running m = [(0, 0)]" unfolding m_def by code_simp
  ultimately show ?thesis using m by blast
qed

end
