(* ===== verification/Workflow_Source.thy ===== *)
theory Workflow_Source
  imports Operators
begin

text \<open>
  The source workflow an author writes and the diagnostics of its compilation:
  \<open>core/workflow/node.py\<close>, \<open>edge.py\<close>, \<open>workflow.py\<close> and \<open>core/compiler/diagnostic.py\<close>. The
  identity \<open>id(x)\<close> of a node or workflow object is a number; a child workflow is referred to by
  its identity, so that a workflow may contain itself as it may in Python. Versions, names,
  descriptions and metadata are display data and left out, except for the event stream an
  agent's node is marked with.
\<close>

section \<open>Contracts\<close>

text \<open>
  \<open>OperatorContract\<close>: the parameters and validation of the input, the validation of the output
  and whether the output's annotation is concrete. \<open>sc_issues\<close> are the issues
  \<open>callable_contract\<close> finds in a handler, with whether each is an error.
\<close>

record operator_contract =
  oc_parameters :: "string list"
  oc_input :: "pyval dict \<Rightarrow> user_exn + pyval dict"
  oc_input_schema :: pyval
  oc_output :: "pyval \<Rightarrow> user_exn option"

record source_callable =
  sc_identity :: nat
  sc_operator_id :: string
  sc_is_async :: bool
  sc_issues :: "(bool \<times> string) list"
  sc_contract :: operator_contract

datatype source_capability =
    SrcOperator operator operator_contract
  | SrcCallable source_callable
  | SrcName string
  | SrcCapabilityRef string
  | SrcOperatorRef string
  | SrcSystemCommand string bool
  | SrcWorkflow nat
  | SrcUnsupported

section \<open>Nodes, edges and workflows\<close>

record source_node =
  sn_object :: nat
  sn_id :: string
  sn_capability :: source_capability
  sn_child_entry :: "string option"
  sn_child_exit :: "string option"
  sn_input_mapping :: "(input_mapping_context \<Rightarrow> user_exn + pyval) option"
  sn_output_binding ::
    "(output_binding_context \<Rightarrow> user_exn + runtime_context \<times> runtime_context) option"
  sn_stream_mappings :: "(string \<times> (pyval \<Rightarrow> user_exn + pyval option)) list option"
  sn_user_event_mapping :: bool
  sn_event_stream :: "string option"
  sn_entry :: "bool option"
  sn_policy :: "node_policy option"
  sn_local_id :: "string option"
  sn_scope_node_ids :: "string dict"
  sn_workflow_path :: "string list"

datatype node_ref = RefId string | RefNode nat string

record source_edge =
  se_id :: "string option"
  se_from :: node_ref
  se_to :: node_ref
  se_condition :: edge_condition
  se_map_policy :: "map_policy option"
  se_local_id :: "string option"
  se_local_from :: "string option"
  se_local_to :: "string option"
  se_scope_node_ids :: "string dict"
  se_workflow_path :: "string list"

record source_workflow =
  sw_id :: string
  sw_failure_mode :: failure_mode
  sw_nodes :: "source_node list"
  sw_edges :: "source_edge list"

definition ref_id :: "node_ref \<Rightarrow> string" where
  "ref_id r = (case r of RefId s \<Rightarrow> s | RefNode _ s \<Rightarrow> s)"

text \<open>\<open>str.strip()\<close>.\<close>

definition strip :: "string \<Rightarrow> string" where
  "strip s = rev (dropWhile is_space (rev (dropWhile is_space s)))"

definition validate_node_id :: "string \<Rightarrow> string res" where
  "validate_node_id s =
     (if strip s = [] then Inl (ValueError ''Node id cannot be empty.'') else Inr (strip s))"

definition validate_boundary_id :: "string option \<Rightarrow> string option res" where
  "validate_boundary_id v =
     (case v of None \<Rightarrow> Inr None
      | Some s \<Rightarrow> if strip s = [] then Inl (ValueError ''Child Workflow boundary node id cannot be empty.'')
                  else Inr (Some (strip s)))"

definition validate_workflow_id :: "string \<Rightarrow> string res" where
  "validate_workflow_id s =
     (if strip s = [] then Inl (ValueError ''Workflow id cannot be empty.'') else Inr (strip s))"

text \<open>
  The constructor of a node validates its ids; \<open>add_node\<close> with a node object refuses overriding
  arguments, with a capability it requires \<open>node_id\<close>. \<open>n\<close> holds the node's arguments.
\<close>

definition build_node :: "source_node \<Rightarrow> source_node res" where
  "build_node n =
     bindR (validate_node_id (sn_id n)) (\<lambda>i.
       bindR (validate_boundary_id (sn_child_entry n)) (\<lambda>a.
         bindR (validate_boundary_id (sn_child_exit n)) (\<lambda>z.
           Inr (n\<lparr>sn_id := i, sn_child_entry := a, sn_child_exit := z\<rparr>))))"

definition add_node_object ::
  "source_node \<Rightarrow> bool \<Rightarrow> source_workflow \<Rightarrow> (source_node \<times> source_workflow) res" where
  "add_node_object n overrides w =
     (if overrides then Inl (ValueError ''Cannot override fields when adding a Node object.'')
      else Inr (n, w\<lparr>sw_nodes := sw_nodes w @ [n]\<rparr>))"

definition add_node ::
  "string option \<Rightarrow> source_node \<Rightarrow> source_workflow \<Rightarrow> (source_node \<times> source_workflow) res" where
  "add_node node_id n w =
     (case node_id of
        None \<Rightarrow> Inl (ValueError ''node_id is required when adding a node capability.'')
      | Some i \<Rightarrow> bindR (build_node (n\<lparr>sn_id := i\<rparr>))
          (\<lambda>n'. Inr (n', w\<lparr>sw_nodes := sw_nodes w @ [n']\<rparr>)))"

definition add_edge_object ::
  "source_edge \<Rightarrow> bool \<Rightarrow> source_workflow \<Rightarrow> (source_edge \<times> source_workflow) res" where
  "add_edge_object e overrides w =
     (if overrides then Inl (ValueError ''Cannot override fields when adding an Edge object.'')
      else Inr (e, w\<lparr>sw_edges := sw_edges w @ [e]\<rparr>))"

definition add_edge ::
  "node_ref \<Rightarrow> node_ref option \<Rightarrow> string option \<Rightarrow> edge_condition \<Rightarrow> map_policy option
   \<Rightarrow> source_workflow \<Rightarrow> (source_edge \<times> source_workflow) res" where
  "add_edge a b eid cond mp w =
     (case b of
        None \<Rightarrow> Inl (ValueError ''add_edge requires a target node.'')
      | Some b' \<Rightarrow>
          (let e = \<lparr>se_id = eid, se_from = a, se_to = b', se_condition = cond, se_map_policy = mp,
                 se_local_id = None, se_local_from = None, se_local_to = None,
                 se_scope_node_ids = [], se_workflow_path = []\<rparr>
           in Inr (e, w\<lparr>sw_edges := sw_edges w @ [e]\<rparr>)))"

section \<open>Diagnostics\<close>

datatype severity = SevError | SevWarning | SevInfo

datatype object_type = ObjWorkflow | ObjNode | ObjEdge

record diagnostic =
  dg_code :: string
  dg_severity :: severity
  dg_message :: string
  dg_workflow_id :: "string option"
  dg_object_type :: "object_type option"
  dg_object_id :: "string option"
  dg_field :: "string option"
  dg_hint :: "string option"
  dg_source_index :: "int option"
  dg_subject :: "string option"
  dg_metadata :: "pyval dict"

definition mk_diagnostic ::
  "severity \<Rightarrow> string \<Rightarrow> string \<Rightarrow> string option \<Rightarrow> pyval dict \<Rightarrow> diagnostic" where
  "mk_diagnostic sev code msg subject meta =
     \<lparr>dg_code = code, dg_severity = sev, dg_message = msg, dg_workflow_id = None,
      dg_object_type = None, dg_object_id = None, dg_field = None, dg_hint = None,
      dg_source_index = None, dg_subject = subject, dg_metadata = meta\<rparr>"

abbreviation compile_error :: "string \<Rightarrow> string \<Rightarrow> string \<Rightarrow> diagnostic" where
  "compile_error code msg subject \<equiv> mk_diagnostic SevError code msg (Some subject) []"

definition has_errors :: "diagnostic list \<Rightarrow> bool" where
  "has_errors ds \<longleftrightarrow> (\<exists>d \<in> set ds. dg_severity d = SevError)"

lemma has_errors_simps [simp]:
  "\<not> has_errors []"
  "has_errors (d # ds) \<longleftrightarrow> dg_severity d = SevError \<or> has_errors ds"
  "has_errors (xs @ ys) \<longleftrightarrow> has_errors xs \<or> has_errors ys"
  by (auto simp: has_errors_def)

lemma severity_mk_diagnostic [simp]: "dg_severity (mk_diagnostic sev c m s x) = sev"
  by (simp add: mk_diagnostic_def)

lemma has_errors_concat [simp]: "has_errors (concat xss) \<longleftrightarrow> (\<exists>xs \<in> set xss. has_errors xs)"
  by (auto simp: has_errors_def)

section \<open>Generated edge ids\<close>

text \<open>\<open>generate_edge_id\<close>: the first of \<open>base\<close>, \<open>base_2\<close>, \<open>base_3\<close>, ... that is not in use.\<close>

definition numbered :: "string \<Rightarrow> nat \<Rightarrow> string" where
  "numbered base k = base @ ''_'' @ str_nat k"

lemma numbered_inj: "numbered b j = numbered b k \<longleftrightarrow> j = k"
  by (auto simp: numbered_def dest: str_nat_inj)

lemma finite_numbered: "finite {j. numbered base j \<in> set used}"
proof -
  have "finite (numbered base -` set used)"
    by (rule finite_vimageI) (auto intro: injI simp: numbered_inj)
  then show ?thesis by (simp add: vimage_def)
qed

function first_unused :: "string \<Rightarrow> string list \<Rightarrow> nat \<Rightarrow> string" where
  "first_unused base used k =
     (if numbered base k \<in> set used then first_unused base used (k + 1) else numbered base k)"
  by pat_completeness auto

termination
proof (relation "measure (\<lambda>(base, used, k). card {j. k \<le> j \<and> numbered base j \<in> set used})", goal_cases)
  case (2 base used k)
  have "{j. k + 1 \<le> j \<and> numbered base j \<in> set used} \<subset> {j. k \<le> j \<and> numbered base j \<in> set used}"
    using 2 by (auto intro!: psubsetI) (metis (mono_tags) Suc_n_not_le_n mem_Collect_eq order_refl)
  moreover have "finite {j. k \<le> j \<and> numbered base j \<in> set used}"
    by (rule finite_subset [OF _ finite_numbered [of base used]]) auto
  ultimately show ?case by (simp add: psubset_card_mono)
qed simp

declare first_unused.simps [simp del]

definition generate_edge_id :: "string \<Rightarrow> string list \<Rightarrow> string" where
  "generate_edge_id base used = (if base \<notin> set used then base else first_unused base used 2)"

lemma first_unused_fresh: "first_unused base used k \<notin> set used"
  by (induction base used k rule: first_unused.induct) (subst first_unused.simps, simp)

lemma generate_edge_id_fresh: "generate_edge_id base used \<notin> set used"
  by (simp add: generate_edge_id_def first_unused_fresh)

end
