(* ===== verification/Compiler_Nodes.thy ===== *)
theory Compiler_Nodes
  imports Workflow_Source
begin

text \<open>
  The per-object half of \<open>WorkflowCompiler\<close> (\<open>core/compiler/compiler.py\<close>): node ids, edge
  references, capabilities and their contracts, nodes, edges, and the graph indexes. It works on an
  expanded workflow, whose nodes are copies made by the expansion: no reference to a source node
  object denotes one of them, so only references by id resolve. Everything reports diagnostics in
  the order the code appends them. The hooks are functions here, so the checks that a hook is
  callable, which the source models already validate, have no counterpart.
\<close>

record compiler_env =
  ce_capabilities :: "capability_registry option"
  ce_operators :: "operator_registry option"
  ce_require_bindings :: bool
  ce_capability_contract :: "nat \<Rightarrow> operator_contract"
  ce_operator_contract :: "string \<Rightarrow> operator_contract"
  ce_wait_contract :: operator_contract
  ce_list_contract :: "(pyval \<Rightarrow> user_exn option) \<Rightarrow> pyval \<Rightarrow> user_exn option"
  ce_aggregator_contract ::
    "(aggregation_context \<Rightarrow> user_exn + pyval) \<Rightarrow> bool \<times> (pyval \<Rightarrow> user_exn option)"
  ce_definition_hash :: "workflow_ir \<Rightarrow> string"

section \<open>Node ids and edge references\<close>

fun repeated :: "string list \<Rightarrow> string list" where
  "repeated [] = []"
| "repeated (x # xs) = (if x \<in> set xs then [x] else []) @ repeated xs"

lemma repeated_Nil_iff: "repeated xs = [] \<longleftrightarrow> distinct xs"
  by (induction xs) auto

definition sorted_set :: "string list \<Rightarrow> string list" where
  "sorted_set xs = sort (uniq_first xs)"

lemma set_sorted_set [simp]: "set (sorted_set xs) = set xs"
  by (simp add: sorted_set_def)

lemma sorted_set_Nil_iff [simp]: "sorted_set xs = [] \<longleftrightarrow> xs = []"
  by (metis set_sorted_set set_empty)

definition identified :: "source_node list \<Rightarrow> source_node list" where
  "identified ns = filter (\<lambda>n. sn_id n \<noteq> []) ns"

definition compile_node_ids :: "source_node list \<Rightarrow> diagnostic list" where
  "compile_node_ids ns =
     map (\<lambda>n. mk_diagnostic SevError ''NODE_ID_REQUIRED''
            ''Every node must define a non-empty node id.'' None [])
       (filter (\<lambda>n. sn_id n = []) ns)
     @ map (\<lambda>i. compile_error ''NODE_DUPLICATE_ID'' (''Duplicate node id: '' @ i) i)
         (sorted_set (repeated (map sn_id (identified ns))))"

definition resolve_node_ref :: "string list \<Rightarrow> node_ref \<Rightarrow> string option" where
  "resolve_node_ref known r =
     (case r of RefNode _ _ \<Rightarrow> None | RefId s \<Rightarrow> if s \<in> set known then Some s else None)"

definition unknown_node :: "string \<Rightarrow> nat \<Rightarrow> source_edge \<Rightarrow> diagnostic" where
  "unknown_node side k e =
     mk_diagnostic SevError ''EDGE_UNKNOWN_NODE'' (''Edge references an unknown '' @ side @ '' node.'')
       (se_id e) [(''object_type'', PyStr ''edge''), (''source_index'', PyInt (int k))]"

type_synonym edge_reference = "nat \<times> source_edge \<times> string \<times> string"

fun compile_edge_refs ::
  "string list \<Rightarrow> nat \<Rightarrow> source_edge list \<Rightarrow> diagnostic list \<times> edge_reference list" where
  "compile_edge_refs known k [] = ([], [])"
| "compile_edge_refs known k (e # es) =
     (let a = resolve_node_ref known (se_from e); b = resolve_node_ref known (se_to e);
          (ds, refs) = compile_edge_refs known (k + 1) es
      in ((if a = None then [unknown_node ''source'' k e] else [])
          @ (if b = None then [unknown_node ''target'' k e] else []) @ ds,
          (case (a, b) of (Some x, Some y) \<Rightarrow> (k, e, x, y) # refs | _ \<Rightarrow> refs)))"

section \<open>Capabilities\<close>

definition compile_capability ::
  "compiler_env \<Rightarrow> source_capability \<Rightarrow> string \<Rightarrow> diagnostic list \<times> source_capability option" where
  "compile_capability E cap node_id =
     (let reject = (\<lambda>code msg. ([compile_error code msg node_id], None));
          reference = (\<lambda>cid.
            if (case ce_capabilities E of None \<Rightarrow> True | Some reg \<Rightarrow> dict_get reg cid = None)
            then reject ''CAPABILITY_NOT_REGISTERED'' (''Capability is not registered: '' @ cid)
            else
              let operators = (case ce_operators E of None \<Rightarrow> []
                                 | Some reg \<Rightarrow> for_capability cid True reg)
              in if operators = [] \<and> ce_require_bindings E
                 then reject ''CAPABILITY_HAS_NO_OPERATOR''
                        (''Capability has no registered Operator: '' @ cid)
                 else ([], Some (SrcCapabilityRef cid)))
      in case cap of
           SrcOperator op k \<Rightarrow> ([], Some cap)
         | SrcCallable c \<Rightarrow>
             (let errors = filter fst (sc_issues c) in
              (map (\<lambda>i. compile_error ''OPERATOR_CONTRACT_INVALID'' (snd i) node_id) errors,
               if errors \<noteq> [] then None else Some cap))
         | SrcName s \<Rightarrow> reference s
         | SrcCapabilityRef s \<Rightarrow> reference s
         | SrcOperatorRef s \<Rightarrow>
             if (case ce_operators E of None \<Rightarrow> True | Some reg \<Rightarrow> dict_get (or_items reg) s = None)
             then reject ''OPERATOR_NOT_REGISTERED'' (''Operator is not registered: '' @ s)
             else ([], Some cap)
         | SrcSystemCommand s command \<Rightarrow>
             if s \<noteq> ''wait'' then reject ''SYSTEM_COMMAND_UNSUPPORTED''
               ''Unsupported SystemCommand. V1 accepts only 'wait'.''
             else if command then reject ''SYSTEM_COMMAND_CONFIG_UNSUPPORTED''
               ''SystemCommand.command is reserved and unsupported in V1.''
             else ([], Some cap)
         | SrcWorkflow w \<Rightarrow> reject ''CAPABILITY_UNSUPPORTED'' ''Unsupported node capability.''
         | SrcUnsupported \<Rightarrow> reject ''CAPABILITY_UNSUPPORTED'' ''Unsupported node capability.'')"

definition binding_contract :: "compiler_env \<Rightarrow> source_capability \<Rightarrow> operator_contract option" where
  "binding_contract E cap =
     (case cap of
        SrcOperator op k \<Rightarrow> Some k
      | SrcCallable c \<Rightarrow> Some (sc_contract c)
      | SrcCapabilityRef s \<Rightarrow>
          (case ce_capabilities E of None \<Rightarrow> None
           | Some reg \<Rightarrow> (case dict_get reg s of None \<Rightarrow> None
               | Some c \<Rightarrow> map_option (ce_capability_contract E) (cap_contract c)))
      | SrcOperatorRef s \<Rightarrow>
          (case ce_operators E of None \<Rightarrow> None
           | Some reg \<Rightarrow> (case dict_get (or_items reg) s of None \<Rightarrow> None
               | Some _ \<Rightarrow> Some (ce_operator_contract E s)))
      | SrcSystemCommand s _ \<Rightarrow> if s = ''wait'' then Some (ce_wait_contract E) else None
      | _ \<Rightarrow> None)"

text \<open>\<open>Operator.from_callable\<close>, with the defaults of the constructor.\<close>

definition operator_of_callable :: "source_callable \<Rightarrow> string \<Rightarrow> operator" where
  "operator_of_callable c oid =
     \<lparr>op_id = oid, op_capability_id = None, op_priority = 0, op_enabled = True,
      op_is_async = sc_is_async c, op_output_contract = oc_output (sc_contract c)\<rparr>"

text \<open>
  A callable becomes one operator however many nodes use it, named after the first of them.
  \<open>direct\<close> maps the identities of the callables seen to their operators.
\<close>

definition bind_capability ::
  "source_capability \<Rightarrow> string \<Rightarrow> (nat \<times> operator) list
   \<Rightarrow> capability_binding \<times> (nat \<times> operator) list" where
  "bind_capability cap node_id direct =
     (case cap of
        SrcOperator op _ \<Rightarrow> (BindOperator op, direct)
      | SrcCallable c \<Rightarrow>
          (case dict_get direct (sc_identity c) of
             Some op \<Rightarrow> (BindOperator op, direct)
           | None \<Rightarrow>
               (let op = operator_of_callable c (sc_operator_id c @ ''@'' @ node_id)
                in (BindOperator op, dict_set (sc_identity c) op direct)))
      | SrcOperatorRef s \<Rightarrow> (BindOperatorRef s, direct)
      | SrcSystemCommand s b \<Rightarrow> (BindSystemCommand s b, direct)
      | SrcName s \<Rightarrow> (BindCapabilityRef s, direct)
      | SrcCapabilityRef s \<Rightarrow> (BindCapabilityRef s, direct)
      | _ \<Rightarrow> (BindCapabilityRef [], direct))"

section \<open>Nodes\<close>

definition node_of_source ::
  "source_node \<Rightarrow> capability_binding \<Rightarrow> operator_contract \<Rightarrow> node_ir" where
  "node_of_source n binding k =
     \<lparr>nd_id = sn_id n, nd_local_id = Some (str_or (sn_local_id n) (sn_id n)),
      nd_scope_node_ids = sn_scope_node_ids n, nd_workflow_path = sn_workflow_path n,
      nd_capability = binding, nd_parameters = oc_parameters k, nd_input_contract = oc_input k,
      nd_input_schema = oc_input_schema k, nd_operator_output_contract = oc_output k,
      nd_output_contract = oc_output k, nd_input_plan = sn_input_mapping n,
      nd_output_binding = sn_output_binding n, nd_policy = sn_policy n,
      nd_stream_mappings = (case sn_stream_mappings n of None \<Rightarrow> [] | Some ms \<Rightarrow> ms),
      nd_event_stream = sn_event_stream n, nd_entry = (sn_entry n = Some True), nd_exit = False\<rparr>"

type_synonym node_compilation = "diagnostic list \<times> (nat \<times> operator) list \<times> node_ir dict"

definition compile_node :: "compiler_env \<Rightarrow> node_compilation \<Rightarrow> source_node \<Rightarrow> node_compilation" where
  "compile_node E s n =
     (let (ds, direct, nodes) = s;
          (ds', capability) = compile_capability E (sn_capability n) (sn_id n)
      in case capability of
           None \<Rightarrow> (ds @ ds', direct, nodes)
         | Some cap \<Rightarrow>
             (let (binding, direct') = bind_capability cap (sn_id n) direct in
              case binding_contract E cap of
                None \<Rightarrow> (ds @ ds' @ [compile_error ''OPERATOR_CONTRACT_UNAVAILABLE''
                   ''Compiled node capability has no Operator contract.'' (sn_id n)], direct', nodes)
              | Some k \<Rightarrow> (ds @ ds', direct', dict_set (sn_id n) (node_of_source n binding k) nodes)))"

definition compile_nodes :: "compiler_env \<Rightarrow> source_node list \<Rightarrow> diagnostic list \<times> node_ir dict" where
  "compile_nodes E ns =
     (let (ds, _, nodes) = foldl (compile_node E) ([], [], []) (identified ns) in (ds, nodes))"

section \<open>Edges\<close>

definition manual_ids :: "source_edge list \<Rightarrow> string list" where
  "manual_ids es = List.map_filter se_id es"

definition duplicate_edge_ids :: "source_edge list \<Rightarrow> diagnostic list" where
  "duplicate_edge_ids es =
     map (\<lambda>i. compile_error ''EDGE_DUPLICATE_ID'' (''Duplicate edge id: '' @ i) i)
       (sorted_set (repeated (manual_ids es)))"

definition edge_diagnostic :: "string \<Rightarrow> string \<Rightarrow> string \<Rightarrow> nat \<Rightarrow> diagnostic" where
  "edge_diagnostic code msg eid k = mk_diagnostic SevError code msg (Some eid)
     [(''object_type'', PyStr ''edge''), (''source_index'', PyInt (int k))]"

definition edge_of_source :: "source_edge \<Rightarrow> string \<Rightarrow> string \<Rightarrow> string \<Rightarrow> nat \<Rightarrow> edge_ir" where
  "edge_of_source e eid a b order =
     \<lparr>ed_id = eid, ed_local_id = Some (str_or (se_local_id e) eid),
      ed_local_from_node = Some (str_or (se_local_from e) a),
      ed_local_to_node = Some (str_or (se_local_to e) b), ed_scope_node_ids = se_scope_node_ids e,
      ed_workflow_path = se_workflow_path e, ed_from_node = a, ed_to_node = b,
      ed_condition = se_condition e, ed_map_policy = se_map_policy e, ed_order = order\<rparr>"

record edge_compilation =
  ec_diagnostics :: "diagnostic list"
  ec_used_ids :: "string list"
  ec_outgoing_order :: "nat dict"
  ec_edges :: "edge_ir dict"

definition compile_edge :: "edge_compilation \<Rightarrow> edge_reference \<Rightarrow> edge_compilation" where
  "compile_edge s ref =
     (let (k, e, a, b) = ref;
          eid = (case se_id e of Some i \<Rightarrow> i
                 | None \<Rightarrow> generate_edge_id (''edge_'' @ a @ ''_'' @ b) (ec_used_ids s));
          s' = s\<lparr>ec_used_ids := ec_used_ids s @ [eid]\<rparr>;
          reject = (\<lambda>code msg. s'\<lparr>ec_diagnostics := ec_diagnostics s @ [edge_diagnostic code msg eid k]\<rparr>);
          order = dict_get_default (ec_outgoing_order s) a 0
      in case se_condition e of
           StringCondition _ \<Rightarrow> reject ''STRING_CONDITION_UNSUPPORTED''
             ''String edge conditions are not supported yet.''
         | NotCallableCondition \<Rightarrow> reject ''CONDITION_UNSUPPORTED''
             ''Only callable edge conditions are supported.''
         | _ \<Rightarrow> s'\<lparr>ec_outgoing_order := dict_set a (order + 1) (ec_outgoing_order s),
                   ec_edges := dict_set eid (edge_of_source e eid a b order) (ec_edges s)\<rparr>)"

definition compile_edges ::
  "source_edge list \<Rightarrow> edge_reference list \<Rightarrow> diagnostic list \<times> edge_ir dict" where
  "compile_edges es refs =
     (let s = foldl compile_edge \<lparr>ec_diagnostics = duplicate_edge_ids es, ec_used_ids = manual_ids es,
            ec_outgoing_order = [], ec_edges = []\<rparr> refs
      in (ec_diagnostics s, ec_edges s))"

section \<open>Graph indexes\<close>

definition build_graph :: "node_ir dict \<Rightarrow> edge_ir dict \<Rightarrow> graph_ir" where
  "build_graph nodes edges =
     (let leaving = (\<lambda>n. filter (\<lambda>(_, e). ed_from_node e = n) edges);
          entering = (\<lambda>n. filter (\<lambda>(_, e). ed_to_node e = n) edges);
          index = (\<lambda>f. map (\<lambda>n. (n, f n)) (dict_keys nodes))
      in \<lparr>gr_outgoing_edges = index (\<lambda>n. map fst (leaving n)),
          gr_incoming_edges = index (\<lambda>n. map fst (entering n)),
          gr_predecessors = index (\<lambda>n. uniq_first (map (ed_from_node \<circ> snd) (entering n))),
          gr_successors = index (\<lambda>n. uniq_first (map (ed_to_node \<circ> snd) (leaving n))),
          gr_loop_regions = [], gr_node_loop_stacks = []\<rparr>)"

definition infer_entry_node_ids ::
  "node_ir dict \<Rightarrow> graph_ir \<Rightarrow> diagnostic list \<times> string list" where
  "infer_entry_node_ids nodes g =
     (let incoming = (\<lambda>n. dict_get_default (gr_incoming_edges g) n []);
          entries = filter (\<lambda>n. incoming n = []) (dict_keys nodes)
      in (map (\<lambda>(n, nd). mk_diagnostic SevError ''WF_ENTRY_HAS_INCOMING_EDGE''
                 ''An explicit entry node cannot have incoming edges.'' (Some n)
                 [(''incoming_edge_ids'', PyList (map PyStr (incoming n)))])
            (filter (\<lambda>(n, nd). nd_entry nd \<and> n \<notin> set entries) nodes)
          @ (if entries = [] then [mk_diagnostic SevError ''WF_NO_ENTRY'' ''Workflow has no entry node.'' None []]
             else []),
          entries))"

definition infer_exit_node_ids :: "node_ir dict \<Rightarrow> graph_ir \<Rightarrow> string list" where
  "infer_exit_node_ids nodes g =
     filter (\<lambda>n. dict_get_default (gr_outgoing_edges g) n [] = []) (dict_keys nodes)"

definition mark_entry_exit_flags ::
  "string list \<Rightarrow> string list \<Rightarrow> node_ir dict \<Rightarrow> node_ir dict" where
  "mark_entry_exit_flags entries exits nodes =
     map (\<lambda>(n, nd). (n, nd\<lparr>nd_entry := n \<in> set entries, nd_exit := n \<in> set exits\<rparr>)) nodes"

end
