(* ===== verification/Compiler_Loops.thy ===== *)
theory Compiler_Loops
  imports Compiler_Nodes
begin

text \<open>
  The loop analysis of \<open>WorkflowCompiler._compile_loop_regions\<close>: reachability from the entries,
  dominators, back edges, strongly connected components, the acyclicity of what the back edges
  leave, and the natural loops with their nesting. Python's \<open>while\<close> loops are recursive functions;
  the iteration of the dominators, whose end depends on an invariant of its state, is a partial
  function and \<open>None\<close> stands for not returning. A set that Python iterates in hash order is
  iterated in node order.
\<close>

section \<open>Worklist reachability\<close>

text \<open>
  \<open>while pending: node = pending.pop(); if node in seen: continue; seen.add(node);
  pending.extend(next.get(node, ()))\<close>.
\<close>

function reach_loop :: "string list dict \<Rightarrow> string set \<Rightarrow> string list \<Rightarrow> string set" where
  "reach_loop nxt seen pending =
     (if pending = [] then seen
      else let n = last pending; rest = butlast pending
           in if n \<in> seen then reach_loop nxt seen rest
              else reach_loop nxt (insert n seen) (rest @ dict_get_default nxt n []))"
  by pat_completeness auto

termination
proof (relation "inv_image (less_than <*lex*> less_than)
    (\<lambda>(nxt, seen, pending). (card (set (dict_keys nxt) - seen), length pending))", goal_cases)
  case (3 nxt seen pending n rest)
  show ?case
  proof (cases "n \<in> set (dict_keys nxt)")
    case True
    with 3 have "set (dict_keys nxt) - insert n seen \<subset> set (dict_keys nxt) - seen" by auto
    then have "card (set (dict_keys nxt) - insert n seen) < card (set (dict_keys nxt) - seen)"
      by (intro psubset_card_mono) auto
    then show ?thesis by simp
  next
    case False
    then have "dict_get_default nxt n [] = []"
      by (simp add: dict_get_default_def dict_get_None_iff [symmetric])
    moreover have "set (dict_keys nxt) - insert n seen = set (dict_keys nxt) - seen"
      using False by auto
    ultimately show ?thesis using 3 by simp
  qed
qed auto

declare reach_loop.simps [simp del]

section \<open>Dominators\<close>

type_synonym dominators = "string \<Rightarrow> string set"

fun intersect_all :: "string set list \<Rightarrow> string set" where
  "intersect_all [] = {}"
| "intersect_all [s] = s"
| "intersect_all (s # t # ss) = s \<inter> intersect_all (t # ss)"

definition dominator_update :: "graph_ir \<Rightarrow> string set \<Rightarrow> dominators \<Rightarrow> string \<Rightarrow> string set" where
  "dominator_update g reachable D n =
     insert n (intersect_all (map D
       (filter (\<lambda>p. p \<in> reachable) (dict_get_default (gr_predecessors g) n []))))"

text \<open>One pass over the nodes, with whether it changed anything.\<close>

definition dominator_pass ::
  "graph_ir \<Rightarrow> string list \<Rightarrow> string set \<Rightarrow> string list \<Rightarrow> dominators \<Rightarrow> dominators \<times> bool" where
  "dominator_pass g ns reachable entries D =
     foldl (\<lambda>(D, changed) n.
         if n \<notin> reachable \<or> n \<in> set entries then (D, changed)
         else let updated = dominator_update g reachable D n
              in if updated \<noteq> D n then (D(n := updated), True) else (D, changed))
       (D, False) ns"

partial_function (option) dominator_loop ::
  "graph_ir \<Rightarrow> string list \<Rightarrow> string set \<Rightarrow> string list \<Rightarrow> dominators \<Rightarrow> dominators option" where
  "dominator_loop g ns reachable entries D =
     (let r = dominator_pass g ns reachable entries D in
      if snd r then dominator_loop g ns reachable entries (fst r) else Some (fst r))"

declare dominator_loop.simps [code]

definition initial_dominators :: "string set \<Rightarrow> string list \<Rightarrow> dominators" where
  "initial_dominators reachable entries = (\<lambda>n. if n \<in> set entries then {n} else reachable)"

definition compute_dominators ::
  "graph_ir \<Rightarrow> string list \<Rightarrow> string set \<Rightarrow> string list \<Rightarrow> dominators option" where
  "compute_dominators g ns reachable entries =
     dominator_loop g ns reachable entries (initial_dominators reachable entries)"

definition is_back_edge :: "string set \<Rightarrow> dominators \<Rightarrow> edge_ir \<Rightarrow> bool" where
  "is_back_edge reachable D e \<longleftrightarrow>
     ed_from_node e \<in> reachable \<and> ed_to_node e \<in> reachable \<and> ed_to_node e \<in> D (ed_from_node e)"

definition back_edges_by_header ::
  "string set \<Rightarrow> dominators \<Rightarrow> edge_ir dict \<Rightarrow> string list dict" where
  "back_edges_by_header reachable D edges =
     foldl (\<lambda>m (eid, e). if is_back_edge reachable D e
              then dict_set (ed_to_node e) (dict_get_default m (ed_to_node e) [] @ [eid]) m else m)
       [] edges"

definition all_back_edge_ids :: "string set \<Rightarrow> dominators \<Rightarrow> edge_ir dict \<Rightarrow> string set" where
  "all_back_edge_ids reachable D edges =
     fst ` set (filter (\<lambda>(_, e). is_back_edge reachable D e) edges)"

section \<open>Strongly connected components\<close>

text \<open>
  Tarjan's algorithm. \<open>explore\<close> is both the loop over the successors of \<open>parent\<close> inside \<open>visit\<close>
  and, without a parent, the loop over all nodes that starts the visits. The stack's top is the
  head of the list.
\<close>

record tarjan =
  tj_index :: nat
  tj_indices :: "string \<Rightarrow> nat option"
  tj_visited :: "string set"
  tj_lowlinks :: "string \<Rightarrow> nat"
  tj_stack :: "string list"
  tj_components :: "string list list"

definition enter_node :: "string \<Rightarrow> tarjan \<Rightarrow> tarjan" where
  "enter_node n s =
     s\<lparr>tj_indices := (tj_indices s)(n \<mapsto> tj_index s), tj_visited := insert n (tj_visited s),
       tj_lowlinks := (tj_lowlinks s)(n := tj_index s), tj_index := tj_index s + 1,
       tj_stack := n # tj_stack s\<rparr>"

definition lower :: "string option \<Rightarrow> nat \<Rightarrow> tarjan \<Rightarrow> tarjan" where
  "lower parent k s =
     (case parent of None \<Rightarrow> s
      | Some p \<Rightarrow> s\<lparr>tj_lowlinks := (tj_lowlinks s)(p := min (tj_lowlinks s p) k)\<rparr>)"

definition close_node :: "string \<Rightarrow> tarjan \<Rightarrow> tarjan" where
  "close_node n s =
     (if Some (tj_lowlinks s n) \<noteq> tj_indices s n then s
      else s\<lparr>tj_stack := tl (dropWhile (\<lambda>m. m \<noteq> n) (tj_stack s)),
             tj_components := tj_components s @ [takeWhile (\<lambda>m. m \<noteq> n) (tj_stack s) @ [n]]\<rparr>)"

lemma tj_visited_simps [simp]:
  "tj_visited (enter_node n s) = insert n (tj_visited s)"
  "tj_visited (lower parent k s) = tj_visited s"
  "tj_visited (close_node n s) = tj_visited s"
  by (simp_all add: enter_node_def lower_def close_node_def split: option.splits)

function explore :: "string list dict \<Rightarrow> string option \<Rightarrow> string list \<Rightarrow> tarjan \<Rightarrow> tarjan" where
  "explore nxt parent [] s = s"
| "explore nxt parent (n # ns) s =
     (if n \<notin> tj_visited s then
        let s1 = close_node n (explore nxt (Some n) (dict_get_default nxt n []) (enter_node n s))
        in explore nxt parent ns (lower parent (tj_lowlinks s1 n) s1)
      else if n \<in> set (tj_stack s)
      then explore nxt parent ns (lower parent (the (tj_indices s n)) s)
      else explore nxt parent ns s)"
  by pat_completeness auto

lemma explore_visited:
  "explore_dom (nxt, parent, ns, s) \<Longrightarrow> tj_visited s \<subseteq> tj_visited (explore nxt parent ns s)"
proof (induction nxt parent ns s rule: explore.pinduct)
  case (2 nxt parent n ns s)
  then show ?case by (simp add: explore.psimps Let_def) blast
qed (simp add: explore.psimps)

termination explore
proof (relation "inv_image (less_than <*lex*> less_than)
    (\<lambda>(nxt, parent, ns, s). (card (set (dict_keys nxt) - tj_visited s), length ns))", goal_cases)
  case (2 nxt parent n ns s)
  show ?case
  proof (cases "n \<in> set (dict_keys nxt)")
    case True
    with 2 have "set (dict_keys nxt) - insert n (tj_visited s) \<subset> set (dict_keys nxt) - tj_visited s"
      by auto
    then have "card (set (dict_keys nxt) - insert n (tj_visited s)) < card (set (dict_keys nxt) - tj_visited s)"
      by (intro psubset_card_mono) auto
    then show ?thesis by simp
  next
    case False
    then have "dict_get_default nxt n [] = []"
      by (simp add: dict_get_default_def dict_get_None_iff [symmetric])
    moreover have "set (dict_keys nxt) - insert n (tj_visited s) = set (dict_keys nxt) - tj_visited s"
      using False by auto
    ultimately show ?thesis by simp
  qed
next
  case (3 nxt parent n ns s s1)
  have "tj_visited s \<subseteq> tj_visited s1"
    using explore_visited [OF 3(3)] 3(2) by auto
  then have "card (set (dict_keys nxt) - tj_visited s1) \<le> card (set (dict_keys nxt) - tj_visited s)"
    by (intro card_mono) auto
  then show ?case by (simp add: le_less)
qed auto

definition strongly_connected_components :: "graph_ir \<Rightarrow> string list \<Rightarrow> string list list" where
  "strongly_connected_components g ns =
     tj_components (explore (gr_successors g) None ns
       \<lparr>tj_index = 0, tj_indices = Map.empty, tj_visited = {}, tj_lowlinks = (\<lambda>_. 0), tj_stack = [],
        tj_components = []\<rparr>)"

text \<open>
  A component that is a cycle must be entered at one node; the first violation is reported. The
  nodes are ordered as the workflow lists them.
\<close>

definition in_node_order :: "string list \<Rightarrow> string set \<Rightarrow> string list" where
  "in_node_order ns S = filter (\<lambda>n. n \<in> S) ns"

definition edges_into :: "edge_ir dict \<Rightarrow> string set \<Rightarrow> string list" where
  "edges_into edges S =
     map fst (filter (\<lambda>(_, e). ed_from_node e \<notin> S \<and> ed_to_node e \<in> S) edges)"

definition edges_out_of :: "edge_ir dict \<Rightarrow> string set \<Rightarrow> string list" where
  "edges_out_of edges S =
     map fst (filter (\<lambda>(_, e). ed_from_node e \<in> S \<and> ed_to_node e \<notin> S) edges)"

definition edges_within :: "edge_ir dict \<Rightarrow> string set \<Rightarrow> string list" where
  "edges_within edges S =
     map fst (filter (\<lambda>(_, e). ed_from_node e \<in> S \<and> ed_to_node e \<in> S) edges)"

definition edges_missing :: "edge_ir dict \<Rightarrow> string set \<Rightarrow> string \<Rightarrow> string list" where
  "edges_missing edges S header =
     map fst (filter (\<lambda>(_, e). ed_from_node e \<notin> S \<and> ed_to_node e \<in> S \<and> ed_to_node e \<noteq> header) edges)"

definition loop_entry_invalid ::
  "string \<Rightarrow> string list \<Rightarrow> string \<Rightarrow> string \<Rightarrow> string list \<Rightarrow> diagnostic" where
  "loop_entry_invalid msg invalid fallback header loop_nodes =
     mk_diagnostic SevError ''LOOP_ENTRY_INVALID'' (msg @ header @ ''.'')
       (Some (case invalid of [] \<Rightarrow> fallback | e # _ \<Rightarrow> e))
       [(''object_type'', PyStr (if invalid \<noteq> [] then ''edge'' else ''node'')),
        (''loop_node_ids'', PyList (map PyStr loop_nodes)),
        (''expected_entry_node_id'', PyStr header)]"

definition component_entry_error ::
  "graph_ir \<Rightarrow> string list \<Rightarrow> edge_ir dict \<Rightarrow> string list \<Rightarrow> string list \<Rightarrow> diagnostic option" where
  "component_entry_error g ns edges entries component =
     (let S = set component;
          is_cycle = (1 < length component
             \<or> (\<exists>n \<in> set component. n \<in> set (dict_get_default (gr_successors g) n [])));
          targets = (\<lambda>(_, e). ed_to_node e) ` set (filter (\<lambda>(_, e). ed_from_node e \<notin> S \<and> ed_to_node e \<in> S) edges)
                    \<union> set entries \<inter> S
      in if \<not> is_cycle then None
         else if card targets \<le> 1 then None
         else let canonical = hd (in_node_order ns targets)
              in Some (loop_entry_invalid ''Every edge entering a loop must target its unique header node ''
                   (edges_missing edges S canonical) canonical canonical (in_node_order ns S)))"

section \<open>What the back edges leave\<close>

text \<open>
  The topological count of the reachable nodes without the back edges. The indegrees are a
  dictionary over the reachable nodes.
\<close>

definition remaining_indegree ::
  "string list \<Rightarrow> string set \<Rightarrow> string set \<Rightarrow> edge_ir dict \<Rightarrow> int dict" where
  "remaining_indegree ns reachable backs edges =
     map (\<lambda>n. (n, int (length (filter (\<lambda>(eid, e). eid \<notin> backs \<and> ed_from_node e \<in> reachable
         \<and> ed_to_node e = n) edges)))) (in_node_order ns reachable)"

definition release_edge ::
  "edge_ir dict \<Rightarrow> string set \<Rightarrow> int dict \<times> string list \<Rightarrow> string \<Rightarrow> int dict \<times> string list" where
  "release_edge edges backs s eid =
     (let (indegree, pending) = s in
      if eid \<in> backs then (indegree, pending)
      else case dict_get edges eid of
        None \<Rightarrow> (indegree, pending)
      | Some e \<Rightarrow>
          (case dict_get indegree (ed_to_node e) of
             None \<Rightarrow> (indegree, pending)
           | Some k \<Rightarrow> (dict_set (ed_to_node e) (k - 1) indegree,
               if k - 1 = 0 then pending @ [ed_to_node e] else pending)))"

definition positive_weight :: "int dict \<Rightarrow> nat" where
  "positive_weight d = sum_list (map (nat \<circ> snd) d)"

lemma positive_weight_decrement:
  assumes "dict_get d x = Some k"
  shows "positive_weight (dict_set x (k - 1) d) + (if k - 1 = 0 then 1 else 0) \<le> positive_weight d"
  using assms
proof (induction d)
  case (Cons p d)
  obtain y j where p: "p = (y, j)" by force
  show ?case
  proof (cases "x = y")
    case True
    with Cons.prems p have "j = k" by simp
    then show ?thesis using True p
      by (cases "0 < k") (auto simp: positive_weight_def dict_set_def)
  next
    case False
    with Cons p have "positive_weight (dict_set x (k - 1) d) + (if k - 1 = 0 then 1 else 0) \<le> positive_weight d"
      by simp
    with False p show ?thesis by (auto simp: positive_weight_def dict_set_def)
  qed
qed simp

lemma release_edge_weight:
  "positive_weight (fst (release_edge edges backs s eid)) + length (snd (release_edge edges backs s eid))
   \<le> positive_weight (fst s) + length (snd s)"
proof -
  obtain d p where s: "s = (d, p)" by force
  show ?thesis
  proof (cases "eid \<in> backs \<or> dict_get edges eid = None")
    case False
    then obtain e where e: "eid \<notin> backs" "dict_get edges eid = Some e" by auto
    show ?thesis
    proof (cases "dict_get d (ed_to_node e)")
      case (Some k)
      then show ?thesis
        using positive_weight_decrement [OF Some] e
        by (cases "k - 1 = 0") (simp_all add: s release_edge_def)
    qed (simp add: s release_edge_def e)
  qed (auto simp: s release_edge_def)
qed

lemma release_edges_weight:
  "positive_weight (fst (foldl (release_edge edges backs) s es))
     + length (snd (foldl (release_edge edges backs) s es))
   \<le> positive_weight (fst s) + length (snd s)"
proof (induction es arbitrary: s)
  case (Cons e es)
  show ?case
    using Cons.IH [of "release_edge edges backs s e"] release_edge_weight [of edges backs s e]
    by simp
qed simp

function count_acyclic ::
  "graph_ir \<Rightarrow> edge_ir dict \<Rightarrow> string set \<Rightarrow> nat \<Rightarrow> int dict \<Rightarrow> string list \<Rightarrow> nat" where
  "count_acyclic g edges backs visited indegree [] = visited"
| "count_acyclic g edges backs visited indegree (n # pending) =
     (let (indegree', pending') = foldl (release_edge edges backs) (indegree, pending)
            (dict_get_default (gr_outgoing_edges g) n [])
      in count_acyclic g edges backs (visited + 1) indegree' pending')"
  by pat_completeness auto

termination
proof (relation "measure (\<lambda>(g, edges, backs, visited, indegree, pending).
      positive_weight indegree + length pending)", goal_cases)
  case (2 g edges backs visited indegree n pending x d p)
  have "positive_weight d + length p \<le> positive_weight indegree + length pending"
    using release_edges_weight [of edges backs "(indegree, pending)" "dict_get_default (gr_outgoing_edges g) n []"]
      2 by (metis fst_conv snd_conv)
  then show ?case by simp
qed simp

definition acyclic_without ::
  "graph_ir \<Rightarrow> string list \<Rightarrow> edge_ir dict \<Rightarrow> string set \<Rightarrow> string set \<Rightarrow> bool" where
  "acyclic_without g ns edges reachable backs \<longleftrightarrow>
     (let indegree = remaining_indegree ns reachable backs edges
      in count_acyclic g edges backs 0 indegree (map fst (filter (\<lambda>(_, k). k = 0) indegree))
         = card reachable)"

section \<open>Natural loops\<close>

record loop_candidate =
  ca_id :: string
  ca_header :: string
  ca_nodes :: "string set"
  ca_back_edges :: "string list"

definition natural_loop ::
  "graph_ir \<Rightarrow> edge_ir dict \<Rightarrow> string \<times> string list \<Rightarrow> loop_candidate" where
  "natural_loop g edges hb =
     (let (header, backs) = hb in
      \<lparr>ca_id = [], ca_header = header,
       ca_nodes = reach_loop (gr_predecessors g) {header}
         (List.map_filter (\<lambda>eid. map_option ed_from_node (dict_get edges eid)) backs),
       ca_back_edges = backs\<rparr>)"

definition improper_overlap :: "loop_candidate \<Rightarrow> loop_candidate \<Rightarrow> bool" where
  "improper_overlap a b \<longleftrightarrow> ca_nodes a \<inter> ca_nodes b \<noteq> {}
     \<and> \<not> (ca_nodes a \<subset> ca_nodes b) \<and> \<not> (ca_nodes b \<subset> ca_nodes a)"

fun first_overlap :: "loop_candidate list \<Rightarrow> (loop_candidate \<times> loop_candidate) option" where
  "first_overlap [] = None"
| "first_overlap (a # cs) =
     (case filter (improper_overlap a) cs of b # _ \<Rightarrow> Some (a, b) | [] \<Rightarrow> first_overlap cs)"

definition loop_overlap_invalid :: "string list \<Rightarrow> loop_candidate \<Rightarrow> loop_candidate \<Rightarrow> diagnostic" where
  "loop_overlap_invalid ns a b = compile_error ''LOOP_OVERLAP_INVALID''
     ''Natural loops may be disjoint or strictly nested; overlapping loop bodies are ambiguous.''
     (join_str '','' (in_node_order ns (ca_nodes a \<inter> ca_nodes b)))"

text \<open>Sorted by their headers and numbered from one.\<close>

definition node_position :: "string list \<Rightarrow> string \<Rightarrow> nat" where
  "node_position ns n = length (takeWhile (\<lambda>m. m \<noteq> n) ns)"

definition number_candidates :: "string list \<Rightarrow> loop_candidate list \<Rightarrow> loop_candidate list" where
  "number_candidates ns cs =
     (let sorted = sort_key (\<lambda>c. node_position ns (ca_header c)) cs
      in map (\<lambda>(k, c). c\<lparr>ca_id := ''loop_'' @ str_nat (k + 1)\<rparr>) (zip [0..<length sorted] sorted))"

definition candidate_parent :: "loop_candidate list \<Rightarrow> loop_candidate \<Rightarrow> loop_candidate option" where
  "candidate_parent cs c =
     (let supersets = filter (\<lambda>d. ca_nodes c \<subset> ca_nodes d) cs
      in if supersets = [] then None else Some (arg_min_list (\<lambda>d. card (ca_nodes d)) supersets))"

lemma arg_min_list_mem: "xs \<noteq> [] \<Longrightarrow> arg_min_list f xs \<in> set xs"
  by (rule arg_min_list_in)

lemma candidate_parent_SomeD:
  assumes "candidate_parent cs c = Some p"
  shows "p \<in> set cs \<and> ca_nodes c \<subset> ca_nodes p"
  using assms arg_min_list_mem [of "filter (\<lambda>d. ca_nodes c \<subset> ca_nodes d) cs" "\<lambda>d. card (ca_nodes d)"]
  by (auto simp: candidate_parent_def Let_def split: if_splits)

function candidate_depth :: "loop_candidate list \<Rightarrow> loop_candidate \<Rightarrow> nat" where
  "candidate_depth cs c =
     (case candidate_parent cs c of None \<Rightarrow> 0 | Some p \<Rightarrow> 1 + candidate_depth cs p)"
  by pat_completeness auto

termination
proof (relation "measure (\<lambda>(cs, c). card {d \<in> set cs. ca_nodes c \<subset> ca_nodes d})", goal_cases)
  case (2 cs c p)
  then have "{d \<in> set cs. ca_nodes p \<subset> ca_nodes d} \<subset> {d \<in> set cs. ca_nodes c \<subset> ca_nodes d}"
    using candidate_parent_SomeD [of cs c p] by blast
  then show ?case by (simp add: psubset_card_mono)
qed simp

declare candidate_depth.simps [simp del]

definition region_of_candidate ::
  "string list \<Rightarrow> edge_ir dict \<Rightarrow> loop_candidate list \<Rightarrow> loop_candidate \<Rightarrow> loop_region_ir" where
  "region_of_candidate ns edges cs c =
     \<lparr>lr_id = ca_id c, lr_node_ids = in_node_order ns (ca_nodes c), lr_header_node_id = ca_header c,
      lr_internal_edge_ids = edges_within edges (ca_nodes c),
      lr_external_entry_edge_ids = edges_into edges (ca_nodes c),
      lr_back_edge_ids = ca_back_edges c, lr_exit_edge_ids = edges_out_of edges (ca_nodes c),
      lr_parent = map_option ca_id (candidate_parent cs c),
      lr_children = map ca_id (filter (\<lambda>d. map_option ca_header (candidate_parent cs d)
                                           = Some (ca_header c)) cs),
      lr_depth = candidate_depth cs c\<rparr>"

definition candidate_entry_error ::
  "string list \<Rightarrow> edge_ir dict \<Rightarrow> string list \<Rightarrow> loop_candidate \<Rightarrow> diagnostic option" where
  "candidate_entry_error ns edges entries c =
     (let invalid = edges_missing edges (ca_nodes c) (ca_header c);
          wrong_entries = filter (\<lambda>n. n \<in> ca_nodes c \<and> n \<noteq> ca_header c) entries
      in if invalid = [] \<and> wrong_entries = [] then None
         else Some (loop_entry_invalid ''Every edge entering a natural loop must target its header node ''
                invalid (hd (wrong_entries @ [[]])) (ca_header c) (in_node_order ns (ca_nodes c))))"

definition build_regions ::
  "string list \<Rightarrow> edge_ir dict \<Rightarrow> string list \<Rightarrow> loop_candidate list
   \<Rightarrow> diagnostic list \<times> loop_region_ir dict" where
  "build_regions ns edges entries cs =
     (List.map_filter (candidate_entry_error ns edges entries) cs,
      map (\<lambda>c. (ca_id c, region_of_candidate ns edges cs c))
        (filter (\<lambda>c. candidate_entry_error ns edges entries c = None) cs))"

definition node_loop_stacks :: "string list \<Rightarrow> loop_region_ir dict \<Rightarrow> string list dict" where
  "node_loop_stacks ns regions =
     List.map_filter (\<lambda>n.
         let containing = sort_key lr_depth (filter (\<lambda>r. n \<in> set (lr_node_ids r)) (map snd regions))
         in if containing = [] then None else Some (n, map lr_id containing)) ns"

section \<open>The whole analysis\<close>

text \<open>
  The graph keeps empty loop indexes when an error ends the analysis early.
\<close>

definition compile_loop_regions ::
  "string list \<Rightarrow> edge_ir dict \<Rightarrow> graph_ir \<Rightarrow> string list \<Rightarrow> (diagnostic list \<times> graph_ir) option" where
  "compile_loop_regions ns edges g entries =
     (let reachable = reach_loop (gr_successors g) {} entries in
      case compute_dominators g ns reachable entries of
        None \<Rightarrow> None
      | Some D \<Rightarrow>
          Some (case List.map_filter (component_entry_error g ns edges entries)
                  (strongly_connected_components g ns) of
            d # _ \<Rightarrow> ([d], g)
          | [] \<Rightarrow>
              if \<not> acyclic_without g ns edges reachable (all_back_edge_ids reachable D edges)
              then ([mk_diagnostic SevError ''LOOP_IRREDUCIBLE''
                ''Workflow contains a cycle that cannot be represented as a natural loop with a dominating header.''
                None []], g)
              else
                let found = map (natural_loop g edges) (back_edges_by_header reachable D edges)
                in (case first_overlap found of
                      Some (a, b) \<Rightarrow> ([loop_overlap_invalid ns a b], g)
                    | None \<Rightarrow>
                        (let cs = number_candidates ns found;
                             (ds, regions) = build_regions ns edges entries cs
                         in (ds, g\<lparr>gr_loop_regions := regions,
                                   gr_node_loop_stacks := node_loop_stacks ns regions\<rparr>)))))"

end
