(* ===== verification/Flow_Reachability.thy ===== *)
theory Flow_Reachability
  imports Compiler_Loops
begin

text \<open>
  What the worklist computes, and dominance: the nodes a walk can reach without entering a set of
  barriers. A node dominates another exactly when no walk from the entries avoids it, so the
  reachability that avoids one node specifies the compiler's dominators.
\<close>

section \<open>Reachability that avoids a set\<close>

inductive_set avoiding :: "(string \<Rightarrow> string set) \<Rightarrow> string set \<Rightarrow> string set \<Rightarrow> string set"
  for nxt S start where
  avoiding_start: "n \<in> start \<Longrightarrow> n \<notin> S \<Longrightarrow> n \<in> avoiding nxt S start"
| avoiding_step: "m \<in> avoiding nxt S start \<Longrightarrow> n \<in> nxt m \<Longrightarrow> n \<notin> S \<Longrightarrow> n \<in> avoiding nxt S start"

abbreviation links :: "string list dict \<Rightarrow> string \<Rightarrow> string set" where
  "links d n \<equiv> set (dict_get_default d n [])"

lemma avoiding_barrier: "n \<in> avoiding nxt S start \<Longrightarrow> n \<notin> S"
  by (erule avoiding.cases) simp_all

lemma avoiding_mono: "n \<in> avoiding nxt S A \<Longrightarrow> A \<subseteq> B \<Longrightarrow> T \<subseteq> S \<Longrightarrow> n \<in> avoiding nxt T B"
  by (induction rule: avoiding.induct) (auto intro: avoiding.intros)

lemma avoiding_visited: "n \<in> S \<Longrightarrow> avoiding nxt S (insert n start) = avoiding nxt S start"
proof (intro equalityI subsetI)
  fix x assume "n \<in> S" "x \<in> avoiding nxt S (insert n start)"
  from this(2) show "x \<in> avoiding nxt S start"
    by (induction rule: avoiding.induct) (use \<open>n \<in> S\<close> in \<open>auto intro: avoiding.intros\<close>)
qed (auto intro: avoiding_mono)

lemma avoiding_visit:
  assumes "n \<notin> S"
  shows "avoiding nxt S (insert n start) = insert n (avoiding nxt (insert n S) (start \<union> nxt n))"
proof (intro equalityI subsetI)
  fix x assume "x \<in> avoiding nxt S (insert n start)"
  then show "x \<in> insert n (avoiding nxt (insert n S) (start \<union> nxt n))"
    by (induction rule: avoiding.induct) (auto intro: avoiding.intros)
next
  fix x assume x: "x \<in> insert n (avoiding nxt (insert n S) (start \<union> nxt n))"
  have n: "n \<in> avoiding nxt S (insert n start)" using assms by (auto intro: avoiding_start)
  have "x \<in> avoiding nxt S (insert n start)" if "x \<in> avoiding nxt (insert n S) (start \<union> nxt n)"
    using that by (induction rule: avoiding.induct) (auto intro: avoiding.intros n)
  with x n show "x \<in> avoiding nxt S (insert n start)" by auto
qed

lemma avoiding_empty [simp]: "avoiding nxt S {} = {}"
proof -
  have False if "x \<in> avoiding nxt S {}" for x
    using that by (induction rule: avoiding.induct) auto
  then show ?thesis by auto
qed

theorem reach_loop_avoiding:
  "reach_loop nxt seen pending = seen \<union> avoiding (links nxt) seen (set pending)"
proof (induction nxt seen pending rule: reach_loop.induct)
  case (1 nxt seen pending)
  show ?case
  proof (cases pending rule: rev_cases)
    case Nil
    then show ?thesis by (simp add: reach_loop.simps)
  next
    case (snoc rest n)
    show ?thesis
    proof (cases "n \<in> seen")
      case True
      with 1 snoc show ?thesis
        by (subst reach_loop.simps) (simp add: avoiding_visited)
    next
      case False
      with 1 snoc have "reach_loop nxt seen pending
          = insert n seen \<union> avoiding (links nxt) (insert n seen) (set rest \<union> links nxt n)"
        by (subst reach_loop.simps) simp
      with False snoc show ?thesis by (simp add: avoiding_visit)
    qed
  qed
qed

section \<open>The indexes of a graph\<close>

text \<open>The predecessor and successor indexes describe the same arrows.\<close>

definition arrows_agree :: "graph_ir \<Rightarrow> bool" where
  "arrows_agree g \<longleftrightarrow> (\<forall>m n. m \<in> links (gr_predecessors g) n \<longleftrightarrow> n \<in> links (gr_successors g) m)"

definition flow_reach :: "graph_ir \<Rightarrow> string list \<Rightarrow> string set" where
  "flow_reach g entries = avoiding (links (gr_successors g)) {} (set entries)"

definition avoids :: "graph_ir \<Rightarrow> string list \<Rightarrow> string \<Rightarrow> string \<Rightarrow> bool" where
  "avoids g entries d n \<longleftrightarrow> n \<in> avoiding (links (gr_successors g)) {d} (set entries)"

lemma reach_loop_flow: "reach_loop (gr_successors g) {} entries = flow_reach g entries"
  by (simp add: reach_loop_avoiding flow_reach_def)

lemma flow_reach_entry: "e \<in> set entries \<Longrightarrow> e \<in> flow_reach g entries"
  by (simp add: flow_reach_def avoiding_start)

lemma flow_reach_step: "m \<in> flow_reach g entries \<Longrightarrow> n \<in> links (gr_successors g) m \<Longrightarrow> n \<in> flow_reach g entries"
  by (auto simp: flow_reach_def intro: avoiding_step)

lemma avoids_reach: "avoids g entries d n \<Longrightarrow> n \<in> flow_reach g entries"
  by (auto simp: avoids_def flow_reach_def intro: avoiding_mono)

lemma avoids_not_self [simp]: "\<not> avoids g entries n n"
  by (auto simp: avoids_def dest: avoiding_barrier)

lemma avoids_entry: "e \<in> set entries \<Longrightarrow> e \<noteq> d \<Longrightarrow> avoids g entries d e"
  by (simp add: avoids_def avoiding_start)

lemma avoids_step: "avoids g entries d m \<Longrightarrow> n \<in> links (gr_successors g) m \<Longrightarrow> n \<noteq> d \<Longrightarrow> avoids g entries d n"
  by (auto simp: avoids_def intro: avoiding_step)

lemma flow_reach_pred:
  assumes "n \<in> flow_reach g entries" and "n \<notin> set entries"
  shows "\<exists>m. m \<in> flow_reach g entries \<and> n \<in> links (gr_successors g) m"
  using assms unfolding flow_reach_def by (cases rule: avoiding.cases) auto

end
