(* ===== verification/Compiler_Dominators.thy ===== *)
theory Compiler_Dominators
  imports Flow_Reachability
begin

text \<open>
  The iteration of the dominators returns, and what it returns is dominance: on the reachable nodes
  the computed sets contain exactly the nodes no walk from the entries can avoid. The sets only
  shrink, which bounds the iteration, and never lose a true dominator; at the fixed point a walk
  that avoids a node shows the node is in none of the sets along it.
\<close>

definition iterated :: "string set \<Rightarrow> string list \<Rightarrow> string \<Rightarrow> bool" where
  "iterated reachable entries n \<longleftrightarrow> n \<in> reachable \<and> n \<notin> set entries"

definition dominators_inv :: "graph_ir \<Rightarrow> string set \<Rightarrow> string list \<Rightarrow> dominators \<Rightarrow> bool" where
  "dominators_inv g reachable entries D \<longleftrightarrow>
     (\<forall>e \<in> set entries. D e = {e})
     \<and> (\<forall>n \<in> reachable. D n \<subseteq> reachable)
     \<and> (\<forall>n. iterated reachable entries n \<longrightarrow> dominator_update g reachable D n \<subseteq> D n)
     \<and> (\<forall>n \<in> reachable. \<forall>d. \<not> avoids g entries d n \<longrightarrow> d \<in> D n)"

lemma mem_intersect_all: "ss \<noteq> [] \<Longrightarrow> x \<in> intersect_all ss \<longleftrightarrow> (\<forall>s \<in> set ss. x \<in> s)"
  by (induction ss rule: intersect_all.induct) auto

lemma mem_dominator_update:
  assumes "\<exists>p. p \<in> reachable \<and> p \<in> links (gr_predecessors g) n"
  shows "d \<in> dominator_update g reachable D n
    \<longleftrightarrow> d = n \<or> (\<forall>p \<in> reachable. p \<in> links (gr_predecessors g) n \<longrightarrow> d \<in> D p)"
proof -
  have "map D (filter (\<lambda>p. p \<in> reachable) (dict_get_default (gr_predecessors g) n [])) \<noteq> []"
    using assms by (auto simp: filter_empty_conv)
  then show ?thesis by (auto simp: dominator_update_def mem_intersect_all)
qed

lemma iterated_pred:
  assumes "arrows_agree g" and "iterated (flow_reach g entries) entries n"
  shows "\<exists>p. p \<in> flow_reach g entries \<and> p \<in> links (gr_predecessors g) n"
  using assms flow_reach_pred [of n g entries] by (auto simp: iterated_def arrows_agree_def)

lemmas mem_update = mem_dominator_update [OF iterated_pred]

section \<open>One update\<close>

lemma dominators_inv_initial:
  assumes "arrows_agree g"
  shows "dominators_inv g (flow_reach g entries) entries (initial_dominators (flow_reach g entries) entries)"
    (is "dominators_inv g ?R entries ?D")
proof -
  have sub: "?D n \<subseteq> ?R" if "n \<in> ?R" for n
    using that by (auto simp: initial_dominators_def)
  have "dominator_update g ?R ?D n \<subseteq> ?D n" if n: "iterated ?R entries n" for n
  proof
    fix d assume "d \<in> dominator_update g ?R ?D n"
    moreover obtain p where "p \<in> ?R" "p \<in> links (gr_predecessors g) n"
      using iterated_pred [OF assms n] by blast
    ultimately have "d = n \<or> d \<in> ?D p" using mem_update [OF assms n] by blast
    with n sub [OF \<open>p \<in> ?R\<close>] have "d \<in> ?R" by (auto simp: iterated_def)
    then show "d \<in> ?D n" using n by (simp add: initial_dominators_def iterated_def)
  qed
  moreover have "d \<in> ?D n" if "n \<in> ?R" "\<not> avoids g entries d n" for d n
  proof (cases "n \<in> set entries")
    case True
    with that show ?thesis by (auto simp: initial_dominators_def dest: avoids_entry)
  next
    case False
    have "d \<in> ?R"
    proof (rule ccontr)
      assume "d \<notin> ?R"
      have "avoids g entries d n" if "n \<in> flow_reach g entries" for n
        using that [unfolded flow_reach_def]
      proof (induction rule: avoiding.induct)
        case (avoiding_start n)
        with \<open>d \<notin> ?R\<close> show ?case by (metis avoids_entry flow_reach_entry)
      next
        case (avoiding_step m n)
        then have "n \<in> ?R" by (metis avoids_reach flow_reach_step)
        with avoiding_step \<open>d \<notin> ?R\<close> show ?case by (metis avoids_step)
      qed
      with that show False by blast
    qed
    with False show ?thesis by (simp add: initial_dominators_def)
  qed
  ultimately show ?thesis using sub
    by (auto simp: dominators_inv_def initial_dominators_def)
qed

lemma dominator_update_mono:
  assumes "arrows_agree g" and "iterated (flow_reach g entries) entries n"
    and "\<And>p. p \<in> flow_reach g entries \<Longrightarrow> D' p \<subseteq> D p"
  shows "dominator_update g (flow_reach g entries) D' n \<subseteq> dominator_update g (flow_reach g entries) D n"
proof
  fix x assume "x \<in> dominator_update g (flow_reach g entries) D' n"
  with assms(3) show "x \<in> dominator_update g (flow_reach g entries) D n"
    unfolding mem_update [OF assms(1,2)] by blast
qed

lemma dominators_inv_update:
  assumes g: "arrows_agree g" and inv: "dominators_inv g R entries D" and R: "R = flow_reach g entries"
    and n: "iterated R entries n"
  shows "dominators_inv g R entries (D(n := dominator_update g R D n))" (is "dominators_inv g R entries ?D")
proof -
  have n': "iterated (flow_reach g entries) entries n" using n R by simp
  have sub: "?D p \<subseteq> D p" for p
    using inv n by (auto simp: dominators_inv_def)
  have "dominator_update g R ?D m \<subseteq> ?D m" if "iterated R entries m" for m
  proof -
    have "dominator_update g R ?D m \<subseteq> dominator_update g R D m"
      using dominator_update_mono [OF g, of entries m ?D D] that sub R by blast
    moreover have "dominator_update g R D m \<subseteq> D m" using inv that by (simp add: dominators_inv_def)
    ultimately show ?thesis by auto
  qed
  moreover have "d \<in> ?D m" if "m \<in> R" "\<not> avoids g entries d m" for d m
  proof (cases "m = n")
    case True
    have "d = n \<or> (\<forall>p \<in> R. p \<in> links (gr_predecessors g) n \<longrightarrow> d \<in> D p)"
    proof (cases "d = n")
      case False
      have "d \<in> D p" if p: "p \<in> R" "p \<in> links (gr_predecessors g) n" for p
      proof -
        have "\<not> avoids g entries d p"
          using \<open>\<not> avoids g entries d m\<close> True False p g avoids_step [of g entries d p n]
          by (auto simp: arrows_agree_def)
        then show ?thesis using inv p by (simp add: dominators_inv_def)
      qed
      then show ?thesis by simp
    qed simp
    then show ?thesis using True mem_update [OF g n', of d D] R by simp
  qed (use inv that in \<open>simp add: dominators_inv_def\<close>)
  moreover have "?D m \<subseteq> R" if "m \<in> R" for m
    using sub [of m] inv that unfolding dominators_inv_def by blast
  moreover have "?D e = {e}" if "e \<in> set entries" for e
    using inv n that by (auto simp: dominators_inv_def iterated_def)
  ultimately show ?thesis by (simp add: dominators_inv_def)
qed

section \<open>One pass and the loop\<close>

definition dominator_weight :: "string list \<Rightarrow> dominators \<Rightarrow> nat" where
  "dominator_weight ns D = sum_list (map (\<lambda>n. card (D n)) ns)"

lemma dominator_weight_shrink:
  assumes "\<And>m. D' m \<subseteq> D m" and "\<And>m. m \<in> set ns \<Longrightarrow> finite (D m)"
  shows "dominator_weight ns D' \<le> dominator_weight ns D"
  using assms(2) by (induction ns) (auto simp: dominator_weight_def intro!: add_mono card_mono assms(1))

lemma dominator_weight_less:
  assumes "\<And>m. D' m \<subseteq> D m" and "\<And>m. m \<in> set ns \<Longrightarrow> finite (D m)" and "n \<in> set ns" and "D' n \<noteq> D n"
  shows "dominator_weight ns D' < dominator_weight ns D"
  using assms(2,3)
proof (induction ns)
  case (Cons m ns)
  have le: "card (D' m) \<le> card (D m)" using Cons.prems assms(1) by (simp add: card_mono)
  show ?case
  proof (cases "m = n")
    case True
    then have "card (D' m) < card (D m)"
      using assms(1,4) Cons.prems by (intro psubset_card_mono) auto
    moreover have "dominator_weight ns D' \<le> dominator_weight ns D"
      using assms(1) Cons.prems by (intro dominator_weight_shrink) auto
    ultimately show ?thesis by (simp add: dominator_weight_def)
  next
    case False
    with Cons le show ?thesis by (auto simp: dominator_weight_def)
  qed
qed simp

definition dominator_step :: "graph_ir \<Rightarrow> string set \<Rightarrow> string list \<Rightarrow> dominators \<times> bool \<Rightarrow> string \<Rightarrow> dominators \<times> bool" where
  "dominator_step g R entries = (\<lambda>(D, changed) n.
     if n \<notin> R \<or> n \<in> set entries then (D, changed)
     else let updated = dominator_update g R D n
          in if updated \<noteq> D n then (D(n := updated), True) else (D, changed))"

lemma dominator_pass_step: "dominator_pass g ns R entries D = foldl (dominator_step g R entries) (D, False) ns"
  by (simp add: dominator_pass_def dominator_step_def)

lemma dominator_step_cases:
  "dominator_step g R entries (D, c) n =
     (if iterated R entries n \<and> dominator_update g R D n \<noteq> D n
      then (D(n := dominator_update g R D n), True) else (D, c))"
  by (auto simp: dominator_step_def iterated_def Let_def)

lemma dominator_steps:
  assumes g: "arrows_agree g" and R: "R = flow_reach g entries"
    and "dominators_inv g R entries D" and "foldl (dominator_step g R entries) (D, c) ms = (D', c')"
  shows "dominators_inv g R entries D' \<and> (\<forall>m. D' m \<subseteq> D m) \<and> (\<forall>m. m \<notin> R \<longrightarrow> D' m = D m)
    \<and> (c' = (c \<or> D' \<noteq> D)) \<and> (D' = D \<longrightarrow> (\<forall>n \<in> set ms. iterated R entries n \<longrightarrow> dominator_update g R D n = D n))"
  using assms(3-4)
proof (induction ms arbitrary: D c)
  case (Cons n ms)
  let ?U = "dominator_update g R D n"
  show ?case
  proof (cases "iterated R entries n \<and> ?U \<noteq> D n")
    case True
    then have inv: "dominators_inv g R entries (D(n := ?U))"
      using dominators_inv_update [OF g Cons.prems(1) R] by simp
    have run: "foldl (dominator_step g R entries) (D(n := ?U), True) ms = (D', c')"
      using Cons.prems(2) True by (simp add: dominator_step_cases)
    have small: "?U \<subset> D n" using True Cons.prems(1) by (auto simp: dominators_inv_def)
    note ih = Cons.IH [OF inv run]
    have "(D(n := ?U)) m \<subseteq> D m" for m using small by auto
    moreover have "D' m \<subseteq> (D(n := ?U)) m" for m using ih by simp
    ultimately have "D' m \<subseteq> D m" for m by (meson subset_trans)
    moreover have "D' n \<subseteq> ?U" using ih by (metis fun_upd_same)
    moreover have "D' m = D m" if "m \<notin> R" for m
      using ih that True by (auto simp: iterated_def)
    moreover have "D' \<noteq> D" using \<open>D' n \<subseteq> ?U\<close> small by auto
    ultimately show ?thesis using ih by simp
  next
    case False
    then have run: "foldl (dominator_step g R entries) (D, c) ms = (D', c')"
      using Cons.prems(2) by (auto simp: dominator_step_cases)
    show ?thesis using Cons.IH [OF Cons.prems(1) run] False by auto
  qed
qed auto

lemma dominator_pass_result:
  assumes "arrows_agree g" and "finite (flow_reach g entries)" and "set ns = flow_reach g entries \<union> X"
    and "X \<inter> flow_reach g entries = {}" and "dominators_inv g (flow_reach g entries) entries D"
    and "dominator_pass g ns (flow_reach g entries) entries D = (D', c)"
  shows "dominators_inv g (flow_reach g entries) entries D'"
    and "c \<Longrightarrow> dominator_weight (filter (\<lambda>n. n \<in> flow_reach g entries) ns) D'
           < dominator_weight (filter (\<lambda>n. n \<in> flow_reach g entries) ns) D"
    and "\<not> c \<Longrightarrow> \<forall>n. iterated (flow_reach g entries) entries n
           \<longrightarrow> dominator_update g (flow_reach g entries) D' n = D' n"
proof -
  let ?R = "flow_reach g entries" and ?ns = "filter (\<lambda>n. n \<in> flow_reach g entries) ns"
  have run: "foldl (dominator_step g ?R entries) (D, False) ns = (D', c)"
    using assms(6) by (simp add: dominator_pass_step)
  note steps = dominator_steps [OF assms(1) refl assms(5) run]
  show "dominators_inv g ?R entries D'" using steps by blast
  show "\<forall>n. iterated ?R entries n \<longrightarrow> dominator_update g ?R D' n = D' n" if "\<not> c"
    using steps that assms(3) by (auto simp: iterated_def)
  show "dominator_weight ?ns D' < dominator_weight ?ns D" if c
  proof -
    have "D' \<noteq> D" using steps that by blast
    then obtain n where n: "D' n \<noteq> D n" by (auto simp: fun_eq_iff)
    have "D' m = D m" if "m \<notin> ?R" for m
      using steps that by auto
    with n have "n \<in> ?R" by blast
    have "finite (D m)" if "m \<in> ?R" for m
      using assms(2,5) that unfolding dominators_inv_def by (meson finite_subset)
    with n \<open>n \<in> ?R\<close> show ?thesis
      using steps assms(3) by (intro dominator_weight_less [of D' D ?ns n]) simp_all
  qed
qed

lemma dominator_loop_returns:
  assumes "arrows_agree g" and "finite (flow_reach g entries)" and "set ns = flow_reach g entries \<union> X"
    and "X \<inter> flow_reach g entries = {}" and "dominators_inv g (flow_reach g entries) entries D"
  shows "\<exists>D'. dominator_loop g ns (flow_reach g entries) entries D = Some D'
    \<and> dominators_inv g (flow_reach g entries) entries D'
    \<and> (\<forall>n. iterated (flow_reach g entries) entries n
         \<longrightarrow> dominator_update g (flow_reach g entries) D' n = D' n)"
  using assms(5)
proof (induction "dominator_weight (filter (\<lambda>n. n \<in> flow_reach g entries) ns) D"
    arbitrary: D rule: less_induct)
  case less
  let ?R = "flow_reach g entries"
  obtain D' c where run: "dominator_pass g ns ?R entries D = (D', c)" by force
  note result = dominator_pass_result [OF assms(1-4) less.prems run]
  show ?case
  proof (cases c)
    case True
    then have "\<exists>E. dominator_loop g ns ?R entries D' = Some E \<and> dominators_inv g ?R entries E
      \<and> (\<forall>n. iterated ?R entries n \<longrightarrow> dominator_update g ?R E n = E n)"
      using less.hyps [OF _ result(1)] result(2) by blast
    with True run show ?thesis by (subst dominator_loop.simps) simp
  next
    case False
    with run result show ?thesis by (subst dominator_loop.simps) simp
  qed
qed

section \<open>The fixed point is dominance\<close>

lemma fixpoint_sound:
  assumes "arrows_agree g" and "dominators_inv g (flow_reach g entries) entries D"
    and "\<forall>n. iterated (flow_reach g entries) entries n
         \<longrightarrow> dominator_update g (flow_reach g entries) D n = D n"
    and "avoids g entries d n"
  shows "d \<notin> D n"
  using assms(4) [unfolded avoids_def]
proof (induction rule: avoiding.induct)
  case (avoiding_start n)
  then show ?case using assms(2) by (auto simp: dominators_inv_def)
next
  case (avoiding_step m n)
  let ?R = "flow_reach g entries"
  have m: "m \<in> ?R" using avoiding_step.hyps(1) by (auto simp: flow_reach_def intro: avoiding_mono)
  then have n: "n \<in> ?R" using avoiding_step.hyps(2) by (rule flow_reach_step)
  show ?case
  proof (cases "n \<in> set entries")
    case True
    with avoiding_step.hyps(3) assms(2) show ?thesis by (auto simp: dominators_inv_def)
  next
    case False
    with n have i: "iterated ?R entries n" by (simp add: iterated_def)
    have "m \<in> links (gr_predecessors g) n"
      using avoiding_step.hyps(2) assms(1) by (simp add: arrows_agree_def)
    with avoiding_step m have "d \<notin> dominator_update g ?R D n"
      unfolding mem_update [OF assms(1) i] by blast
    with assms(3) i show ?thesis by simp
  qed
qed

text \<open>Dominance, and that the iteration returns, on every graph whose indexes agree.\<close>

lemma compute_dominators_exact:
  assumes "arrows_agree g" and "finite (flow_reach g entries)" and "flow_reach g entries \<subseteq> set ns"
  shows "\<exists>D. compute_dominators g ns (flow_reach g entries) entries = Some D
    \<and> (\<forall>n \<in> flow_reach g entries. \<forall>d. d \<in> D n \<longleftrightarrow> \<not> avoids g entries d n)"
proof -
  let ?R = "flow_reach g entries"
  have ns: "set ns = ?R \<union> (set ns - ?R)" using assms(3) by auto
  have disj: "(set ns - ?R) \<inter> ?R = {}" by auto
  obtain D where D: "compute_dominators g ns ?R entries = Some D" "dominators_inv g ?R entries D"
    "\<forall>n. iterated ?R entries n \<longrightarrow> dominator_update g ?R D n = D n"
    using dominator_loop_returns [OF assms(1,2) ns disj dominators_inv_initial [OF assms(1)]]
    by (auto simp: compute_dominators_def)
  moreover have "d \<in> D n \<longleftrightarrow> \<not> avoids g entries d n" if "n \<in> ?R" for n d
    using fixpoint_sound [OF assms(1) D(2,3)] D(2) that by (auto simp: dominators_inv_def)
  ultimately show ?thesis by blast
qed

end
