(* ===== verification/Compiler_Topology.thy ===== *)
theory Compiler_Topology
  imports Compiler_Dominators
begin

text \<open>
  The graph indexes of \<open>_build_graph\<close> and the topological count of \<open>_compile_loop_regions\<close>: when the
  count reaches every reachable node, the edges that are not back edges have a rank that increases
  along each of them.
\<close>

section \<open>Indexes\<close>

definition closed_graph :: "node_ir dict \<Rightarrow> edge_ir dict \<Rightarrow> bool" where
  "closed_graph nodes edges \<longleftrightarrow>
     distinct (dict_keys nodes) \<and> distinct (dict_keys edges)
     \<and> (\<forall>(eid, e) \<in> set edges. ed_from_node e \<in> set (dict_keys nodes) \<and> ed_to_node e \<in> set (dict_keys nodes))"

lemma map_of_index: "map_of (map (\<lambda>n. (n, f n)) ks) n = (if n \<in> set ks then Some (f n) else None)"
  by (induction ks) auto

lemma dict_get_default_index [simp]:
  "dict_get_default (map (\<lambda>n. (n, f n)) ks) n [] = (if n \<in> set ks then f n else [])"
  by (simp add: dict_get_default_def dict_get_def map_of_index)

lemma dict_keys_index [simp]: "dict_keys (map (\<lambda>n. (n, f n)) ks) = ks"
  by (simp add: dict_keys_def o_def)

lemma graph_outgoing [simp]:
  "dict_get_default (gr_outgoing_edges (build_graph nodes edges)) n []
   = (if n \<in> set (dict_keys nodes) then map fst (filter (\<lambda>(_, e). ed_from_node e = n) edges) else [])"
  by (simp add: build_graph_def)

lemma graph_incoming [simp]:
  "dict_get_default (gr_incoming_edges (build_graph nodes edges)) n []
   = (if n \<in> set (dict_keys nodes) then map fst (filter (\<lambda>(_, e). ed_to_node e = n) edges) else [])"
  by (simp add: build_graph_def)

lemma graph_successors:
  assumes "closed_graph nodes edges"
  shows "n \<in> links (gr_successors (build_graph nodes edges)) m
    \<longleftrightarrow> (\<exists>(eid, e) \<in> set edges. ed_from_node e = m \<and> ed_to_node e = n)"
  using assms by (force simp: build_graph_def closed_graph_def)

lemma graph_predecessors:
  assumes "closed_graph nodes edges"
  shows "m \<in> links (gr_predecessors (build_graph nodes edges)) n
    \<longleftrightarrow> (\<exists>(eid, e) \<in> set edges. ed_from_node e = m \<and> ed_to_node e = n)"
  using assms by (force simp: build_graph_def closed_graph_def)

lemma graph_arrows: "closed_graph nodes edges \<Longrightarrow> arrows_agree (build_graph nodes edges)"
  by (simp add: arrows_agree_def graph_successors graph_predecessors)

lemma flow_reach_nodes:
  assumes "closed_graph nodes edges" and "set entries \<subseteq> set (dict_keys nodes)"
  shows "flow_reach (build_graph nodes edges) entries \<subseteq> set (dict_keys nodes)"
proof
  fix n assume "n \<in> flow_reach (build_graph nodes edges) entries"
  then show "n \<in> set (dict_keys nodes)" unfolding flow_reach_def
  proof (cases rule: avoiding.cases)
    case (avoiding_step m)
    then show ?thesis using assms(1) by (auto simp: graph_successors closed_graph_def)
  qed (use assms(2) in auto)
qed

lemma flow_reach_finite:
  "closed_graph nodes edges \<Longrightarrow> set entries \<subseteq> set (dict_keys nodes)
   \<Longrightarrow> finite (flow_reach (build_graph nodes edges) entries)"
  by (meson List.finite_set finite_subset flow_reach_nodes)

lemma infer_entries:
  "snd (infer_entry_node_ids nodes (build_graph nodes edges))
   = filter (\<lambda>n. \<forall>(eid, e) \<in> set edges. ed_to_node e \<noteq> n) (dict_keys nodes)"
  by (auto simp: infer_entry_node_ids_def Let_def filter_empty_conv intro!: filter_cong)

lemma infer_exits:
  "infer_exit_node_ids nodes (build_graph nodes edges)
   = filter (\<lambda>n. \<forall>(eid, e) \<in> set edges. ed_from_node e \<noteq> n) (dict_keys nodes)"
  by (auto simp: infer_exit_node_ids_def filter_empty_conv intro!: filter_cong)

section \<open>The topological count\<close>

text \<open>The edges into \<open>m\<close> that are still to be released: \<open>X\<close> are the visited nodes, \<open>Done\<close> edges already released.\<close>

definition open_edges ::
  "edge_ir dict \<Rightarrow> string set \<Rightarrow> string set \<Rightarrow> string set \<Rightarrow> string set \<Rightarrow> string \<Rightarrow> string set" where
  "open_edges edges B R X Done m =
     {eid. \<exists>e. (eid, e) \<in> set edges \<and> eid \<notin> B \<and> ed_from_node e \<in> R \<and> ed_to_node e = m
        \<and> ed_from_node e \<notin> X \<and> eid \<notin> Done}"

lemma finite_open_edges [simp]: "finite (open_edges edges B R X Done m)"
  by (rule finite_subset [of _ "set (dict_keys edges)"]) (force simp: open_edges_def dict_keys_def)+

text \<open>
  \<open>d\<close> holds the numbers of open edges; a node is out or pending exactly when it has none.
\<close>

definition count_inv ::
  "edge_ir dict \<Rightarrow> string set \<Rightarrow> string set \<Rightarrow> string set \<Rightarrow> string list \<Rightarrow> string set \<Rightarrow> int dict \<Rightarrow> string list
   \<Rightarrow> bool" where
  "count_inv edges B R X out Done d p \<longleftrightarrow>
     (\<forall>m. dict_get d m = (if m \<in> R then Some (int (card (open_edges edges B R X Done m))) else None))
     \<and> distinct (out @ p)
     \<and> set out \<union> set p = {m \<in> R. open_edges edges B R X Done m = {}}"

definition topological :: "edge_ir dict \<Rightarrow> string set \<Rightarrow> string set \<Rightarrow> string list \<Rightarrow> bool" where
  "topological edges B R xs \<longleftrightarrow>
     distinct xs \<and> set xs \<subseteq> R
     \<and> (\<forall>k < length xs. \<forall>(eid, e) \<in> set edges. eid \<notin> B \<and> ed_from_node e \<in> R \<and> ed_to_node e = xs ! k
          \<longrightarrow> ed_from_node e \<in> set (take k xs))"

lemma open_edges_insert:
  assumes "distinct (dict_keys edges)" and "(eid, e) \<in> set edges"
  shows "open_edges edges B R X (insert eid Done) m
    = (if ed_to_node e = m then open_edges edges B R X Done m - {eid} else open_edges edges B R X Done m)"
proof -
  have "e' = e" if "(eid, e') \<in> set edges" for e'
    using assms that by (auto simp: dict_keys_def dest: eq_key_imp_eq_value)
  then show ?thesis by (auto simp: open_edges_def)
qed

lemma release_edge_inv:
  assumes inv: "count_inv edges B R X out Done (fst s) (snd s)" and ds: "distinct (dict_keys edges)"
    and e: "(eid, e) \<in> set edges" "ed_from_node e \<in> R" "ed_from_node e \<notin> X" and fresh: "eid \<notin> Done"
  shows "count_inv edges B R X out (insert eid Done)
    (fst (release_edge edges B s eid)) (snd (release_edge edges B s eid))"
proof -
  obtain d p where s: "s = (d, p)" by force
  note ins = open_edges_insert [OF ds e(1)]
  have get: "dict_get edges eid = Some e" using ds e(1) by (simp add: dict_get_def dict_keys_def)
  show ?thesis
  proof (cases "eid \<in> B \<or> ed_to_node e \<notin> R")
    case True
    then have "open_edges edges B R X (insert eid Done) m = open_edges edges B R X Done m" if "m \<in> R" for m
    proof (cases "ed_to_node e = m")
      case eq: True
      with True that have "eid \<notin> open_edges edges B R X Done m" by (auto simp: open_edges_def)
      then show ?thesis by (simp add: ins)
    qed (simp add: ins)
    moreover have "release_edge edges B s eid = s"
      using True inv get by (auto simp: release_edge_def s count_inv_def)
    ultimately show ?thesis using inv by (auto simp: count_inv_def)
  next
    case False
    let ?m = "ed_to_node e" and ?O = "open_edges edges B R X Done"
    have mem: "eid \<in> ?O ?m" using False e fresh by (auto simp: open_edges_def)
    then have pos: "card (?O ?m) \<noteq> 0" by auto
    have dm: "dict_get d ?m = Some (int (card (?O ?m)))" using inv False by (simp add: count_inv_def s)
    have card: "int (card (?O ?m - {eid})) = int (card (?O ?m)) - 1"
      using mem pos by (simp add: card_Diff_singleton of_nat_diff Suc_leI card_gt_0_iff)
    have empty: "?O ?m - {eid} = {} \<longleftrightarrow> int (card (?O ?m)) - 1 = 0" unfolding card [symmetric] by simp
    have run: "release_edge edges B s eid = (dict_set ?m (int (card (?O ?m)) - 1) d,
        if int (card (?O ?m)) - 1 = 0 then p @ [?m] else p)"
      using False get dm by (simp add: release_edge_def s)
    have notin: "?m \<notin> set out \<union> set p" using inv mem by (auto simp: count_inv_def s)
    show ?thesis unfolding run count_inv_def
    proof (intro conjI allI)
      show "dict_get (fst (dict_set ?m (int (card (?O ?m)) - 1) d,
          if int (card (?O ?m)) - 1 = 0 then p @ [?m] else p)) m
        = (if m \<in> R then Some (int (card (open_edges edges B R X (insert eid Done) m))) else None)" for m
        using inv False card by (simp add: count_inv_def s ins)
      show "distinct (out @ snd (dict_set ?m (int (card (?O ?m)) - 1) d,
          if int (card (?O ?m)) - 1 = 0 then p @ [?m] else p))"
        using inv notin by (auto simp: count_inv_def s)
      show "set out \<union> set (snd (dict_set ?m (int (card (?O ?m)) - 1) d,
          if int (card (?O ?m)) - 1 = 0 then p @ [?m] else p))
        = {m \<in> R. open_edges edges B R X (insert eid Done) m = {}}"
        using inv False empty mem by (auto simp: count_inv_def s ins)
    qed
  qed
qed

lemma release_edges_inv:
  assumes "count_inv edges B R X out Done (fst s) (snd s)" and "distinct (dict_keys edges)"
    and "\<forall>eid \<in> set es. \<exists>e. (eid, e) \<in> set edges \<and> ed_from_node e \<in> R \<and> ed_from_node e \<notin> X"
    and "distinct es" and "set es \<inter> Done = {}"
  shows "count_inv edges B R X out (Done \<union> set es)
    (fst (foldl (release_edge edges B) s es)) (snd (foldl (release_edge edges B) s es))"
  using assms
proof (induction es arbitrary: s Done)
  case (Cons eid es)
  then obtain e where e: "(eid, e) \<in> set edges" "ed_from_node e \<in> R" "ed_from_node e \<notin> X" "eid \<notin> Done"
    by auto
  have "count_inv edges B R X out (insert eid Done \<union> set es)
    (fst (foldl (release_edge edges B) (release_edge edges B s eid) es))
    (snd (foldl (release_edge edges B) (release_edge edges B s eid) es))"
    using release_edge_inv [OF Cons.prems(1,2) e] Cons.prems
    by (intro Cons.IH) auto
  then show ?case by simp
qed simp

text \<open>Visiting the first pending node releases all its edges.\<close>

lemma visit_inv:
  assumes inv: "count_inv edges B R (set seen) seen {} d (n # p)" and ds: "distinct (dict_keys edges)"
    and out: "es = map fst (filter (\<lambda>(_, e). ed_from_node e = n) edges)"
    and run: "foldl (release_edge edges B) (d, p) es = (d', p')"
  shows "count_inv edges B R (set (seen @ [n])) (seen @ [n]) {} d' p'"
proof -
  have n: "n \<in> R" "n \<notin> set seen" using inv by (auto simp: count_inv_def)
  have "count_inv edges B R (set seen) (seen @ [n]) {} d p" using inv by (auto simp: count_inv_def)
  then have fin: "count_inv edges B R (set seen) (seen @ [n]) (set es) d' p'"
    using release_edges_inv [of edges B R "set seen" "seen @ [n]" "{}" "(d, p)" es] ds n run
    by (auto simp: out dict_keys_def distinct_map_filter)
  have same: "open_edges edges B R (set (seen @ [n])) {} m = open_edges edges B R (set seen) (set es) m" for m
  proof -
    have "eid \<in> set es \<longleftrightarrow> ed_from_node e = n" if "(eid, e) \<in> set edges" for eid e
      using that ds by (force simp: out dict_keys_def dest: eq_key_imp_eq_value)
    then show ?thesis by (auto simp: open_edges_def)
  qed
  from fin show ?thesis unfolding count_inv_def same by auto
qed

lemma topological_snoc:
  assumes "topological edges B R xs" and "n \<in> R" and "n \<notin> set xs"
    and "open_edges edges B R (set xs) {} n = {}"
  shows "topological edges B R (xs @ [n])"
  unfolding topological_def
proof (intro conjI allI impI ballI)
  show "distinct (xs @ [n])" "set (xs @ [n]) \<subseteq> R" using assms by (auto simp: topological_def)
  fix k ee assume k: "k < length (xs @ [n])" and ee: "ee \<in> set edges"
  show "case ee of (eid, e) \<Rightarrow> eid \<notin> B \<and> ed_from_node e \<in> R \<and> ed_to_node e = (xs @ [n]) ! k
      \<longrightarrow> ed_from_node e \<in> set (take k (xs @ [n]))"
  proof (cases "k < length xs")
    case True
    with assms(1) ee show ?thesis by (auto simp: topological_def nth_append)
  next
    case False
    with k have "k = length xs" by simp
    with assms(4) ee show ?thesis by (auto simp: open_edges_def)
  qed
qed

lemma count_acyclic_order:
  assumes "count_inv edges B R (set seen) seen {} d p" and "topological edges B R seen"
    and "distinct (dict_keys edges)"
    and "\<And>n. n \<in> R \<Longrightarrow> dict_get_default (gr_outgoing_edges g) n []
           = map fst (filter (\<lambda>(_, e). ed_from_node e = n) edges)"
    and "v = length seen"
  shows "\<exists>xs. topological edges B R xs \<and> count_acyclic g edges B v d p = length xs"
  using assms
proof (induction g edges B v d p arbitrary: seen rule: count_acyclic.induct)
  case (1 g edges B v d)
  then show ?case by auto
next
  case (2 g edges B v d n p)
  obtain d' p' where run: "foldl (release_edge edges B) (d, p)
      (dict_get_default (gr_outgoing_edges g) n []) = (d', p')" by force
  have n: "n \<in> R" "n \<notin> set seen" "open_edges edges B R (set seen) {} n = {}"
    using "2.prems"(1) by (auto simp: count_inv_def)
  have "count_inv edges B R (set (seen @ [n])) (seen @ [n]) {} d' p'"
    using visit_inv [OF "2.prems"(1,3) _ run] "2.prems"(4) n(1) by simp
  then have "\<exists>xs. topological edges B R xs \<and> count_acyclic g edges B (v + 1) d' p' = length xs"
    using "2.IH" [OF refl run [symmetric]] topological_snoc [OF "2.prems"(2) n] run "2.prems"(3-5)
    by (metis length_append_singleton Suc_eq_plus1)
  then show ?case by (simp add: run)
qed

text \<open>A rank that grows along every edge that is not a back edge.\<close>

definition ranked :: "edge_ir dict \<Rightarrow> string set \<Rightarrow> string set \<Rightarrow> bool" where
  "ranked edges B R \<longleftrightarrow> (\<exists>rank :: string \<Rightarrow> nat. \<forall>(eid, e) \<in> set edges.
     eid \<notin> B \<and> ed_from_node e \<in> R \<and> ed_to_node e \<in> R \<longrightarrow> rank (ed_from_node e) < rank (ed_to_node e))"

lemma node_position_take: "n \<in> set (take k xs) \<Longrightarrow> node_position xs n < k"
proof (induction xs arbitrary: k)
  case (Cons x xs)
  then show ?case by (cases k) (auto simp: node_position_def)
qed simp

lemma node_position_nth: "n \<in> set xs \<Longrightarrow> node_position xs n < length xs \<and> xs ! node_position xs n = n"
  by (induction xs) (auto simp: node_position_def)

lemma topological_ranked:
  assumes "topological edges B R xs" and "set xs = R"
  shows "ranked edges B R"
  unfolding ranked_def
proof (rule exI [of _ "node_position xs"], intro ballI)
  fix ee assume ee: "ee \<in> set edges"
  obtain eid e where e: "ee = (eid, e)" by force
  have "node_position xs (ed_from_node e) < node_position xs (ed_to_node e)"
    if "eid \<notin> B" "ed_from_node e \<in> R" "ed_to_node e \<in> R"
  proof (rule node_position_take)
    have "ed_to_node e \<in> set xs" using assms(2) that by simp
    note k = node_position_nth [OF this]
    then show "ed_from_node e \<in> set (take (node_position xs (ed_to_node e)) xs)"
      using assms(1) ee e that by (fastforce simp: topological_def)
  qed
  then show "case ee of (eid, e) \<Rightarrow> eid \<notin> B \<and> ed_from_node e \<in> R \<and> ed_to_node e \<in> R
      \<longrightarrow> node_position xs (ed_from_node e) < node_position xs (ed_to_node e)"
    by (simp add: e)
qed

lemma acyclic_without_ranked:
  assumes g: "closed_graph nodes edges" and R: "R \<subseteq> set (dict_keys nodes)"
    and ok: "acyclic_without (build_graph nodes edges) (dict_keys nodes) edges R B"
  shows "ranked edges B R"
proof -
  let ?d = "remaining_indegree (dict_keys nodes) R B edges"
  have ds: "distinct (dict_keys edges)" "distinct (dict_keys nodes)" using g by (auto simp: closed_graph_def)
  have keys: "set (in_node_order (dict_keys nodes) R) = R" using R by (auto simp: in_node_order_def)
  have count: "length (filter (\<lambda>(eid, e). eid \<notin> B \<and> ed_from_node e \<in> R \<and> ed_to_node e = m) edges)
      = card (open_edges edges B R {} {} m)" for m
  proof -
    let ?fs = "filter (\<lambda>(eid, e). eid \<notin> B \<and> ed_from_node e \<in> R \<and> ed_to_node e = m) edges"
    have "distinct (map fst ?fs)" using ds by (simp add: dict_keys_def distinct_map_filter)
    then have "card (set (map fst ?fs)) = length (map fst ?fs)" by (rule distinct_card)
    then have "length ?fs = card (set (map fst ?fs))" by (simp only: length_map)
    also have "set (map fst ?fs) = open_edges edges B R {} {} m" by (force simp: open_edges_def)
    finally show ?thesis .
  qed
  have get: "dict_get ?d m = (if m \<in> R then Some (int (card (open_edges edges B R {} {} m))) else None)" for m
    unfolding remaining_indegree_def dict_get_def count map_of_index keys by simp
  have pending: "set (map fst (filter (\<lambda>(_, k). k = 0) ?d)) = {m \<in> R. open_edges edges B R {} {} m = {}}"
  proof -
    have "set (map fst (filter (\<lambda>(_, k). k = 0) ?d))
        = {m \<in> set (in_node_order (dict_keys nodes) R). int (card (open_edges edges B R {} {} m)) = 0}"
      unfolding remaining_indegree_def count filter_map by (simp add: o_def)
    then show ?thesis unfolding keys by simp
  qed
  have "distinct (map fst (filter (\<lambda>(_, k). k = 0) ?d))"
    using ds(2) by (intro distinct_map_filter) (simp add: remaining_indegree_def in_node_order_def o_def)
  with get pending have "count_inv edges B R (set []) [] {} ?d (map fst (filter (\<lambda>(_, k). k = 0) ?d))"
    by (simp add: count_inv_def)
  moreover have "topological edges B R []" by (simp add: topological_def)
  moreover have "dict_get_default (gr_outgoing_edges (build_graph nodes edges)) n []
      = map fst (filter (\<lambda>(_, e). ed_from_node e = n) edges)" if "n \<in> R" for n
    using that R by auto
  ultimately obtain xs where xs: "topological edges B R xs"
    "count_acyclic (build_graph nodes edges) edges B 0 ?d (map fst (filter (\<lambda>(_, k). k = 0) ?d)) = length xs"
    using count_acyclic_order [of edges B R "[]" ?d _ "build_graph nodes edges" 0] ds(1) by auto
  with ok have "length xs = card R" by (simp add: acyclic_without_def Let_def)
  moreover have "finite R" using R by (rule finite_subset) simp
  ultimately have "set xs = R"
    using xs(1) by (metis card_subset_eq distinct_card topological_def)
  with xs(1) show ?thesis by (rule topological_ranked)
qed

end
