(* ===== verification/Compiler_Nesting.thy ===== *)
theory Compiler_Nesting
  imports Compiler_Topology
begin

text \<open>
  The natural loops. A header dominates its loop, a loop's nodes have all their predecessors in
  the loop except the header, and so every edge into a loop goes to its header: the check
  \<open>_compile_loop_regions\<close> makes of that never fails. Loops that pass the overlap check are
  nested, and the depth of a loop is the number of loops around it, which orders the stack of
  loops of every node from the outside in.
\<close>

section \<open>The analysed graph\<close>

abbreviation entries_of :: "node_ir dict \<Rightarrow> edge_ir dict \<Rightarrow> string list" where
  "entries_of nodes edges \<equiv> snd (infer_entry_node_ids nodes (build_graph nodes edges))"

abbreviation reached :: "node_ir dict \<Rightarrow> edge_ir dict \<Rightarrow> string set" where
  "reached nodes edges \<equiv> flow_reach (build_graph nodes edges) (entries_of nodes edges)"

definition exact_dominators :: "node_ir dict \<Rightarrow> edge_ir dict \<Rightarrow> dominators \<Rightarrow> bool" where
  "exact_dominators nodes edges D \<longleftrightarrow>
     (\<forall>n \<in> reached nodes edges. \<forall>d. d \<in> D n
        \<longleftrightarrow> \<not> avoids (build_graph nodes edges) (entries_of nodes edges) d n)"

lemma entries_are_nodes: "set (entries_of nodes edges) \<subseteq> set (dict_keys nodes)"
  by (auto simp: infer_entries)

lemma entry_no_incoming: "n \<in> set (entries_of nodes edges) \<Longrightarrow> (eid, e) \<in> set edges \<Longrightarrow> ed_to_node e \<noteq> n"
  by (auto simp: infer_entries)

lemma reached_nodes: "closed_graph nodes edges \<Longrightarrow> reached nodes edges \<subseteq> set (dict_keys nodes)"
  by (rule flow_reach_nodes [OF _ entries_are_nodes])

text \<open>Two nodes cannot dominate each other.\<close>

lemma dominance_antisym:
  assumes "n \<in> flow_reach g entries" and "d \<noteq> n" and "\<not> avoids g entries d n"
  shows "avoids g entries n d"
proof -
  let ?A = "avoiding (links (gr_successors g)) {d, n} (set entries)"
  have A: "avoids g entries d x \<and> avoids g entries n x" if "x \<in> ?A" for x
    using that by (auto simp: avoids_def intro: avoiding_mono)
  have "x \<in> ?A \<or> avoids g entries d n \<or> avoids g entries n d" if "x \<in> flow_reach g entries" for x
    using that [unfolded flow_reach_def]
  proof (induction rule: avoiding.induct)
    case (avoiding_start x)
    show ?case
    proof (cases "x = d \<or> x = n")
      case True
      then show ?thesis using avoiding_start assms(2) by (metis avoids_entry)
    next
      case False
      then show ?thesis using avoiding_start by (auto intro: avoiding.avoiding_start)
    qed
  next
    case (avoiding_step m x)
    show ?case
    proof (cases "m \<in> ?A \<and> (x = d \<or> x = n)")
      case True
      then show ?thesis using A [of m] avoiding_step.hyps(2) assms(2) by (metis avoids_step)
    next
      case False
      then show ?thesis using avoiding_step by (auto intro: avoiding.avoiding_step)
    qed
  qed
  moreover have "n \<notin> ?A" by (auto dest: avoiding_barrier)
  ultimately show ?thesis using assms by blast
qed

section \<open>Back edges\<close>

definition back_edges_to :: "node_ir dict \<Rightarrow> edge_ir dict \<Rightarrow> dominators \<Rightarrow> string \<Rightarrow> edge_ir dict" where
  "back_edges_to nodes edges D h =
     filter (\<lambda>(_, e). is_back_edge (reached nodes edges) D e \<and> ed_to_node e = h) edges"

definition collect_back_edge ::
  "string set \<Rightarrow> dominators \<Rightarrow> string list dict \<Rightarrow> string \<times> edge_ir \<Rightarrow> string list dict" where
  "collect_back_edge R D = (\<lambda>m (eid, e). if is_back_edge R D e
     then dict_set (ed_to_node e) (dict_get_default m (ed_to_node e) [] @ [eid]) m else m)"

lemma back_edges_by_header_fold:
  "distinct (dict_keys (foldl (collect_back_edge R D) [] es))
    \<and> dict_get (foldl (collect_back_edge R D) [] es) h
      = (let bs = map fst (filter (\<lambda>(_, e). is_back_edge R D e \<and> ed_to_node e = h) es)
         in if bs = [] then None else Some bs)"
proof (induction es arbitrary: h rule: rev_induct)
  case Nil
  then show ?case by (simp add: dict_keys_def)
next
  case (snoc p es)
  obtain eid e where p: "p = (eid, e)" by force
  show ?case
    using snoc [of h] snoc [of "ed_to_node e"]
    by (auto simp: collect_back_edge_def p Let_def dict_get_default_def distinct_dict_set split: if_splits)
qed

lemma back_edges_by_header_eq: "back_edges_by_header R D es = foldl (collect_back_edge R D) [] es"
  by (simp add: back_edges_by_header_def collect_back_edge_def)

lemma back_edges_by_header_get:
  "dict_get (back_edges_by_header (reached nodes edges) D edges) h
   = (if back_edges_to nodes edges D h = [] then None
      else Some (map fst (back_edges_to nodes edges D h)))"
  using back_edges_by_header_fold [of "reached nodes edges" D edges h]
  by (simp add: back_edges_by_header_eq back_edges_to_def Let_def)

lemma back_edges_by_header_distinct:
  "distinct (dict_keys (back_edges_by_header (reached nodes edges) D edges))"
  using back_edges_by_header_fold [of "reached nodes edges" D edges]
  by (simp add: back_edges_by_header_eq)

section \<open>Loop candidates\<close>

definition loop_nodes :: "node_ir dict \<Rightarrow> edge_ir dict \<Rightarrow> dominators \<Rightarrow> string \<Rightarrow> string set" where
  "loop_nodes nodes edges D h =
     insert h (avoiding (links (gr_predecessors (build_graph nodes edges))) {h}
       (ed_from_node ` snd ` set (back_edges_to nodes edges D h)))"

definition genuine_loop :: "node_ir dict \<Rightarrow> edge_ir dict \<Rightarrow> dominators \<Rightarrow> loop_candidate \<Rightarrow> bool" where
  "genuine_loop nodes edges D c \<longleftrightarrow>
     back_edges_to nodes edges D (ca_header c) \<noteq> []
     \<and> ca_back_edges c = map fst (back_edges_to nodes edges D (ca_header c))
     \<and> ca_nodes c = loop_nodes nodes edges D (ca_header c)"

lemma natural_loop_genuine:
  assumes "closed_graph nodes edges"
    and "hb \<in> set (back_edges_by_header (reached nodes edges) D edges)"
  shows "genuine_loop nodes edges D (natural_loop (build_graph nodes edges) edges hb)"
    and "ca_header (natural_loop (build_graph nodes edges) edges hb) = fst hb"
proof -
  obtain h bs where hb: "hb = (h, bs)" by force
  have "dict_get (back_edges_by_header (reached nodes edges) D edges) h = Some bs"
    using assms(2) back_edges_by_header_distinct [of nodes edges D] hb by (simp add: dict_get_def dict_keys_def)
  then have bs: "back_edges_to nodes edges D h \<noteq> []" "bs = map fst (back_edges_to nodes edges D h)"
    by (auto simp: back_edges_by_header_get split: if_splits)
  have get: "dict_get edges eid = Some e" if "(eid, e) \<in> set edges" for eid e
    using assms(1) that by (simp add: closed_graph_def dict_get_def dict_keys_def)
  have "set (List.map_filter (\<lambda>eid. map_option ed_from_node (dict_get edges eid)) bs)
      = ed_from_node ` snd ` set (back_edges_to nodes edges D h)"
    using get by (force simp: bs(2) map_filter_def back_edges_to_def)
  then show "genuine_loop nodes edges D (natural_loop (build_graph nodes edges) edges hb)"
    using bs by (simp add: genuine_loop_def natural_loop_def hb reach_loop_avoiding loop_nodes_def)
  show "ca_header (natural_loop (build_graph nodes edges) edges hb) = fst hb"
    by (simp add: natural_loop_def hb)
qed

section \<open>A loop and its header\<close>

lemma loop_nodes_header [simp]: "h \<in> loop_nodes nodes edges D h"
  by (simp add: loop_nodes_def)

lemma loop_nodes_pred:
  assumes "closed_graph nodes edges" and "n \<in> loop_nodes nodes edges D h" and "n \<noteq> h"
    and "(eid, e) \<in> set edges" and "ed_to_node e = n"
  shows "ed_from_node e \<in> loop_nodes nodes edges D h"
proof (cases "ed_from_node e = h")
  case False
  have "ed_from_node e \<in> links (gr_predecessors (build_graph nodes edges)) n"
    using assms by (auto simp: graph_predecessors)
  with False assms(2,3) show ?thesis by (auto simp: loop_nodes_def intro: avoiding_step)
qed simp

lemma loop_nodes_sources: "(eid, e) \<in> set (back_edges_to nodes edges D h) \<Longrightarrow> ed_from_node e \<in> loop_nodes nodes edges D h"
  by (cases "ed_from_node e = h") (force simp: loop_nodes_def intro: avoiding_start)+

lemma loop_nodes_subset:
  assumes "closed_graph nodes edges" and "back_edges_to nodes edges D h \<noteq> []"
  shows "loop_nodes nodes edges D h \<subseteq> set (dict_keys nodes)"
proof -
  have mem: "(eid, e) \<in> set edges \<Longrightarrow> ed_from_node e \<in> set (dict_keys nodes) \<and> ed_to_node e \<in> set (dict_keys nodes)"
    for eid e using assms(1) by (auto simp: closed_graph_def)
  obtain eid e where "(eid, e) \<in> set (back_edges_to nodes edges D h)"
    using assms(2) by (cases "back_edges_to nodes edges D h") auto
  then have "h \<in> set (dict_keys nodes)" using mem by (auto simp: back_edges_to_def)
  moreover have "n \<in> set (dict_keys nodes)"
    if "n \<in> avoiding (links (gr_predecessors (build_graph nodes edges))) {h}
        (ed_from_node ` snd ` set (back_edges_to nodes edges D h))" for n
    using that
    by (cases rule: avoiding.cases) (use mem assms(1) in \<open>auto simp: back_edges_to_def graph_predecessors\<close>)
  ultimately show ?thesis by (auto simp: loop_nodes_def)
qed

lemma back_edge_dominated:
  assumes "exact_dominators nodes edges D" and "(eid, e) \<in> set (back_edges_to nodes edges D h)"
  shows "\<not> avoids (build_graph nodes edges) (entries_of nodes edges) h (ed_from_node e)"
  using assms by (auto simp: back_edges_to_def is_back_edge_def exact_dominators_def)

text \<open>The header dominates its loop.\<close>

lemma loop_nodes_dominated:
  assumes "closed_graph nodes edges" and "exact_dominators nodes edges D" and "n \<in> loop_nodes nodes edges D h"
  shows "\<not> avoids (build_graph nodes edges) (entries_of nodes edges) h n"
proof -
  let ?g = "build_graph nodes edges"
  have "\<not> avoids ?g (entries_of nodes edges) h n"
    if "n \<in> avoiding (links (gr_predecessors ?g)) {h} (ed_from_node ` snd ` set (back_edges_to nodes edges D h))"
    using that
  proof (induction rule: avoiding.induct)
    case (avoiding_start n)
    then show ?case using back_edge_dominated [OF assms(2)] by force
  next
    case (avoiding_step m n)
    then have "m \<in> links (gr_successors ?g) n" "m \<noteq> h"
      using assms(1) by (auto simp: graph_predecessors graph_successors dest: avoiding_barrier)
    with avoiding_step.IH show ?case by (metis avoids_step)
  qed
  with assms(3) show ?thesis by (auto simp: loop_nodes_def)
qed

text \<open>So a loop is entered at its header, by edges and by the workflow's entries alike.\<close>

lemma loop_entered_at_header:
  assumes "closed_graph nodes edges" and "exact_dominators nodes edges D" and "genuine_loop nodes edges D c"
  shows "candidate_entry_error (dict_keys nodes) edges (entries_of nodes edges) c = None"
proof -
  have "edges_missing edges (ca_nodes c) (ca_header c) = []"
    using loop_nodes_pred [OF assms(1)] assms(3) by (fastforce simp: edges_missing_def genuine_loop_def filter_empty_conv)
  moreover have "n = ca_header c" if "n \<in> set (entries_of nodes edges)" "n \<in> ca_nodes c" for n
    using loop_nodes_dominated [OF assms(1,2)] avoids_entry [OF that(1)] that(2) assms(3)
    by (auto simp: genuine_loop_def)
  ultimately show ?thesis by (auto simp: candidate_entry_error_def Let_def filter_empty_conv)
qed

text \<open>When all nodes are reachable the back edges of a loop are its edges to the header.\<close>

lemma loop_back_edges:
  assumes "closed_graph nodes edges" and "exact_dominators nodes edges D" and "genuine_loop nodes edges D c"
    and "set (dict_keys nodes) \<subseteq> reached nodes edges" and "(eid, e) \<in> set edges"
  shows "eid \<in> set (ca_back_edges c) \<longleftrightarrow> ed_from_node e \<in> ca_nodes c \<and> ed_to_node e = ca_header c"
proof -
  let ?h = "ca_header c"
  have unique: "(eid, e') \<in> set edges \<Longrightarrow> e' = e" for e'
    using assms(1,5) by (auto simp: closed_graph_def dict_keys_def dest: eq_key_imp_eq_value)
  have "eid \<in> set (ca_back_edges c) \<longleftrightarrow> (eid, e) \<in> set (back_edges_to nodes edges D ?h)"
  proof -
    have sub: "set (back_edges_to nodes edges D ?h) \<subseteq> set edges" by (auto simp: back_edges_to_def)
    have eq: "set (ca_back_edges c) = fst ` set (back_edges_to nodes edges D ?h)"
      using assms(3) by (simp add: genuine_loop_def)
    show ?thesis
    proof
      assume "eid \<in> set (ca_back_edges c)"
      then obtain p where p: "p \<in> set (back_edges_to nodes edges D ?h)" "fst p = eid"
        unfolding eq by (elim imageE) simp
      then have "(eid, snd p) \<in> set edges" using sub by (metis prod.collapse subsetD)
      then have "snd p = e" by (rule unique)
      with p show "(eid, e) \<in> set (back_edges_to nodes edges D ?h)" by (metis prod.collapse)
    next
      assume "(eid, e) \<in> set (back_edges_to nodes edges D ?h)"
      then show "eid \<in> set (ca_back_edges c)" unfolding eq by (rule rev_image_eqI) simp
    qed
  qed
  also have "\<dots> \<longleftrightarrow> ed_from_node e \<in> ca_nodes c \<and> ed_to_node e = ?h"
  proof
    assume "(eid, e) \<in> set (back_edges_to nodes edges D ?h)"
    then show "ed_from_node e \<in> ca_nodes c \<and> ed_to_node e = ?h"
      using loop_nodes_sources [of eid e] assms(3) by (auto simp: genuine_loop_def back_edges_to_def)
  next
    assume e: "ed_from_node e \<in> ca_nodes c \<and> ed_to_node e = ?h"
    then have "\<not> avoids (build_graph nodes edges) (entries_of nodes edges) ?h (ed_from_node e)"
      using loop_nodes_dominated [OF assms(1,2)] assms(3) by (auto simp: genuine_loop_def)
    moreover have "ed_from_node e \<in> reached nodes edges" "ed_to_node e \<in> reached nodes edges"
      using assms(1,4,5) by (auto simp: closed_graph_def)
    ultimately show "(eid, e) \<in> set (back_edges_to nodes edges D ?h)"
      using assms(2,5) e by (auto simp: back_edges_to_def is_back_edge_def exact_dominators_def)
  qed
  finally show ?thesis .
qed

section \<open>Nested loops\<close>

definition loop_family :: "node_ir dict \<Rightarrow> edge_ir dict \<Rightarrow> dominators \<Rightarrow> loop_candidate list \<Rightarrow> bool" where
  "loop_family nodes edges D cs \<longleftrightarrow>
     closed_graph nodes edges \<and> exact_dominators nodes edges D
     \<and> set (dict_keys nodes) \<subseteq> reached nodes edges
     \<and> (\<forall>c \<in> set cs. genuine_loop nodes edges D c)
     \<and> distinct (map ca_header cs) \<and> distinct (map ca_id cs)
     \<and> (\<forall>a \<in> set cs. \<forall>b \<in> set cs. a = b \<or> \<not> improper_overlap a b)"

lemma family_subset:
  "loop_family nodes edges D cs \<Longrightarrow> c \<in> set cs \<Longrightarrow> ca_nodes c \<subseteq> set (dict_keys nodes)"
  by (metis genuine_loop_def loop_family_def loop_nodes_subset)

lemma family_finite: "loop_family nodes edges D cs \<Longrightarrow> c \<in> set cs \<Longrightarrow> finite (ca_nodes c)"
  by (meson List.finite_set family_subset finite_subset)

lemma family_header: "loop_family nodes edges D cs \<Longrightarrow> c \<in> set cs \<Longrightarrow> ca_header c \<in> ca_nodes c"
  by (simp add: loop_family_def genuine_loop_def)

lemma distinct_map_same: "distinct (map f xs) \<Longrightarrow> a \<in> set xs \<Longrightarrow> b \<in> set xs \<Longrightarrow> f a = f b \<Longrightarrow> a = b"
  by (simp add: distinct_map inj_on_def)

lemma family_same_header:
  "loop_family nodes edges D cs \<Longrightarrow> a \<in> set cs \<Longrightarrow> b \<in> set cs \<Longrightarrow> ca_header a = ca_header b \<Longrightarrow> a = b"
  unfolding loop_family_def by (blast intro: distinct_map_same)

lemma family_nested:
  assumes "loop_family nodes edges D cs" and "a \<in> set cs" and "b \<in> set cs"
    and "n \<in> ca_nodes a" and "n \<in> ca_nodes b"
  shows "a = b \<or> ca_nodes a \<subset> ca_nodes b \<or> ca_nodes b \<subset> ca_nodes a"
proof -
  have "a = b \<or> \<not> improper_overlap a b" using assms(1-3) unfolding loop_family_def by blast
  moreover have "ca_nodes a \<inter> ca_nodes b \<noteq> {}" using assms(4,5) by blast
  ultimately show ?thesis unfolding improper_overlap_def by blast
qed

text \<open>A loop whose header lies in another loop lies inside it.\<close>

lemma family_header_inside:
  assumes fam: "loop_family nodes edges D cs" and a: "a \<in> set cs" and b: "b \<in> set cs"
    and h: "ca_header b \<in> ca_nodes a"
  shows "a = b \<or> ca_nodes b \<subset> ca_nodes a"
proof (rule ccontr)
  assume contra: "\<not> ?thesis"
  with family_nested [OF fam a b h family_header [OF fam b]]
  have "ca_nodes a \<subset> ca_nodes b" by blast
  then have ha: "ca_header a \<in> ca_nodes b" using family_header [OF fam a] by blast
  have ne: "ca_header a \<noteq> ca_header b" using contra family_same_header [OF fam a b] by blast
  have g: "genuine_loop nodes edges D a" "genuine_loop nodes edges D b"
    "closed_graph nodes edges" "exact_dominators nodes edges D"
    using fam a b by (auto simp: loop_family_def)
  have "\<not> avoids (build_graph nodes edges) (entries_of nodes edges) (ca_header a) (ca_header b)"
    "\<not> avoids (build_graph nodes edges) (entries_of nodes edges) (ca_header b) (ca_header a)"
    using g h ha by (auto simp: genuine_loop_def dest: loop_nodes_dominated [OF g(3,4)])
  moreover have "ca_header b \<in> reached nodes edges"
    using fam family_subset [OF fam b] family_header [OF fam b] by (auto simp: loop_family_def)
  ultimately show False using dominance_antisym ne by blast
qed

section \<open>Depths\<close>

definition around :: "loop_candidate list \<Rightarrow> loop_candidate \<Rightarrow> loop_candidate set" where
  "around cs c = {d \<in> set cs. ca_nodes c \<subset> ca_nodes d}"

lemma finite_around [simp]: "finite (around cs c)"
  by (simp add: around_def)

lemma arg_min_list_least: "x \<in> set xs \<Longrightarrow> f (arg_min_list f xs) \<le> f x"
  for f :: "'a \<Rightarrow> nat"
  by (metis List.finite_set Min_le f_arg_min_list_f finite_imageI imageI length_greater_0_conv length_pos_if_in_set)

lemma candidate_parent_around:
  assumes fam: "loop_family nodes edges D cs" and c: "c \<in> set cs" and p: "candidate_parent cs c = Some p"
  shows "around cs c = insert p (around cs p)" and "p \<notin> around cs p"
proof -
  note P = candidate_parent_SomeD [OF p]
  show "p \<notin> around cs p" by (simp add: around_def)
  have least: "card (ca_nodes p) \<le> card (ca_nodes d)" if "d \<in> around cs c" for d
    using p that arg_min_list_least [of d "filter (\<lambda>d. ca_nodes c \<subset> ca_nodes d) cs" "\<lambda>d. card (ca_nodes d)"]
    by (auto simp: candidate_parent_def Let_def around_def split: if_splits)
  have "d = p \<or> ca_nodes p \<subset> ca_nodes d" if d: "d \<in> around cs c" for d
  proof -
    have "d \<in> set cs" "ca_header c \<in> ca_nodes d" "ca_header c \<in> ca_nodes p"
      using d P family_header [OF fam c] by (auto simp: around_def)
    then have "d = p \<or> ca_nodes p \<subset> ca_nodes d \<or> ca_nodes d \<subset> ca_nodes p"
      using family_nested [OF fam, of d p] P by blast
    moreover have "\<not> ca_nodes d \<subset> ca_nodes p"
      using least [OF d] P family_finite [OF fam, of p] by (metis linorder_not_le psubset_card_mono)
    ultimately show ?thesis by blast
  qed
  then have "around cs c \<subseteq> insert p (around cs p)" by (auto simp: around_def)
  moreover have "insert p (around cs p) \<subseteq> around cs c" using P by (auto simp: around_def)
  ultimately show "around cs c = insert p (around cs p)" by (rule subset_antisym)
qed

lemma candidate_depth_around:
  assumes fam: "loop_family nodes edges D cs" and "c \<in> set cs"
  shows "candidate_depth cs c = card (around cs c)"
  using assms(2)
proof (induction "card (around cs c)" arbitrary: c rule: less_induct)
  case less
  show ?case
  proof (cases "candidate_parent cs c")
    case None
    then have "around cs c = {}"
      by (auto simp: candidate_parent_def Let_def around_def filter_empty_conv split: if_splits)
    with None show ?thesis by (subst candidate_depth.simps) simp
  next
    case (Some p)
    note P = candidate_parent_around [OF fam less.prems Some]
    have "candidate_depth cs p = card (around cs p)"
      using P candidate_parent_SomeD [OF Some] by (intro less.hyps) (auto simp: P)
    with Some P show ?thesis by (subst candidate_depth.simps) simp
  qed
qed

definition containing :: "loop_candidate list \<Rightarrow> string \<Rightarrow> loop_candidate list" where
  "containing cs n = filter (\<lambda>c. n \<in> ca_nodes c) cs"

lemma depth_less:
  assumes fam: "loop_family nodes edges D cs" and "a \<in> set cs" "b \<in> set cs" and "ca_nodes a \<subset> ca_nodes b"
  shows "candidate_depth cs b < candidate_depth cs a"
proof -
  have "around cs b \<subset> around cs a" using assms by (auto simp: around_def)
  then show ?thesis
    by (simp add: candidate_depth_around [OF fam] assms(2,3) psubset_card_mono)
qed

lemma containing_depth_inj:
  assumes fam: "loop_family nodes edges D cs"
  shows "inj_on (candidate_depth cs) (set (containing cs n))"
proof (rule inj_onI)
  fix a b assume ab: "a \<in> set (containing cs n)" "b \<in> set (containing cs n)"
    and eq: "candidate_depth cs a = candidate_depth cs b"
  then have "a \<in> set cs" "b \<in> set cs" "n \<in> ca_nodes a" "n \<in> ca_nodes b" by (auto simp: containing_def)
  then show "a = b"
    using family_nested [OF fam, of a b n] depth_less [OF fam, of a b] depth_less [OF fam, of b a] eq by fastforce
qed

lemma containing_depths:
  assumes fam: "loop_family nodes edges D cs"
  shows "candidate_depth cs ` set (containing cs n) = {0..<length (containing cs n)}"
proof -
  have dc: "distinct (containing cs n)"
    using fam by (auto simp: loop_family_def containing_def distinct_map)
  have less: "candidate_depth cs c < length (containing cs n)" if c: "c \<in> set (containing cs n)" for c
  proof -
    have "around cs c \<subset> set (containing cs n)" using c by (auto simp: around_def containing_def)
    then have "card (around cs c) < card (set (containing cs n))" by (simp add: psubset_card_mono)
    moreover have "c \<in> set cs" using c by (simp add: containing_def)
    ultimately show ?thesis using candidate_depth_around [OF fam] dc by (simp add: distinct_card)
  qed
  show ?thesis
  proof (rule card_subset_eq)
    show "card (candidate_depth cs ` set (containing cs n)) = card {0..<length (containing cs n)}"
      by (simp add: card_image containing_depth_inj [OF fam] distinct_card dc)
  qed (use less in auto)
qed

section \<open>The stack of a node\<close>

definition loop_stack :: "loop_candidate list \<Rightarrow> string \<Rightarrow> loop_candidate list" where
  "loop_stack cs n = sort_key (candidate_depth cs) (containing cs n)"

lemma set_loop_stack [simp]: "set (loop_stack cs n) = {c \<in> set cs. n \<in> ca_nodes c}"
  by (simp add: loop_stack_def containing_def)

lemma loop_stack_depths:
  assumes fam: "loop_family nodes edges D cs"
  shows "map (candidate_depth cs) (loop_stack cs n) = [0..<length (loop_stack cs n)]"
proof (rule sorted_distinct_set_unique)
  have dc: "distinct (containing cs n)"
    using fam by (auto simp: loop_family_def containing_def distinct_map)
  show "sorted (map (candidate_depth cs) (loop_stack cs n))" by (simp add: loop_stack_def)
  show "distinct (map (candidate_depth cs) (loop_stack cs n))"
    using containing_depth_inj [OF fam, of n] dc by (simp add: loop_stack_def distinct_map)
  show "set (map (candidate_depth cs) (loop_stack cs n)) = set [0..<length (loop_stack cs n)]"
    using containing_depths [OF fam, of n] by (simp add: loop_stack_def)
qed auto

lemma take_by_rank: "map f xs = [0..<length xs] \<Longrightarrow> take (Suc k) xs = filter (\<lambda>x. f x \<le> k) xs"
proof (induction xs rule: rev_induct)
  case (snoc x xs)
  then have "map f xs = [0..<length xs]" "f x = length xs" by simp_all
  with snoc.IH have ih: "take (Suc k) xs = filter (\<lambda>x. f x \<le> k) xs" by simp
  show ?case
  proof (cases "length xs \<le> k")
    case True
    then show ?thesis using ih \<open>f x = length xs\<close> by (simp add: Suc_diff_le)
  next
    case False
    then show ?thesis using ih \<open>f x = length xs\<close> by simp
  qed
qed simp

text \<open>Up to a loop's depth, its nodes have the stack of its header.\<close>

lemma loop_stack_prefix:
  assumes fam: "loop_family nodes edges D cs" and c: "c \<in> set cs" and n: "n \<in> ca_nodes c"
  shows "take (Suc (candidate_depth cs c)) (loop_stack cs n) = loop_stack cs (ca_header c)"
proof -
  have same: "(n \<in> ca_nodes d \<and> candidate_depth cs d \<le> candidate_depth cs c) \<longleftrightarrow> ca_header c \<in> ca_nodes d"
    if d: "d \<in> set cs" for d
  proof
    assume l: "n \<in> ca_nodes d \<and> candidate_depth cs d \<le> candidate_depth cs c"
    then have "\<not> ca_nodes d \<subset> ca_nodes c" using depth_less [OF fam d c] by auto
    then have "d = c \<or> ca_nodes c \<subset> ca_nodes d" using family_nested [OF fam d c, of n] l n by blast
    then show "ca_header c \<in> ca_nodes d" using family_header [OF fam c] by blast
  next
    assume "ca_header c \<in> ca_nodes d"
    then have "d = c \<or> ca_nodes c \<subset> ca_nodes d" using family_header_inside [OF fam d c] by blast
    then show "n \<in> ca_nodes d \<and> candidate_depth cs d \<le> candidate_depth cs c"
      using n depth_less [OF fam c d] less_imp_le by blast
  qed
  have "take (Suc (candidate_depth cs c)) (loop_stack cs n)
      = filter (\<lambda>d. candidate_depth cs d \<le> candidate_depth cs c) (loop_stack cs n)"
    by (rule take_by_rank [OF loop_stack_depths [OF fam]])
  also have "\<dots> = sort_key (candidate_depth cs)
      (filter (\<lambda>d. candidate_depth cs d \<le> candidate_depth cs c) (containing cs n))"
    by (simp add: loop_stack_def filter_sort)
  also have "filter (\<lambda>d. candidate_depth cs d \<le> candidate_depth cs c) (containing cs n) = containing cs (ca_header c)"
    unfolding containing_def filter_filter by (rule filter_cong) (use same in auto)
  finally show ?thesis by (simp add: loop_stack_def)
qed

lemma loop_stack_header:
  assumes fam: "loop_family nodes edges D cs" and c: "c \<in> set cs"
  shows "length (loop_stack cs (ca_header c)) = Suc (candidate_depth cs c)"
    and "last (loop_stack cs (ca_header c)) = c"
proof -
  let ?S = "loop_stack cs (ca_header c)"
  have mem: "c \<in> set ?S" using c family_header [OF fam c] by simp
  note depths = loop_stack_depths [OF fam, of "ca_header c"]
  obtain k where k: "k < length ?S" "?S ! k = c" using mem by (metis in_set_conv_nth)
  then have dk: "candidate_depth cs c = k" using depths by (metis add_0 length_map nth_map nth_upt)
  have "take (Suc k) ?S = ?S"
    using loop_stack_prefix [OF fam c family_header [OF fam c]] dk by simp
  then have "length ?S = Suc k" using k by (metis Suc_leI le_antisym length_take min.absorb_iff2 min.cobounded1 take_all_iff)
  then show "length ?S = Suc (candidate_depth cs c)" using dk by simp
  have "?S \<noteq> []" using k(1) by auto
  then show "last ?S = c" using \<open>length ?S = Suc k\<close> k(2) by (simp add: last_conv_nth)
qed

end
