(* ===== verification/Compiler_Correct.thy ===== *)
theory Compiler_Correct
  imports Compiler_Nesting
begin

text \<open>
  What a successful compilation gives the runtime. The loop analysis returns on every closed graph;
  with no error the graph without back edges is acyclic and the regions and stacks it builds satisfy
  \<open>wf_ir\<close>, the contract the scheduler's and the executor's theorems assume of a compiled workflow.
\<close>

section \<open>Numbered candidates\<close>

lemma str_nat_clean [simp]: "CHR '':'' \<notin> set (str_nat k)" "CHR ''/'' \<notin> set (str_nat k)"
  by (simp_all add: str_nat_no_sep)

lemma number_candidates_props:
  defines "renamed \<equiv> \<lambda>c. (ca_header c, ca_nodes c, ca_back_edges c)"
  shows "renamed ` set (number_candidates ns cs) = renamed ` set cs"
    and "distinct (map ca_header cs) \<Longrightarrow> distinct (map ca_header (number_candidates ns cs))"
    and "distinct (map ca_id (number_candidates ns cs))"
    and "c \<in> set (number_candidates ns cs) \<Longrightarrow> clean_region (ca_id c)"
proof -
  let ?s = "sort_key (\<lambda>c. node_position ns (ca_header c)) cs"
  let ?name = "\<lambda>(k, c). c\<lparr>ca_id := ''loop_'' @ str_nat (k + 1)\<rparr>"
  have eq: "number_candidates ns cs = map ?name (zip [0..<length ?s] ?s)"
    by (simp add: number_candidates_def Let_def)
  have through: "map f (number_candidates ns cs) = map f ?s"
    if "\<And>c i. f (c\<lparr>ca_id := i\<rparr>) = f c" for f :: "loop_candidate \<Rightarrow> 'b"
  proof -
    have "map f (map ?name (zip xs ys)) = map f ys" if "length xs = length ys" for xs ys
      using that by (induction xs ys rule: list_induct2) (simp_all add: \<open>\<And>c i. f (c\<lparr>ca_id := i\<rparr>) = f c\<close>)
    then show ?thesis by (simp add: eq)
  qed
  have "set (map renamed (number_candidates ns cs)) = set (map renamed ?s)"
    by (subst through) (simp_all add: renamed_def)
  then show "renamed ` set (number_candidates ns cs) = renamed ` set cs" by simp
  show "distinct (map ca_header (number_candidates ns cs))" if "distinct (map ca_header cs)"
    using that by (subst through) (simp_all add: distinct_map)
  have ids: "map ca_id (number_candidates ns cs) = map (\<lambda>k. ''loop_'' @ str_nat (k + 1)) [0..<length cs]"
    by (rule nth_equalityI) (simp_all add: eq)
  show "distinct (map ca_id (number_candidates ns cs))"
    unfolding ids by (auto simp: distinct_map inj_on_def dest: str_nat_inj)
  show "clean_region (ca_id c)" if "c \<in> set (number_candidates ns cs)"
  proof -
    have "ca_id c \<in> set (map ca_id (number_candidates ns cs))" using that by simp
    then show ?thesis unfolding ids by (auto simp: clean_region_def)
  qed
qed

lemma number_candidates_origin:
  assumes "a \<in> set (number_candidates ns cs)"
  obtains b where "b \<in> set cs" and "ca_header a = ca_header b" and "ca_nodes a = ca_nodes b"
    and "ca_back_edges a = ca_back_edges b"
proof -
  let ?r = "\<lambda>c. (ca_header c, ca_nodes c, ca_back_edges c)"
  have "?r a \<in> ?r ` set cs"
    using imageI [OF assms, of ?r] unfolding number_candidates_props(1) .
  then show ?thesis using that by (elim imageE) simp
qed

lemma first_overlap_None:
  "first_overlap cs = None \<Longrightarrow> a \<in> set cs \<Longrightarrow> b \<in> set cs \<Longrightarrow> a = b \<or> \<not> improper_overlap a b"
proof (induction cs)
  case (Cons c cs)
  then have "filter (improper_overlap c) cs = []" "first_overlap cs = None"
    by (auto split: list.splits)
  then have "\<not> improper_overlap c d" if "d \<in> set cs" for d using that by (simp add: filter_empty_conv)
  moreover have "improper_overlap x y = improper_overlap y x" for x y
    by (auto simp: improper_overlap_def)
  ultimately show ?case using Cons by auto
qed simp

section \<open>The analysis succeeds on nested natural loops\<close>

lemma exact_dominators_exist:
  assumes "closed_graph nodes edges"
  shows "\<exists>D. compute_dominators (build_graph nodes edges) (dict_keys nodes) (reached nodes edges)
      (entries_of nodes edges) = Some D \<and> exact_dominators nodes edges D"
  using compute_dominators_exact [OF graph_arrows [OF assms] flow_reach_finite [OF assms entries_are_nodes]
      reached_nodes [OF assms]]
  by (auto simp: exact_dominators_def)

lemma found_genuine:
  assumes "closed_graph nodes edges" and "a \<in> set (number_candidates (dict_keys nodes)
      (map (natural_loop (build_graph nodes edges) edges) (back_edges_by_header (reached nodes edges) D edges)))"
  shows "genuine_loop nodes edges D a"
proof -
  let ?found = "map (natural_loop (build_graph nodes edges) edges)
      (back_edges_by_header (reached nodes edges) D edges)"
  obtain b where b: "b \<in> set ?found" "ca_header a = ca_header b" "ca_nodes a = ca_nodes b"
    "ca_back_edges a = ca_back_edges b"
    using number_candidates_origin [OF assms(2)] .
  obtain hb where "hb \<in> set (back_edges_by_header (reached nodes edges) D edges)"
    "b = natural_loop (build_graph nodes edges) edges hb"
    using b(1) by (auto simp only: set_map)
  then have "genuine_loop nodes edges D b" using natural_loop_genuine(1) [OF assms(1)] by simp
  with b show ?thesis by (simp add: genuine_loop_def)
qed

lemma found_family:
  assumes g: "closed_graph nodes edges" and D: "exact_dominators nodes edges D"
    and all: "set (dict_keys nodes) \<subseteq> reached nodes edges"
    and none: "first_overlap (map (natural_loop (build_graph nodes edges) edges)
        (back_edges_by_header (reached nodes edges) D edges)) = None"
  shows "loop_family nodes edges D (number_candidates (dict_keys nodes)
      (map (natural_loop (build_graph nodes edges) edges) (back_edges_by_header (reached nodes edges) D edges)))"
    (is "loop_family nodes edges D (number_candidates ?ns ?found)")
proof -
  have hd: "map ca_header ?found = dict_keys (back_edges_by_header (reached nodes edges) D edges)"
    using natural_loop_genuine(2) [OF g] by (simp add: dict_keys_def)
  have dh: "distinct (map ca_header (number_candidates ?ns ?found))"
    using back_edges_by_header_distinct hd by (intro number_candidates_props(2)) simp
  have over: "a = b \<or> \<not> improper_overlap a b"
    if ab: "a \<in> set (number_candidates ?ns ?found)" "b \<in> set (number_candidates ?ns ?found)" for a b
  proof -
    obtain a' where a': "a' \<in> set ?found" "ca_header a = ca_header a'" "ca_nodes a = ca_nodes a'"
      using number_candidates_origin [OF ab(1)] .
    obtain b' where b': "b' \<in> set ?found" "ca_header b = ca_header b'" "ca_nodes b = ca_nodes b'"
      using number_candidates_origin [OF ab(2)] .
    have "a' = b' \<or> \<not> improper_overlap a' b'" by (rule first_overlap_None [OF none a'(1) b'(1)])
    moreover have "a = b" if "a' = b'"
      using that a'(2) b'(2) by (intro distinct_map_same [OF dh ab]) simp
    ultimately show ?thesis unfolding improper_overlap_def a'(3) b'(3) by blast
  qed
  show ?thesis unfolding loop_family_def
  proof (intro conjI ballI)
    show "genuine_loop nodes edges D c" if "c \<in> set (number_candidates ?ns ?found)" for c
      using that by (rule found_genuine [OF g])
  qed (fact g D all dh number_candidates_props(3) | erule (1) over)+
qed

section \<open>Regions and stacks\<close>

lemma sort_key_map: "sort_key f (map h xs) = map h (sort_key (f \<circ> h) xs)"
proof -
  have "insort_key f (h x) (map h ys) = map h (insort_key (f \<circ> h) x ys)" for x ys
    by (induction ys) auto
  then show ?thesis by (induction xs) simp_all
qed

lemma map_filter_if:
  "List.map_filter (\<lambda>n. if P n then None else Some (f n)) ns = map f (filter (\<lambda>n. \<not> P n) ns)"
  by (induction ns) (simp_all add: map_filter_simps)

lemma sort_key_Nil: "sort_key f xs = [] \<longleftrightarrow> xs = []"
  by (metis set_sort set_empty)

definition family_regions ::
  "node_ir dict \<Rightarrow> edge_ir dict \<Rightarrow> loop_candidate list \<Rightarrow> loop_region_ir dict" where
  "family_regions nodes edges cs =
     map (\<lambda>c. (ca_id c, region_of_candidate (dict_keys nodes) edges cs c)) cs"

lemma family_build_regions:
  assumes "loop_family nodes edges D cs"
  shows "build_regions (dict_keys nodes) edges (entries_of nodes edges) cs = ([], family_regions nodes edges cs)"
proof -
  have none: "candidate_entry_error (dict_keys nodes) edges (entries_of nodes edges) c = None" if "c \<in> set cs" for c
    using assms that loop_entered_at_header unfolding loop_family_def by blast
  then have "List.map_filter (candidate_entry_error (dict_keys nodes) edges (entries_of nodes edges)) cs = []"
    by (simp add: map_filter_def filter_empty_conv)
  moreover have "filter (\<lambda>c. candidate_entry_error (dict_keys nodes) edges (entries_of nodes edges) c = None) cs = cs"
    using none by (simp add: filter_id_conv)
  ultimately show ?thesis by (simp add: build_regions_def family_regions_def)
qed

lemma set_in_node_order: "S \<subseteq> set ns \<Longrightarrow> set (in_node_order ns S) = S"
  by (auto simp: in_node_order_def)

lemma region_members:
  assumes "loop_family nodes edges D cs" and "c \<in> set cs"
  shows "set (lr_node_ids (region_of_candidate (dict_keys nodes) edges cs c)) = ca_nodes c"
  using family_subset [OF assms] by (simp add: region_of_candidate_def set_in_node_order)

lemma node_loop_stacks_get:
  assumes fam: "loop_family nodes edges D cs" and n: "n \<in> set (dict_keys nodes)"
  shows "dict_get_default (node_loop_stacks (dict_keys nodes) (family_regions nodes edges cs)) n []
    = map ca_id (loop_stack cs n)"
proof -
  let ?r = "region_of_candidate (dict_keys nodes) edges cs"
  let ?ids = "\<lambda>n. map ca_id (loop_stack cs n)"
  have stack: "map lr_id (sort_key lr_depth (filter (\<lambda>r. n \<in> set (lr_node_ids r)) (map snd (family_regions nodes edges cs))))
      = ?ids n" for n
  proof -
    have "filter (\<lambda>r. n \<in> set (lr_node_ids r)) (map snd (family_regions nodes edges cs)) = map ?r (containing cs n)"
      using region_members [OF fam] by (simp add: family_regions_def filter_map o_def containing_def cong: filter_cong)
    then show ?thesis
      by (simp add: sort_key_map loop_stack_def) (simp add: region_of_candidate_def o_def)
  qed
  have empty: "sort_key lr_depth (filter (\<lambda>r. n \<in> set (lr_node_ids r)) (map snd (family_regions nodes edges cs))) = []
      \<longleftrightarrow> ?ids n = []" for n unfolding stack [symmetric] by simp
  have eq: "node_loop_stacks (dict_keys nodes) (family_regions nodes edges cs)
      = map (\<lambda>n. (n, ?ids n)) (filter (\<lambda>n. ?ids n \<noteq> []) (dict_keys nodes))"
    unfolding node_loop_stacks_def Let_def empty stack
    by (simp add: map_filter_if)
  show ?thesis unfolding eq dict_get_default_index using n by auto
qed

lemma node_loop_stacks_keys:
  "dict_keys (node_loop_stacks ns regions)
   = filter (\<lambda>n. \<exists>r \<in> set (map snd regions). n \<in> set (lr_node_ids r)) ns"
  by (simp add: node_loop_stacks_def Let_def map_filter_if dict_keys_def o_def sort_key_Nil filter_empty_conv)

lemma mem_edge_filter:
  assumes "closed_graph nodes edges" and "(eid, e) \<in> set edges"
  shows "eid \<in> set (map fst (filter (\<lambda>(_, e). P e) edges)) \<longleftrightarrow> P e"
  using assms by (force simp: closed_graph_def dict_keys_def dest: eq_key_imp_eq_value)

section \<open>The compiled workflow is well formed\<close>

lemma family_region_ok:
  assumes fam: "loop_family nodes edges D cs" and c: "c \<in> set cs" and clean: "clean_region (ca_id c)"
    and W: "dict_keys (wf_nodes W) = dict_keys nodes" "wf_edges W = edges"
      "gr_node_loop_stacks (wf_graph W) = node_loop_stacks (dict_keys nodes) (family_regions nodes edges cs)"
  shows "region_ok W (ca_id c) (region_of_candidate (dict_keys nodes) edges cs c)"
proof -
  let ?r = "region_of_candidate (dict_keys nodes) edges cs c"
  have g: "closed_graph nodes edges" and gen: "genuine_loop nodes edges D c"
    using fam c by (auto simp: loop_family_def)
  note members = region_members [OF fam c]
  have sub: "ca_nodes c \<subseteq> set (dict_keys nodes)" by (rule family_subset [OF fam c])
  have stack: "loop_stack_of W n = map ca_id (loop_stack cs n)" if "n \<in> set (dict_keys nodes)" for n
    using node_loop_stacks_get [OF fam that] W by simp
  have h: "ca_header c \<in> set (dict_keys nodes)" "ca_header c \<in> ca_nodes c"
    using sub family_header [OF fam c] by auto
  have backs: "eid \<in> set (lr_back_edge_ids ?r) \<longleftrightarrow> ed_from_node e \<in> ca_nodes c \<and> ed_to_node e = ca_header c"
    if "(eid, e) \<in> set edges" for eid e
    using loop_back_edges [OF g _ gen _ that] fam by (simp add: loop_family_def region_of_candidate_def)
  have entered: "ed_to_node e = ca_header c"
    if "(eid, e) \<in> set edges" "ed_from_node e \<notin> ca_nodes c" "ed_to_node e \<in> ca_nodes c" for eid e
    using loop_nodes_pred [OF g _ _ that(1) refl, of D "ca_header c"] that gen by (auto simp: genuine_loop_def)
  have exits: "eid \<in> set (lr_exit_edge_ids ?r) \<longleftrightarrow> ed_from_node e \<in> ca_nodes c \<and> ed_to_node e \<notin> ca_nodes c"
    if "(eid, e) \<in> set edges" for eid e
    using mem_edge_filter [OF g that, of "\<lambda>e. ed_from_node e \<in> ca_nodes c \<and> ed_to_node e \<notin> ca_nodes c"]
    by (simp only: region_of_candidate_def edges_out_of_def loop_region_ir.select_convs)
  have entries: "eid \<in> set (lr_external_entry_edge_ids ?r) \<longleftrightarrow> ed_from_node e \<notin> ca_nodes c \<and> ed_to_node e \<in> ca_nodes c"
    if "(eid, e) \<in> set edges" for eid e
    using mem_edge_filter [OF g that, of "\<lambda>e. ed_from_node e \<notin> ca_nodes c \<and> ed_to_node e \<in> ca_nodes c"]
    by (simp only: region_of_candidate_def edges_into_def loop_region_ir.select_convs)
  have edges: "\<forall>(eid, e) \<in> set edges.
      (eid \<in> set (lr_back_edge_ids ?r) \<longleftrightarrow> ed_from_node e \<in> ca_nodes c \<and> ed_to_node e = ca_header c)
      \<and> (eid \<in> set (lr_exit_edge_ids ?r) \<longleftrightarrow> ed_from_node e \<in> ca_nodes c \<and> ed_to_node e \<notin> ca_nodes c)
      \<and> (eid \<in> set (lr_external_entry_edge_ids ?r) \<longleftrightarrow> ed_from_node e \<notin> ca_nodes c \<and> ed_to_node e \<in> ca_nodes c)
      \<and> (ed_from_node e \<notin> ca_nodes c \<and> ed_to_node e \<in> ca_nodes c \<longrightarrow> ed_to_node e = ca_header c)"
    using backs entered exits entries by auto
  have keys: "set (lr_back_edge_ids ?r) \<subseteq> set (dict_keys edges)" "set (lr_exit_edge_ids ?r) \<subseteq> set (dict_keys edges)"
    "set (lr_external_entry_edge_ids ?r) \<subseteq> set (dict_keys edges)" "lr_back_edge_ids ?r \<noteq> []"
    using gen by (auto simp: region_of_candidate_def genuine_loop_def back_edges_to_def edges_out_of_def
        edges_into_def dict_keys_def)
  have depth: "lr_depth ?r = candidate_depth cs c" "lr_id ?r = ca_id c" "lr_header_node_id ?r = ca_header c"
    by (simp_all add: region_of_candidate_def)
  have header: "loop_stack cs (ca_header c) \<noteq> []" using c h(2) by (metis (mono_tags) empty_iff list.set(1) mem_Collect_eq set_loop_stack)
  show ?thesis
    unfolding region_ok_def members depth stack [OF h(1)] W(1,2)
  proof (intro conjI ballI)
    show "last (map ca_id (loop_stack cs (ca_header c))) = ca_id c"
      using loop_stack_header(2) [OF fam c] header by (simp add: last_map)
    show "candidate_depth cs c + 1 = length (map ca_id (loop_stack cs (ca_header c)))"
      using loop_stack_header(1) [OF fam c] by simp
    show "take (candidate_depth cs c + 1) (loop_stack_of W n) = map ca_id (loop_stack cs (ca_header c))"
      if "n \<in> ca_nodes c" for n
      using stack [of n] sub that loop_stack_prefix [OF fam c that] by (auto simp: take_map)
  qed (use edges keys clean h header sub in auto)
qed

lemma family_wf_ir:
  assumes fam: "loop_family nodes edges D cs" and clean: "\<forall>c \<in> set cs. clean_region (ca_id c)"
    and W: "dict_keys (wf_nodes W) = dict_keys nodes" "wf_edges W = edges"
      "wf_graph W = (build_graph nodes edges)\<lparr>gr_loop_regions := family_regions nodes edges cs,
         gr_node_loop_stacks := node_loop_stacks (dict_keys nodes) (family_regions nodes edges cs)\<rparr>"
      "wf_entry_node_ids W = entries_of nodes edges" "set (wf_exit_node_ids W) \<subseteq> set (dict_keys nodes)"
    and ids: "\<forall>(n, nd) \<in> set (wf_nodes W). nd_id nd = n \<and> clean_id n"
      "\<forall>(eid, e) \<in> set edges. ed_id e = eid \<and> clean_id eid"
  shows "wf_ir W"
proof -
  have g: "closed_graph nodes edges" using fam by (simp add: loop_family_def)
  have nodes: "clean_id n" if "n \<in> set (dict_keys nodes)" for n
  proof -
    have "n \<in> fst ` set (wf_nodes W)" using that unfolding W(1) [symmetric] by (simp add: dict_keys_def)
    then show ?thesis using ids(1) by auto
  qed
  have stack: "loop_stack_of W n = map ca_id (loop_stack cs n)" if "n \<in> set (dict_keys nodes)" for n
    using node_loop_stacks_get [OF fam that] W(3) by simp
  have regions: "gr_loop_regions (wf_graph W) = family_regions nodes edges cs" by (simp add: W(3))
  have region: "region_ok W (ca_id c) (region_of_candidate (dict_keys nodes) edges cs c)" if "c \<in> set cs" for c
  proof (rule family_region_ok [OF fam that _ W(1,2)])
    show "clean_region (ca_id c)" using clean that by blast
    show "gr_node_loop_stacks (wf_graph W) = node_loop_stacks (dict_keys nodes) (family_regions nodes edges cs)"
      by (simp add: W(3))
  qed
  have dstack: "distinct (loop_stack_of W n)" if "n \<in> set (dict_keys nodes)" for n
  proof -
    have "distinct (loop_stack cs n)"
      using loop_stack_depths [OF fam, of n] by (metis distinct_map distinct_upt)
    moreover have "inj_on ca_id (set cs)" using fam by (simp add: loop_family_def distinct_map)
    ultimately show ?thesis unfolding stack [OF that] by (simp add: distinct_map inj_on_subset)
  qed
  have node: "node_ok W n" if n: "n \<in> set (dict_keys nodes)" for n
    unfolding node_ok_def
  proof (intro conjI ballI)
    show "clean_id n" by (rule nodes [OF n])
    show "distinct (loop_stack_of W n)" by (rule dstack [OF n])
    show "outgoing_of W n = map fst (filter (\<lambda>(eid, e). ed_from_node e = n) (wf_edges W))"
      "incoming_of W n = map fst (filter (\<lambda>(eid, e). ed_to_node e = n) (wf_edges W))"
      using n by (simp_all add: W(2,3))
    fix rid assume "rid \<in> set (loop_stack_of W n)"
    then obtain c where c: "c \<in> set cs" "n \<in> ca_nodes c" "rid = ca_id c" by (auto simp: stack [OF n])
    then show "\<exists>r \<in> set (map snd (gr_loop_regions (wf_graph W))). lr_id r = rid \<and> n \<in> set (lr_node_ids r)"
      unfolding regions family_regions_def
      using region_members [OF fam c(1)]
      by (intro bexI [of _ "region_of_candidate (dict_keys nodes) edges cs c"])
         (auto simp: region_of_candidate_def)
  qed
  have membership: "n \<in> set (lr_node_ids r) \<longleftrightarrow> rid \<in> set (loop_stack_of W n)"
    if r: "(rid, r) \<in> set (family_regions nodes edges cs)" and n: "n \<in> set (dict_keys nodes)" for rid r n
  proof -
    obtain c where c: "c \<in> set cs" "rid = ca_id c" "r = region_of_candidate (dict_keys nodes) edges cs c"
      using r by (auto simp: family_regions_def)
    have "ca_id c \<in> ca_id ` {d \<in> set cs. n \<in> ca_nodes d} \<longleftrightarrow> n \<in> ca_nodes c"
      using fam c(1) by (auto simp: loop_family_def distinct_map dest: inj_onD)
    then show ?thesis using region_members [OF fam c(1)] by (simp add: stack [OF n] c(2,3))
  qed
  show ?thesis
    unfolding wf_ir_def
  proof (intro conjI)
    show "distinct (dict_keys (wf_nodes W))" "distinct (dict_keys (wf_edges W))"
      using g W by (auto simp: closed_graph_def)
    show "distinct (dict_keys (gr_loop_regions (wf_graph W)))"
      using fam by (simp add: regions family_regions_def loop_family_def dict_keys_def o_def)
    show "\<forall>(n, nd) \<in> set (wf_nodes W). nd_id nd = n" using ids(1) by auto
    show "\<forall>(eid, e) \<in> set (wf_edges W). ed_id e = eid \<and> clean_id eid
        \<and> ed_from_node e \<in> set (dict_keys (wf_nodes W)) \<and> ed_to_node e \<in> set (dict_keys (wf_nodes W))"
      using g ids(2) W(1,2) by (fastforce simp: closed_graph_def)
    show "\<forall>n \<in> set (dict_keys (wf_nodes W)). node_ok W n" using node W(1) by simp
    show "\<forall>(rid, r) \<in> set (gr_loop_regions (wf_graph W)). region_ok W rid r
        \<and> (\<forall>n \<in> set (dict_keys (wf_nodes W)). n \<in> set (lr_node_ids r) \<longleftrightarrow> rid \<in> set (loop_stack_of W n))"
      unfolding regions W(1) using membership region by (auto simp: family_regions_def)
    have "distinct (dict_keys (gr_node_loop_stacks (wf_graph W)))"
      using g by (simp add: W(3) node_loop_stacks_keys closed_graph_def)
    then show "dict_keys (gr_node_loop_stacks (wf_graph W)) = uniq_first (dict_keys (gr_node_loop_stacks (wf_graph W)))"
      by (simp add: uniq_first_distinct)
    show "set (dict_keys (gr_node_loop_stacks (wf_graph W))) \<subseteq> set (dict_keys (wf_nodes W))"
      by (auto simp: W(1,3) node_loop_stacks_keys)
    show "set (wf_entry_node_ids W) \<subseteq> set (dict_keys (wf_nodes W))" using entries_are_nodes by (simp add: W(1,4))
    show "set (wf_exit_node_ids W) \<subseteq> set (dict_keys (wf_nodes W))" using W(1,5) by simp
    show "\<forall>n \<in> set (wf_entry_node_ids W). incoming_of W n = []"
    proof
      fix n assume n: "n \<in> set (wf_entry_node_ids W)"
      then have "n \<in> set (dict_keys nodes)" using entries_are_nodes by (auto simp: W(4))
      moreover have "filter (\<lambda>(eid, e). ed_to_node e = n) edges = []"
        using entry_no_incoming n by (fastforce simp: W(4) filter_empty_conv)
      ultimately show "incoming_of W n = []" by (simp add: W(3))
    qed
  qed
qed

end
