(* ===== verification/Compiler_Policies.thy ===== *)
theory Compiler_Policies
  imports Compiler_Nodes
begin

text \<open>
  \<open>WorkflowCompiler._validate_policies\<close> and \<open>_compile_final_output_contracts\<close>. The operators a
  selection policy names are a Python set there; they are visited in the order they are written.
  The multiplier of a backoff is an integer, and aggregators and selectors are functions, so the
  checks that they are callable have no counterpart.
\<close>

section \<open>Node policies\<close>

definition selection_diagnostics ::
  "compiler_env \<Rightarrow> string \<Rightarrow> capability_binding \<Rightarrow> selection_policy \<Rightarrow> diagnostic list" where
  "selection_diagnostics E n binding sel =
     (if set (sp_preferred sel) \<inter> set (sp_excluded sel) \<noteq> {}
      then [compile_error ''POLICY_SELECTION_INVALID''
        ''Selection policy cannot prefer and exclude the same operator.'' n] else [])
     @ (case binding of
          BindCapabilityRef cid \<Rightarrow>
            (case ce_operators E of None \<Rightarrow> []
             | Some reg \<Rightarrow>
                 concat (map (\<lambda>oid. case dict_get (or_items reg) oid of
                     None \<Rightarrow> [compile_error ''POLICY_SELECTION_OPERATOR_UNKNOWN''
                       (''Selection policy references an unknown Operator: '' @ oid) n]
                   | Some op \<Rightarrow>
                       if op_capability_id op \<noteq> Some cid
                       then [compile_error ''POLICY_SELECTION_OPERATOR_MISMATCH''
                         (''Operator '' @ oid @ '' does not implement Capability '' @ cid @ ''.'') n]
                       else [])
                   (uniq_first (sp_preferred sel @ sp_excluded sel))))
        | _ \<Rightarrow> [compile_error ''POLICY_SELECTION_INVALID''
            ''Selection policy requires a CapabilityRef node.'' n])"

definition retry_diagnostics :: "string \<Rightarrow> retry_policy \<Rightarrow> diagnostic list" where
  "retry_diagnostics n r =
     (if rt_max_attempts r < 1 then [compile_error ''POLICY_RETRY_INVALID''
        ''RetryPolicy max_attempts must be at least 1.'' n] else [])
     @ (case rt_backoff r of None \<Rightarrow> []
        | Some b \<Rightarrow>
            (if bo_initial_delay_ms b < 0 then [compile_error ''POLICY_BACKOFF_INVALID''
               ''BackoffPolicy initial_delay_ms cannot be negative.'' n] else [])
            @ (if (\<exists>m \<in> set_option (bo_max_delay_ms b). m < 0) then [compile_error ''POLICY_BACKOFF_INVALID''
               ''BackoffPolicy max_delay_ms cannot be negative.'' n] else [])
            @ (if bo_multiplier b \<le> 0 then [compile_error ''POLICY_BACKOFF_INVALID''
               ''BackoffPolicy multiplier must be positive.'' n] else []))"

definition not_positive :: "int option \<Rightarrow> bool" where
  "not_positive v \<longleftrightarrow> (\<exists>k \<in> set_option v. k \<le> 0)"

definition replication_diagnostics :: "string \<Rightarrow> replication_policy \<Rightarrow> diagnostic list" where
  "replication_diagnostics n r =
     (if rp_count r \<le> 0 then [compile_error ''POLICY_REPLICATION_INVALID''
        ''ReplicationPolicy count must be positive.'' n] else [])
     @ (if not_positive (rp_max_parallelism r) then [compile_error ''POLICY_REPLICATION_INVALID''
        ''ReplicationPolicy max_parallelism must be positive.'' n] else [])"

definition resource_diagnostics :: "string \<Rightarrow> resource_policy \<Rightarrow> diagnostic list" where
  "resource_diagnostics n r =
     concat (map (\<lambda>(field, v). if not_positive v
         then [compile_error ''POLICY_RESOURCE_INVALID''
           (''ResourcePolicy '' @ field @ '' must be positive.'') n] else [])
       [(''max_node_executions_per_invocation'', rs_max_node_executions r),
        (''max_operator_attempts_per_invocation'', rs_max_operator_attempts r),
        (''max_runtime_ms_per_invocation'', rs_max_runtime_ms r)])"

definition on_some :: "'a option \<Rightarrow> ('a \<Rightarrow> 'b list) \<Rightarrow> 'b list" where
  "on_some v f = (case v of None \<Rightarrow> [] | Some x \<Rightarrow> f x)"

definition node_policy_diagnostics ::
  "compiler_env \<Rightarrow> string \<Rightarrow> node_ir \<Rightarrow> node_policy \<Rightarrow> diagnostic list" where
  "node_policy_diagnostics E n nd p =
     (case nd_capability nd of
        BindSystemCommand _ _ \<Rightarrow> [compile_error ''SYSTEM_COMMAND_POLICY_UNSUPPORTED''
          ''SystemCommand wait nodes do not support NodePolicy in V1.'' n]
      | binding \<Rightarrow>
          on_some (np_selection p) (selection_diagnostics E n binding)
          @ on_some (np_retry p) (retry_diagnostics n)
          @ on_some (np_recovery p) (\<lambda>r.
              if rec_mode r = RecIdempotent \<and> ''idempotency_key'' \<notin> set (nd_parameters nd)
              then [compile_error ''POLICY_RECOVERY_IDEMPOTENCY_KEY_REQUIRED''
                ''Idempotent RecoveryPolicy requires the Operator input contract to accept idempotency_key.'' n]
              else [])
          @ on_some (np_timeout_ms p) (\<lambda>t. if t \<le> 0 then [compile_error ''POLICY_TIMEOUT_INVALID''
              ''TimeoutPolicy timeout_ms must be positive.'' n] else [])
          @ on_some (np_replication p) (replication_diagnostics n)
          @ (if not_positive (np_max_concurrency p) then [compile_error ''POLICY_CONCURRENCY_INVALID''
              ''NodePolicy max_concurrency must be positive.'' n] else [])
          @ on_some (np_resource p) (resource_diagnostics n))"

section \<open>Map policies\<close>

definition has_replication :: "node_ir \<Rightarrow> bool" where
  "has_replication nd \<longleftrightarrow> (case nd_policy nd of None \<Rightarrow> False | Some p \<Rightarrow> np_replication p \<noteq> None)"

definition map_policy_diagnostics ::
  "node_ir dict \<Rightarrow> edge_ir dict \<Rightarrow> string \<Rightarrow> edge_ir \<Rightarrow> map_policy \<Rightarrow> diagnostic list" where
  "map_policy_diagnostics nodes edges eid e mp =
     (if not_positive (mp_max_parallelism mp) then [compile_error ''POLICY_MAP_INVALID''
        ''MapPolicy max_parallelism must be positive.'' eid] else [])
     @ on_some (dict_get nodes (ed_to_node e)) (\<lambda>target.
         (case nd_capability target of
            BindSystemCommand _ _ \<Rightarrow> [compile_error ''SYSTEM_COMMAND_MAP_UNSUPPORTED''
              ''MapPolicy cannot target a SystemCommand wait node in V1.'' eid]
          | _ \<Rightarrow> [])
         @ (if length (filter (\<lambda>(_, c). ed_to_node c = ed_to_node e) edges) \<noteq> 1
            then [compile_error ''POLICY_MAP_FAN_IN_UNSUPPORTED''
              ''A MapPolicy target must have exactly one incoming edge; map and complete fan-in cannot share one target in V1.'' eid]
            else [])
         @ (if nd_input_plan target \<noteq> None
            then [compile_error ''POLICY_MAP_INPUT_MAPPING_CONFLICT''
              ''A MapPolicy item_selector owns per-item input construction; the target node cannot also define input_mapping.'' eid]
            else [])
         @ (if has_replication target
            then [compile_error ''POLICY_MAP_REPLICATION_CONFLICT''
              ''MapPolicy and ReplicationPolicy cannot target the same node.'' eid] else []))"

definition validate_policies ::
  "compiler_env \<Rightarrow> node_ir dict \<Rightarrow> edge_ir dict \<Rightarrow> diagnostic list" where
  "validate_policies E nodes edges =
     concat (map (\<lambda>(n, nd). on_some (nd_policy nd) (node_policy_diagnostics E n nd)) nodes)
     @ concat (map (\<lambda>(eid, e). on_some (ed_map_policy e) (map_policy_diagnostics nodes edges eid e)) edges)"

section \<open>Final output contracts\<close>

text \<open>
  Without an aggregator the output is a list of the operator's outputs, with one it is whatever
  the aggregator declares, and a warning when it declares nothing.
\<close>

definition aggregated_contract ::
  "compiler_env \<Rightarrow> string \<Rightarrow> string \<Rightarrow> (aggregation_context \<Rightarrow> user_exn + pyval) option \<Rightarrow> node_ir
   \<Rightarrow> diagnostic list \<times> node_ir" where
  "aggregated_contract E label subject aggregator nd =
     (case aggregator of
        None \<Rightarrow> ([], nd\<lparr>nd_output_contract := ce_list_contract E (nd_operator_output_contract nd)\<rparr>)
      | Some f \<Rightarrow>
          (let (known, k) = ce_aggregator_contract E f in
           (if known then [] else [mk_diagnostic SevWarning ''POLICY_AGGREGATOR_OUTPUT_UNVERIFIED''
              (label @ '' output_aggregator has no concrete return annotation; final node output cannot be validated.'')
              (Some subject) []],
            nd\<lparr>nd_output_contract := k\<rparr>)))"

definition replication_contract ::
  "compiler_env \<Rightarrow> string \<times> node_ir \<Rightarrow> diagnostic list \<times> string \<times> node_ir" where
  "replication_contract E nn =
     (let (n, nd) = nn in
      case (case nd_policy nd of None \<Rightarrow> None | Some p \<Rightarrow> np_replication p) of
        None \<Rightarrow> ([], n, nd)
      | Some r \<Rightarrow> (let (ds, nd') = aggregated_contract E ''Replication'' n (rp_output_aggregator r) nd
                   in (ds, n, nd')))"

definition map_contract ::
  "compiler_env \<Rightarrow> diagnostic list \<times> node_ir dict \<Rightarrow> string \<times> edge_ir \<Rightarrow> diagnostic list \<times> node_ir dict" where
  "map_contract E s ee =
     (let (ds, nodes) = s; (eid, e) = ee in
      case ed_map_policy e of
        None \<Rightarrow> s
      | Some mp \<Rightarrow> (case dict_get nodes (ed_to_node e) of
            None \<Rightarrow> s
          | Some nd \<Rightarrow> (let (ds', nd') = aggregated_contract E ''Map'' eid (mp_output_aggregator mp) nd
                        in (ds @ ds', dict_set (ed_to_node e) nd' nodes))))"

definition compile_final_output_contracts ::
  "compiler_env \<Rightarrow> node_ir dict \<Rightarrow> edge_ir dict \<Rightarrow> diagnostic list \<times> node_ir dict" where
  "compile_final_output_contracts E nodes edges =
     (let rs = map (replication_contract E) nodes
      in foldl (map_contract E) (concat (map fst rs), map snd rs) edges)"

end
