(* ===== verification/Compiler.thy ===== *)
theory Compiler
  imports Compiler_Loops Compiler_Policies
begin

text \<open>
  \<open>WorkflowCompiler.compile\<close>: the order of its phases, the finalized diagnostics and the static
  analysis (\<open>core/compiler/analysis.py\<close>) it returns for valid and invalid workflows. The
  compilation starts from the expanded workflow; see \<open>Compiler_Expansion\<close>. The definition hash is
  an argument.
\<close>

section \<open>Finalized diagnostics\<close>

fun contains_str :: "string \<Rightarrow> string \<Rightarrow> bool" where
  "contains_str sub [] = (sub = [])"
| "contains_str sub (c # cs) = (take (length sub) (c # cs) = sub \<or> contains_str sub cs)"

definition starts_with :: "string \<Rightarrow> string \<Rightarrow> bool" where
  "starts_with p s = (take (length p) s = p)"

definition ends_with :: "string \<Rightarrow> string \<Rightarrow> bool" where
  "ends_with p s = starts_with (rev p) (rev s)"

definition lower_char :: "char \<Rightarrow> char" where
  "lower_char c = (let n = of_char c :: nat in if 65 \<le> n \<and> n \<le> 90 then char_of (n + 32) else c)"

definition diagnostic_object_type ::
  "string \<Rightarrow> string option \<Rightarrow> string list \<Rightarrow> string list \<Rightarrow> object_type" where
  "diagnostic_object_type code object_id node_ids edge_ids =
     (if code \<in> {''WF_NO_ENTRY'', ''LOOP_IRREDUCIBLE'', ''LOOP_OVERLAP_INVALID''} then ObjWorkflow
      else if code = ''LOOP_ENTRY_INVALID'' then ObjEdge
      else if code = ''SUBWORKFLOW_RECURSION'' then ObjWorkflow
      else if starts_with ''EDGE_'' code \<or> code \<in> {''CONDITION_UNSUPPORTED'',
          ''STRING_CONDITION_UNSUPPORTED'', ''SUBWORKFLOW_MAP_UNSUPPORTED'',
          ''SYSTEM_COMMAND_MAP_UNSUPPORTED''} then ObjEdge
      else if starts_with ''POLICY_MAP_'' code then ObjEdge
      else if (\<exists>i \<in> set_option object_id. i \<in> set edge_ids) then ObjEdge
      else if (\<exists>i \<in> set_option object_id. i \<in> set node_ids) then ObjNode
      else if starts_with ''WF_'' code then ObjNode
      else if object_id \<noteq> None then ObjNode else ObjWorkflow)"

definition diagnostic_field :: "string \<Rightarrow> string \<Rightarrow> string option" where
  "diagnostic_field code message =
     (if code \<in> {''NODE_ID_REQUIRED'', ''NODE_DUPLICATE_ID''} then Some ''id''
      else if code = ''EDGE_DUPLICATE_ID'' then Some ''id''
      else if code = ''EDGE_UNKNOWN_NODE''
        then Some (if contains_str ''source'' (map lower_char message) then ''from_node'' else ''to_node'')
      else if code \<in> {''CONDITION_UNSUPPORTED'', ''STRING_CONDITION_UNSUPPORTED''} then Some ''condition''
      else if code = ''MAPPING_UNSUPPORTED''
        then Some (if contains_str ''output_binding'' message then ''output_binding'' else ''input_mapping'')
      else if starts_with ''POLICY_'' code \<or> ends_with ''_POLICY_UNSUPPORTED'' code then Some ''policy''
      else if starts_with ''CAPABILITY_'' code \<or> starts_with ''OPERATOR_'' code then Some ''capability''
      else if code = ''SYSTEM_COMMAND_CONFIG_UNSUPPORTED'' then Some ''capability.command''
      else if starts_with ''SUBWORKFLOW_'' code
        then Some (if contains_str ''_ENTRY_'' code then ''child_entry_node_id''
                   else if contains_str ''_EXIT_'' code then ''child_exit_node_id'' else ''capability'')
      else if code = ''WF_ENTRY_HAS_INCOMING_EDGE'' then Some ''entry''
      else None)"

definition diagnostic_hints :: "string dict" where
  "diagnostic_hints =
     [(''NODE_ID_REQUIRED'', ''Pass a stable non-empty node_id to workflow.add_node().''),
      (''NODE_DUPLICATE_ID'', ''Give every Node in the Workflow a unique stable id.''),
      (''EDGE_DUPLICATE_ID'', ''Give manually identified Edges unique ids.''),
      (''EDGE_UNKNOWN_NODE'', ''Correct the Edge endpoint to reference an existing Node id.''),
      (''WF_NO_ENTRY'', ''Add a Node with no incoming Edge to create a Workflow entry.''),
      (''WF_ENTRY_HAS_INCOMING_EDGE'',
       ''Remove the incoming Edge or do not mark this Node as an explicit entry.''),
      (''STRING_CONDITION_UNSUPPORTED'', ''Replace the string condition with a callable condition.''),
      (''CONDITION_UNSUPPORTED'', ''Use a callable Edge condition.''),
      (''MAPPING_UNSUPPORTED'', ''Use a callable mapping or binding function.''),
      (''CAPABILITY_NOT_REGISTERED'',
       ''Register a provider for the Capability before compiling for execution.''),
      (''CAPABILITY_HAS_NO_OPERATOR'',
       ''Install at least one Operator that implements this Capability.''),
      (''OPERATOR_NOT_REGISTERED'', ''Register the referenced Operator or bind a callable directly.''),
      (''SUBWORKFLOW_RECURSION'', ''Remove the recursive child Workflow reference.'')]"

definition diagnostic_hint :: "string \<Rightarrow> string option" where
  "diagnostic_hint code =
     (case dict_get diagnostic_hints code of Some h \<Rightarrow> Some h
      | None \<Rightarrow>
          if starts_with ''POLICY_'' code
            then Some ''Update the referenced Policy field to satisfy the diagnostic.''
          else if starts_with ''CAPABILITY_'' code
            then Some ''Correct the Capability reference or install a matching provider.''
          else if starts_with ''OPERATOR_'' code
            then Some ''Correct the callable or Operator contract used by this Node.''
          else if starts_with ''SUBWORKFLOW_'' code
            then Some ''Update the child Workflow boundary or placeholder configuration.''
          else if starts_with ''SYSTEM_COMMAND_'' code
            then Some ''Remove the unsupported behavior from the SystemCommand Node.''
          else if starts_with ''LOOP_'' code
            then Some ''Restructure the cycle as a natural loop with one entry header.''
          else None)"

text \<open>\<open>x or y\<close> on optional strings.\<close>

definition or_text :: "string option \<Rightarrow> string option \<Rightarrow> string option" where
  "or_text x y = (case x of Some (c # cs) \<Rightarrow> x | _ \<Rightarrow> y)"

definition finalize_diagnostic ::
  "string \<Rightarrow> string list \<Rightarrow> string list \<Rightarrow> diagnostic \<Rightarrow> diagnostic" where
  "finalize_diagnostic workflow_id node_ids edge_ids d =
     (let oid = or_text (dg_object_id d) (dg_subject d)
      in d\<lparr>dg_workflow_id := Some (str_or (dg_workflow_id d) workflow_id),
           dg_object_type := (case dg_object_type d of Some t \<Rightarrow> Some t
             | None \<Rightarrow> Some (diagnostic_object_type (dg_code d) oid node_ids edge_ids)),
           dg_object_id := oid,
           dg_field := or_text (dg_field d) (diagnostic_field (dg_code d) (dg_message d)),
           dg_hint := or_text (dg_hint d) (diagnostic_hint (dg_code d)),
           dg_source_index := (case dg_source_index d of Some k \<Rightarrow> Some k
             | None \<Rightarrow> (case dict_get (dg_metadata d) ''source_index'' of
                 Some (PyInt k) \<Rightarrow> if 0 \<le> k then Some k else None
               | _ \<Rightarrow> None))\<rparr>)"

definition severity_rank :: "severity \<Rightarrow> nat" where
  "severity_rank s = (case s of SevError \<Rightarrow> 0 | SevWarning \<Rightarrow> 1 | SevInfo \<Rightarrow> 2)"

definition object_rank :: "object_type option \<Rightarrow> nat" where
  "object_rank t = (case t of Some ObjWorkflow \<Rightarrow> 0 | Some ObjNode \<Rightarrow> 1 | Some ObjEdge \<Rightarrow> 2 | None \<Rightarrow> 3)"

definition diagnostic_order ::
  "diagnostic \<Rightarrow> nat \<times> int \<times> nat \<times> string \<times> string \<times> string \<times> string" where
  "diagnostic_order d =
     (severity_rank (dg_severity d),
      (case dg_source_index d of None \<Rightarrow> 2 ^ 31 | Some k \<Rightarrow> k),
      object_rank (dg_object_type d), str_or (dg_object_id d) [], str_or (dg_field d) [],
      dg_code d, dg_message d)"

definition finalize_diagnostics ::
  "string \<Rightarrow> string list \<Rightarrow> string list \<Rightarrow> diagnostic list \<Rightarrow> diagnostic list" where
  "finalize_diagnostics workflow_id node_ids edge_ids ds =
     sort_key diagnostic_order (map (finalize_diagnostic workflow_id node_ids edge_ids) ds)"

lemma has_errors_finalize [simp]: "has_errors (finalize_diagnostics w ns es ds) \<longleftrightarrow> has_errors ds"
proof -
  have "dg_severity (finalize_diagnostic w ns es d) = dg_severity d" for d
    by (simp add: finalize_diagnostic_def Let_def)
  then show ?thesis by (simp add: has_errors_def finalize_diagnostics_def)
qed

text \<open>The counts of \<open>to_diagnostic_document\<close>.\<close>

definition diagnostic_counts :: "diagnostic list \<Rightarrow> (severity \<times> nat) list" where
  "diagnostic_counts ds =
     map (\<lambda>s. (s, length (filter (\<lambda>d. dg_severity d = s) ds))) [SevError, SevWarning, SevInfo]"

section \<open>Static analysis\<close>

datatype analysis_binding =
    AnalysisOperator string | AnalysisCapability string | AnalysisSystemCommand string

record analysis_node =
  an_id :: string
  an_local_id :: string
  an_workflow_path :: "string list"
  an_source_index :: nat
  an_binding :: analysis_binding
  an_resolved :: bool
  an_entry :: "bool option"
  an_exit :: "bool option"

record analysis_edge =
  ae_id :: string
  ae_local_id :: string
  ae_workflow_path :: "string list"
  ae_source_index :: nat
  ae_from_node_id :: string
  ae_to_node_id :: string
  ae_source_resolved :: bool
  ae_target_resolved :: bool
  ae_conditional :: bool
  ae_map :: "(int option \<times> bool \<times> bool) option"

record workflow_analysis =
  wa_workflow_id :: string
  wa_complete :: bool
  wa_nodes :: "analysis_node list"
  wa_edges :: "analysis_edge list"
  wa_entry_node_ids :: "string list option"
  wa_exit_node_ids :: "string list option"
  wa_loop_regions :: "loop_region_ir list option"

text \<open>
  An operator is described by its id, which stands for its definition name, and an unsupported
  binding by the name of its type.
\<close>

definition analysis_binding_of :: "source_capability \<Rightarrow> analysis_binding" where
  "analysis_binding_of cap =
     (case cap of
        SrcOperator op _ \<Rightarrow> AnalysisOperator (op_id op)
      | SrcCallable c \<Rightarrow> AnalysisOperator (sc_operator_id c)
      | SrcName s \<Rightarrow> AnalysisCapability s
      | SrcCapabilityRef s \<Rightarrow> AnalysisCapability s
      | SrcOperatorRef s \<Rightarrow> AnalysisOperator s
      | SrcSystemCommand s _ \<Rightarrow> AnalysisSystemCommand s
      | SrcWorkflow _ \<Rightarrow> AnalysisOperator ''Workflow''
      | SrcUnsupported \<Rightarrow> AnalysisOperator ''object'')"

fun analysis_edges ::
  "string list \<Rightarrow> string list \<Rightarrow> nat \<Rightarrow> source_edge list \<Rightarrow> analysis_edge list" where
  "analysis_edges known used k [] = []"
| "analysis_edges known used k (e # es) =
     (let a = ref_id (se_from e); b = ref_id (se_to e);
          eid = (case se_id e of Some i \<Rightarrow> i
                 | None \<Rightarrow> generate_edge_id (''edge_'' @ a @ ''_'' @ b) used)
      in \<lparr>ae_id = eid, ae_local_id = str_or (se_local_id e) eid,
          ae_workflow_path = se_workflow_path e, ae_source_index = k, ae_from_node_id = a,
          ae_to_node_id = b, ae_source_resolved = (a \<in> set known),
          ae_target_resolved = (b \<in> set known), ae_conditional = (case se_condition e of NoCondition \<Rightarrow> False | _ \<Rightarrow> True),
          ae_map = map_option (\<lambda>mp. (mp_max_parallelism mp, mp_item_selector mp \<noteq> None,
             mp_output_aggregator mp \<noteq> None)) (se_map_policy e)\<rparr>
         # analysis_edges known (used @ [eid]) (k + 1) es)"

definition build_workflow_analysis ::
  "string \<Rightarrow> source_node list \<Rightarrow> source_edge list \<Rightarrow> node_ir dict \<Rightarrow> edge_ir dict \<Rightarrow> graph_ir
   \<Rightarrow> string list \<Rightarrow> string list \<Rightarrow> bool \<Rightarrow> workflow_analysis" where
  "build_workflow_analysis workflow_id ns es nodes edges g entries exits complete =
     (let known = uniq_first (map sn_id ns);
          aes = analysis_edges known (uniq_first (manual_ids es)) 0 es;
          whole = (length known = length ns
            \<and> (\<forall>e \<in> set aes. ae_source_resolved e \<and> ae_target_resolved e)
            \<and> length nodes = length ns \<and> length edges = length es)
      in \<lparr>wa_workflow_id = workflow_id, wa_complete = complete,
          wa_nodes = map (\<lambda>(k, n). \<lparr>an_id = sn_id n, an_local_id = str_or (sn_local_id n) (sn_id n),
              an_workflow_path = sn_workflow_path n, an_source_index = k,
              an_binding = analysis_binding_of (sn_capability n),
              an_resolved = (dict_get nodes (sn_id n) \<noteq> None),
              an_entry = (if whole then Some (sn_id n \<in> set entries) else None),
              an_exit = (if whole then Some (sn_id n \<in> set exits) else None)\<rparr>)
            (zip [0..<length ns] ns),
          wa_edges = aes,
          wa_entry_node_ids = (if whole then Some entries else None),
          wa_exit_node_ids = (if whole then Some exits else None),
          wa_loop_regions = (if whole then Some (map snd (gr_loop_regions g)) else None)\<rparr>)"

section \<open>Compilation\<close>

record compile_result =
  cr_workflow_id :: string
  cr_analysis :: workflow_analysis
  cr_workflow_ir :: "workflow_ir option"
  cr_diagnostics :: "diagnostic list"

definition compile_ok :: "compile_result \<Rightarrow> bool" where
  "compile_ok r \<longleftrightarrow> cr_workflow_ir r \<noteq> None \<and> \<not> has_errors (cr_diagnostics r)"

text \<open>
  The subgraph of the nodes that compiled, its entries and its loop analysis. Without any node
  the analysis is skipped.
\<close>

definition compile_graph ::
  "compiler_env \<Rightarrow> node_ir dict \<Rightarrow> edge_ir dict
   \<Rightarrow> (diagnostic list \<times> graph_ir \<times> string list) option" where
  "compile_graph E nodes edges =
     (let g = build_graph nodes edges in
      if nodes = [] then Some ([], g, [])
      else
        let (ds, entries) = infer_entry_node_ids nodes g
        in map_option (\<lambda>(ds', g'). (ds @ ds' @ validate_policies E nodes edges, g', entries))
             (compile_loop_regions (dict_keys nodes) edges g entries))"

definition compile_expanded ::
  "compiler_env \<Rightarrow> diagnostic list \<Rightarrow> source_workflow \<Rightarrow> compile_result option" where
  "compile_expanded E ds0 w =
     (let ns = sw_nodes w; es = sw_edges w;
          d1 = compile_node_ids ns;
          (d2, refs) = compile_edge_refs (map sn_id (identified ns)) 0 es;
          (d3, nodes) = compile_nodes E ns;
          (d4, edges) = compile_edges es refs;
          graph_edges = filter (\<lambda>(_, e). ed_from_node e \<in> set (dict_keys nodes)
             \<and> ed_to_node e \<in> set (dict_keys nodes)) edges
      in map_option (\<lambda>(d5, g, entries).
           let ds = ds0 @ d1 @ d2 @ d3 @ d4 @ d5;
               (d6, nodes') = (if has_errors ds then ([], nodes)
                               else compile_final_output_contracts E nodes graph_edges);
               exits = infer_exit_node_ids nodes' g;
               marked = mark_entry_exit_flags entries exits nodes';
               final = finalize_diagnostics (sw_id w) (dict_keys marked) (dict_keys edges) (ds @ d6);
               W = \<lparr>wf_workflow_id = sw_id w, wf_definition_hash = ''pending'',
                    wf_failure_mode = sw_failure_mode w, wf_nodes = marked, wf_edges = edges,
                    wf_graph = g, wf_entry_node_ids = entries, wf_exit_node_ids = exits\<rparr>
           in \<lparr>cr_workflow_id = sw_id w,
               cr_analysis = build_workflow_analysis (sw_id w) ns es marked edges g entries exits
                 (\<not> has_errors final),
               cr_workflow_ir = (if has_errors final then None
                 else Some (W\<lparr>wf_definition_hash := ce_definition_hash E W\<rparr>)),
               cr_diagnostics = final\<rparr>)
         (compile_graph E nodes graph_edges))"

end
