(* ===== verification/Compiler_Expansion.thy ===== *)
theory Compiler_Expansion
  imports Compiler
begin

text \<open>
  The expansion of child workflows into one flat workflow: \<open>core/compiler/expansion.py\<close>, and
  \<open>compile\<close> on top of it. Workflows refer to each other by identity through a store, so a workflow
  may contain itself; the expansion stops at a workflow that is already on its stack. A workflow
  that is referred to exists, so the store lookup's failure never arises. The copies a workflow
  makes of its own nodes and edges are marked until the scope its hooks see is known.
\<close>

section \<open>Data\<close>

record expansion =
  ex_nodes :: "source_node list"
  ex_edges :: "source_edge list"
  ex_inputs :: "string dict"
  ex_outputs :: "string dict"
  ex_entries :: "string dict"
  ex_exits :: "string dict"

definition empty_expansion :: expansion where
  "empty_expansion =
     \<lparr>ex_nodes = [], ex_edges = [], ex_inputs = [], ex_outputs = [], ex_entries = [], ex_exits = []\<rparr>"

record selected_child =
  sl_nodes :: "source_node list"
  sl_edges :: "source_edge list"
  sl_entry :: "string option"
  sl_exit :: "string option"

text \<open>The loop state of one workflow's expansion; the flags mark its own copies.\<close>

record expanding =
  xp_diagnostics :: "diagnostic list"
  xp_nodes :: "(bool \<times> source_node) list"
  xp_edges :: "(bool \<times> source_edge) list"
  xp_inputs :: "string dict"
  xp_outputs :: "string dict"
  xp_object_inputs :: "(nat \<times> string) list"
  xp_object_outputs :: "(nat \<times> string) list"
  xp_used_edge_ids :: "string list"

type_synonym workflow_store = "(nat \<times> source_workflow) list"

definition path_id :: "string list \<Rightarrow> string" where
  "path_id path = join_str ''/'' path"

definition qualify :: "string list \<Rightarrow> string \<Rightarrow> string" where
  "qualify path i = join_str ''/'' (path @ [i])"

definition dict_setdefault :: "'k \<Rightarrow> 'v \<Rightarrow> ('k \<times> 'v) list \<Rightarrow> ('k \<times> 'v) list" where
  "dict_setdefault k v d = (if dict_get d k = None then dict_set k v d else d)"

section \<open>Child boundaries\<close>

definition select_boundary ::
  "string \<Rightarrow> string \<Rightarrow> string option \<Rightarrow> string dict \<Rightarrow> string \<Rightarrow> diagnostic list \<times> string option" where
  "select_boundary kind upper selector candidates subject =
     (let names = (''candidate_node_ids'', PyList (map PyStr (sort (dict_keys candidates)))) in
      case selector of
        Some chosen \<Rightarrow>
          (case dict_get candidates chosen of
             Some n \<Rightarrow> ([], Some n)
           | None \<Rightarrow> ([mk_diagnostic SevError (''SUBWORKFLOW_'' @ upper @ ''_INVALID'')
               (''Selected child Workflow '' @ kind @ '' is not a valid '' @ kind @ '' for this embedding.'')
               (Some subject) [(''selected_node_id'', PyStr chosen), names]], None))
      | None \<Rightarrow>
          (case candidates of
             [(_, n)] \<Rightarrow> ([], Some n)
           | _ \<Rightarrow> ([mk_diagnostic SevError
               (''SUBWORKFLOW_'' @ upper @ (if candidates = [] then ''_MISSING'' else ''_REQUIRED''))
               (''Child Workflow has '' @ str_nat (length candidates) @ '' '' @ kind
                @ '' candidates; set child_'' @ kind @ ''_node_id explicitly.'')
               (Some subject) [names]], None)))"

definition source_successors :: "source_node list \<Rightarrow> source_edge list \<Rightarrow> string list dict" where
  "source_successors ns es =
     map (\<lambda>i. (i, List.map_filter (\<lambda>e. case (se_from e, se_to e) of
            (RefId a, RefId b) \<Rightarrow> if a = i then Some b else None | _ \<Rightarrow> None) es))
       (uniq_first (map sn_id ns))"

definition reachable_node_ids :: "string \<Rightarrow> source_node list \<Rightarrow> source_edge list \<Rightarrow> string set" where
  "reachable_node_ids entry ns es = reach_loop (source_successors ns es) {} [entry]"

fun set_first_entry :: "string \<Rightarrow> bool option \<Rightarrow> source_node list \<Rightarrow> source_node list" where
  "set_first_entry i b [] = []"
| "set_first_entry i b (n # ns) =
     (if sn_id n = i then n\<lparr>sn_entry := b\<rparr> # ns else n # set_first_entry i b ns)"

definition unsupported_fields :: "source_node \<Rightarrow> string list" where
  "unsupported_fields n =
     (if sn_input_mapping n \<noteq> None then [''input_mapping''] else [])
     @ (if sn_output_binding n \<noteq> None then [''output_binding''] else [])
     @ (if sn_stream_mappings n \<noteq> None then [''stream_user_event_mapping''] else [])
     @ (if sn_user_event_mapping n then [''user_event_mapping''] else [])
     @ (if sn_policy n \<noteq> None then [''policy''] else [])"

definition no_selection :: selected_child where
  "no_selection = \<lparr>sl_nodes = [], sl_edges = [], sl_entry = None, sl_exit = None\<rparr>"

text \<open>
  \<open>_expand_child_node\<close>, given the expansion of the child: the part of the child reachable from the
  selected entry is embedded, and only the placeholder's entry mark survives.
\<close>

definition embed_child ::
  "source_node \<Rightarrow> string \<Rightarrow> expansion \<Rightarrow> diagnostic list \<times> selected_child" where
  "embed_child n subject ex =
     (let (d1, entry) = select_boundary ''entry'' ''ENTRY'' (sn_child_entry n) (ex_entries ex) subject in
      case entry of
        None \<Rightarrow> (d1, no_selection)
      | Some start \<Rightarrow>
          (let reachable = reachable_node_ids start (ex_nodes ex) (ex_edges ex);
               nodes = filter (\<lambda>m. sn_id m \<in> reachable) (ex_nodes ex);
               edges = filter (\<lambda>e. case se_from e of RefId a \<Rightarrow> a \<in> reachable | _ \<Rightarrow> False) (ex_edges ex);
               exits = filter (\<lambda>(_, i). i \<in> reachable) (ex_exits ex);
               (d2, exit) = select_boundary ''exit'' ''EXIT'' (sn_child_exit n) exits subject
           in case exit of
                None \<Rightarrow> (d1 @ d2, no_selection)
              | Some stop \<Rightarrow>
                  (let selected = sn_id ` set nodes;
                       visible = filter (\<lambda>(_, i). i \<in> selected);
                       cleared = map (\<lambda>m. m\<lparr>sn_entry := None,
                         sn_scope_node_ids := visible (sn_scope_node_ids m)\<rparr>) nodes
                   in (d1 @ d2,
                       \<lparr>sl_nodes = set_first_entry start (sn_entry n) cleared,
                        sl_edges = map (\<lambda>e. e\<lparr>se_scope_node_ids := visible (se_scope_node_ids e)\<rparr>) edges,
                        sl_entry = entry, sl_exit = exit\<rparr>))))"

definition expand_child_node ::
  "source_node \<Rightarrow> string \<Rightarrow> diagnostic list \<times> expansion \<Rightarrow> diagnostic list \<times> selected_child" where
  "expand_child_node n subject child =
     (let fields = unsupported_fields n;
          (ds, sel) = embed_child n subject (snd child)
      in ((if fields = [] then [] else [mk_diagnostic SevError ''SUBWORKFLOW_NODE_BEHAVIOR_UNSUPPORTED''
             ''A child Workflow placeholder cannot define input_mapping, output_binding, UserEvent mapping, or NodePolicy in V1; define behavior on the child boundary nodes.''
             (Some subject) [(''fields'', PyList (map PyStr fields))]])
          @ fst child @ ds, sel))"

section \<open>Nodes\<close>

text \<open>\<open>rec\<close> expands a child at a path.\<close>

definition expand_node ::
  "(string list \<Rightarrow> nat \<Rightarrow> diagnostic list \<times> expansion) \<Rightarrow> string list \<Rightarrow> expanding \<Rightarrow> source_node
   \<Rightarrow> expanding" where
  "expand_node rec path s n =
     (case sn_capability n of
        SrcWorkflow child \<Rightarrow>
          (let child_path = path @ [sn_id n];
               (ds, sel) = expand_child_node n (path_id child_path) (rec child_path child);
               s1 = s\<lparr>xp_diagnostics := xp_diagnostics s @ ds,
                      xp_nodes := xp_nodes s @ map (Pair False) (sl_nodes sel),
                      xp_edges := xp_edges s @ map (Pair False) (sl_edges sel)\<rparr>;
               s2 = (case sl_entry sel of None \<Rightarrow> s1
                 | Some i \<Rightarrow> s1\<lparr>xp_inputs := dict_setdefault (sn_id n) i (xp_inputs s1),
                     xp_object_inputs := dict_set (sn_object n) i (xp_object_inputs s1)\<rparr>)
           in case sl_exit sel of None \<Rightarrow> s2
              | Some i \<Rightarrow> s2\<lparr>xp_outputs := dict_setdefault (sn_id n) i (xp_outputs s2),
                  xp_object_outputs := dict_set (sn_object n) i (xp_object_outputs s2)\<rparr>)
      | _ \<Rightarrow>
          (let i = qualify path (sn_id n);
               ds = (if sn_child_entry n \<noteq> None \<or> sn_child_exit n \<noteq> None
                     then [compile_error ''SUBWORKFLOW_SELECTOR_INVALID''
                       ''child_entry_node_id and child_exit_node_id require a Workflow capability.'' i]
                     else [])
           in s\<lparr>xp_diagnostics := xp_diagnostics s @ ds,
                xp_nodes := xp_nodes s @ [(True, n\<lparr>sn_id := i, sn_local_id := Some (sn_id n),
                  sn_workflow_path := path\<rparr>)],
                xp_inputs := dict_setdefault (sn_id n) i (xp_inputs s),
                xp_outputs := dict_setdefault (sn_id n) i (xp_outputs s),
                xp_object_inputs := dict_set (sn_object n) i (xp_object_inputs s),
                xp_object_outputs := dict_set (sn_object n) i (xp_object_outputs s)\<rparr>))"

section \<open>Edges\<close>

definition resolve_endpoint :: "string dict \<Rightarrow> (nat \<times> string) list \<Rightarrow> node_ref \<Rightarrow> node_ref" where
  "resolve_endpoint by_id by_object r =
     (case r of
        RefNode k s \<Rightarrow> (case dict_get by_object k of Some i \<Rightarrow> RefId i | None \<Rightarrow> r)
      | RefId s \<Rightarrow> RefId (dict_get_default by_id s s))"

definition source_node_of :: "source_node list \<Rightarrow> node_ref \<Rightarrow> source_node option" where
  "source_node_of ns r =
     (case r of
        RefNode k s \<Rightarrow> List.find (\<lambda>n. sn_object n = k) ns
      | RefId s \<Rightarrow> List.find (\<lambda>n. sn_id n = s) (rev ns))"

definition is_child :: "source_node \<Rightarrow> bool" where
  "is_child n \<longleftrightarrow> (case sn_capability n of SrcWorkflow _ \<Rightarrow> True | _ \<Rightarrow> False)"

definition expand_edge ::
  "source_node list \<Rightarrow> string list \<Rightarrow> expanding \<Rightarrow> source_edge \<Rightarrow> expanding" where
  "expand_edge ns path s e =
     (let a = ref_id (se_from e); b = ref_id (se_to e);
          eid = str_or (se_id e) (generate_edge_id (''edge_'' @ a @ ''_'' @ b) (xp_used_edge_ids s));
          ds = (if (case source_node_of ns (se_to e) of None \<Rightarrow> False | Some n \<Rightarrow> is_child n) \<and> se_map_policy e \<noteq> None
                then [compile_error ''SUBWORKFLOW_MAP_UNSUPPORTED''
                  ''MapPolicy cannot target a child Workflow placeholder in V1 because that would map only its expanded entry node, not one complete child execution per item.''
                  (qualify path eid)] else [])
      in s\<lparr>xp_diagnostics := xp_diagnostics s @ ds,
           xp_used_edge_ids := xp_used_edge_ids s @ [eid],
           xp_edges := xp_edges s @ [(True, e\<lparr>se_id := Some (qualify path eid),
             se_from := resolve_endpoint (xp_outputs s) (xp_object_outputs s) (se_from e),
             se_to := resolve_endpoint (xp_inputs s) (xp_object_inputs s) (se_to e),
             se_local_id := Some eid, se_local_from := Some a, se_local_to := Some b,
             se_workflow_path := path\<rparr>)]\<rparr>)"

section \<open>One workflow\<close>

definition start_expanding :: "source_workflow \<Rightarrow> expanding" where
  "start_expanding w =
     \<lparr>xp_diagnostics = [], xp_nodes = [], xp_edges = [], xp_inputs = [], xp_outputs = [],
      xp_object_inputs = [], xp_object_outputs = [], xp_used_edge_ids = manual_ids (sw_edges w)\<rparr>"

definition targets_of :: "source_edge list \<Rightarrow> string list" where
  "targets_of es = List.map_filter (\<lambda>e. case se_to e of RefId i \<Rightarrow> Some i | _ \<Rightarrow> None) es"

definition sources_of :: "source_edge list \<Rightarrow> string list" where
  "sources_of es = List.map_filter (\<lambda>e. case se_from e of RefId i \<Rightarrow> Some i | _ \<Rightarrow> None) es"

definition finish_expanding :: "string list \<Rightarrow> expanding \<Rightarrow> diagnostic list \<times> expansion" where
  "finish_expanding path s =
     (let visible = filter (\<lambda>(local, i). local \<noteq> i) (xp_outputs s);
          nodes = map (\<lambda>(own, n). if own then n\<lparr>sn_scope_node_ids := visible\<rparr> else n) (xp_nodes s);
          edges = map (\<lambda>(own, e). if own then e\<lparr>se_scope_node_ids := visible\<rparr> else e) (xp_edges s);
          ids = set (map sn_id nodes);
          is_entry = (\<lambda>i. i \<in> ids \<and> i \<notin> set (targets_of edges));
          is_exit = (\<lambda>i. i \<in> ids \<and> i \<notin> set (sources_of edges));
          ds = (if path = [] then []
                else map (\<lambda>n. compile_error ''WF_ENTRY_HAS_INCOMING_EDGE''
                    ''An explicit entry node cannot have incoming edges.'' (sn_id n))
                  (filter (\<lambda>n. sn_entry n = Some True \<and> sn_id n \<in> set (targets_of edges)) nodes))
      in (xp_diagnostics s @ ds,
          \<lparr>ex_nodes = nodes, ex_edges = edges, ex_inputs = xp_inputs s, ex_outputs = xp_outputs s,
           ex_entries = filter (\<lambda>(_, i). is_entry i) (xp_inputs s),
           ex_exits = filter (\<lambda>(_, i). is_exit i) (xp_outputs s)\<rparr>))"

function expand ::
  "workflow_store \<Rightarrow> string list \<Rightarrow> nat list \<Rightarrow> nat \<Rightarrow> diagnostic list \<times> expansion" where
  "expand store path stack wid =
     (case map_of store wid of
        None \<Rightarrow> ([], empty_expansion)
      | Some w \<Rightarrow>
          if wid \<in> set stack
          then ([compile_error ''SUBWORKFLOW_RECURSION''
                   ''A child Workflow cannot contain itself recursively.''
                   (str_or (Some (path_id path)) (sw_id w))], empty_expansion)
          else
            let s = foldl (expand_node (\<lambda>p child. expand store p (stack @ [wid]) child) path)
                      (start_expanding w) (sw_nodes w)
            in finish_expanding path (foldl (expand_edge (sw_nodes w) path) s (sw_edges w)))"
  by pat_completeness auto

termination
proof (relation "measure (\<lambda>(store, path, stack, wid). card (fst ` set store - set stack))", goal_cases)
  case (2 store path stack wid w p child)
  then have "wid \<in> fst ` set store" by (force dest: map_of_SomeD)
  with 2 have "fst ` set store - set (stack @ [wid]) \<subset> fst ` set store - set stack" by auto
  then show ?case by (simp add: psubset_card_mono)
qed simp

declare expand.simps [simp del]

definition expand_child_workflows ::
  "workflow_store \<Rightarrow> nat \<Rightarrow> source_workflow \<Rightarrow> diagnostic list \<times> source_workflow" where
  "expand_child_workflows store wid w =
     (let (ds, ex) = expand store [] [] wid
      in (ds, w\<lparr>sw_nodes := ex_nodes ex, sw_edges := ex_edges ex\<rparr>))"

text \<open>\<open>compile\<close> of the workflow with identity \<open>wid\<close>.\<close>

definition compile_workflow ::
  "compiler_env \<Rightarrow> workflow_store \<Rightarrow> nat \<Rightarrow> source_workflow \<Rightarrow> compile_result option" where
  "compile_workflow E store wid w =
     (let (ds, w') = expand_child_workflows store wid w in compile_expanded E ds w')"

end
