(* ===== verification/Compiler_Samples.thy ===== *)
theory Compiler_Samples
  imports Compiler_Expansion
begin

text \<open>
  A source workflow to compile: an entry node and a child workflow with a loop between its entry
  and its exit; and a workflow that contains itself. The results of the phases are evaluated one
  by one.
\<close>

definition sample_contract :: operator_contract where
  "sample_contract = \<lparr>oc_parameters = [], oc_input = Inr, oc_input_schema = PyNone,
     oc_output = (\<lambda>_. None)\<rparr>"

definition sample_env_compiler :: compiler_env where
  "sample_env_compiler = \<lparr>ce_capabilities = None, ce_operators = None, ce_require_bindings = True,
     ce_capability_contract = (\<lambda>_. sample_contract), ce_operator_contract = (\<lambda>_. sample_contract),
     ce_wait_contract = sample_contract, ce_list_contract = (\<lambda>k _. None),
     ce_aggregator_contract = (\<lambda>_. (True, \<lambda>_. None)), ce_definition_hash = (\<lambda>_. ''hash'')\<rparr>"

definition source_of :: "nat \<Rightarrow> string \<Rightarrow> source_capability \<Rightarrow> source_node" where
  "source_of k i cap = \<lparr>sn_object = k, sn_id = i, sn_capability = cap, sn_child_entry = None,
     sn_child_exit = None, sn_input_mapping = None, sn_output_binding = None,
     sn_stream_mappings = None, sn_user_event_mapping = False, sn_event_stream = None,
     sn_entry = None, sn_policy = None, sn_local_id = None, sn_scope_node_ids = [],
     sn_workflow_path = []\<rparr>"

definition task :: "nat \<Rightarrow> string \<Rightarrow> source_node" where
  "task k i = source_of k i (SrcCallable \<lparr>sc_identity = k, sc_operator_id = ''python:f'',
     sc_is_async = False, sc_issues = [], sc_contract = sample_contract\<rparr>)"

definition arrow :: "string \<Rightarrow> string \<Rightarrow> source_edge" where
  "arrow a b = \<lparr>se_id = None, se_from = RefId a, se_to = RefId b, se_condition = NoCondition,
     se_map_policy = None, se_local_id = None, se_local_from = None, se_local_to = None,
     se_scope_node_ids = [], se_workflow_path = []\<rparr>"

definition source_loop :: source_workflow where
  "source_loop = \<lparr>sw_id = ''child'', sw_failure_mode = FailFast,
     sw_nodes = [task 10 ''a'', task 11 ''h'', task 12 ''z''],
     sw_edges = [arrow ''a'' ''h'', arrow ''h'' ''h'', arrow ''h'' ''z'']\<rparr>"

definition source_main :: source_workflow where
  "source_main = \<lparr>sw_id = ''main'', sw_failure_mode = FailFast,
     sw_nodes = [task 0 ''s'', source_of 1 ''c'' (SrcWorkflow 1)],
     sw_edges = [arrow ''s'' ''c'']\<rparr>"

definition source_cyclic :: source_workflow where
  "source_cyclic = \<lparr>sw_id = ''self'', sw_failure_mode = FailFast,
     sw_nodes = [source_of 20 ''again'' (SrcWorkflow 2)], sw_edges = []\<rparr>"

definition source_store :: workflow_store where
  "source_store = [(0, source_main), (1, source_loop), (2, source_cyclic)]"

section \<open>The phases on the sample\<close>

definition sample_flat :: source_workflow where
  "sample_flat = snd (expand_child_workflows source_store 0 source_main)"

definition sample_refs :: "edge_reference list" where
  "sample_refs = snd (compile_edge_refs (map sn_id (identified (sw_nodes sample_flat))) 0 (sw_edges sample_flat))"

definition sample_nodes :: "node_ir dict" where
  "sample_nodes = snd (compile_nodes sample_env_compiler (sw_nodes sample_flat))"

definition sample_edges :: "edge_ir dict" where
  "sample_edges = snd (compile_edges (sw_edges sample_flat) sample_refs)"

lemma sample_flat_ids:
  "map sn_id (sw_nodes sample_flat) = [''s'', ''c/a'', ''c/h'', ''c/z'']"
  by code_simp

lemma sample_expanded: "expand_child_workflows source_store 0 source_main = ([], sample_flat)"
proof -
  have "fst (expand_child_workflows source_store 0 source_main) = []" by code_simp
  then show ?thesis by (simp add: sample_flat_def prod_eq_iff)
qed

lemma sample_refs_run:
  "compile_edge_refs (map sn_id (identified (sw_nodes sample_flat))) 0 (sw_edges sample_flat) = ([], sample_refs)"
proof -
  have "fst (compile_edge_refs (map sn_id (identified (sw_nodes sample_flat))) 0 (sw_edges sample_flat)) = []"
    by code_simp
  then show ?thesis by (simp add: sample_refs_def prod_eq_iff)
qed

lemma sample_nodes_run: "compile_nodes sample_env_compiler (sw_nodes sample_flat) = ([], sample_nodes)"
proof -
  have "fst (compile_nodes sample_env_compiler (sw_nodes sample_flat)) = []" by code_simp
  then show ?thesis by (simp add: sample_nodes_def prod_eq_iff)
qed

lemma sample_edges_run: "compile_edges (sw_edges sample_flat) sample_refs = ([], sample_edges)"
proof -
  have "fst (compile_edges (sw_edges sample_flat) sample_refs) = []" by code_simp
  then show ?thesis by (simp add: sample_edges_def prod_eq_iff)
qed

lemma sample_node_keys: "dict_keys sample_nodes = [''s'', ''c/a'', ''c/h'', ''c/z'']"
  by code_simp

lemma sample_edge_ends:
  "map (\<lambda>(eid, e). (eid, ed_from_node e, ed_to_node e)) sample_edges
   = [(''c/edge_a_h'', ''c/a'', ''c/h''), (''c/edge_h_h'', ''c/h'', ''c/h''),
      (''c/edge_h_z'', ''c/h'', ''c/z''), (''edge_s_c'', ''s'', ''c/a'')]"
  by code_simp

lemma sample_edges_inside:
  "filter (\<lambda>(_, e). ed_from_node e \<in> set (dict_keys sample_nodes) \<and> ed_to_node e \<in> set (dict_keys sample_nodes))
     sample_edges = sample_edges"
proof -
  have "\<forall>p \<in> set (map (\<lambda>(eid, e). (eid, ed_from_node e, ed_to_node e)) sample_edges).
      fst (snd p) \<in> set (dict_keys sample_nodes) \<and> snd (snd p) \<in> set (dict_keys sample_nodes)"
    unfolding sample_edge_ends sample_node_keys by simp
  then show ?thesis by (simp add: filter_id_conv case_prod_unfold)
qed

lemma sample_graph_ok:
  "map_option (\<lambda>(ds, g, entries). (has_errors ds, entries, gr_successors g, gr_node_loop_stacks g))
     (compile_graph sample_env_compiler sample_nodes sample_edges)
   = Some (False, [''s''], [(''s'', [''c/a'']), (''c/a'', [''c/h'']), (''c/h'', [''c/h'', ''c/z'']), (''c/z'', [])],
       [(''c/h'', [''loop_1''])])"
  by code_simp

lemma sample_no_node_errors: "compile_node_ids (sw_nodes sample_flat) = []"
  by code_simp

lemma sample_contracts_ok: "fst (compile_final_output_contracts sample_env_compiler sample_nodes sample_edges) = []"
  by code_simp

end
