(* ===== verification/Compiler_Guarantees.thy ===== *)
theory Compiler_Guarantees
  imports Compiler_Correct Compiler_Samples
begin

text \<open>
  The compilation as a whole: it returns for every workflow, recursive child workflows included;
  its dominators are dominance; a workflow it compiles is a closed graph whose forward edges are
  acyclic, and when all its nodes are reachable it satisfies \<open>wf_ir\<close>, what the runtime's theorems
  assume. Each is instantiated on a compiled sample.
\<close>

section \<open>Phases\<close>

lemma reject_has_errors:
  assumes "compile_capability E cap n = (ds, None)"
  shows "has_errors ds"
proof (cases cap)
  case (SrcCallable c)
  with assms show ?thesis
    by (cases "filter fst (sc_issues c)") (auto simp: compile_capability_def Let_def)
qed (use assms in \<open>auto simp: compile_capability_def Let_def split: if_splits\<close>)

definition nodes_inv :: "source_node list \<Rightarrow> node_compilation \<Rightarrow> bool" where
  "nodes_inv ns s \<longleftrightarrow> (case s of (ds, direct, nodes) \<Rightarrow>
     distinct (dict_keys nodes) \<and> (\<forall>(n, nd) \<in> set nodes. nd_id nd = n)
     \<and> (\<not> has_errors ds \<longrightarrow> set (dict_keys nodes) = sn_id ` set ns)
     \<and> set (dict_keys nodes) \<subseteq> sn_id ` set ns)"

lemma dict_set_members: "(k, v) \<in> set (dict_set j w d) \<Longrightarrow> (k, v) = (j, w) \<or> (k, v) \<in> set d"
  by (induction d) (auto simp: dict_set_def split: if_splits)

lemma compile_node_inv:
  assumes "nodes_inv ns s"
  shows "nodes_inv (ns @ [n]) (compile_node E s n)"
proof -
  obtain ds direct nodes where s: "s = (ds, direct, nodes)" by (cases s)
  obtain ds' cap where cap: "compile_capability E (sn_capability n) (sn_id n) = (ds', cap)" by force
  show ?thesis
  proof (cases cap)
    case None
    then show ?thesis using assms cap reject_has_errors [of E "sn_capability n" "sn_id n" ds']
      by (auto simp: compile_node_def s nodes_inv_def)
  next
    case (Some c)
    obtain binding direct' where b: "bind_capability c (sn_id n) direct = (binding, direct')" by force
    show ?thesis
    proof (cases "binding_contract E c")
      case None
      then show ?thesis using assms Some cap b by (auto simp: compile_node_def s nodes_inv_def)
    next
      case k: (Some k)
      then show ?thesis using assms Some cap b
        by (auto simp: compile_node_def s nodes_inv_def distinct_dict_set dict_keys_set node_of_source_def
            dest!: dict_set_members)
    qed
  qed
qed

lemma compile_nodes_inv:
  assumes "compile_nodes E ns = (ds, nodes)"
  shows "distinct (dict_keys nodes)" and "\<forall>(n, nd) \<in> set nodes. nd_id nd = n"
    and "\<not> has_errors ds \<Longrightarrow> set (dict_keys nodes) = sn_id ` set (identified ns)"
    and "set (dict_keys nodes) \<subseteq> sn_id ` set (identified ns)"
proof -
  have "nodes_inv xs (foldl (compile_node E) ([], [], []) xs)" for xs
    by (induction xs rule: rev_induct) (simp_all add: compile_node_inv, simp add: nodes_inv_def dict_keys_def)
  from this [of "identified ns"] assms
  show "distinct (dict_keys nodes)" "\<forall>(n, nd) \<in> set nodes. nd_id nd = n"
    "\<not> has_errors ds \<Longrightarrow> set (dict_keys nodes) = sn_id ` set (identified ns)"
    "set (dict_keys nodes) \<subseteq> sn_id ` set (identified ns)"
    by (auto simp: compile_nodes_def nodes_inv_def split: prod.splits)
qed

lemma compile_edge_refs_known:
  "compile_edge_refs known k es = (ds, refs) \<Longrightarrow> (j, e, a, b) \<in> set refs \<Longrightarrow> a \<in> set known \<and> b \<in> set known"
proof (induction known k es arbitrary: ds refs rule: compile_edge_refs.induct)
  case (2 known k e es)
  obtain ds' refs' where r: "compile_edge_refs known (k + 1) es = (ds', refs')" by force
  have known: "resolve_node_ref known r = Some x \<Longrightarrow> x \<in> set known" for r x
    by (auto simp: resolve_node_ref_def split: node_ref.splits if_splits)
  from 2 r show ?case by (auto simp: Let_def dest!: known split: option.splits)
qed simp

definition endpoints :: "edge_reference \<Rightarrow> string \<times> string" where
  "endpoints ref = snd (snd ref)"

definition edges_inv :: "(string \<times> string) set \<Rightarrow> edge_compilation \<Rightarrow> bool" where
  "edges_inv P s \<longleftrightarrow> distinct (dict_keys (ec_edges s))
     \<and> (\<forall>(eid, e) \<in> set (ec_edges s). ed_id e = eid \<and> (ed_from_node e, ed_to_node e) \<in> P)"

lemma compile_edge_inv:
  assumes "edges_inv P s"
  shows "edges_inv (insert (endpoints ref) P) (compile_edge s ref)"
proof -
  obtain k e a b where ref: "ref = (k, e, a, b)" by (cases ref)
  show ?thesis using assms
    by (cases "se_condition e")
       (auto simp: compile_edge_def ref endpoints_def Let_def edges_inv_def distinct_dict_set
         edge_of_source_def dest!: dict_set_members)
qed

lemma compile_edges_inv:
  assumes "compile_edges es refs = (ds, edges)"
  shows "distinct (dict_keys edges)"
    and "(eid, e) \<in> set edges \<Longrightarrow> ed_id e = eid \<and> (ed_from_node e, ed_to_node e) \<in> endpoints ` set refs"
proof -
  let ?s = "\<lambda>d u. \<lparr>ec_diagnostics = d, ec_used_ids = u, ec_outgoing_order = [], ec_edges = []\<rparr>"
  have inv: "edges_inv (endpoints ` set rs) (foldl compile_edge (?s d u) rs)" for d u rs
  proof (induction rs rule: rev_induct)
    case (snoc r rs)
    then show ?case using compile_edge_inv by simp
  qed (simp add: edges_inv_def dict_keys_def)
  show "distinct (dict_keys edges)"
    and "(eid, e) \<in> set edges \<Longrightarrow> ed_id e = eid \<and> (ed_from_node e, ed_to_node e) \<in> endpoints ` set refs"
    using inv [where rs = refs and d = "duplicate_edge_ids es" and u = "manual_ids es"] assms
    by (auto simp: compile_edges_def edges_inv_def Let_def)
qed

definition node_ids_ok :: "node_ir dict \<Rightarrow> bool" where
  "node_ids_ok nodes \<longleftrightarrow> (\<forall>(n, nd) \<in> set nodes. nd_id nd = n)"

lemma aggregated_contract_id: "nd_id (snd (aggregated_contract E l s f nd)) = nd_id nd"
  by (cases f) (simp_all add: aggregated_contract_def split: prod.split)

lemma replication_contract_id:
  "fst (snd (replication_contract E (n, nd))) = n"
  "nd_id (snd (snd (replication_contract E (n, nd)))) = nd_id nd"
proof -
  let ?r = "case nd_policy nd of None \<Rightarrow> None | Some p \<Rightarrow> np_replication p"
  show "fst (snd (replication_contract E (n, nd))) = n"
    by (cases ?r) (simp_all add: replication_contract_def split: prod.split)
  show "nd_id (snd (snd (replication_contract E (n, nd)))) = nd_id nd"
  proof (cases ?r)
    case (Some r)
    obtain ds nd' where a: "aggregated_contract E ''Replication'' n (rp_output_aggregator r) nd = (ds, nd')" by force
    with aggregated_contract_id [of E "''Replication''" n "rp_output_aggregator r" nd] Some
    show ?thesis by (simp add: replication_contract_def)
  qed (simp add: replication_contract_def)
qed

lemma dict_keys_overwrite: "dict_get d k = Some w \<Longrightarrow> dict_keys (dict_set k v d) = dict_keys d"
  by (induction d) (auto simp: dict_set_def dict_keys_def split: if_splits)

lemma map_contract_step:
  assumes "node_ids_ok (snd s)"
  shows "dict_keys (snd (map_contract E s ee)) = dict_keys (snd s) \<and> node_ids_ok (snd (map_contract E s ee))"
proof -
  obtain ds nodes eid e where s: "s = (ds, nodes)" "ee = (eid, e)" by (cases s, cases ee)
  show ?thesis
  proof (cases "ed_map_policy e")
    case mp: (Some mp)
    show ?thesis
    proof (cases "dict_get nodes (ed_to_node e)")
      case (Some nd)
      obtain ds' nd' where a: "aggregated_contract E ''Map'' eid (mp_output_aggregator mp) nd = (ds', nd')" by force
      have "nd_id nd = ed_to_node e" using assms dict_get_mem [OF Some] by (auto simp: node_ids_ok_def s)
      then have "nd_id nd' = ed_to_node e"
        using aggregated_contract_id [of E "''Map''" eid "mp_output_aggregator mp" nd] a by simp
      then have "node_ids_ok (dict_set (ed_to_node e) nd' nodes)"
        using assms by (auto simp: node_ids_ok_def s dest!: dict_set_members)
      then show ?thesis using mp Some a by (simp add: map_contract_def s dict_keys_overwrite)
    qed (use mp assms in \<open>simp add: map_contract_def s\<close>)
  qed (use assms in \<open>simp add: map_contract_def s\<close>)
qed

lemma final_contracts_keys:
  assumes "compile_final_output_contracts E nodes edges = (ds, nodes')" and "node_ids_ok nodes"
  shows "dict_keys nodes' = dict_keys nodes \<and> node_ids_ok nodes'"
proof -
  let ?rs = "map (replication_contract E) nodes"
  have all: "node_ids_ok (snd s) \<Longrightarrow> dict_keys (snd (foldl (map_contract E) s es)) = dict_keys (snd s)
      \<and> node_ids_ok (snd (foldl (map_contract E) s es))" for s es
  proof (induction es arbitrary: s)
    case (Cons ee es)
    then show ?case using map_contract_step [of s E ee] by simp
  qed simp
  have "map fst (map snd ?rs) = map fst nodes"
    by (simp add: replication_contract_id(1) [of E "fst x" "snd x" for x, simplified])
  then have keys: "dict_keys (map snd ?rs) = dict_keys nodes" by (simp add: dict_keys_def)
  have "node_ids_ok (map snd ?rs)"
    unfolding node_ids_ok_def
  proof
    fix p assume "p \<in> set (map snd ?rs)"
    then obtain n nd where "(n, nd) \<in> set nodes" "p = snd (replication_contract E (n, nd))" by auto
    then show "case p of (n, nd) \<Rightarrow> nd_id nd = n"
      using assms(2) replication_contract_id [of E n nd] by (auto simp: node_ids_ok_def split: prod.splits)
  qed
  then show ?thesis
    using all [of "(concat (map fst ?rs), map snd ?rs)" edges] keys assms(1)
    by (simp add: compile_final_output_contracts_def Let_def)
qed

section \<open>The loop analysis\<close>

lemma component_entry_error_severity:
  "component_entry_error g ns edges entries c = Some d \<Longrightarrow> dg_severity d = SevError"
  by (auto simp: component_entry_error_def Let_def loop_entry_invalid_def split: if_splits)

lemma loop_regions_return:
  assumes "closed_graph nodes edges"
  shows "\<exists>r. compile_loop_regions (dict_keys nodes) edges (build_graph nodes edges) (entries_of nodes edges) = Some r"
  using exact_dominators_exist [OF assms]
  by (auto simp: compile_loop_regions_def reach_loop_flow Let_def)

lemma loop_regions_success:
  assumes g: "closed_graph nodes edges"
    and run: "compile_loop_regions (dict_keys nodes) edges (build_graph nodes edges) (entries_of nodes edges) = Some (ds, g')"
    and ok: "\<not> has_errors ds"
  obtains D cs where "exact_dominators nodes edges D"
    and "compute_dominators (build_graph nodes edges) (dict_keys nodes) (reached nodes edges) (entries_of nodes edges) = Some D"
    and "ranked edges (all_back_edge_ids (reached nodes edges) D edges) (reached nodes edges)"
    and "cs = number_candidates (dict_keys nodes) (map (natural_loop (build_graph nodes edges) edges)
          (back_edges_by_header (reached nodes edges) D edges))"
    and "first_overlap (map (natural_loop (build_graph nodes edges) edges)
          (back_edges_by_header (reached nodes edges) D edges)) = None"
    and "g' = (build_graph nodes edges)\<lparr>
          gr_loop_regions := snd (build_regions (dict_keys nodes) edges (entries_of nodes edges) cs),
          gr_node_loop_stacks := node_loop_stacks (dict_keys nodes)
            (snd (build_regions (dict_keys nodes) edges (entries_of nodes edges) cs))\<rparr>"
proof -
  let ?g = "build_graph nodes edges" and ?R = "reached nodes edges"
  obtain D where D: "compute_dominators ?g (dict_keys nodes) ?R (entries_of nodes edges) = Some D"
    "exact_dominators nodes edges D"
    using exact_dominators_exist [OF g] by blast
  let ?found = "map (natural_loop ?g edges) (back_edges_by_header ?R D edges)"
  have comps: "List.map_filter (component_entry_error ?g (dict_keys nodes) edges (entries_of nodes edges))
      (strongly_connected_components ?g (dict_keys nodes)) = []" (is "?cs = []")
  proof (cases ?cs)
    case (Cons d ds')
    then have "d \<in> set ?cs" by simp
    then have "dg_severity d = SevError"
      by (auto simp: map_filter_def intro: component_entry_error_severity)
    moreover have "ds = [d]" using run Cons by (simp add: compile_loop_regions_def reach_loop_flow D(1))
    ultimately show ?thesis using ok by simp
  qed
  have acyclic: "acyclic_without ?g (dict_keys nodes) edges ?R (all_back_edge_ids ?R D edges)"
    using run ok by (auto simp: compile_loop_regions_def Let_def reach_loop_flow D(1) comps split: if_splits)
  have none: "first_overlap ?found = None"
    using run ok acyclic
    by (auto simp: compile_loop_regions_def Let_def reach_loop_flow D(1) comps loop_overlap_invalid_def
        split: option.splits)
  have "ranked edges (all_back_edge_ids ?R D edges) ?R"
    by (rule acyclic_without_ranked [OF g reached_nodes [OF g] acyclic])
  moreover have "g' = ?g\<lparr>
      gr_loop_regions := snd (build_regions (dict_keys nodes) edges (entries_of nodes edges)
        (number_candidates (dict_keys nodes) ?found)),
      gr_node_loop_stacks := node_loop_stacks (dict_keys nodes)
        (snd (build_regions (dict_keys nodes) edges (entries_of nodes edges)
          (number_candidates (dict_keys nodes) ?found)))\<rparr>"
    using run acyclic none
    by (simp add: compile_loop_regions_def reach_loop_flow D(1) comps Let_def split: prod.splits)
  ultimately show ?thesis using that D none by blast
qed

section \<open>The compiled graph\<close>

text \<open>What every completed compilation has, successful or not.\<close>

lemma compiled_parts:
  assumes "compile_edge_refs (map sn_id (identified ns)) 0 es = (d2, refs)"
    and "compile_nodes E ns = (d3, nodes)" and "compile_edges es' refs = (d4, edges)"
  shows "distinct (dict_keys nodes)" and "node_ids_ok nodes" and "distinct (dict_keys edges)"
    and "closed_graph nodes (filter (\<lambda>(_, e). ed_from_node e \<in> set (dict_keys nodes)
          \<and> ed_to_node e \<in> set (dict_keys nodes)) edges)"
    and "(eid, e) \<in> set edges \<Longrightarrow> ed_id e = eid"
    and "\<not> has_errors d3 \<Longrightarrow> filter (\<lambda>(_, e). ed_from_node e \<in> set (dict_keys nodes)
          \<and> ed_to_node e \<in> set (dict_keys nodes)) edges = edges"
proof -
  show nodes: "distinct (dict_keys nodes)" "node_ids_ok nodes"
    using compile_nodes_inv [OF assms(2)] by (auto simp: node_ids_ok_def)
  show edges: "distinct (dict_keys edges)" using compile_edges_inv [OF assms(3)] by blast
  show "(eid, e) \<in> set edges \<Longrightarrow> ed_id e = eid" using compile_edges_inv [OF assms(3)] by blast
  show "closed_graph nodes (filter (\<lambda>(_, e). ed_from_node e \<in> set (dict_keys nodes)
          \<and> ed_to_node e \<in> set (dict_keys nodes)) edges)"
    using nodes edges by (auto simp: closed_graph_def dict_keys_def distinct_map_filter)
  assume "\<not> has_errors d3"
  then have keys: "set (dict_keys nodes) = set (map sn_id (identified ns))"
    using compile_nodes_inv(3) [OF assms(2)] by simp
  have "ed_from_node e \<in> set (dict_keys nodes) \<and> ed_to_node e \<in> set (dict_keys nodes)" if e: "(eid, e) \<in> set edges" for eid e
  proof -
    obtain k se where "(k, se, ed_from_node e, ed_to_node e) \<in> set refs"
      using compile_edges_inv(2) [OF assms(3) e] by (auto simp: endpoints_def)
    then show ?thesis unfolding keys by (rule compile_edge_refs_known [OF assms(1)])
  qed
  then show "filter (\<lambda>(_, e). ed_from_node e \<in> set (dict_keys nodes)
          \<and> ed_to_node e \<in> set (dict_keys nodes)) edges = edges"
    by (auto simp: filter_id_conv)
qed

lemma compile_graph_returns:
  assumes "closed_graph nodes edges"
  shows "\<exists>r. compile_graph E nodes edges = Some r"
  using loop_regions_return [OF assms]
  by (auto simp: compile_graph_def Let_def split: prod.splits)

lemma compile_expanded_returns: "\<exists>r. compile_expanded E ds0 w = Some r"
proof -
  obtain d2 refs where refs: "compile_edge_refs (map sn_id (identified (sw_nodes w))) 0 (sw_edges w) = (d2, refs)" by force
  obtain d3 nodes where nodes: "compile_nodes E (sw_nodes w) = (d3, nodes)" by force
  obtain d4 edges where edges: "compile_edges (sw_edges w) refs = (d4, edges)" by force
  obtain r where "compile_graph E nodes (filter (\<lambda>(_, e). ed_from_node e \<in> set (dict_keys nodes)
          \<and> ed_to_node e \<in> set (dict_keys nodes)) edges) = Some r"
    using compile_graph_returns [OF compiled_parts(4) [OF refs nodes edges]] by blast
  then show ?thesis by (simp add: compile_expanded_def Let_def refs nodes edges)
qed

definition nested_graph :: "node_ir dict \<Rightarrow> edge_ir dict \<Rightarrow> loop_candidate list \<Rightarrow> graph_ir" where
  "nested_graph nodes edges cs = (build_graph nodes edges)\<lparr>gr_loop_regions := family_regions nodes edges cs,
     gr_node_loop_stacks := node_loop_stacks (dict_keys nodes) (family_regions nodes edges cs)\<rparr>"

definition compiled_graph :: "node_ir dict \<Rightarrow> edge_ir dict \<Rightarrow> graph_ir \<Rightarrow> string list \<Rightarrow> bool" where
  "compiled_graph nodes edges g entries \<longleftrightarrow>
     entries = entries_of nodes edges \<and> gr_successors g = gr_successors (build_graph nodes edges)
     \<and> (\<exists>D. exact_dominators nodes edges D
          \<and> ranked edges (all_back_edge_ids (reached nodes edges) D edges) (reached nodes edges)
          \<and> (set (dict_keys nodes) \<subseteq> reached nodes edges \<longrightarrow>
               (\<exists>cs. loop_family nodes edges D cs \<and> (\<forall>c \<in> set cs. clean_region (ca_id c))
                  \<and> g = nested_graph nodes edges cs)))"

lemma compile_graph_success:
  assumes g: "closed_graph nodes edges" and run: "compile_graph E nodes edges = Some (ds, g', entries)"
    and ok: "\<not> has_errors ds"
  shows "compiled_graph nodes edges g' entries"
proof (cases "nodes = []")
  case True
  then have edges: "edges = []" using g by (cases edges) (auto simp: closed_graph_def dict_keys_def)
  have "g' = nested_graph [] [] []" "entries = []"
    using run True edges by (auto simp: compile_graph_def nested_graph_def build_graph_def dict_keys_def
        family_regions_def node_loop_stacks_def map_filter_simps)
  moreover have "reached [] [] = {}" by (simp add: flow_reach_def infer_entries dict_keys_def)
  ultimately show ?thesis
    unfolding compiled_graph_def True edges
    by (auto intro!: exI [of _ "\<lambda>_. {}"] exI [of _ "[]"]
        simp: exact_dominators_def ranked_def loop_family_def closed_graph_def dict_keys_def infer_entries
          nested_graph_def)
next
  case False
  obtain d5 es where es: "infer_entry_node_ids nodes (build_graph nodes edges) = (d5, es)" by force
  obtain d6 where loops: "compile_loop_regions (dict_keys nodes) edges (build_graph nodes edges) es = Some (d6, g')"
    "entries = es" "ds = d5 @ d6 @ validate_policies E nodes edges"
    using run False es by (auto simp: compile_graph_def Let_def)
  have es': "es = entries_of nodes edges" by (simp add: es)
  have "\<not> has_errors d6" using ok loops(3) by simp
  from loop_regions_success [OF g loops(1) [unfolded es'] this] obtain D cs where D:
    "exact_dominators nodes edges D"
    "ranked edges (all_back_edge_ids (reached nodes edges) D edges) (reached nodes edges)"
    "cs = number_candidates (dict_keys nodes) (map (natural_loop (build_graph nodes edges) edges)
          (back_edges_by_header (reached nodes edges) D edges))"
    "first_overlap (map (natural_loop (build_graph nodes edges) edges)
          (back_edges_by_header (reached nodes edges) D edges)) = None"
    "g' = (build_graph nodes edges)\<lparr>
          gr_loop_regions := snd (build_regions (dict_keys nodes) edges (entries_of nodes edges) cs),
          gr_node_loop_stacks := node_loop_stacks (dict_keys nodes)
            (snd (build_regions (dict_keys nodes) edges (entries_of nodes edges) cs))\<rparr>"
    by metis
  have "loop_family nodes edges D cs \<and> (\<forall>c \<in> set cs. clean_region (ca_id c)) \<and> g' = nested_graph nodes edges cs"
    if "set (dict_keys nodes) \<subseteq> reached nodes edges"
  proof -
    have fam: "loop_family nodes edges D cs" unfolding D(3) by (rule found_family [OF g D(1) that D(4)])
    moreover have "\<forall>c \<in> set cs. clean_region (ca_id c)"
      unfolding D(3) by (blast intro: number_candidates_props(4))
    ultimately show ?thesis using D(5) family_build_regions [OF fam] by (simp add: nested_graph_def)
  qed
  moreover have "gr_successors g' = gr_successors (build_graph nodes edges)" by (simp add: D(5))
  ultimately show ?thesis using D(1,2) loops(2) es' unfolding compiled_graph_def by blast
qed

lemma mark_flags_keys:
  "dict_keys (mark_entry_exit_flags a z nodes) = dict_keys nodes"
  "node_ids_ok nodes \<Longrightarrow> node_ids_ok (mark_entry_exit_flags a z nodes)"
  by (auto simp: mark_entry_exit_flags_def dict_keys_def o_def case_prod_unfold node_ids_ok_def)

lemma compile_success:
  assumes run: "compile_expanded E ds0 w = Some r" and W: "cr_workflow_ir r = Some W"
  obtains nodes where "dict_keys (wf_nodes W) = dict_keys nodes" and "node_ids_ok (wf_nodes W)"
    and "closed_graph nodes (wf_edges W)" and "\<forall>(eid, e) \<in> set (wf_edges W). ed_id e = eid"
    and "compiled_graph nodes (wf_edges W) (wf_graph W) (wf_entry_node_ids W)"
    and "set (wf_exit_node_ids W) \<subseteq> set (dict_keys nodes)"
    and "\<not> has_errors (cr_diagnostics r)"
proof -
  obtain d2 refs where refs: "compile_edge_refs (map sn_id (identified (sw_nodes w))) 0 (sw_edges w) = (d2, refs)" by force
  obtain d3 nodes where nodes: "compile_nodes E (sw_nodes w) = (d3, nodes)" by force
  obtain d4 edges where edges: "compile_edges (sw_edges w) refs = (d4, edges)" by force
  let ?edges = "filter (\<lambda>(_, e). ed_from_node e \<in> set (dict_keys nodes) \<and> ed_to_node e \<in> set (dict_keys nodes)) edges"
  note parts = compiled_parts [OF refs nodes edges]
  obtain d5 g entries where graph: "compile_graph E nodes ?edges = Some (d5, g, entries)"
    using compile_graph_returns [OF parts(4)] by (metis prod_cases3)
  let ?ds = "ds0 @ compile_node_ids (sw_nodes w) @ d2 @ d3 @ d4 @ d5"
  have clean: "\<not> has_errors ?ds"
  proof
    assume "has_errors ?ds"
    then have "cr_workflow_ir r = None"
      using run by (auto simp: compile_expanded_def Let_def refs nodes edges graph)
    with W show False by simp
  qed
  obtain d6 nodes' where final: "compile_final_output_contracts E nodes ?edges = (d6, nodes')" by force
  have r: "\<not> has_errors (?ds @ d6)"
    "wf_nodes W = mark_entry_exit_flags entries (infer_exit_node_ids nodes' g) nodes'"
    "wf_edges W = edges" "wf_graph W = g" "wf_entry_node_ids W = entries"
    "wf_exit_node_ids W = infer_exit_node_ids nodes' g" "has_errors (cr_diagnostics r) = has_errors (?ds @ d6)"
    using run W clean by (auto simp: compile_expanded_def Let_def refs nodes edges graph final split: if_splits)
  have same: "?edges = edges" using parts(6) r(1) by simp
  have nodes': "dict_keys nodes' = dict_keys nodes" "node_ids_ok nodes'"
    using final_contracts_keys [OF final parts(2)] by blast+
  show ?thesis
  proof (rule that)
    show "dict_keys (wf_nodes W) = dict_keys nodes" by (simp add: r(2) mark_flags_keys nodes')
    show "node_ids_ok (wf_nodes W)" by (simp add: r(2) mark_flags_keys nodes')
    show "closed_graph nodes (wf_edges W)" using parts(4) by (simp add: same r(3))
    show "\<forall>(eid, e) \<in> set (wf_edges W). ed_id e = eid" using parts(5) r(3) by auto
    show "compiled_graph nodes (wf_edges W) (wf_graph W) (wf_entry_node_ids W)"
      using compile_graph_success [OF parts(4) graph] r(1) by (simp add: same r)
    show "set (wf_exit_node_ids W) \<subseteq> set (dict_keys nodes)"
      by (auto simp: r(6) infer_exit_node_ids_def nodes')
    show "\<not> has_errors (cr_diagnostics r)" using r(1,7) by simp
  qed
qed

section \<open>Walks\<close>

text \<open>A walk through the graph from one of the entries; \<open>p\<close> lists its nodes.\<close>

inductive walk :: "graph_ir \<Rightarrow> string list \<Rightarrow> string list \<Rightarrow> string \<Rightarrow> bool" for g entries where
  walk_entry: "n \<in> set entries \<Longrightarrow> walk g entries [n] n"
| walk_edge: "walk g entries p m \<Longrightarrow> n \<in> set (dict_get_default (gr_successors g) m []) \<Longrightarrow> walk g entries (p @ [n]) n"

lemma avoids_iff_walk: "avoids g entries d n \<longleftrightarrow> (\<exists>p. walk g entries p n \<and> d \<notin> set p)"
proof
  assume "avoids g entries d n"
  then show "\<exists>p. walk g entries p n \<and> d \<notin> set p" unfolding avoids_def
  proof (induction rule: avoiding.induct)
    case (avoiding_start n)
    then show ?case by (intro exI [of _ "[n]"]) (auto intro: walk_entry)
  next
    case (avoiding_step m n)
    then obtain p where "walk g entries p m" "d \<notin> set p" by blast
    with avoiding_step.hyps show ?case by (intro exI [of _ "p @ [n]"]) (auto intro: walk_edge)
  qed
next
  assume "\<exists>p. walk g entries p n \<and> d \<notin> set p"
  then obtain p where "walk g entries p n" "d \<notin> set p" by blast
  then show "avoids g entries d n"
  proof (induction rule: walk.induct)
    case (walk_entry n)
    then show ?case by (auto intro: avoids_entry)
  next
    case (walk_edge p m n)
    then show ?case by (auto intro: avoids_step)
  qed
qed

lemma flow_reach_iff_walk: "n \<in> flow_reach g entries \<longleftrightarrow> (\<exists>p. walk g entries p n)"
proof
  assume "n \<in> flow_reach g entries"
  then show "\<exists>p. walk g entries p n" unfolding flow_reach_def
    by (induction rule: avoiding.induct) (blast intro: walk_entry walk_edge)+
next
  assume "\<exists>p. walk g entries p n"
  then obtain p where "walk g entries p n" by blast
  then show "n \<in> flow_reach g entries"
    by (induction rule: walk.induct) (auto intro: flow_reach_entry flow_reach_step)
qed

lemma walk_successors:
  assumes "gr_successors g = gr_successors g'"
  shows "walk g entries p n \<longleftrightarrow> walk g' entries p n"
proof -
  have "walk h' entries p n" if "walk h entries p n" "gr_successors h = gr_successors h'" for h h'
    using that by (induction rule: walk.induct) (auto intro: walk.intros)
  then show ?thesis using assms by metis
qed

section \<open>Properties\<close>

text \<open>
  C36: Compilation returns: for every workflow and every store of child workflows, workflows that
  contain themselves included, \<open>compile\<close> produces a result; the expansion, the iteration of the
  dominators, Tarjan's search and the topological count all end.
\<close>

theorem compile_returns: "\<exists>r. compile_workflow E store wid w = Some r"
  using compile_expanded_returns
  by (simp add: compile_workflow_def split: prod.split)

text \<open>
  C37: The dominators the compiler computes are dominance. On the graph of closed edges, a node is in
  the computed set of a reachable node exactly when every walk from the entries to that node goes
  through it.
\<close>

theorem dominators_are_dominance:
  assumes "closed_graph nodes edges" and "g = build_graph nodes edges"
    and "entries = snd (infer_entry_node_ids nodes g)"
    and "reachable = reach_loop (gr_successors g) {} entries"
    and "compute_dominators g (dict_keys nodes) reachable entries = Some D" and "n \<in> reachable"
  shows "d \<in> D n \<longleftrightarrow> (\<forall>p. walk g entries p n \<longrightarrow> d \<in> set p)"
proof -
  have "exact_dominators nodes edges D"
    using exact_dominators_exist [OF assms(1)] assms(2-5) by (auto simp: reach_loop_flow)
  then show ?thesis
    using assms(2-6) by (auto simp: exact_dominators_def reach_loop_flow avoids_iff_walk)
qed

text \<open>
  C38: What a compiled workflow leaves cyclic are back edges only. The nodes have a rank that grows
  along every edge between reachable nodes, except along the edges whose target lies on every walk
  to their source, which are the back edges of the loop regions.
\<close>

theorem compiled_edges_rank:
  assumes "compile_workflow E store wid w = Some r" and "cr_workflow_ir r = Some W"
  shows "\<exists>rank :: string \<Rightarrow> nat. \<forall>(eid, e) \<in> set (wf_edges W).
    (\<exists>p. walk (wf_graph W) (wf_entry_node_ids W) p (ed_from_node e))
    \<longrightarrow> rank (ed_from_node e) < rank (ed_to_node e)
       \<or> (\<forall>p. walk (wf_graph W) (wf_entry_node_ids W) p (ed_from_node e) \<longrightarrow> ed_to_node e \<in> set p)"
proof -
  obtain ds w' where "compile_expanded E ds w' = Some r"
    using assms(1) by (auto simp: compile_workflow_def split: prod.splits)
  from compile_success [OF this assms(2)] obtain nodes where ok:
    "closed_graph nodes (wf_edges W)" "compiled_graph nodes (wf_edges W) (wf_graph W) (wf_entry_node_ids W)"
    by metis
  let ?g = "build_graph nodes (wf_edges W)" and ?R = "reached nodes (wf_edges W)"
  obtain D where D: "exact_dominators nodes (wf_edges W) D"
    "ranked (wf_edges W) (all_back_edge_ids ?R D (wf_edges W)) ?R"
    and g: "wf_entry_node_ids W = entries_of nodes (wf_edges W)" "gr_successors (wf_graph W) = gr_successors ?g"
    using ok(2) unfolding compiled_graph_def by blast
  obtain rank :: "string \<Rightarrow> nat" where rank: "\<forall>(eid, e) \<in> set (wf_edges W).
      eid \<notin> all_back_edge_ids ?R D (wf_edges W) \<and> ed_from_node e \<in> ?R \<and> ed_to_node e \<in> ?R
      \<longrightarrow> rank (ed_from_node e) < rank (ed_to_node e)"
    using D(2) unfolding ranked_def by blast
  have walks: "walk (wf_graph W) (wf_entry_node_ids W) p n \<longleftrightarrow> walk ?g (entries_of nodes (wf_edges W)) p n" for p n
    unfolding g(1) by (rule walk_successors [OF g(2)])
  have "rank (ed_from_node e) < rank (ed_to_node e)
      \<or> (\<forall>p. walk ?g (entries_of nodes (wf_edges W)) p (ed_from_node e) \<longrightarrow> ed_to_node e \<in> set p)"
    if e: "(eid, e) \<in> set (wf_edges W)" and src: "ed_from_node e \<in> ?R" for eid e
  proof -
    have dst: "ed_to_node e \<in> ?R"
      using flow_reach_step [OF src] e by (force simp: graph_successors [OF ok(1)])
    show ?thesis
    proof (cases "eid \<in> all_back_edge_ids ?R D (wf_edges W)")
      case True
      then obtain e' where "(eid, e') \<in> set (wf_edges W)" "is_back_edge ?R D e'"
        by (auto simp: all_back_edge_ids_def)
      moreover from this have "e' = e"
        using ok(1) e by (auto simp: closed_graph_def dict_keys_def dest: eq_key_imp_eq_value)
      ultimately have "ed_to_node e \<in> D (ed_from_node e)" by (simp add: is_back_edge_def)
      then show ?thesis using D(1) src by (auto simp: exact_dominators_def avoids_iff_walk)
    next
      case False
      then show ?thesis using rank e src dst by blast
    qed
  qed
  then show ?thesis
    unfolding walks flow_reach_iff_walk [symmetric] by (intro exI [of _ rank]) blast
qed


section \<open>The compiled sample\<close>

lemma sample_compiled:
  "\<exists>r W. compile_workflow sample_env_compiler source_store 0 source_main = Some r \<and> cr_workflow_ir r = Some W
     \<and> dict_keys (wf_nodes W) = [''s'', ''c/a'', ''c/h'', ''c/z''] \<and> wf_edges W = sample_edges
     \<and> wf_entry_node_ids W = [''s'']
     \<and> gr_successors (wf_graph W)
         = [(''s'', [''c/a'']), (''c/a'', [''c/h'']), (''c/h'', [''c/h'', ''c/z'']), (''c/z'', [])]
     \<and> gr_node_loop_stacks (wf_graph W) = [(''c/h'', [''loop_1''])]"
proof -
  obtain d5 g entries where graph: "compile_graph sample_env_compiler sample_nodes sample_edges = Some (d5, g, entries)"
    and ok: "\<not> has_errors d5" "entries = [''s'']" "gr_node_loop_stacks g = [(''c/h'', [''loop_1''])]"
      "gr_successors g = [(''s'', [''c/a'']), (''c/a'', [''c/h'']), (''c/h'', [''c/h'', ''c/z'']), (''c/z'', [])]"
    using sample_graph_ok by auto
  obtain nodes' where final: "compile_final_output_contracts sample_env_compiler sample_nodes sample_edges = ([], nodes')"
    using sample_contracts_ok by (metis prod.collapse)
  have "node_ids_ok sample_nodes"
    using compile_nodes_inv(2) [OF sample_nodes_run] by (simp add: node_ids_ok_def)
  then have keys: "dict_keys nodes' = dict_keys sample_nodes" using final_contracts_keys [OF final] by simp
  show ?thesis
    unfolding compile_workflow_def sample_expanded compile_expanded_def Let_def sample_refs_run sample_nodes_run
      sample_edges_run sample_no_node_errors sample_edges_inside prod.case graph
    using ok final keys by (simp add: mark_flags_keys sample_node_keys)
qed

lemma sample_walks:
  assumes "gr_successors g = [(''s'', [''c/a'']), (''c/a'', [''c/h'']), (''c/h'', [''c/h'', ''c/z'']), (''c/z'', [])]"
  shows "walk g [''s''] [''s''] ''s''" and "walk g [''s''] [''s'', ''c/a''] ''c/a''"
    and "walk g [''s''] [''s'', ''c/a'', ''c/h''] ''c/h''" and "walk g [''s''] [''s'', ''c/a'', ''c/h'', ''c/z''] ''c/z''"
proof -
  show s: "walk g [''s''] [''s''] ''s''" by (rule walk_entry) simp
  show a: "walk g [''s''] [''s'', ''c/a''] ''c/a''"
    using walk_edge [OF s, of "''c/a''"] assms by (simp add: dict_get_default_def)
  show h: "walk g [''s''] [''s'', ''c/a'', ''c/h''] ''c/h''"
    using walk_edge [OF a, of "''c/h''"] assms by (simp add: dict_get_default_def)
  show "walk g [''s''] [''s'', ''c/a'', ''c/h'', ''c/z''] ''c/z''"
    using walk_edge [OF h, of "''c/z''"] assms by (simp add: dict_get_default_def)
qed


theorem compiled_edges_rank_witness:
  "\<exists>r W. compile_workflow sample_env_compiler source_store 0 source_main = Some r \<and> cr_workflow_ir r = Some W
     \<and> (\<exists>rank :: string \<Rightarrow> nat. \<forall>(eid, e) \<in> set (wf_edges W).
          (\<exists>p. walk (wf_graph W) (wf_entry_node_ids W) p (ed_from_node e))
          \<longrightarrow> rank (ed_from_node e) < rank (ed_to_node e)
            \<or> (\<forall>p. walk (wf_graph W) (wf_entry_node_ids W) p (ed_from_node e) \<longrightarrow> ed_to_node e \<in> set p))"
proof -
  obtain r W where W: "compile_workflow sample_env_compiler source_store 0 source_main = Some r" "cr_workflow_ir r = Some W"
    using sample_compiled by blast
  with compiled_edges_rank [OF W] show ?thesis by blast
qed

lemma sample_closed: "closed_graph sample_nodes sample_edges"
  using compiled_parts(4) [OF sample_refs_run sample_nodes_run sample_edges_run] by (simp add: sample_edges_inside)

theorem dominators_are_dominance_witness:
  "\<exists>D. compute_dominators (build_graph sample_nodes sample_edges) [''s'', ''c/a'', ''c/h'', ''c/z'']
       {''s'', ''c/a'', ''c/h'', ''c/z''} [''s''] = Some D
     \<and> ''c/h'' \<in> D ''c/z''
     \<and> (\<forall>p. walk (build_graph sample_nodes sample_edges) [''s''] p ''c/z'' \<longrightarrow> ''c/h'' \<in> set p)"
proof -
  let ?g = "build_graph sample_nodes sample_edges" and ?R = "{''s'', ''c/a'', ''c/h'', ''c/z''}"
  have entries: "[''s''] = snd (infer_entry_node_ids sample_nodes ?g)" by code_simp
  have reach: "?R = reach_loop (gr_successors ?g) {} [''s'']" by code_simp
  have run: "map_option (\<lambda>D. ''c/h'' \<in> D ''c/z'')
      (compute_dominators ?g (dict_keys sample_nodes) ?R [''s'']) = Some True" by code_simp
  then obtain D where D: "compute_dominators ?g (dict_keys sample_nodes) ?R [''s''] = Some D" "''c/h'' \<in> D ''c/z''"
    by auto
  have "''c/z'' \<in> ?R" by simp
  from dominators_are_dominance [OF sample_closed refl entries reach D(1) this] D show ?thesis
    by (auto simp: sample_node_keys)
qed

end
