(* ===== verification/Expansion_Guarantees.thy ===== *)
theory Expansion_Guarantees
  imports Compiler_Samples
begin

text \<open>
  What the expansion of child workflows produces: a flat workflow. No child remains, and every node
  and edge is named by the path of the workflow it comes from and its local id there.
\<close>

definition flat_node :: "source_node \<Rightarrow> bool" where
  "flat_node n \<longleftrightarrow> \<not> is_child n
     \<and> (\<exists>i. sn_local_id n = Some i \<and> sn_id n = qualify (sn_workflow_path n) i)"

definition flat_edge :: "source_edge \<Rightarrow> bool" where
  "flat_edge e \<longleftrightarrow> (\<exists>i. se_local_id e = Some i \<and> se_id e = Some (qualify (se_workflow_path e) i))"

definition flat_expansion :: "expansion \<Rightarrow> bool" where
  "flat_expansion ex \<longleftrightarrow> (\<forall>n \<in> set (ex_nodes ex). flat_node n) \<and> (\<forall>e \<in> set (ex_edges ex). flat_edge e)"

definition flat_expanding :: "expanding \<Rightarrow> bool" where
  "flat_expanding s \<longleftrightarrow> (\<forall>(own, n) \<in> set (xp_nodes s). flat_node n) \<and> (\<forall>(own, e) \<in> set (xp_edges s). flat_edge e)"

definition flat_selection :: "selected_child \<Rightarrow> bool" where
  "flat_selection s \<longleftrightarrow> (\<forall>n \<in> set (sl_nodes s). flat_node n) \<and> (\<forall>e \<in> set (sl_edges s). flat_edge e)"

lemma flat_node_updates [simp]:
  "flat_node (n\<lparr>sn_entry := b\<rparr>) = flat_node n" "flat_node (n\<lparr>sn_scope_node_ids := s\<rparr>) = flat_node n"
  "flat_edge (e\<lparr>se_scope_node_ids := s\<rparr>) = flat_edge e"
  by (simp_all add: flat_node_def flat_edge_def is_child_def)

lemma flat_set_first_entry: "\<forall>n \<in> set ns. flat_node n \<Longrightarrow> \<forall>n \<in> set (set_first_entry i b ns). flat_node n"
  by (induction ns) auto

lemma embed_child_flat: "flat_expansion ex \<Longrightarrow> flat_selection (snd (embed_child n subject ex))"
  by (auto simp: embed_child_def Let_def flat_selection_def flat_expansion_def no_selection_def
      split: option.splits prod.splits dest!: flat_set_first_entry [THEN bspec, rotated])

lemma expand_node_flat:
  assumes "flat_expanding s" and "\<And>p c. flat_expansion (snd (rec p c))"
  shows "flat_expanding (expand_node rec path s n)"
proof (cases "is_child n")
  case True
  then obtain c where c: "sn_capability n = SrcWorkflow c" by (auto simp: is_child_def split: source_capability.splits)
  obtain ds sel where sel: "expand_child_node n (path_id (path @ [sn_id n])) (rec (path @ [sn_id n]) c) = (ds, sel)" by force
  have "sel = snd (embed_child n (path_id (path @ [sn_id n])) (snd (rec (path @ [sn_id n]) c)))"
    using sel by (auto simp: expand_child_node_def Let_def split: prod.splits)
  then have "flat_selection sel" using embed_child_flat assms(2) by blast
  then show ?thesis using assms(1)
    by (auto simp: expand_node_def c sel Let_def flat_expanding_def flat_selection_def split: option.splits)
next
  case False
  then have "flat_node (n\<lparr>sn_id := qualify path (sn_id n), sn_local_id := Some (sn_id n), sn_workflow_path := path\<rparr>)"
    by (simp add: flat_node_def is_child_def)
  with False assms(1) show ?thesis
    by (auto simp: expand_node_def Let_def is_child_def flat_expanding_def split: source_capability.splits)
qed

lemma expand_edge_flat: "flat_expanding s \<Longrightarrow> flat_expanding (expand_edge ns path s e)"
  by (auto simp: expand_edge_def Let_def flat_expanding_def flat_edge_def)

lemma finish_expanding_flat: "flat_expanding s \<Longrightarrow> flat_expansion (snd (finish_expanding path s))"
  by (auto simp: finish_expanding_def Let_def flat_expansion_def flat_expanding_def split: if_splits)

lemma foldl_invariant:
  "P s \<Longrightarrow> (\<And>s x. x \<in> set xs \<Longrightarrow> P s \<Longrightarrow> P (f s x)) \<Longrightarrow> P (foldl f s xs)"
  by (induction xs arbitrary: s) auto

lemma expand_flat: "flat_expansion (snd (expand store path stack wid))"
proof (induction store path stack wid rule: expand.induct)
  case (1 store path stack wid)
  show ?case
  proof (cases "map_of store wid")
    case None
    then show ?thesis by (subst expand.simps) (simp add: flat_expansion_def empty_expansion_def)
  next
    case (Some w)
    show ?thesis
    proof (cases "wid \<in> set stack")
      case True
      then show ?thesis using Some by (subst expand.simps) (simp add: flat_expansion_def empty_expansion_def)
    next
      case False
      let ?rec = "\<lambda>p child. expand store p (stack @ [wid]) child"
      have start: "flat_expanding (start_expanding w)" by (simp add: start_expanding_def flat_expanding_def)
      have node: "flat_expanding (expand_node ?rec path s n)" if "n \<in> set (sw_nodes w)" "flat_expanding s" for s n
        using "1.IH" [OF Some False that(1)] that(2) by (intro expand_node_flat)
      have "flat_expanding (foldl (expand_node ?rec path) (start_expanding w) (sw_nodes w))"
        by (rule foldl_invariant [of flat_expanding]) (fact start, fact node)
      then have "flat_expanding (foldl (expand_edge (sw_nodes w) path)
          (foldl (expand_node ?rec path) (start_expanding w) (sw_nodes w)) (sw_edges w))"
        by (rule foldl_invariant [of flat_expanding]) (rule expand_edge_flat)
      then show ?thesis using Some False by (subst expand.simps) (simp add: finish_expanding_flat)
    qed
  qed
qed

text \<open>
  C40: The expansion of child workflows leaves a flat workflow. Whatever the nesting, and also when
  workflows contain themselves, no node of the result is a child workflow, and every node and edge
  is identified by the path of the workflow it was written in joined with its local id.
\<close>

theorem expanded_workflow_flat:
  assumes "expand_child_workflows store wid w = (ds, w')"
  shows "(\<forall>n \<in> set (sw_nodes w'). \<not> is_child n
            \<and> (\<exists>i. sn_local_id n = Some i \<and> sn_id n = qualify (sn_workflow_path n) i))
     \<and> (\<forall>e \<in> set (sw_edges w'). \<exists>i. se_local_id e = Some i \<and> se_id e = Some (qualify (se_workflow_path e) i))"
proof -
  have "sw_nodes w' = ex_nodes (snd (expand store [] [] wid))" "sw_edges w' = ex_edges (snd (expand store [] [] wid))"
    using assms by (auto simp: expand_child_workflows_def split: prod.splits)
  then show ?thesis
    using expand_flat [of store "[]" "[]" wid] by (simp add: flat_expansion_def flat_node_def flat_edge_def)
qed

theorem expanded_workflow_flat_witness:
  "expand_child_workflows source_store 0 source_main = ([], sample_flat)
   \<and> map sn_id (sw_nodes sample_flat) = [''s'', ''c/a'', ''c/h'', ''c/z'']
   \<and> filter is_child (sw_nodes sample_flat) = []"
  using expanded_workflow_flat [OF sample_expanded] sample_expanded sample_flat_ids
  by (simp add: filter_empty_conv)

end
