(* ===== verification/User_Events.thy ===== *)
theory User_Events
  imports Dispatch
begin

text \<open>
  The batching of user events that the chunks of a stream give rise to: class
  \<open>_StreamUserEventBatcher\<close> of \<open>core/executor/node_executor.py\<close>. The lock makes every method
  one atomic step; the deadlines the event loop is asked to schedule are the list
  \<open>bt_deadlines\<close> of generations, and a published batch is a progress message of the node.
\<close>

section \<open>The batcher\<close>

record batcher =
  bt_specs :: "user_event_spec list"
  bt_generation :: nat
  bt_deadlines :: "nat list"
  bt_published :: "user_event_spec list list"

definition new_batcher :: batcher where
  "new_batcher = \<lparr>bt_specs = [], bt_generation = 0, bt_deadlines = [], bt_published = []\<rparr>"

definition batch_max_items :: nat where
  "batch_max_items = 32"

definition publish_specs :: "user_event_spec list \<Rightarrow> batcher \<Rightarrow> batcher" where
  "publish_specs specs b = (if specs = [] then b else b\<lparr>bt_published := bt_published b @ [specs]\<rparr>)"

definition take_locked :: "batcher \<Rightarrow> user_event_spec list \<times> batcher" where
  "take_locked b =
     (if bt_specs b = [] then ([], b)
      else (bt_specs b, b\<lparr>bt_specs := [], bt_generation := bt_generation b + 1\<rparr>))"

definition append_spec :: "user_event_spec \<Rightarrow> batcher \<Rightarrow> batcher" where
  "append_spec s b =
     (let b1 = (if bt_specs b = []
                then b\<lparr>bt_generation := bt_generation b + 1,
                       bt_deadlines := bt_deadlines b @ [bt_generation b + 1]\<rparr>
                else b);
          b2 = b1\<lparr>bt_specs := bt_specs b1 @ [s]\<rparr>;
          (specs, b3) = (if batch_max_items \<le> length (bt_specs b2) then take_locked b2 else ([], b2))
      in publish_specs specs b3)"

definition flush_specs :: "batcher \<Rightarrow> batcher" where
  "flush_specs b = (let (specs, b1) = take_locked b in publish_specs specs b1)"

definition flush_generation :: "nat \<Rightarrow> batcher \<Rightarrow> batcher" where
  "flush_generation g b = (if g = bt_generation b then flush_specs b else b)"

text \<open>One chunk: every mapping yields an event, nothing, or a report of its own failure.\<close>

definition mapped_spec ::
  "job \<Rightarrow> uuid \<Rightarrow> pyval \<Rightarrow> string \<times> (pyval \<Rightarrow> user_exn + pyval option) \<Rightarrow> user_event_spec option" where
  "mapped_spec j call chunk m =
     (let spec = (\<lambda>ty d. \<lparr>us_type = ty, us_data = d, us_node_id = nd_id (job_node j),
            us_node_execution_id = job_id j, us_workflow_path = nd_workflow_path (job_node j),
            us_operator_call_id = Some call\<rparr>)
      in case snd m chunk of
           Inr None \<Rightarrow> None
         | Inr (Some d) \<Rightarrow> Some (spec (fst m) d)
         | Inl e \<Rightarrow> Some (spec ''user_event_mapping_failed''
             (PyDict [(''mapping_type'', PyStr (fst m)), (''error_type'', PyStr (exn_type e)),
                (''message'', PyStr (exn_message e)), (''source'', PyStr ''stream'')])))"

definition add_chunk :: "job \<Rightarrow> uuid \<Rightarrow> pyval \<Rightarrow> batcher \<Rightarrow> batcher" where
  "add_chunk j call chunk b =
     foldl (\<lambda>b s. append_spec s b) b
       (List.map_filter (mapped_spec j call chunk) (nd_stream_mappings (job_node j)))"

section \<open>Every event is published once and in order\<close>

text \<open>What may happen to a batcher, with the specifications appended so far as history.\<close>

inductive batcher_step :: "batcher \<times> user_event_spec list \<Rightarrow> batcher \<times> user_event_spec list \<Rightarrow> bool" where
  step_append: "batcher_step (b, h) (append_spec s b, h @ [s])"
| step_flush: "batcher_step (b, h) (flush_specs b, h)"
| step_deadline: "g \<in> set (bt_deadlines b) \<Longrightarrow>
    batcher_step (b, h) (flush_generation g (b\<lparr>bt_deadlines := remove1 g (bt_deadlines b)\<rparr>), h)"

definition batcher_ok :: "batcher \<times> user_event_spec list \<Rightarrow> bool" where
  "batcher_ok = (\<lambda>(b, h). concat (bt_published b) @ bt_specs b = h
     \<and> list_all (\<lambda>s. s \<noteq> [] \<and> length s \<le> batch_max_items) (bt_published b)
     \<and> length (bt_specs b) < batch_max_items
     \<and> (bt_specs b \<noteq> [] \<longrightarrow> bt_generation b \<in> set (bt_deadlines b))
     \<and> (\<forall>g \<in> set (bt_deadlines b). g \<le> bt_generation b)
     \<and> distinct (bt_deadlines b))"

lemma batcher_ok_new: "batcher_ok (new_batcher, [])"
  by (simp add: batcher_ok_def new_batcher_def batch_max_items_def)

lemma batcher_ok_take:
  assumes "concat (bt_published b) @ bt_specs b = h"
    and "list_all (\<lambda>s. s \<noteq> [] \<and> length s \<le> batch_max_items) (bt_published b)"
    and "length (bt_specs b) \<le> batch_max_items"
    and "\<forall>g \<in> set (bt_deadlines b). g \<le> bt_generation b" and "distinct (bt_deadlines b)"
  shows "batcher_ok (flush_specs b, h)" "bt_specs (flush_specs b) = []"
  using assms by (auto simp: batcher_ok_def flush_specs_def take_locked_def publish_specs_def
      batch_max_items_def)

lemma batcher_ok_append:
  assumes "batcher_ok (b, h)"
  shows "batcher_ok (append_spec s b, h @ [s])"
proof -
  define b1 where "b1 = (if bt_specs b = []
     then b\<lparr>bt_generation := bt_generation b + 1, bt_deadlines := bt_deadlines b @ [bt_generation b + 1]\<rparr>
     else b)"
  define b2 where "b2 = b1\<lparr>bt_specs := bt_specs b1 @ [s]\<rparr>"
  have b2: "concat (bt_published b2) @ bt_specs b2 = h @ [s]"
    "list_all (\<lambda>s. s \<noteq> [] \<and> length s \<le> batch_max_items) (bt_published b2)"
    "length (bt_specs b2) \<le> batch_max_items" "bt_generation b2 \<in> set (bt_deadlines b2)"
    "\<forall>g \<in> set (bt_deadlines b2). g \<le> bt_generation b2" "distinct (bt_deadlines b2)"
    using assms by (auto simp: batcher_ok_def b2_def b1_def)
  have "append_spec s b = (if batch_max_items \<le> length (bt_specs b2) then flush_specs b2 else b2)"
    unfolding append_spec_def Let_def b1_def [symmetric] b2_def [symmetric] flush_specs_def
    by (cases "batch_max_items \<le> length (bt_specs b2)") (simp_all add: publish_specs_def)
  then show ?thesis
    using b2 batcher_ok_take(1) [OF b2(1,2,3,5,6)] by (auto simp: batcher_ok_def)
qed

lemma batcher_ok_step: "batcher_step x y \<Longrightarrow> batcher_ok x \<Longrightarrow> batcher_ok y"
proof (induction rule: batcher_step.induct)
  case (step_append b h s)
  then show ?case by (rule batcher_ok_append)
next
  case (step_flush b h)
  then show ?case by (intro batcher_ok_take) (auto simp: batcher_ok_def)
next
  case (step_deadline g b h)
  let ?b = "b\<lparr>bt_deadlines := remove1 g (bt_deadlines b)\<rparr>"
  show ?case
  proof (cases "g = bt_generation b")
    case True
    have "batcher_ok (flush_specs ?b, h)"
      using step_deadline.prems by (intro batcher_ok_take) (auto simp: batcher_ok_def dest: notin_set_remove1)
    with True show ?thesis by (simp add: flush_generation_def)
  next
    case False
    with step_deadline.prems show ?thesis by (auto simp: flush_generation_def batcher_ok_def)
  qed
qed

lemma batcher_ok_steps: "batcher_step\<^sup>*\<^sup>* x y \<Longrightarrow> batcher_ok x \<Longrightarrow> batcher_ok y"
  by (induction rule: rtranclp_induct) (auto intro: batcher_ok_step)


definition sample_spec :: "nat \<Rightarrow> user_event_spec" where
  "sample_spec n = \<lparr>us_type = ''tick'', us_data = PyInt (int n), us_node_id = ''n'',
     us_node_execution_id = 0, us_workflow_path = [], us_operator_call_id = None\<rparr>"


end
