(* ===== verification/Node_Calls.thy ===== *)
theory Node_Calls
  imports User_Events
begin

text \<open>
  One call of an operator: \<open>_invoke_operator\<close> and the consumption of streaming results in
  \<open>core/executor/node_executor.py\<close>. What the operator's handler, a stream and a reducer do is
  user code: it is the argument of the definitions. Measured times are left out.
\<close>

section \<open>Consuming a stream\<close>

text \<open>
  A reducer is a stateful object; its replies are functions of the chunks it has been given, the
  last of which is the one just added.
\<close>

datatype add_reply = Added | AddAwaitable | AddRaised user_exn

datatype finish_reply = Finished pyval | FinishAwaitable | FinishRaised user_exn

record reducer =
  rd_add :: "pyval list \<Rightarrow> add_reply"
  rd_finish :: "pyval list \<Rightarrow> finish_reply"

text \<open>
  What pulling the next chunk gives; the end of the list is the end of the stream. \<open>Expired\<close> is
  the cancellation by the timeout of the call while it waits for the chunk.
\<close>

datatype chunk_event = Chunk pyval | SourceRaised user_exn | Expired

record stream_source =
  ss_async :: bool
  ss_open_error :: "user_exn option"
  ss_events :: "chunk_event list"

datatype stream_outcome =
    StreamOutput pyval
  | ConsumptionFailed user_exn
  | ReductionFailed user_exn
  | StreamExpired

definition not_synchronous :: "string \<Rightarrow> user_exn" where
  "not_synchronous f = UserExn ''TypeError'' (''StreamReducer.'' @ f @ ''() must be synchronous.'')"

text \<open>The loop over the chunks; \<open>seen\<close> are the chunks reduced, counted and passed to user events.\<close>

fun consume_loop :: "reducer \<Rightarrow> pyval list \<Rightarrow> chunk_event list \<Rightarrow> stream_outcome \<times> pyval list" where
  "consume_loop rd seen [] =
     (case rd_finish rd seen of
        Finished v \<Rightarrow> (StreamOutput v, seen)
      | FinishAwaitable \<Rightarrow> (ReductionFailed (not_synchronous ''finish''), seen)
      | FinishRaised e \<Rightarrow> (ReductionFailed e, seen))"
| "consume_loop rd seen (Chunk v # es) =
     (case rd_add rd (seen @ [v]) of
        Added \<Rightarrow> consume_loop rd (seen @ [v]) es
      | AddAwaitable \<Rightarrow> (ReductionFailed (not_synchronous ''add''), seen)
      | AddRaised e \<Rightarrow> (ReductionFailed e, seen))"
| "consume_loop rd seen (SourceRaised e # es) = (ConsumptionFailed e, seen)"
| "consume_loop rd seen (Expired # es) = (StreamExpired, seen)"

record stream_run =
  sr_outcome :: stream_outcome
  sr_chunks :: "pyval list"
  sr_closed :: bool

definition consume_async_stream :: "stream_source \<Rightarrow> reducer \<Rightarrow> stream_run" where
  "consume_async_stream src rd =
     (case ss_open_error src of
        Some e \<Rightarrow> \<lparr>sr_outcome = ConsumptionFailed e, sr_chunks = [], sr_closed = False\<rparr>
      | None \<Rightarrow>
          (let (out, seen) = consume_loop rd [] (ss_events src)
           in \<lparr>sr_outcome = out, sr_chunks = seen,
               sr_closed = (case out of StreamOutput v \<Rightarrow> False | _ \<Rightarrow> True)\<rparr>))"

text \<open>
  A synchronous stream is consumed by a worker thread, which a timeout only stops waiting for:
  it is the caller that sees \<open>StreamExpired\<close>, and the iterator is not closed then.
\<close>

definition consume_sync_stream :: "stream_source \<Rightarrow> reducer \<Rightarrow> stream_run" where
  "consume_sync_stream src rd =
     (case ss_open_error src of
        Some e \<Rightarrow> \<lparr>sr_outcome = ConsumptionFailed e, sr_chunks = [], sr_closed = False\<rparr>
      | None \<Rightarrow>
          (let (out, seen) = consume_loop rd [] (ss_events src)
           in \<lparr>sr_outcome = out, sr_chunks = seen,
               sr_closed = (case out of StreamOutput v \<Rightarrow> False | StreamExpired \<Rightarrow> False | _ \<Rightarrow> True)\<rparr>))"

definition stream_aborted :: "job \<Rightarrow> uuid \<Rightarrow> string \<Rightarrow> string \<Rightarrow> node_message list" where
  "stream_aborted j call ty msg =
     (if nd_event_stream (job_node j) \<noteq> Some ''message'' then []
      else [UserEventProgress (job_id j)
        [\<lparr>us_type = ''message_aborted'',
          us_data = PyDict [(''error_type'', PyStr ty), (''message'', PyStr msg)],
          us_node_id = nd_id (job_node j), us_node_execution_id = job_id j,
          us_workflow_path = nd_workflow_path (job_node j), us_operator_call_id = Some call\<rparr>]])"

definition outcome_aborted :: "job \<Rightarrow> uuid \<Rightarrow> stream_outcome \<Rightarrow> node_message list" where
  "outcome_aborted j call out =
     (case out of
        StreamOutput v \<Rightarrow> []
      | ConsumptionFailed e \<Rightarrow> stream_aborted j call (exn_type e) (exn_message e)
      | ReductionFailed e \<Rightarrow> stream_aborted j call (exn_type e) (exn_message e)
      | StreamExpired \<Rightarrow> stream_aborted j call ''CancelledError'' [])"

text \<open>
  \<open>_consume_streaming_result\<close>: the messages are the batches of user events, as far as no
  deadline splits them further, and the report of an aborted stream.
\<close>

definition consume_streaming_result ::
  "job \<Rightarrow> uuid \<Rightarrow> stream_source \<Rightarrow> reducer \<Rightarrow> stream_run \<times> node_message list" where
  "consume_streaming_result j call src rd =
     (let r = (if ss_async src then consume_async_stream src rd else consume_sync_stream src rd);
          b = flush_specs (foldl (\<lambda>b chunk. add_chunk j call chunk b) new_batcher (sr_chunks r))
      in (r, map (UserEventProgress (job_id j)) (bt_published b) @ outcome_aborted j call (sr_outcome r)))"

section \<open>Calling an operator\<close>

text \<open>
  What a handler gives: a value (awaited if it is awaitable), a streaming result, a bare
  iterator, an exception, or nothing before the timeout expires. Exceptions derived from
  \<open>TimeoutError\<close> have its type name.
\<close>

datatype handler_reply =
    HandlerReturned pyval
  | HandlerStream stream_source reducer
  | HandlerRawStream
  | HandlerRaised user_exn
  | HandlerExpired

datatype call_failure =
    CallTimedOut bool "nat option"
  | CallOutputInvalid string
  | CallRawStream
  | CallConsumptionFailed string nat
  | CallReductionFailed string nat
  | CallRaised user_exn

record call_result =
  cr_output :: pyval
  cr_streaming :: bool
  cr_chunk_count :: nat

definition invoke_operator ::
  "job \<Rightarrow> operator \<Rightarrow> uuid \<Rightarrow> handler_reply \<Rightarrow> (call_failure + call_result) \<times> node_message list" where
  "invoke_operator j op call reply =
     (case reply of
        HandlerReturned v \<Rightarrow> (Inr \<lparr>cr_output = v, cr_streaming = False, cr_chunk_count = 0\<rparr>, [])
      | HandlerRawStream \<Rightarrow> (Inl CallRawStream, [])
      | HandlerRaised e \<Rightarrow>
          (Inl (if exn_type e = ''TimeoutError'' then CallTimedOut (\<not> op_is_async op) None
                else CallRaised e), [])
      | HandlerExpired \<Rightarrow> (Inl (CallTimedOut (\<not> op_is_async op) None), [])
      | HandlerStream src rd \<Rightarrow>
          (let (r, ms) = consume_streaming_result j call src rd; n = length (sr_chunks r)
           in (case sr_outcome r of
                 StreamOutput v \<Rightarrow> Inr \<lparr>cr_output = v, cr_streaming = True, cr_chunk_count = n\<rparr>
               | ConsumptionFailed e \<Rightarrow> Inl (CallConsumptionFailed (exn_message e) n)
               | ReductionFailed e \<Rightarrow> Inl (CallReductionFailed (exn_message e) n)
               | StreamExpired \<Rightarrow> Inl (CallTimedOut (\<not> ss_async src) (Some n)), ms)))"

text \<open>Without a timeout nothing expires.\<close>

definition reply_possible :: "job \<Rightarrow> handler_reply \<Rightarrow> bool" where
  "reply_possible j reply \<longleftrightarrow>
     (case nd_policy (job_node j) of None \<Rightarrow> None | Some p \<Rightarrow> np_timeout_ms p) \<noteq> None
     \<or> (case reply of HandlerExpired \<Rightarrow> False | HandlerStream src rd \<Rightarrow> Expired \<notin> set (ss_events src)
          | _ \<Rightarrow> True)"

text \<open>
  \<open>_validate_operator_output\<close>; the text a contract reports starts with its schema. The check of
  the same contract object twice is skipped, which changes nothing.
\<close>

definition validate_operator_output :: "job \<Rightarrow> operator \<Rightarrow> pyval \<Rightarrow> string option" where
  "validate_operator_output j op out =
     (case (case op_output_contract op out of
              Some e \<Rightarrow> Some e | None \<Rightarrow> nd_operator_output_contract (job_node j) out) of
        None \<Rightarrow> None
      | Some e \<Rightarrow> Some (''Operator '' @ op_id op @ '' returned output that does not satisfy contract ''
          @ exn_message e))"

definition call_and_validate ::
  "job \<Rightarrow> operator \<Rightarrow> uuid \<Rightarrow> handler_reply \<Rightarrow> (call_failure + call_result) \<times> node_message list" where
  "call_and_validate j op call reply =
     (case invoke_operator j op call reply of
        (Inl f, ms) \<Rightarrow> (Inl f, ms)
      | (Inr r, ms) \<Rightarrow>
          (case validate_operator_output j op (cr_output r) of
             None \<Rightarrow> (Inr r, ms) | Some msg \<Rightarrow> (Inl (CallOutputInvalid msg), ms)))"

definition operator_error :: "job \<Rightarrow> operator \<Rightarrow> call_failure \<Rightarrow> runtime_error_info" where
  "operator_error j op f =
     (let detail = [(''node_id'', PyStr (nd_id (job_node j))), (''operator_id'', PyStr (op_id op))]
      in case f of
        CallTimedOut c n \<Rightarrow> mk_error ''OPERATOR_TIMEOUT'' ''Operator attempt exceeded TimeoutPolicy.''
            (detail @ [(''execution_may_continue'', PyBool c)])
      | CallOutputInvalid msg \<Rightarrow> mk_error ''OPERATOR_OUTPUT_INVALID'' msg detail
      | CallRawStream \<Rightarrow> mk_error ''UNSUPPORTED_STREAM_RESULT''
          (''Operator returned a raw stream. AutoAgent cannot determine ''
           @ ''the final Operator output; wrap the stream with ''
           @ ''streaming_result(source, reducer=...).'') detail
      | CallConsumptionFailed msg n \<Rightarrow> mk_error ''STREAM_CONSUMPTION_FAILED'' msg detail
      | CallReductionFailed msg n \<Rightarrow> mk_error ''STREAM_REDUCTION_FAILED'' msg detail
      | CallRaised e \<Rightarrow> mk_error ''OPERATOR_CALL_FAILED'' (exn_message e) detail)"

text \<open>The stream counters an attempt keeps when its call fails.\<close>

definition failure_chunks :: "call_failure \<Rightarrow> nat option" where
  "failure_chunks f =
     (case f of CallTimedOut c n \<Rightarrow> n | CallConsumptionFailed m n \<Rightarrow> Some n
      | CallReductionFailed m n \<Rightarrow> Some n | _ \<Rightarrow> None)"

section \<open>What a stream amounts to\<close>

text \<open>The chunks before the first event that is not a chunk.\<close>

fun leading_chunks :: "chunk_event list \<Rightarrow> pyval list" where
  "leading_chunks (Chunk v # es) = v # leading_chunks es"
| "leading_chunks es = []"

lemma consume_loop_seen:
  "consume_loop rd seen es = (out, seen') \<Longrightarrow>
     \<exists>k \<le> length (leading_chunks es). seen' = seen @ take k (leading_chunks es)"
proof (induction rd seen es arbitrary: out seen' rule: consume_loop.induct)
  case (2 rd seen v es)
  show ?case
  proof (cases "rd_add rd (seen @ [v])")
    case Added
    with 2 obtain k where "k \<le> length (leading_chunks es)" "seen' = seen @ [v] @ take k (leading_chunks es)"
      by force
    then show ?thesis by (intro exI [of _ "Suc k"]) simp
  qed (use 2 in auto)
qed (auto split: finish_reply.splits)

lemma consume_loop_output:
  "consume_loop rd seen es = (StreamOutput v, seen') \<longleftrightarrow>
     es = map Chunk (leading_chunks es) \<and> seen' = seen @ leading_chunks es
     \<and> (\<forall>k < length (leading_chunks es). rd_add rd (seen @ take (Suc k) (leading_chunks es)) = Added)
     \<and> rd_finish rd seen' = Finished v"
proof (induction rd seen es arbitrary: seen' rule: consume_loop.induct)
  case (2 rd seen w es)
  show ?case
  proof (cases "rd_add rd (seen @ [w])")
    case Added
    from 2 [OF this, of seen'] show ?thesis
      using Added by (auto simp: All_less_Suc2)
  qed (auto simp: All_less_Suc2)
qed (auto split: finish_reply.splits)



end
