(* ===== verification/Node_Units.thy ===== *)
theory Node_Units
  imports Node_Calls
begin

text \<open>
  The units of one node execution, a single input or the items of a map or replication, and the
  attempts made for each: \<open>_prepare_units\<close>, \<open>_validate_unit_inputs\<close> and \<open>_execute_unit\<close> of
  \<open>core/executor/node_executor.py\<close>. A unit is a small state machine, because between its awaits
  the other units of the node run: it starts an attempt, and it ends the attempt when the
  handler has replied.
\<close>

section \<open>Resolved jobs and their units\<close>

record resolved_job = job +
  rj_operators :: "operator list"
  rj_max_parallel_units :: int

datatype unit_kind = UnitNormal | UnitMapItem | UnitReplica

record prepared_units =
  pu_units :: "(nat \<times> pyval) list"
  pu_kind :: unit_kind
  pu_error :: "runtime_error_info option"
  pu_messages :: "node_message list"

definition publish_phase :: "resolved_job \<Rightarrow> phase_result \<Rightarrow> node_message list" where
  "publish_phase j ph =
     (if job_event_mode j = EvMinimal then [] else [PhaseProgress (job_id (job.truncate j)) ph])"

definition publish_operator_call :: "resolved_job \<Rightarrow> operator_execution \<Rightarrow> node_message list" where
  "publish_operator_call j oe =
     (if job_event_mode j = EvMinimal then [] else [OperatorProgress (job_id (job.truncate j)) oe])"

definition job_replication :: "resolved_job \<Rightarrow> replication_policy option" where
  "job_replication j = (case nd_policy (job_node j) of None \<Rightarrow> None | Some p \<Rightarrow> np_replication p)"

definition map_selection_context_of :: "resolved_job \<Rightarrow> hook_context \<Rightarrow> map_selection_context" where
  "map_selection_context_of j c =
     hook_context.extend c \<lparr>ms_node_id = str_or (nd_local_id (job_node j)) (nd_id (job_node j)),
       ms_input = job_input j\<rparr>"

definition missing_hook_context :: user_exn where
  "missing_hook_context = UserExn ''RuntimeError'' ''NodeExecutionJob is missing its Workflow hook context.''"

definition require_hook_context :: "resolved_job \<Rightarrow> user_exn + hook_context" where
  "require_hook_context j = (case job_hook_context j of None \<Rightarrow> Inl missing_hook_context | Some c \<Rightarrow> Inr c)"


definition py_type_name :: "pyval \<Rightarrow> string" where
  "py_type_name v = (case v of PyNone \<Rightarrow> ''NoneType'' | PyBool b \<Rightarrow> ''bool'' | PyInt i \<Rightarrow> ''int''
     | PyStr s \<Rightarrow> ''str'' | PyList xs \<Rightarrow> ''list'' | PyDict d \<Rightarrow> ''dict'' | PyOpaque n \<Rightarrow> ''object'')"

text \<open>
  \<open>list(selected)\<close>: tuples, sets and generators are given as the \<open>PyList\<close> of their items.
\<close>

definition iterate :: "pyval \<Rightarrow> pyval list option" where
  "iterate v = (case v of PyList xs \<Rightarrow> Some xs | PyStr s \<Rightarrow> Some (map (\<lambda>c. PyStr [c]) s) | _ \<Rightarrow> None)"

definition first_invalid_item :: "pyval list \<Rightarrow> (nat \<times> pyval) option" where
  "first_invalid_item xs = find (\<lambda>(k, x). case x of PyDict d \<Rightarrow> False | _ \<Rightarrow> True) (zip [0..<length xs] xs)"

definition map_units :: "resolved_job \<Rightarrow> pyval \<Rightarrow> runtime_error_info + (nat \<times> pyval) list" where
  "map_units j selected =
     (let node = (''node_id'', PyStr (nd_id (job_node j))) in
      case selected of
        PyDict d \<Rightarrow> Inl (mk_error ''MAP_ITEM_SELECTION_FAILED''
          (''MapPolicy item_selector must return an iterable of argument ''
           @ ''mappings, not one argument mapping.'') [node])
      | _ \<Rightarrow> (case iterate selected of
            None \<Rightarrow> Inl (mk_error ''MAP_ITEM_SELECTION_FAILED''
              ''MapPolicy item_selector result must be iterable.'' [node, (''error_type'', PyStr ''TypeError'')])
          | Some xs \<Rightarrow> (case first_invalid_item xs of
                Some (k, x) \<Rightarrow> Inl (mk_error ''MAP_ITEM_INPUT_INVALID''
                  (''Each MapPolicy item must be a mapping whose keys match ''
                   @ ''the target Operator parameters.'')
                  [node, (''item_index'', PyInt (int k)), (''actual_type'', PyStr (py_type_name x))])
              | None \<Rightarrow> Inr (zip [0..<length xs] xs))))"

definition job_idempotent :: "resolved_job \<Rightarrow> bool" where
  "job_idempotent j = (case (case nd_policy (job_node j) of None \<Rightarrow> None | Some p \<Rightarrow> np_recovery p) of
     None \<Rightarrow> False | Some r \<Rightarrow> rec_mode r = RecIdempotent)"

text \<open>\<open>{**value, "idempotency_key": ...}\<close>, which only a mapping supports.\<close>

definition keyed_unit :: "resolved_job \<Rightarrow> nat \<times> pyval \<Rightarrow> (nat \<times> pyval) res" where
  "keyed_unit j = (\<lambda>(k, v). case v of
     PyDict d \<Rightarrow> Inr (k, PyDict (dict_set ''idempotency_key''
       (PyStr ((case ne_idempotency_key (job_execution j) of None \<Rightarrow> ''None'' | Some s \<Rightarrow> s)
          @ '':'' @ str_nat k)) d))
   | _ \<Rightarrow> Inl (TypeError ([CHR 0x27] @ py_type_name v @ [CHR 0x27] @ '' object is not a mapping'')))"

definition selection_phase :: "resolved_job \<Rightarrow> map_policy \<Rightarrow> pyval option \<Rightarrow> node_message list" where
  "selection_phase j mp selected =
     (if job_event_mode j = EvFull \<and> mp_item_selector mp \<noteq> None
      then publish_phase j \<lparr>ph_name = ''item_selection.completed'',
             ph_status = (case selected of None \<Rightarrow> ''failed'' | Some v \<Rightarrow> ''completed''), ph_input = PyNone,
             ph_output = (case selected of None \<Rightarrow> PyNone | Some v \<Rightarrow> v)\<rparr>
      else [])"

definition select_items :: "resolved_job \<Rightarrow> map_policy \<Rightarrow> user_exn + pyval" where
  "select_items j mp =
     (case mp_item_selector mp of
        None \<Rightarrow> Inr (job_input j)
      | Some f \<Rightarrow> (case require_hook_context j of
            Inl e \<Rightarrow> Inl e | Inr c \<Rightarrow> f (map_selection_context_of j c)))"

definition no_units :: "unit_kind \<Rightarrow> runtime_error_info \<Rightarrow> node_message list \<Rightarrow> prepared_units" where
  "no_units k e ms = \<lparr>pu_units = [], pu_kind = k, pu_error = Some e, pu_messages = ms\<rparr>"

definition prepare_map_units :: "resolved_job \<Rightarrow> map_policy \<Rightarrow> prepared_units res" where
  "prepare_map_units j mp =
     (case select_items j mp of
        Inl e \<Rightarrow> Inr (no_units UnitMapItem
          (mk_error ''MAP_ITEM_SELECTION_FAILED'' (exn_message e)
             [(''node_id'', PyStr (nd_id (job_node j))), (''error_type'', PyStr (exn_type e))])
          (selection_phase j mp None))
      | Inr selected \<Rightarrow>
          (case map_units j selected of
             Inl err \<Rightarrow> Inr (no_units UnitMapItem err (selection_phase j mp None))
           | Inr units \<Rightarrow>
               bindR (if job_idempotent j then mapR (keyed_unit j) units else Inr units)
                 (\<lambda>us. Inr \<lparr>pu_units = us, pu_kind = UnitMapItem, pu_error = None,
                    pu_messages = selection_phase j mp (Some selected)\<rparr>)))"

definition prepare_units :: "resolved_job \<Rightarrow> prepared_units res" where
  "prepare_units j =
     (case (job_map_policy j, job_replication j) of
        (Some mp, Some rp) \<Rightarrow> Inr (no_units UnitNormal (mk_error ''POLICY_COMBINATION_UNSUPPORTED''
          ''MapPolicy and ReplicationPolicy cannot apply to the same node execution.''
          [(''node_id'', PyStr (nd_id (job_node j)))]) [])
      | (Some mp, None) \<Rightarrow> prepare_map_units j mp
      | (None, Some rp) \<Rightarrow>
          (let units = map (\<lambda>k. (k, job_input j)) [0..<nat (rp_count rp)]
           in bindR (if job_idempotent j then mapR (keyed_unit j) units else Inr units)
                (\<lambda>us. Inr \<lparr>pu_units = us, pu_kind = UnitReplica, pu_error = None, pu_messages = []\<rparr>))
      | (None, None) \<Rightarrow> Inr \<lparr>pu_units = [(0, job_input j)], pu_kind = UnitNormal, pu_error = None,
                             pu_messages = []\<rparr>)"

definition max_parallelism :: "resolved_job \<Rightarrow> nat \<Rightarrow> int" where
  "max_parallelism j n =
     (let opt = (\<lambda>l. case l of None \<Rightarrow> [] | Some k \<Rightarrow> [k]);
          limits = [max 1 (int n), rj_max_parallel_units j]
            @ opt (case job_map_policy j of None \<Rightarrow> None | Some mp \<Rightarrow> mp_max_parallelism mp)
            @ opt (case job_replication j of None \<Rightarrow> None | Some rp \<Rightarrow> rp_max_parallelism rp)
      in max 1 (Min (set limits)))"

definition unit_input_error :: "resolved_job \<Rightarrow> nat \<Rightarrow> string \<Rightarrow> runtime_error_info" where
  "unit_input_error j k msg =
     mk_error (if job_map_policy j \<noteq> None then ''MAP_ITEM_INPUT_INVALID'' else ''INPUT_MAPPING_INVALID'') msg
       [(''node_id'', PyStr (nd_id (job_node j))), (''unit_index'', PyInt (int k)),
        (''expected_schema'', nd_input_schema (job_node j))]"

text \<open>The contract raises a \<open>TypeError\<close> or a \<open>ValidationError\<close>, or gives the detached arguments.\<close>

fun validate_unit_inputs ::
  "resolved_job \<Rightarrow> (nat \<times> pyval) list \<Rightarrow> runtime_error_info + (nat \<times> pyval dict) list" where
  "validate_unit_inputs j [] = Inr []"
| "validate_unit_inputs j ((k, v) # us) =
     (case v of
        PyDict d \<Rightarrow> (case nd_input_contract (job_node j) d of
            Inl e \<Rightarrow> Inl (unit_input_error j k (exn_message e))
          | Inr args \<Rightarrow> (case validate_unit_inputs j us of
                Inl err \<Rightarrow> Inl err | Inr rest \<Rightarrow> Inr ((k, args) # rest)))
      | _ \<Rightarrow> Inl (unit_input_error j k
          ''Node input must be a mapping whose keys match Operator parameters.''))"

section \<open>Attempts\<close>

definition consume_budget :: "nat option \<Rightarrow> bool \<times> nat option" where
  "consume_budget remaining =
     (case remaining of None \<Rightarrow> (True, None) | Some 0 \<Rightarrow> (False, Some 0) | Some (Suc n) \<Rightarrow> (True, Some n))"

definition next_call :: "nat \<Rightarrow> nat \<times> nat" where
  "next_call current = (current + 1, current + 1)"

definition attempt_reason :: "nat \<Rightarrow> nat \<Rightarrow> bool \<Rightarrow> operator_reason" where
  "attempt_reason operator_index attempt_index recovery =
     (if attempt_index > 0 then ReasonRetry
      else if operator_index > 0 then ReasonFallback
      else if recovery then ReasonRecovery else ReasonNormal)"

definition max_attempts :: "resolved_job \<Rightarrow> int" where
  "max_attempts j =
     (case (case nd_policy (job_node j) of None \<Rightarrow> None | Some p \<Rightarrow> np_retry p) of
        None \<Rightarrow> 1 | Some r \<Rightarrow> rt_max_attempts r)"

definition operator_budget_error :: "resolved_job \<Rightarrow> runtime_error_info" where
  "operator_budget_error j = mk_error ''RESOURCE_LIMIT_EXCEEDED'' ''Operator attempt limit exceeded.''
     [(''node_id'', PyStr (nd_id (job_node j))), (''resource'', PyStr ''operator_executions'')]"

record unit_result =
  ur_index :: nat
  ur_output :: pyval
  ur_error :: "runtime_error_info option"
  ur_attempts :: "direct_execution list"
  ur_backoff_ns :: nat

text \<open>
  A unit under way: the positions of the two loops, the attempts ended so far and the one whose
  call is awaited.
\<close>

record unit_state =
  un_index :: nat
  un_input :: "pyval dict"
  un_operator :: nat
  un_attempt :: nat
  un_attempts :: "direct_execution list"
  un_backoff_ns :: nat
  un_current :: "direct_execution option"

definition new_unit :: "nat \<Rightarrow> pyval dict \<Rightarrow> unit_state" where
  "new_unit k inp = \<lparr>un_index = k, un_input = inp, un_operator = 0, un_attempt = 0, un_attempts = [],
     un_backoff_ns = 0, un_current = None\<rparr>"

text \<open>The budget and the call numbers all units of the node share.\<close>

record call_pool =
  cp_budget :: "nat option"
  cp_sequence :: nat

datatype unit_turn =
    UnitCalls unit_state
  | UnitDone unit_result
  | UnitCrashed

definition unit_done :: "unit_state \<Rightarrow> pyval \<Rightarrow> runtime_error_info option \<Rightarrow> unit_result" where
  "unit_done u out err = \<lparr>ur_index = un_index u, ur_output = out, ur_error = err,
     ur_attempts = un_attempts u, ur_backoff_ns = un_backoff_ns u\<rparr>"

text \<open>
  The loops up to the next call. When they are exhausted the error is that of the last attempt;
  with \<open>max_attempts\<close> below one there is none, and \<open>attempts[-1]\<close> raises.
\<close>

definition start_attempt :: "resolved_job \<Rightarrow> int \<Rightarrow> uuid \<Rightarrow> unit_state \<Rightarrow> call_pool \<Rightarrow> unit_turn \<times> call_pool" where
  "start_attempt j now uid u p =
     (if length (rj_operators j) \<le> un_operator u \<or> max_attempts j \<le> 0 then
        ((if un_attempts u = [] then UnitCrashed
          else UnitDone (unit_done u PyNone (de_error (last (un_attempts u))))), p)
      else
        let (ok, budget) = consume_budget (cp_budget p) in
        if \<not> ok then (UnitDone (unit_done u PyNone (Some (operator_budget_error j))), p\<lparr>cp_budget := budget\<rparr>)
        else
          let (n, seq) = next_call (cp_sequence p)
          in (UnitCalls (u\<lparr>un_current := Some (new_direct uid now (op_id (rj_operators j ! un_operator u)) n
                (attempt_reason (un_operator u) (un_attempt u) (job_recovery j)) (PyDict (un_input u)))\<rparr>),
              \<lparr>cp_budget = budget, cp_sequence = seq\<rparr>))"

text \<open>
  The end of the awaited call. \<open>usage\<close> is what was measured; \<open>backoff\<close> the time slept before a
  retry.
\<close>

definition end_attempt ::
  "resolved_job \<Rightarrow> unit_kind \<Rightarrow> int \<Rightarrow> resource_usage \<Rightarrow> nat \<Rightarrow> handler_reply \<Rightarrow> direct_execution \<Rightarrow> unit_state
   \<Rightarrow> unit_turn \<times> node_message list" where
  "end_attempt j kind now usage backoff reply a u =
     (let op = rj_operators j ! un_operator u;
          publish = (\<lambda>a. if kind = UnitNormal then publish_operator_call j (Direct a) else [])
      in case call_and_validate (job.truncate j) op (de_id a) reply of
           (Inr r, ms) \<Rightarrow>
             (let a' = direct_completed now (cr_output r) (a\<lparr>de_usage := usage,
                    de_streaming := cr_streaming r, de_stream_chunk_count := cr_chunk_count r\<rparr>);
                  u' = u\<lparr>un_attempts := un_attempts u @ [a'], un_current := None\<rparr>
              in (UnitDone (unit_done u' (cr_output r) None), ms @ publish a'))
         | (Inl f, ms) \<Rightarrow>
             (let chunks = failure_chunks f;
                  a' = direct_failed now (operator_error (job.truncate j) op f) (a\<lparr>de_usage := usage,
                    de_streaming := (chunks \<noteq> None),
                    de_stream_chunk_count := (case chunks of None \<Rightarrow> 0 | Some n \<Rightarrow> n)\<rparr>);
                  u' = u\<lparr>un_attempts := un_attempts u @ [a'], un_current := None\<rparr>
              in (UnitCalls (if int (un_attempt u) + 1 < max_attempts j
                    then u'\<lparr>un_attempt := un_attempt u + 1, un_backoff_ns := un_backoff_ns u + backoff\<rparr>
                    else u'\<lparr>un_operator := un_operator u + 1, un_attempt := 0\<rparr>),
                  ms @ publish a')))"


text \<open>
  With \<open>max_attempts\<close> below one no operator would be called and the unit would raise at once; the
  compiler rejects such policies (\<open>POLICY_RETRY_INVALID\<close>).
\<close>

lemma no_attempts_crash:
  "max_attempts j \<le> 0 \<Longrightarrow> start_attempt j now uid (new_unit k inp) p = (UnitCrashed, p)"
  by (simp add: start_attempt_def new_unit_def)

end
