(* ===== verification/Node_Pool.thy ===== *)
theory Node_Pool
  imports Node_Units
begin

text \<open>
  The workers that execute the units of one node concurrently: \<open>_execute_units\<close> of
  \<open>core/executor/node_executor.py\<close> as a transition system. A step is a stretch of one worker
  between two awaits, or a part of it: the relation allows at least the interleavings of the
  event loop. Cancelled workers drop the unit they were at, with its attempts.
\<close>

section \<open>The pool\<close>

datatype worker = WorkerIdle | WorkerBusy unit_state | WorkerEnded

record pool =
  po_units :: "(nat \<times> pyval dict) list"
  po_workers :: "worker list"
  po_calls :: call_pool
  po_active :: nat
  po_peak :: nat
  po_results :: "unit_result list"
  po_failed :: bool
  po_crashed :: bool
  po_messages :: "node_message list"

definition start_pool :: "resolved_job \<Rightarrow> (nat \<times> pyval dict) list \<Rightarrow> call_pool \<Rightarrow> pool" where
  "start_pool j units calls =
     \<lparr>po_units = units,
      po_workers = replicate (min (nat (max_parallelism j (length units))) (length units)) WorkerIdle,
      po_calls = calls, po_active = 0, po_peak = 0, po_results = [], po_failed = False, po_crashed = False,
      po_messages = []\<rparr>"

definition take_unit :: "nat \<Rightarrow> pool \<Rightarrow> pool" where
  "take_unit k p =
     (case po_units p of
        [] \<Rightarrow> p\<lparr>po_workers := (po_workers p)[k := WorkerEnded]\<rparr>
      | (i, inp) # rest \<Rightarrow>
          p\<lparr>po_units := rest, po_workers := (po_workers p)[k := WorkerBusy (new_unit i inp)],
            po_active := po_active p + 1, po_peak := max (po_peak p) (po_active p + 1)\<rparr>)"

definition apply_turn :: "nat \<Rightarrow> unit_turn \<Rightarrow> pool \<Rightarrow> pool" where
  "apply_turn k turn p =
     (case turn of
        UnitCalls u \<Rightarrow> p\<lparr>po_workers := (po_workers p)[k := WorkerBusy u]\<rparr>
      | UnitDone r \<Rightarrow>
          p\<lparr>po_workers := (po_workers p)[k := if ur_error r = None then WorkerIdle else WorkerEnded],
            po_active := po_active p - 1, po_results := po_results p @ [r],
            po_failed := (po_failed p \<or> ur_error r \<noteq> None)\<rparr>
      | UnitCrashed \<Rightarrow>
          p\<lparr>po_workers := (po_workers p)[k := WorkerEnded], po_active := po_active p - 1,
            po_crashed := True\<rparr>)"

definition cancel_pool :: "pool \<Rightarrow> pool" where
  "cancel_pool p =
     p\<lparr>po_workers := map (\<lambda>_. WorkerEnded) (po_workers p),
       po_active := po_active p - length (filter (\<lambda>w. case w of WorkerBusy u \<Rightarrow> True | _ \<Rightarrow> False) (po_workers p))\<rparr>"

inductive pool_step :: "resolved_job \<Rightarrow> unit_kind \<Rightarrow> pool \<Rightarrow> pool \<Rightarrow> bool" for j kind where
  pool_take: "k < length (po_workers p) \<Longrightarrow> po_workers p ! k = WorkerIdle \<Longrightarrow>
    pool_step j kind p (take_unit k p)"
| pool_start: "k < length (po_workers p) \<Longrightarrow> po_workers p ! k = WorkerBusy u \<Longrightarrow> un_current u = None \<Longrightarrow>
    start_attempt j now uid u (po_calls p) = (turn, calls) \<Longrightarrow>
    pool_step j kind p (apply_turn k turn (p\<lparr>po_calls := calls\<rparr>))"
| pool_end: "k < length (po_workers p) \<Longrightarrow> po_workers p ! k = WorkerBusy u \<Longrightarrow> un_current u = Some a \<Longrightarrow>
    reply_possible (job.truncate j) reply \<Longrightarrow>
    end_attempt j kind now usage backoff reply a u = (turn, ms) \<Longrightarrow>
    pool_step j kind p (apply_turn k turn (p\<lparr>po_messages := po_messages p @ ms\<rparr>))"
| pool_cancel: "po_failed p \<or> po_crashed p \<Longrightarrow> \<exists>w \<in> set (po_workers p). w \<noteq> WorkerEnded \<Longrightarrow>
    pool_step j kind p (cancel_pool p)"

abbreviation pool_runs :: "resolved_job \<Rightarrow> unit_kind \<Rightarrow> pool \<Rightarrow> pool \<Rightarrow> bool" where
  "pool_runs j kind \<equiv> (pool_step j kind)\<^sup>*\<^sup>*"

text \<open>What the pool has ended with: no worker is left.\<close>

definition pool_ended :: "pool \<Rightarrow> bool" where
  "pool_ended p \<longleftrightarrow> (\<forall>w \<in> set (po_workers p). w = WorkerEnded)"

section \<open>Sums over the workers\<close>

lemma concat_update:
  assumes "k < length xs"
  shows "mset (concat (map f (xs[k := y]))) + mset (f (xs ! k)) = mset (concat (map f xs)) + mset (f y)"
proof -
  have "mset (concat (map f xs)) = mset (concat (map f (take k xs))) + mset (f (xs ! k))
      + mset (concat (map f (drop (Suc k) xs)))"
    by (subst id_take_nth_drop [OF assms]) (simp add: ac_simps)
  moreover have "mset (concat (map f (xs[k := y]))) = mset (concat (map f (take k xs))) + mset (f y)
      + mset (concat (map f (drop (Suc k) xs)))"
    by (simp add: upd_conv_take_nth_drop [OF assms] ac_simps)
  ultimately show ?thesis by (simp add: ac_simps)
qed

lemma sum_update:
  fixes f :: "'a \<Rightarrow> nat"
  assumes "k < length xs"
  shows "sum_list (map f (xs[k := y])) + f (xs ! k) = sum_list (map f xs) + f y"
proof -
  have "sum_list (map f xs) = sum_list (map f (take k xs)) + f (xs ! k) + sum_list (map f (drop (Suc k) xs))"
    by (subst id_take_nth_drop [OF assms]) simp
  moreover have "sum_list (map f (xs[k := y]))
      = sum_list (map f (take k xs)) + f y + sum_list (map f (drop (Suc k) xs))"
    by (simp add: upd_conv_take_nth_drop [OF assms])
  ultimately show ?thesis by simp
qed

section \<open>The attempts of a unit\<close>

text \<open>The \<open>k\<close>-th attempt: operators in order, each tried \<open>max_attempts\<close> times.\<close>

definition attempt_ok :: "resolved_job \<Rightarrow> nat \<Rightarrow> direct_execution \<Rightarrow> bool" where
  "attempt_ok j k a \<longleftrightarrow>
     (let m = nat (max_attempts j) in
      k div m < length (rj_operators j)
      \<and> de_operator_id a = op_id (rj_operators j ! (k div m))
      \<and> de_reason a = attempt_reason (k div m) (k mod m) (job_recovery j))"

definition failed_attempt :: "direct_execution \<Rightarrow> bool" where
  "failed_attempt a \<longleftrightarrow> de_state a = OpFailed \<and> de_error a \<noteq> None"

definition unit_ok :: "resolved_job \<Rightarrow> unit_state \<Rightarrow> bool" where
  "unit_ok j u \<longleftrightarrow>
     (if max_attempts j \<le> 0 then un_attempts u = [] \<and> un_current u = None
      else int (un_attempt u) < max_attempts j \<and> un_operator u \<le> length (rj_operators j)
        \<and> (un_operator u = length (rj_operators j) \<longrightarrow> un_attempt u = 0)
        \<and> length (un_attempts u) = un_operator u * nat (max_attempts j) + un_attempt u
        \<and> (\<forall>k < length (un_attempts u). attempt_ok j k (un_attempts u ! k) \<and> failed_attempt (un_attempts u ! k))
        \<and> (\<forall>a. un_current u = Some a \<longrightarrow> un_operator u < length (rj_operators j)
             \<and> attempt_ok j (length (un_attempts u)) a))"

definition total_attempts :: "resolved_job \<Rightarrow> nat" where
  "total_attempts j = length (rj_operators j) * nat (max_attempts j)"

text \<open>
  A result: either the last attempt completed with the output and all before it failed, or all
  failed and the error is that of the last possible attempt, or the budget's.
\<close>

definition result_ok :: "resolved_job \<Rightarrow> unit_result \<Rightarrow> bool" where
  "result_ok j r \<longleftrightarrow>
     length (ur_attempts r) \<le> total_attempts j
     \<and> (\<forall>k < length (ur_attempts r). attempt_ok j k (ur_attempts r ! k))
     \<and> (case ur_error r of
          None \<Rightarrow> ur_attempts r \<noteq> [] \<and> de_state (last (ur_attempts r)) = OpCompleted
            \<and> de_output (last (ur_attempts r)) = ur_output r \<and> list_all failed_attempt (butlast (ur_attempts r))
        | Some e \<Rightarrow> list_all failed_attempt (ur_attempts r)
            \<and> (e = operator_budget_error j
               \<or> length (ur_attempts r) = total_attempts j \<and> ur_attempts r \<noteq> []
                 \<and> de_error (last (ur_attempts r)) = Some e))"

lemma unit_ok_new: "unit_ok j (new_unit k inp)"
  by (auto simp: unit_ok_def new_unit_def)

lemma attempt_position:
  assumes "int t < max_attempts j"
  shows "(n * nat (max_attempts j) + t) div nat (max_attempts j) = n"
    "(n * nat (max_attempts j) + t) mod nat (max_attempts j) = t"
  using assms by (simp_all add: nat_less_iff)

lemma start_attempt_ok:
  assumes "start_attempt j now uid u p = (turn, p')" and "unit_ok j u" and "un_current u = None"
  shows "case turn of UnitCalls u' \<Rightarrow> unit_ok j u' \<and> un_attempts u' = un_attempts u
       \<and> un_index u' = un_index u
       \<and> (\<exists>a. un_current u' = Some a \<and> de_sequence a = Suc (cp_sequence p) \<and> de_state a = OpRunning)
     | UnitDone r \<Rightarrow> result_ok j r \<and> ur_attempts r = un_attempts u \<and> ur_index r = un_index u \<and> ur_error r \<noteq> None
     | UnitCrashed \<Rightarrow> max_attempts j \<le> 0 \<or> rj_operators j = []"
proof (cases "length (rj_operators j) \<le> un_operator u \<or> max_attempts j \<le> 0")
  case True
  show ?thesis
  proof (cases "un_attempts u = []")
    case True
    with assms \<open>length (rj_operators j) \<le> un_operator u \<or> max_attempts j \<le> 0\<close> show ?thesis
      by (auto simp: start_attempt_def unit_ok_def split: if_splits)
  next
    case False
    with assms True have m: "0 < max_attempts j" "un_operator u = length (rj_operators j)" "un_attempt u = 0"
      by (auto simp: unit_ok_def split: if_splits)
    let ?a = "last (un_attempts u)"
    have fail: "\<forall>k < length (un_attempts u). attempt_ok j k (un_attempts u ! k) \<and> failed_attempt (un_attempts u ! k)"
      and len: "length (un_attempts u) = total_attempts j"
      using assms(2) m by (simp_all add: unit_ok_def total_attempts_def)
    have all: "list_all failed_attempt (un_attempts u)" using fail by (simp add: list_all_length)
    then have "failed_attempt ?a" using False by (auto simp: list_all_iff)
    then obtain e where "de_error ?a = Some e" by (auto simp: failed_attempt_def)
    with assms True False fail len all show ?thesis
      by (auto simp: start_attempt_def unit_done_def result_ok_def)
  qed
next
  case False
  note ok = assms(2) and pos = attempt_position [of "un_attempt u" j "un_operator u"]
  from False ok have u: "int (un_attempt u) < max_attempts j" "un_operator u < length (rj_operators j)"
    "length (un_attempts u) = un_operator u * nat (max_attempts j) + un_attempt u"
    "\<forall>k < length (un_attempts u). attempt_ok j k (un_attempts u ! k) \<and> failed_attempt (un_attempts u ! k)"
    by (auto simp: unit_ok_def split: if_splits)
  have le: "length (un_attempts u) \<le> total_attempts j"
  proof -
    have "un_operator u * nat (max_attempts j) + un_attempt u < Suc (un_operator u) * nat (max_attempts j)"
      using u(1) by (simp add: nat_less_iff)
    also have "\<dots> \<le> total_attempts j" unfolding total_attempts_def using u(2) by (intro mult_le_mono1) simp
    finally show ?thesis using u(3) by simp
  qed
  obtain okb budget where b: "consume_budget (cp_budget p) = (okb, budget)" by force
  show ?thesis
  proof (cases okb)
    case True
    with assms(1) False b show ?thesis
      using u pos [OF u(1)] by (auto simp: start_attempt_def next_call_def unit_ok_def attempt_ok_def new_direct_def Let_def)
  next
    case nobudget: False
    with assms(1) False b show ?thesis
      using u le by (auto simp: start_attempt_def unit_done_def result_ok_def list_all_length)
  qed
qed

lemma start_attempt_calls:
  assumes "start_attempt j now uid u p = (turn, p')"
  shows "case turn of UnitCalls u' \<Rightarrow> cp_sequence p' = Suc (cp_sequence p)
       \<and> (case cp_budget p of None \<Rightarrow> cp_budget p' = None | Some b \<Rightarrow> b > 0 \<and> cp_budget p' = Some (b - 1))
     | _ \<Rightarrow> p' = p"
  using assms by (auto simp: start_attempt_def consume_budget_def next_call_def Let_def
      split: if_splits option.splits nat.splits)

lemma end_attempt_ok:
  assumes "end_attempt j kind now usage backoff reply a u = (turn, ms)" and "unit_ok j u"
    and "un_current u = Some a"
  shows "(\<exists>u'. turn = UnitCalls u' \<and> unit_ok j u' \<and> un_current u' = None \<and> un_index u' = un_index u
        \<and> (\<exists>a'. un_attempts u' = un_attempts u @ [a'] \<and> de_sequence a' = de_sequence a))
     \<or> (\<exists>r. turn = UnitDone r \<and> result_ok j r \<and> ur_error r = None \<and> ur_index r = un_index u
        \<and> (\<exists>a'. ur_attempts r = un_attempts u @ [a'] \<and> de_sequence a' = de_sequence a))"
    and "length (un_attempts u) < total_attempts j"
proof -
  note ok = assms(2) and pos = attempt_position [of "un_attempt u" j "un_operator u"]
  let ?m = "nat (max_attempts j)"
  from ok assms(3) have u: "int (un_attempt u) < max_attempts j" "un_operator u < length (rj_operators j)"
    "length (un_attempts u) = un_operator u * ?m + un_attempt u"
    "\<forall>k < length (un_attempts u). attempt_ok j k (un_attempts u ! k) \<and> failed_attempt (un_attempts u ! k)"
    "attempt_ok j (length (un_attempts u)) a"
    by (auto simp: unit_ok_def split: if_splits)
  have "un_operator u * ?m + un_attempt u < Suc (un_operator u) * ?m"
    using u(1) by (simp add: nat_less_iff)
  also have "\<dots> \<le> total_attempts j" unfolding total_attempts_def using u(2) by (intro mult_le_mono1) simp
  finally show len: "length (un_attempts u) < total_attempts j" using u(3) by simp
  have all: "list_all failed_attempt (un_attempts u)" using u(4) by (simp add: list_all_length)
  obtain res ms' where call: "call_and_validate (job.truncate j) (rj_operators j ! un_operator u) (de_id a) reply = (res, ms')"
    by force
  show "(\<exists>u'. turn = UnitCalls u' \<and> unit_ok j u' \<and> un_current u' = None \<and> un_index u' = un_index u
        \<and> (\<exists>a'. un_attempts u' = un_attempts u @ [a'] \<and> de_sequence a' = de_sequence a))
     \<or> (\<exists>r. turn = UnitDone r \<and> result_ok j r \<and> ur_error r = None \<and> ur_index r = un_index u
        \<and> (\<exists>a'. ur_attempts r = un_attempts u @ [a'] \<and> de_sequence a' = de_sequence a))"
  proof (cases res)
    case (Inr r)
    with assms(1) call u(4,5) len all show ?thesis
      by (auto simp: end_attempt_def Let_def unit_done_def result_ok_def direct_completed_def nth_append
          attempt_ok_def less_Suc_eq)
  next
    case (Inl f)
    define e where "e = operator_error (job.truncate j) (rj_operators j ! un_operator u) f"
    define a' where "a' = direct_failed now e (a\<lparr>de_usage := usage,
       de_streaming := (failure_chunks f \<noteq> None),
       de_stream_chunk_count := (case failure_chunks f of None \<Rightarrow> 0 | Some n \<Rightarrow> n)\<rparr>)"
    define u1 where "u1 = u\<lparr>un_attempts := un_attempts u @ [a'], un_current := None\<rparr>"
    define u2 where "u2 = (if int (un_attempt u) + 1 < max_attempts j
       then u1\<lparr>un_attempt := un_attempt u + 1, un_backoff_ns := un_backoff_ns u + backoff\<rparr>
       else u1\<lparr>un_operator := un_operator u + 1, un_attempt := 0\<rparr>)"
    have turn: "turn = UnitCalls u2"
      using assms(1) call Inl unfolding e_def a'_def u1_def u2_def
      by (clarsimp simp only: end_attempt_def Let_def split_conv sum.case prod.inject)
    have a': "attempt_ok j (length (un_attempts u)) a'" "failed_attempt a'" "de_sequence a' = de_sequence a"
      using u(5) by (simp_all add: a'_def direct_failed_def attempt_ok_def failed_attempt_def)
    then have old: "\<forall>k < length (un_attempts u @ [a']). attempt_ok j k ((un_attempts u @ [a']) ! k)
        \<and> failed_attempt ((un_attempts u @ [a']) ! k)"
      using u(4) by (auto simp: nth_append less_Suc_eq)
    have "unit_ok j u2"
      using u old by (auto simp: unit_ok_def u2_def u1_def)
    moreover have "un_attempts u2 = un_attempts u @ [a']" "un_current u2 = None" "un_index u2 = un_index u"
      by (simp_all add: u2_def u1_def)
    ultimately show ?thesis using turn a'(3) by blast
  qed
qed

section \<open>What holds of every pool\<close>

fun worker_calls :: "worker \<Rightarrow> direct_execution list" where
  "worker_calls (WorkerBusy u) = un_attempts u @ (case un_current u of None \<Rightarrow> [] | Some a \<Rightarrow> [a])"
| "worker_calls w = []"

fun worker_units :: "worker \<Rightarrow> nat list" where
  "worker_units (WorkerBusy u) = [un_index u]"
| "worker_units w = []"

definition pool_calls :: "pool \<Rightarrow> direct_execution list" where
  "pool_calls p = concat (map ur_attempts (po_results p)) @ concat (map worker_calls (po_workers p))"

definition pool_units :: "pool \<Rightarrow> nat list" where
  "pool_units p = map ur_index (po_results p) @ concat (map worker_units (po_workers p)) @ map fst (po_units p)"

definition busy_workers :: "pool \<Rightarrow> nat" where
  "busy_workers p = length (concat (map worker_units (po_workers p)))"

text \<open>What a step does to the worker \<open>k\<close>, as seen by sums over the workers.\<close>

lemma take_unit_Cons:
  assumes "po_units p = (i, inp) # rest" and "k < length (po_workers p)" and "po_workers p ! k = WorkerIdle"
  shows "mset (pool_calls (take_unit k p)) = mset (pool_calls p)"
    "mset (pool_units (take_unit k p)) = mset (pool_units p)"
    "busy_workers (take_unit k p) = busy_workers p + 1"
  using assms concat_update [OF assms(2), of worker_calls "WorkerBusy (new_unit i inp)"]
    concat_update [OF assms(2), of worker_units "WorkerBusy (new_unit i inp)"]
  by (simp_all add: take_unit_def pool_calls_def pool_units_def busy_workers_def new_unit_def
      flip: size_mset)

lemma take_unit_Nil:
  assumes "po_units p = []" and "k < length (po_workers p)" and "po_workers p ! k = WorkerIdle"
  shows "mset (pool_calls (take_unit k p)) = mset (pool_calls p)"
    "mset (pool_units (take_unit k p)) = mset (pool_units p)"
    "busy_workers (take_unit k p) = busy_workers p"
  using assms concat_update [OF assms(2), of worker_calls WorkerEnded]
    concat_update [OF assms(2), of worker_units WorkerEnded]
  by (simp_all add: take_unit_def pool_calls_def pool_units_def busy_workers_def flip: size_mset)

lemma apply_turn_sums:
  assumes "k < length (po_workers p)" and "po_workers p ! k = WorkerBusy u"
  shows "mset (pool_calls (apply_turn k turn p)) + mset (worker_calls (WorkerBusy u))
      = mset (pool_calls p) + mset (case turn of UnitCalls u' \<Rightarrow> worker_calls (WorkerBusy u')
          | UnitDone r \<Rightarrow> ur_attempts r | UnitCrashed \<Rightarrow> [])"
    "mset (pool_units (apply_turn k turn p)) + {#un_index u#}
      = mset (pool_units p) + mset (case turn of UnitCalls u' \<Rightarrow> [un_index u'] | UnitDone r \<Rightarrow> [ur_index r]
          | UnitCrashed \<Rightarrow> [])"
    "busy_workers (apply_turn k turn p) + 1
      = busy_workers p + (case turn of UnitCalls u' \<Rightarrow> 1 | _ \<Rightarrow> 0)"
proof -
  let ?ws = "po_workers p"
  have c: "count (mset (concat (map f (?ws[k := y])))) x + count (mset (f (WorkerBusy u))) x
      = count (mset (concat (map f ?ws))) x + count (mset (f y)) x" for f :: "worker \<Rightarrow> 'x list" and y x
    using arg_cong [OF concat_update [OF assms(1), of f y], of "\<lambda>m. count m x"] by (simp only: assms(2) count_union)
  show "mset (pool_calls (apply_turn k turn p)) + mset (worker_calls (WorkerBusy u))
      = mset (pool_calls p) + mset (case turn of UnitCalls u' \<Rightarrow> worker_calls (WorkerBusy u')
          | UnitDone r \<Rightarrow> ur_attempts r | UnitCrashed \<Rightarrow> [])"
  proof (rule multiset_eqI)
    fix x
    note c = c [of worker_calls _ x]
    show "count (mset (pool_calls (apply_turn k turn p)) + mset (worker_calls (WorkerBusy u))) x
      = count (mset (pool_calls p) + mset (case turn of UnitCalls u' \<Rightarrow> worker_calls (WorkerBusy u')
          | UnitDone r \<Rightarrow> ur_attempts r | UnitCrashed \<Rightarrow> [])) x"
    proof (cases turn)
      case (UnitCalls u')
      with c [of "WorkerBusy u'"] show ?thesis
        by (simp add: apply_turn_def pool_calls_def del: worker_calls.simps)
    next
      case (UnitDone r)
      with c [of "if ur_error r = None then WorkerIdle else WorkerEnded"] show ?thesis
        by (simp add: apply_turn_def pool_calls_def split del: if_split) (cases "ur_error r"; simp)
    next
      case UnitCrashed
      with c [of WorkerEnded] show ?thesis by (simp add: apply_turn_def pool_calls_def)
    qed
  qed
  show "mset (pool_units (apply_turn k turn p)) + {#un_index u#}
      = mset (pool_units p) + mset (case turn of UnitCalls u' \<Rightarrow> [un_index u'] | UnitDone r \<Rightarrow> [ur_index r]
          | UnitCrashed \<Rightarrow> [])"
  proof (rule multiset_eqI)
    fix x
    have c: "count (mset (concat (map worker_units (?ws[k := y])))) x + count {#un_index u#} x
        = count (mset (concat (map worker_units ?ws))) x + count (mset (worker_units y)) x" for y
      using c [of worker_units y x] by simp
    show "count (mset (pool_units (apply_turn k turn p)) + {#un_index u#}) x
      = count (mset (pool_units p) + mset (case turn of UnitCalls u' \<Rightarrow> [un_index u'] | UnitDone r \<Rightarrow> [ur_index r]
          | UnitCrashed \<Rightarrow> [])) x"
    proof (cases turn)
      case (UnitCalls u')
      with c [of "WorkerBusy u'"] show ?thesis
        by (auto simp: apply_turn_def pool_units_def split: if_splits)
    next
      case (UnitDone r)
      with c [of "if ur_error r = None then WorkerIdle else WorkerEnded"] show ?thesis
        by (cases "ur_error r") (auto simp: apply_turn_def pool_units_def split: if_splits)
    next
      case UnitCrashed
      with c [of WorkerEnded] show ?thesis
        by (auto simp: apply_turn_def pool_units_def split: if_splits)
    qed
  qed
  have s: "busy_workers (p\<lparr>po_workers := ?ws[k := y]\<rparr>) + 1 = busy_workers p + length (worker_units y)" for y
    using sum_update [OF assms(1), of "length \<circ> worker_units" y]
    by (simp add: busy_workers_def length_concat assms(2) comp_def)
  show "busy_workers (apply_turn k turn p) + 1
      = busy_workers p + (case turn of UnitCalls u' \<Rightarrow> 1 | _ \<Rightarrow> 0)"
    using s by (cases turn) (auto simp: apply_turn_def busy_workers_def)
qed

text \<open>Workers, results and the shared budget.\<close>

definition calls_within :: "nat option \<Rightarrow> nat \<Rightarrow> call_pool \<Rightarrow> bool" where
  "calls_within budget start c \<longleftrightarrow> start \<le> cp_sequence c
     \<and> (case budget of None \<Rightarrow> cp_budget c = None
        | Some b \<Rightarrow> \<exists>r. cp_budget c = Some r \<and> cp_sequence c - start + r = b)"

definition pool_ok :: "resolved_job \<Rightarrow> nat option \<Rightarrow> nat \<Rightarrow> pool \<Rightarrow> bool" where
  "pool_ok j budget start p \<longleftrightarrow>
     (\<forall>w \<in> set (po_workers p). \<forall>u. w = WorkerBusy u \<longrightarrow> unit_ok j u)
     \<and> (\<forall>r \<in> set (po_results p). result_ok j r)
     \<and> calls_within budget start (po_calls p)
     \<and> distinct (map de_sequence (pool_calls p))
     \<and> (\<forall>a \<in> set (pool_calls p). start < de_sequence a \<and> de_sequence a \<le> cp_sequence (po_calls p))
     \<and> po_active p = busy_workers p \<and> po_active p \<le> po_peak p \<and> po_peak p \<le> length (po_workers p)"

lemma pool_ok_start: "pool_ok j (cp_budget calls) (cp_sequence calls) (start_pool j units calls)"
  by (auto simp: pool_ok_def start_pool_def calls_within_def pool_calls_def busy_workers_def
      split: option.splits)

lemma pool_ok_calls:
  assumes "mset (pool_calls q) = mset (pool_calls p)" and "po_calls q = po_calls p"
    and "pool_ok j budget start p"
  shows "distinct (map de_sequence (pool_calls q))"
    "\<forall>a \<in> set (pool_calls q). start < de_sequence a \<and> de_sequence a \<le> cp_sequence (po_calls q)"
proof -
  have "mset (map de_sequence (pool_calls q)) = mset (map de_sequence (pool_calls p))"
    using assms(1) by (metis mset_map)
  from mset_eq_imp_distinct_iff [OF this] show "distinct (map de_sequence (pool_calls q))"
    using assms(3) by (simp add: pool_ok_def)
  show "\<forall>a \<in> set (pool_calls q). start < de_sequence a \<and> de_sequence a \<le> cp_sequence (po_calls q)"
    using assms(2,3) mset_eq_setD [OF assms(1)] by (auto simp: pool_ok_def)
qed

lemma set_update_cases: "w \<in> set (xs[k := y]) \<Longrightarrow> w = y \<or> w \<in> set xs"
  by (meson insertE set_update_subset_insert subsetD)

lemma pool_ok_take:
  assumes "pool_ok j budget start p" and "k < length (po_workers p)" and "po_workers p ! k = WorkerIdle"
  shows "pool_ok j budget start (take_unit k p)"
proof -
  have busy: "\<forall>w \<in> set (po_workers (take_unit k p)). \<forall>u. w = WorkerBusy u \<longrightarrow> unit_ok j u"
    using assms(1) unit_ok_new
    by (auto simp: take_unit_def pool_ok_def split: list.splits prod.splits dest!: set_update_cases)
  have same: "po_calls (take_unit k p) = po_calls p" "po_results (take_unit k p) = po_results p"
    "length (po_workers (take_unit k p)) = length (po_workers p)"
    by (auto simp: take_unit_def split: list.splits prod.splits)
  have calls: "mset (pool_calls (take_unit k p)) = mset (pool_calls p)"
    using take_unit_Nil [OF _ assms(2,3)] take_unit_Cons [OF _ assms(2,3)]
    by (cases "po_units p") auto
  have "busy_workers (take_unit k p) \<le> length (po_workers p)"
  proof -
    have "length (concat (map worker_units ws)) \<le> length ws" for ws
    proof (induction ws)
      case (Cons w ws)
      then show ?case by (cases w) auto
    qed simp
    then show ?thesis unfolding busy_workers_def using same(3) by metis
  qed
  moreover have "po_active (take_unit k p) = busy_workers (take_unit k p)
    \<and> po_active (take_unit k p) \<le> po_peak (take_unit k p)
    \<and> po_peak (take_unit k p) = max (po_peak p) (po_active (take_unit k p))"
    using assms(1) take_unit_Nil(3) [OF _ assms(2,3)] take_unit_Cons(3) [OF _ assms(2,3)]
    by (cases "po_units p") (auto simp: pool_ok_def take_unit_def)
  ultimately show ?thesis
    using assms(1) busy same pool_ok_calls [OF calls same(1) assms(1)] by (auto simp: pool_ok_def)
qed

text \<open>A turn that starts an attempt, or ends one.\<close>

lemma pool_ok_turn:
  assumes "pool_ok j budget start p" and "k < length (po_workers p)" and "po_workers p ! k = WorkerBusy u"
    and "q = apply_turn k turn (p\<lparr>po_calls := calls, po_messages := ms\<rparr>)"
    and "calls_within budget start calls" and "cp_sequence (po_calls p) \<le> cp_sequence calls"
    and "case turn of UnitCalls u' \<Rightarrow> unit_ok j u' | UnitDone r \<Rightarrow> result_ok j r | UnitCrashed \<Rightarrow> True"
    and "distinct (map de_sequence (pool_calls q))"
    and "\<forall>a \<in> set (pool_calls q). start < de_sequence a \<and> de_sequence a \<le> cp_sequence calls"
  shows "pool_ok j budget start q"
proof -
  let ?p = "p\<lparr>po_calls := calls, po_messages := ms\<rparr>"
  have w: "k < length (po_workers ?p)" "po_workers ?p ! k = WorkerBusy u" using assms(2,3) by simp_all
  have busy: "busy_workers q + 1 = busy_workers p + (case turn of UnitCalls u' \<Rightarrow> 1 | _ \<Rightarrow> 0)"
    using apply_turn_sums(3) [OF w, of turn] by (simp add: assms(4) busy_workers_def)
  have same: "po_calls q = calls" "po_peak q = po_peak p" "length (po_workers q) = length (po_workers p)"
    by (auto simp: assms(4) apply_turn_def split: unit_turn.splits)
  have "po_active q = busy_workers q \<and> po_active q \<le> po_active p"
    using busy assms(1) by (cases turn) (auto simp: assms(4) apply_turn_def pool_ok_def)
  moreover have "\<forall>w \<in> set (po_workers q). \<forall>u. w = WorkerBusy u \<longrightarrow> unit_ok j u"
    using assms(1,7) by (cases turn) (auto simp: assms(4) apply_turn_def pool_ok_def dest!: set_update_cases)
  moreover have "\<forall>r \<in> set (po_results q). result_ok j r"
    using assms(1,7) by (cases turn) (auto simp: assms(4) apply_turn_def pool_ok_def)
  ultimately show ?thesis
    using assms(1,5,8,9) same by (auto simp: pool_ok_def)
qed

lemma start_calls_within:
  assumes "start_attempt j now uid u (po_calls p) = (turn, calls)" and "calls_within budget start (po_calls p)"
  shows "calls_within budget start calls" "cp_sequence (po_calls p) \<le> cp_sequence calls"
  using start_attempt_calls [OF assms(1)] assms(2)
  by (cases turn; auto simp: calls_within_def split: option.splits)+

lemma pool_ok_step_start:
  assumes "pool_ok j budget start p" and k: "k < length (po_workers p)" "po_workers p ! k = WorkerBusy u"
    and "un_current u = None" and turn: "start_attempt j now uid u (po_calls p) = (turn, calls)"
  shows "pool_ok j budget start (apply_turn k turn (p\<lparr>po_calls := calls\<rparr>))"
proof -
  let ?p = "p\<lparr>po_calls := calls, po_messages := po_messages p\<rparr>" and ?q = "apply_turn k turn (p\<lparr>po_calls := calls\<rparr>)"
  have u: "unit_ok j u" using assms(1) k nth_mem [OF k(1)] by (auto simp: pool_ok_def)
  note ok = start_attempt_ok [OF turn u assms(4)] and c = start_attempt_calls [OF turn]
  note within = start_calls_within [OF turn]
  have w: "calls_within budget start (po_calls p)" using assms(1) by (simp add: pool_ok_def)
  have sums: "mset (pool_calls ?q) + mset (un_attempts u) = mset (pool_calls p) + mset (case turn of
      UnitCalls u' \<Rightarrow> worker_calls (WorkerBusy u') | UnitDone r \<Rightarrow> ur_attempts r | UnitCrashed \<Rightarrow> [])"
    using apply_turn_sums(1) [of k "p\<lparr>po_calls := calls\<rparr>" u turn] k assms(4) by (simp add: pool_calls_def)
  have "distinct (map de_sequence (pool_calls ?q))
      \<and> (\<forall>a \<in> set (pool_calls ?q). start < de_sequence a \<and> de_sequence a \<le> cp_sequence calls)"
  proof (cases turn)
    case (UnitCalls u')
    with ok obtain a where a: "worker_calls (WorkerBusy u') = un_attempts u @ [a]"
      "de_sequence a = Suc (cp_sequence (po_calls p))" by auto
    have m: "mset (pool_calls ?q) = mset (a # pool_calls p)"
      using sums unfolding UnitCalls unit_turn.case a(1) by simp
    then have "mset (map de_sequence (pool_calls ?q)) = mset (map de_sequence (a # pool_calls p))"
      by (metis mset_map)
    from mset_eq_imp_distinct_iff [OF this] mset_eq_setD [OF m] show ?thesis
      using assms(1) a(2) c UnitCalls by (fastforce simp: pool_ok_def calls_within_def)
  next
    case (UnitDone r)
    with sums ok have m: "mset (pool_calls ?q) = mset (pool_calls p)" by simp
    then have "mset (map de_sequence (pool_calls ?q)) = mset (map de_sequence (pool_calls p))"
      by (metis mset_map)
    from mset_eq_imp_distinct_iff [OF this] mset_eq_setD [OF m] show ?thesis
      using assms(1) c UnitDone by (auto simp: pool_ok_def)
  next
    case UnitCrashed
    with sums have eq: "mset (pool_calls p) = mset (pool_calls ?q) + mset (un_attempts u)" by simp
    then have "mset (map de_sequence (pool_calls p))
        = mset (map de_sequence (pool_calls ?q) @ map de_sequence (un_attempts u))" by simp
    from mset_eq_imp_distinct_iff [OF this] have "distinct (map de_sequence (pool_calls ?q))"
      using assms(1) by (simp add: pool_ok_def)
    moreover have "set (pool_calls ?q) \<subseteq> set (pool_calls p)"
      using arg_cong [OF eq, of set_mset] by auto
    ultimately show ?thesis using assms(1) c UnitCrashed by (auto simp: pool_ok_def)
  qed
  moreover have "case turn of UnitCalls u' \<Rightarrow> unit_ok j u' | UnitDone r \<Rightarrow> result_ok j r | UnitCrashed \<Rightarrow> True"
    using ok by (cases turn) auto
  ultimately show ?thesis
    using pool_ok_turn [OF assms(1) k, where turn = turn and calls = calls and ms = "po_messages p" and q = ?q]
      within w by simp
qed

lemma pool_ok_step_end:
  assumes "pool_ok j budget start p" and k: "k < length (po_workers p)" "po_workers p ! k = WorkerBusy u"
    and a: "un_current u = Some a" and turn: "end_attempt j kind now usage backoff reply a u = (turn, ms)"
  shows "pool_ok j budget start (apply_turn k turn (p\<lparr>po_messages := po_messages p @ ms\<rparr>))"
proof -
  let ?p = "p\<lparr>po_messages := po_messages p @ ms\<rparr>"
  let ?q = "apply_turn k turn ?p"
  have u: "unit_ok j u" using assms(1) k nth_mem [OF k(1)] by (auto simp: pool_ok_def)
  from end_attempt_ok(1) [OF turn u a] obtain a' where new:
    "de_sequence a' = de_sequence a"
    "case turn of UnitCalls u' \<Rightarrow> unit_ok j u' \<and> worker_calls (WorkerBusy u') = un_attempts u @ [a']
      | UnitDone r \<Rightarrow> result_ok j r \<and> ur_attempts r = un_attempts u @ [a'] | UnitCrashed \<Rightarrow> False"
    by fastforce
  have "mset (pool_calls ?q) + mset (un_attempts u @ [a]) = mset (pool_calls p) + mset (un_attempts u @ [a'])"
  proof -
    have "mset (case turn of UnitCalls u' \<Rightarrow> worker_calls (WorkerBusy u') | UnitDone r \<Rightarrow> ur_attempts r
        | UnitCrashed \<Rightarrow> []) = mset (un_attempts u @ [a'])"
      using new(2) by (cases turn) (simp_all del: worker_calls.simps)
    with apply_turn_sums(1) [of k ?p u turn] k a show ?thesis by (simp add: pool_calls_def)
  qed
  then have m: "add_mset a (mset (pool_calls ?q)) = add_mset a' (mset (pool_calls p))" by simp
  have "add_mset (de_sequence a) (image_mset de_sequence (mset (pool_calls ?q)))
      = add_mset (de_sequence a) (image_mset de_sequence (mset (pool_calls p)))"
    using arg_cong [OF m, of "image_mset de_sequence"] new(1) by simp
  then have "mset (map de_sequence (pool_calls ?q)) = mset (map de_sequence (pool_calls p))" by simp
  note seqs = mset_eq_imp_distinct_iff [OF this] mset_eq_setD [OF this]
  have "distinct (map de_sequence (pool_calls ?q))"
    using seqs(1) assms(1) by (simp add: pool_ok_def)
  moreover have "\<forall>n \<in> de_sequence ` set (pool_calls ?q). start < n \<and> n \<le> cp_sequence (po_calls p)"
    using seqs(2) assms(1) by (simp add: pool_ok_def)
  ultimately show ?thesis
    by (intro pool_ok_turn [OF assms(1) k, where turn = turn and calls = "po_calls p"
          and ms = "po_messages p @ ms"])
      (use new(2) assms(1) in \<open>cases turn; simp add: pool_ok_def\<close>)+
qed

lemma cancel_pool_sums:
  "pool_calls (cancel_pool p) = concat (map ur_attempts (po_results p))"
  "busy_workers (cancel_pool p) = 0"
  "length (filter (\<lambda>w. case w of WorkerBusy u \<Rightarrow> True | _ \<Rightarrow> False) (po_workers p)) = busy_workers p"
proof -
  have "concat (map f (map (\<lambda>_. WorkerEnded) ws)) = []" if "f WorkerEnded = []"
    for f :: "worker \<Rightarrow> 'x list" and ws :: "worker list"
    using that by (induction ws) auto
  then show "pool_calls (cancel_pool p) = concat (map ur_attempts (po_results p))"
    "busy_workers (cancel_pool p) = 0"
    by (simp_all add: cancel_pool_def pool_calls_def busy_workers_def del: map_map)
  have "length (filter (\<lambda>w. case w of WorkerBusy u \<Rightarrow> True | _ \<Rightarrow> False) ws)
      = length (concat (map worker_units ws))" for ws
  proof (induction ws)
    case (Cons w ws)
    then show ?case by (cases w) auto
  qed simp
  then show "length (filter (\<lambda>w. case w of WorkerBusy u \<Rightarrow> True | _ \<Rightarrow> False) (po_workers p)) = busy_workers p"
    by (simp add: busy_workers_def)
qed

lemma pool_ok_cancel: "pool_ok j budget start p \<Longrightarrow> pool_ok j budget start (cancel_pool p)"
  by (auto simp: pool_ok_def cancel_pool_sums) (auto simp: cancel_pool_def cancel_pool_sums pool_calls_def)

lemma pool_ok_step: "pool_step j kind p q \<Longrightarrow> pool_ok j budget start p \<Longrightarrow> pool_ok j budget start q"
  by (induction rule: pool_step.induct)
    (auto intro: pool_ok_take pool_ok_step_start pool_ok_step_end pool_ok_cancel)

lemma pool_ok_runs: "pool_runs j kind p q \<Longrightarrow> pool_ok j budget start p \<Longrightarrow> pool_ok j budget start q"
  by (induction rule: rtranclp_induct) (auto intro: pool_ok_step)

section \<open>What the pool guarantees\<close>

text \<open>
  C24: The attempts of concurrent units share one budget and one numbering. However the units
  interleave, the attempts made or awaited carry pairwise distinct numbers after those of the
  earlier calls of the node execution, and there are never more of them than the budget allows.
\<close>

theorem attempt_budget_respected:
  assumes "pool_runs j kind (start_pool j units \<lparr>cp_budget = budget, cp_sequence = n\<rparr>) p"
  shows "distinct (map de_sequence (pool_calls p))
     \<and> list_all (\<lambda>a. n < de_sequence a \<and> de_sequence a \<le> cp_sequence (po_calls p)) (pool_calls p)
     \<and> (\<forall>b. budget = Some b \<longrightarrow> cp_sequence (po_calls p) \<le> n + b \<and> length (pool_calls p) \<le> b)"
proof -
  have ok: "pool_ok j budget n p"
    using pool_ok_runs [OF assms] pool_ok_start [of j "\<lparr>cp_budget = budget, cp_sequence = n\<rparr>" units] by simp
  let ?s = "map de_sequence (pool_calls p)"
  have "length (pool_calls p) \<le> b" and "cp_sequence (po_calls p) \<le> n + b" if "budget = Some b" for b
  proof -
    show le: "cp_sequence (po_calls p) \<le> n + b" using ok that by (auto simp: pool_ok_def calls_within_def)
    have "set ?s \<subseteq> {n<..n + b}" using ok le by (auto simp: pool_ok_def)
    then have "card (set ?s) \<le> card {n<..n + b}" by (intro card_mono) simp_all
    moreover have "card (set ?s) = length (pool_calls p)"
      using ok distinct_card [of ?s] by (simp add: pool_ok_def)
    ultimately show "length (pool_calls p) \<le> b" by simp
  qed
  with ok show ?thesis by (auto simp: pool_ok_def list_all_iff)
qed

lemma workers_kept: "pool_runs j kind p q \<Longrightarrow> length (po_workers q) = length (po_workers p)"
proof (induction rule: rtranclp_induct)
  case (step q r)
  from step.hyps(2) have "length (po_workers r) = length (po_workers q)"
    by (induction rule: pool_step.induct)
      (auto simp: take_unit_def apply_turn_def cancel_pool_def split: list.splits prod.splits unit_turn.splits)
  with step.IH show ?case by simp
qed simp

lemma max_parallelism_pos: "1 \<le> max_parallelism j n"
  unfolding max_parallelism_def Let_def by (rule max.cobounded1)


text \<open>
  C25: Retry and fallback follow the policy. In every result the attempts try the operators in
  their order, each up to \<open>max_attempts\<close> times, with the reasons of first call, retry and
  fallback; only the last attempt may have completed, and then its output is the result's;
  otherwise all failed, and the error is that of the very last attempt possible or the
  budget's.
\<close>

theorem attempts_follow_policy:
  assumes "pool_runs j kind (start_pool j units calls) p"
  shows "list_all (result_ok j) (po_results p)"
  using pool_ok_runs [OF assms pool_ok_start] by (simp add: pool_ok_def list_all_iff)

text \<open>Without a failure no unit is lost or run twice.\<close>

definition units_kept :: "nat list \<Rightarrow> pool \<Rightarrow> bool" where
  "units_kept ks p \<longleftrightarrow> po_failed p \<or> po_crashed p
     \<or> mset (pool_units p) = mset ks \<and> (\<forall>r \<in> set (po_results p). ur_error r = None)
       \<and> (WorkerEnded \<in> set (po_workers p) \<longrightarrow> po_units p = [])"

lemma take_unit_frame:
  "po_failed (take_unit k p) = po_failed p" "po_crashed (take_unit k p) = po_crashed p"
  "po_results (take_unit k p) = po_results p"
  by (auto simp: take_unit_def split: list.splits prod.splits)

lemma units_kept_take:
  assumes "units_kept ks p" and "k < length (po_workers p)" and "po_workers p ! k = WorkerIdle"
  shows "units_kept ks (take_unit k p)"
proof -
  have "mset (pool_units (take_unit k p)) = mset (pool_units p)"
    using take_unit_Nil(2) [OF _ assms(2,3)] take_unit_Cons(2) [OF _ assms(2,3)]
    by (cases "po_units p") auto
  moreover have "WorkerEnded \<in> set (po_workers (take_unit k p)) \<Longrightarrow> po_units (take_unit k p) = []"
    if "WorkerEnded \<in> set (po_workers p) \<longrightarrow> po_units p = []"
    using that by (cases "po_units p") (auto simp: take_unit_def dest!: set_update_cases)
  ultimately show ?thesis using assms(1) by (auto simp: units_kept_def take_unit_frame)
qed

lemma units_kept_turn:
  assumes "units_kept ks p" and k: "k < length (po_workers p)" "po_workers p ! k = WorkerBusy u"
    and "case turn of UnitCalls u' \<Rightarrow> un_index u' = un_index u | UnitDone r \<Rightarrow> ur_index r = un_index u
       | UnitCrashed \<Rightarrow> True"
    and "q = p\<lparr>po_calls := calls, po_messages := ms\<rparr>"
  shows "units_kept ks (apply_turn k turn q)"
proof -
  have same: "po_workers q = po_workers p" "po_results q = po_results p" "po_failed q = po_failed p"
    "po_crashed q = po_crashed p" "po_units q = po_units p" "pool_units q = pool_units p"
    by (simp_all add: assms(5) pool_units_def)
  have "mset (pool_units (apply_turn k turn q)) = mset (pool_units p)" if "turn \<noteq> UnitCrashed"
    using apply_turn_sums(2) [of k q u turn] k assms(4) that by (cases turn) (simp_all add: same)
  then show ?thesis
    using assms(1) by (cases turn)
      (auto simp: units_kept_def apply_turn_def same dest!: set_update_cases split: if_splits)
qed

lemma units_kept_step:
  assumes "pool_step j kind p q" and "units_kept ks p" and "pool_ok j budget start p"
  shows "units_kept ks q"
  using assms
proof (induction rule: pool_step.induct)
  case (pool_take k p)
  then show ?case by (intro units_kept_take)
next
  case (pool_start k p u now uid turn calls)
  then have u: "unit_ok j u" using nth_mem [OF pool_start.hyps(1)] by (auto simp: pool_ok_def)
  have "case turn of UnitCalls u' \<Rightarrow> un_index u' = un_index u | UnitDone r \<Rightarrow> ur_index r = un_index u
      | UnitCrashed \<Rightarrow> True"
    using start_attempt_ok [OF pool_start.hyps(4) u pool_start.hyps(3)] by (cases turn) auto
  with pool_start show ?case
    by (intro units_kept_turn [where calls = calls and ms = "po_messages p"]) auto
next
  case (pool_end k p u a reply now usage backoff turn ms)
  then have u: "unit_ok j u" using nth_mem [OF pool_end.hyps(1)] by (auto simp: pool_ok_def)
  have "case turn of UnitCalls u' \<Rightarrow> un_index u' = un_index u | UnitDone r \<Rightarrow> ur_index r = un_index u
      | UnitCrashed \<Rightarrow> True"
    using end_attempt_ok(1) [OF pool_end.hyps(5) u pool_end.hyps(3)] by auto
  with pool_end show ?case
    by (intro units_kept_turn [where calls = "po_calls p" and ms = "po_messages p @ ms"]) auto
next
  case (pool_cancel p)
  then show ?case by (auto simp: units_kept_def cancel_pool_def)
qed

lemma units_kept_start: "units_kept (map fst units) (start_pool j units calls)"
  by (auto simp: units_kept_def start_pool_def pool_units_def)

lemma units_kept_runs:
  assumes "pool_runs j kind (start_pool j units calls) p"
  shows "units_kept (map fst units) p"
  using assms
proof (induction rule: rtranclp_induct)
  case (step p q)
  show ?case
    using units_kept_step [OF step.hyps(2) step.IH] pool_ok_runs [OF step.hyps(1) pool_ok_start] by blast
qed (rule units_kept_start)

lemma all_units_answered_raw:
  assumes "pool_runs j kind (start_pool j units calls) p" and "pool_ended p"
    and "\<not> po_failed p" and "\<not> po_crashed p"
  shows "mset (map ur_index (po_results p)) = mset (map fst units)
     \<and> list_all (\<lambda>r. ur_error r = None) (po_results p)
     \<and> map ur_index (sort_key ur_index (po_results p)) = sort (map fst units)"
proof -
  have kept: "mset (pool_units p) = mset (map fst units)" "\<forall>r \<in> set (po_results p). ur_error r = None"
    "WorkerEnded \<in> set (po_workers p) \<longrightarrow> po_units p = []"
    using units_kept_runs [OF assms(1)] assms(3,4) by (auto simp: units_kept_def)
  have ended: "concat (map worker_units (po_workers p)) = []"
    using assms(2) by (auto simp: pool_ended_def)
  have "po_units p = []"
  proof (cases "po_workers p = []")
    case True
    then have "length units = 0"
      using workers_kept [OF assms(1)] max_parallelism_pos [of j "length units"]
      by (auto simp: start_pool_def min_def split: if_splits)
    with kept(1) show ?thesis by (simp add: pool_units_def)
  next
    case False
    then have "WorkerEnded \<in> set (po_workers p)" using assms(2) by (cases "po_workers p") (auto simp: pool_ended_def)
    with kept(3) show ?thesis by simp
  qed
  with kept(1) ended have m: "mset (map ur_index (po_results p)) = mset (map fst units)"
    by (simp add: pool_units_def)
  moreover have "map ur_index (sort_key ur_index (po_results p)) = sort (map ur_index (po_results p))"
    by (rule properties_for_sort [symmetric]) simp_all
  moreover have "sort (map ur_index (po_results p)) = sort (map fst units)"
    using m by (intro properties_for_sort) simp_all
  ultimately show ?thesis using kept(2) by (simp add: list_all_iff)
qed

text \<open>
  C28: Every unit is answered exactly once. When all workers have ended and no unit failed, there
  is one successful result for each unit, whatever the order in which they finished; sorted by
  their indexes they are the results of all units in the order of the items.
\<close>

theorem all_units_answered:
  assumes "pool_runs j kind (start_pool j units calls) p" and "pool_ended p"
    and "\<not> po_failed p" and "\<not> po_crashed p"
  shows "mset (map ur_index (po_results p)) = mset (map fst units)
     \<and> list_all (\<lambda>r. ur_error r = None) (po_results p)
     \<and> map ur_index (sort_key ur_index (po_results p)) = sort (map fst units)"
  by (rule all_units_answered_raw [OF assms])

section \<open>The pool ends\<close>

fun worker_weight :: "resolved_job \<Rightarrow> worker \<Rightarrow> nat" where
  "worker_weight j WorkerEnded = 0"
| "worker_weight j WorkerIdle = 1"
| "worker_weight j (WorkerBusy u) =
     2 + 2 * (total_attempts j - length (un_attempts u)) + (if un_current u = None then 1 else 0)"

definition pool_weight :: "resolved_job \<Rightarrow> pool \<Rightarrow> nat" where
  "pool_weight j p = sum_list (map (worker_weight j) (po_workers p))
     + length (po_units p) * (2 * total_attempts j + 3)"

lemma pool_weight_turn:
  assumes k: "k < length (po_workers p)" "po_workers p ! k = WorkerBusy u"
    and "case turn of UnitCalls u' \<Rightarrow> worker_weight j (WorkerBusy u') < worker_weight j (WorkerBusy u)
       | _ \<Rightarrow> True"
  shows "pool_weight j (apply_turn k turn p) < pool_weight j p"
proof -
  have s: "sum_list (map (worker_weight j) ((po_workers p)[k := y])) + worker_weight j (WorkerBusy u)
      = sum_list (map (worker_weight j) (po_workers p)) + worker_weight j y" for y
    using sum_update [OF k(1), of "worker_weight j" y] by (simp only: k(2))
  show ?thesis
  proof (cases turn)
    case (UnitCalls u')
    with s [of "WorkerBusy u'"] assms(3) show ?thesis
      by (simp add: pool_weight_def apply_turn_def del: worker_weight.simps)
  next
    case (UnitDone r)
    have "sum_list (map (worker_weight j) ((po_workers p)[k := if ur_error r = None then WorkerIdle else WorkerEnded]))
        < sum_list (map (worker_weight j) (po_workers p))"
      using s [of "if ur_error r = None then WorkerIdle else WorkerEnded"] by (simp split: if_splits)
    with UnitDone show ?thesis by (simp add: pool_weight_def apply_turn_def)
  next
    case UnitCrashed
    with s [of WorkerEnded] show ?thesis by (simp add: pool_weight_def apply_turn_def)
  qed
qed

lemma pool_weight_take:
  assumes "k < length (po_workers p)" and "po_workers p ! k = WorkerIdle"
  shows "pool_weight j (take_unit k p) < pool_weight j p"
proof -
  have s: "sum_list (map (worker_weight j) ((po_workers p)[k := y])) + 1
      = sum_list (map (worker_weight j) (po_workers p)) + worker_weight j y" for y
    using sum_update [OF assms(1), of "worker_weight j" y] by (simp add: assms(2))
  show ?thesis
  proof (cases "po_units p")
    case Nil
    with s [of WorkerEnded] show ?thesis by (simp add: pool_weight_def take_unit_def)
  next
    case (Cons x rest)
    obtain i inp where "x = (i, inp)" by force
    with Cons s [of "WorkerBusy (new_unit i inp)"] show ?thesis
      by (simp add: pool_weight_def take_unit_def new_unit_def)
  qed
qed

lemma pool_weight_cancel:
  assumes "\<exists>w \<in> set (po_workers p). w \<noteq> WorkerEnded"
  shows "pool_weight j (cancel_pool p) < pool_weight j p"
proof -
  from assms obtain w where w: "w \<in> set (po_workers p)" "w \<noteq> WorkerEnded" by blast
  have "0 < worker_weight j w" using w(2) by (cases w) auto
  with w(1) have "0 < sum_list (map (worker_weight j) (po_workers p))"
    by (metis gr0I image_eqI list.set_map sum_list_eq_0_iff)
  moreover have z: "sum_list (map (worker_weight j \<circ> (\<lambda>_. WorkerEnded)) ws) = 0" for ws :: "worker list"
    by (induction ws) simp_all
  ultimately show ?thesis by (simp add: pool_weight_def cancel_pool_def z)
qed

lemma pool_step_weight:
  assumes "pool_step j kind p q" and "pool_ok j budget start p"
  shows "pool_weight j q < pool_weight j p"
  using assms
proof (induction rule: pool_step.induct)
  case (pool_take k p)
  then show ?case by (intro pool_weight_take)
next
  case (pool_start k p u now uid turn calls)
  then have u: "unit_ok j u" using nth_mem [OF pool_start.hyps(1)] by (auto simp: pool_ok_def)
  have "pool_weight j (apply_turn k turn (p\<lparr>po_calls := calls\<rparr>)) < pool_weight j (p\<lparr>po_calls := calls\<rparr>)"
    using pool_start.hyps start_attempt_ok [OF pool_start.hyps(4) u pool_start.hyps(3)]
    by (intro pool_weight_turn [where u = u]) (auto split: unit_turn.splits)
  then show ?case by (simp add: pool_weight_def)
next
  case (pool_end k p u a reply now usage backoff turn ms)
  then have u: "unit_ok j u" using nth_mem [OF pool_end.hyps(1)] by (auto simp: pool_ok_def)
  note e = end_attempt_ok [OF pool_end.hyps(5) u pool_end.hyps(3)]
  have "pool_weight j (apply_turn k turn (p\<lparr>po_messages := po_messages p @ ms\<rparr>))
      < pool_weight j (p\<lparr>po_messages := po_messages p @ ms\<rparr>)"
    using pool_end.hyps e by (intro pool_weight_turn [where u = u]) auto
  then show ?case by (simp add: pool_weight_def)
next
  case (pool_cancel p)
  then show ?case by (intro pool_weight_cancel)
qed

lemma pool_progress:
  assumes "\<not> pool_ended p"
  shows "\<exists>q. pool_step j kind p q"
proof -
  from assms obtain k where k: "k < length (po_workers p)" "po_workers p ! k \<noteq> WorkerEnded"
    by (metis in_set_conv_nth pool_ended_def)
  show ?thesis
  proof (cases "po_workers p ! k")
    case WorkerIdle
    with k show ?thesis by (blast intro: pool_take)
  next
    case (WorkerBusy u)
    show ?thesis
    proof (cases "un_current u")
      case None
      with k WorkerBusy show ?thesis by (metis pool_start surj_pair)
    next
      case (Some a)
      have "reply_possible (job.truncate j) (HandlerReturned PyNone)" by (simp add: reply_possible_def)
      with k WorkerBusy Some show ?thesis by (metis pool_end surj_pair)
    qed
  next
    case WorkerEnded
    with k show ?thesis by simp
  qed
qed

text \<open>
  C27: The execution of the units ends. Whatever the operators reply and however the workers
  interleave, the pool makes at most as many steps as its workers and the attempts of all units
  allow, and as long as some worker has not ended another step is possible.
\<close>

theorem pool_terminates:
  assumes "(pool_step j kind ^^ n) (start_pool j units calls) p"
  shows "n \<le> length units * (2 * (length (rj_operators j) * nat (max_attempts j)) + 4)
     \<and> (\<not> pool_ended p \<longrightarrow> (\<exists>q. pool_step j kind p q))"
proof -
  let ?p0 = "start_pool j units calls"
  have "n + pool_weight j p \<le> pool_weight j ?p0"
    using assms
  proof (induction n arbitrary: p)
    case (Suc n)
    then obtain q where q: "(pool_step j kind ^^ n) ?p0 q" "pool_step j kind q p" by (auto elim: relpowp_Suc_E)
    have "pool_ok j (cp_budget calls) (cp_sequence calls) q"
      by (rule pool_ok_runs [OF relpowp_imp_rtranclp [OF q(1)] pool_ok_start])
    from pool_step_weight [OF q(2) this] Suc.IH [OF q(1)] show ?case by simp
  qed simp
  moreover have "sum_list (map (worker_weight j) (replicate k WorkerIdle)) = k" for k
    by (induction k) simp_all
  then have "pool_weight j ?p0 \<le> length units + length units * (2 * total_attempts j + 3)"
    by (simp add: pool_weight_def start_pool_def)
  ultimately have "n \<le> length units * (2 * total_attempts j + 4)" by (simp add: algebra_simps)
  then show ?thesis using pool_progress by (auto simp: total_attempts_def)
qed

section \<open>A concrete pool\<close>

text \<open>Two items, an operator tried twice, at most three calls.\<close>

definition pool_operator :: operator where
  "pool_operator = \<lparr>op_id = ''f'', op_capability_id = None, op_priority = 0, op_enabled = True,
     op_is_async = True, op_output_contract = (\<lambda>_. None)\<rparr>"

definition pool_node :: node_ir where
  "pool_node = \<lparr>nd_id = ''n'', nd_local_id = None, nd_scope_node_ids = [], nd_workflow_path = [],
     nd_capability = BindCallable pool_operator, nd_parameters = [], nd_input_contract = Inr,
     nd_input_schema = PyNone, nd_operator_output_contract = (\<lambda>_. None), nd_output_contract = (\<lambda>_. None),
     nd_input_plan = None, nd_output_binding = None,
     nd_policy = Some \<lparr>np_selection = None, np_retry = Some \<lparr>rt_max_attempts = 2, rt_backoff = None\<rparr>,
       np_recovery = None, np_timeout_ms = None, np_resource = None, np_replication = None,
       np_max_concurrency = None\<rparr>,
     nd_stream_mappings = [], nd_event_stream = None, nd_entry = True, nd_exit = True\<rparr>"

definition pool_job :: resolved_job where
  "pool_job = \<lparr>job_node = pool_node,
     job_execution = fst (create_node_execution 0 (mk_request ''n'' [] [] None None 0) PyNone
       (new_invocation 0 ''w'' None ''n'' [] EvStandard)),
     job_input = PyList [PyDict [], PyDict []], job_max_operator_attempts = Some 3,
     job_map_policy = Some \<lparr>mp_item_selector = None, mp_output_aggregator = None, mp_max_parallelism = None\<rparr>,
     job_concurrency_key = None, job_recovery = False, job_hook_context = None,
     job_event_mode = EvStandard, rj_operators = [pool_operator], rj_max_parallel_units = 8\<rparr>"

datatype pool_action = TakeUnit nat | StartAttempt nat | EndAttempt nat handler_reply

fun pool_act :: "pool_action \<Rightarrow> pool \<Rightarrow> pool option" where
  "pool_act (TakeUnit k) p =
     (if k < length (po_workers p) \<and> po_workers p ! k = WorkerIdle then Some (take_unit k p) else None)"
| "pool_act (StartAttempt k) p =
     (if k < length (po_workers p) then case po_workers p ! k of
        WorkerBusy u \<Rightarrow> if un_current u = None
          then let (turn, calls) = start_attempt pool_job 0 k u (po_calls p)
               in Some (apply_turn k turn (p\<lparr>po_calls := calls\<rparr>))
          else None
      | _ \<Rightarrow> None else None)"
| "pool_act (EndAttempt k reply) p =
     (if k < length (po_workers p) then case po_workers p ! k of
        WorkerBusy u \<Rightarrow> (case un_current u of
            Some a \<Rightarrow> if reply_possible (job.truncate pool_job) reply
              then let (turn, ms) = end_attempt pool_job UnitMapItem 0 no_usage 0 reply a u
                   in Some (apply_turn k turn (p\<lparr>po_messages := po_messages p @ ms\<rparr>))
              else None
          | None \<Rightarrow> None)
      | _ \<Rightarrow> None else None)"

fun pool_play :: "pool_action list \<Rightarrow> pool \<Rightarrow> pool option" where
  "pool_play [] p = Some p"
| "pool_play (a # as) p = (case pool_act a p of None \<Rightarrow> None | Some q \<Rightarrow> pool_play as q)"

lemma pool_act_step: "pool_act a p = Some q \<Longrightarrow> pool_step pool_job UnitMapItem p q"
  by (cases a) (auto split: if_splits worker.splits option.splits prod.splits
      intro: pool_take pool_start pool_end)

lemma pool_play_runs:
  "pool_play as p = Some q \<Longrightarrow> (pool_step pool_job UnitMapItem ^^ length as) p q"
proof (induction as arbitrary: p)
  case (Cons a as)
  then obtain r where "pool_act a p = Some r" "pool_play as r = Some q" by (auto split: option.splits)
  with Cons.IH pool_act_step have "pool_step pool_job UnitMapItem p r"
    "(pool_step pool_job UnitMapItem ^^ length as) r q" by blast+
  then show ?case unfolding length_Cons by (rule relpowp_Suc_I2)
qed simp

definition pool_begin :: pool where
  "pool_begin = start_pool pool_job [(0, []), (1, [])] \<lparr>cp_budget = Some 3, cp_sequence = 0\<rparr>"

text \<open>The second item answers first; the first item's call fails and is repeated.\<close>

definition pool_script :: "pool_action list" where
  "pool_script = [TakeUnit 0, TakeUnit 1, StartAttempt 0, StartAttempt 1,
     EndAttempt 1 (HandlerReturned (PyInt 11)), EndAttempt 0 (HandlerRaised (UserExn ''E'' ''boom'')),
     StartAttempt 0, EndAttempt 0 (HandlerReturned (PyInt 10)), TakeUnit 1, TakeUnit 0]"

definition pool_finished :: pool where
  "pool_finished = the (pool_play pool_script pool_begin)"

lemma pool_finished_steps: "(pool_step pool_job UnitMapItem ^^ 10) pool_begin pool_finished"
proof -
  have "pool_play pool_script pool_begin \<noteq> None" by code_simp
  then have "pool_play pool_script pool_begin = Some pool_finished" by (auto simp: pool_finished_def)
  from pool_play_runs [OF this] have "(pool_step pool_job UnitMapItem ^^ length pool_script) pool_begin pool_finished" .
  moreover have "length pool_script = 10" by (simp add: pool_script_def)
  ultimately show ?thesis by (simp only:)
qed

lemmas pool_finished_runs = relpowp_imp_rtranclp [OF pool_finished_steps]

theorem attempt_budget_respected_witness:
  "length (pool_calls pool_finished) \<le> 3 \<and> map de_sequence (pool_calls pool_finished) = [2, 1, 3]"
proof -
  have "length (pool_calls pool_finished) \<le> 3"
    using attempt_budget_respected [OF pool_finished_runs [unfolded pool_begin_def]] by simp
  moreover have "map de_sequence (pool_calls pool_finished) = [2, 1, 3]" by code_simp
  ultimately show ?thesis by simp
qed


theorem attempts_follow_policy_witness:
  "list_all (result_ok pool_job) (po_results pool_finished)
   \<and> map (\<lambda>r. map de_reason (ur_attempts r)) (po_results pool_finished)
       = [[ReasonNormal], [ReasonNormal, ReasonRetry]]"
proof -
  have "map (\<lambda>r. map de_reason (ur_attempts r)) (po_results pool_finished)
       = [[ReasonNormal], [ReasonNormal, ReasonRetry]]" by code_simp
  with attempts_follow_policy [OF pool_finished_runs [unfolded pool_begin_def]] show ?thesis by simp
qed

theorem all_units_answered_witness:
  "map ur_index (sort_key ur_index (po_results pool_finished)) = [0, 1]
   \<and> map ur_index (po_results pool_finished) = [1, 0]"
proof -
  have "pool_ended pool_finished" by code_simp
  moreover have "\<not> po_failed pool_finished" "\<not> po_crashed pool_finished" by code_simp+
  ultimately have "map ur_index (sort_key ur_index (po_results pool_finished))
      = sort (map fst [(0::nat, [] :: pyval dict), (1, [])])"
    using all_units_answered [OF pool_finished_runs [unfolded pool_begin_def]] by blast
  moreover have "map ur_index (po_results pool_finished) = [1, 0]" by code_simp
  ultimately show ?thesis by simp
qed

theorem pool_terminates_witness:
  "(10::nat) \<le> 16 \<and> (\<exists>q. pool_step pool_job UnitMapItem pool_begin q)"
proof -
  have "(pool_step pool_job UnitMapItem ^^ 0) pool_begin pool_begin" by simp
  from pool_terminates [OF this [unfolded pool_begin_def]]
  have "\<not> pool_ended pool_begin \<longrightarrow> (\<exists>q. pool_step pool_job UnitMapItem pool_begin q)"
    by (simp add: pool_begin_def)
  moreover have "\<not> pool_ended pool_begin" by code_simp
  moreover have "(10::nat) \<le> length [(0::nat, [] :: pyval dict), (1, [])]
      * (2 * (length (rj_operators pool_job) * nat (max_attempts pool_job)) + 4)"
    using pool_terminates [OF pool_finished_steps [unfolded pool_begin_def]] by blast
  then have "(10::nat) \<le> 16"
    by (simp add: pool_job_def max_attempts_def pool_node_def)
  ultimately show ?thesis by blast
qed

end
