(* ===== verification/Node_Aggregation.thy ===== *)
theory Node_Aggregation
  imports Node_Pool
begin

text \<open>
  From the results of the units to the result of the node: \<open>_aggregate_unit_results\<close>,
  \<open>_parallel_execution\<close> and the whole of a worker task, \<open>_execute_job_with_slot\<close> with
  \<open>_task_result\<close>, of \<open>core/executor/node_executor.py\<close>. The elapsed time of the operators is an
  argument.
\<close>

section \<open>The summary of a map or replication\<close>

definition summary_failures :: "direct_execution list \<Rightarrow> failure_sample list" where
  "summary_failures attempts = take 8 (List.map_filter
     (\<lambda>a. case de_error a of None \<Rightarrow> None
        | Some e \<Rightarrow> Some \<lparr>fs_code = err_code e, fs_message = err_message e, fs_operator_id = de_operator_id a\<rparr>)
     attempts)"

definition unit_succeeded :: "unit_result \<Rightarrow> bool" where
  "unit_succeeded r \<longleftrightarrow> ur_error r = None"

definition parallel_summary_of ::
  "direct_execution list \<Rightarrow> unit_result list \<Rightarrow> nat \<Rightarrow> nat \<Rightarrow> parallel_summary" where
  "parallel_summary_of attempts results unit_count peak =
     (let durations = map (duration_ns \<circ> de_usage) attempts;
          completed = length (filter unit_succeeded results);
          failed = length (filter (\<lambda>r. \<not> unit_succeeded r) results)
      in \<lparr>ps_call_count = unit_count, ps_attempt_count = length attempts, ps_success_count = completed,
          ps_failure_count = failed, ps_cancelled_count = unit_count - completed - failed,
          ps_retry_count = length (filter (\<lambda>a. de_reason a = ReasonRetry) attempts),
          ps_fallback_count = length (filter (\<lambda>a. de_reason a = ReasonFallback) attempts),
          ps_total_duration_ns = sum_list durations,
          ps_min_duration_ns = (if durations = [] then None else Some (Min (set durations))),
          ps_max_duration_ns = (if durations = [] then None else Some (Max (set durations))),
          ps_peak_parallelism = peak,
          ps_streaming_call_count = length (filter de_streaming attempts),
          ps_stream_chunk_count = sum_list (map de_stream_chunk_count attempts),
          ps_stream_consumption_ns = sum_list (map (stream_consumption_ns \<circ> de_usage) attempts),
          ps_stream_reduction_ns = sum_list (map (stream_reduction_ns \<circ> de_usage) attempts),
          ps_failure_samples = summary_failures attempts\<rparr>)"

definition attempt_end :: "direct_execution \<Rightarrow> int" where
  "attempt_end a = (case de_ended_at_ms a of Some t \<Rightarrow> if t = 0 then de_started_at_ms a else t
     | None \<Rightarrow> de_started_at_ms a)"

definition least_or :: "int \<Rightarrow> int list \<Rightarrow> int" where
  "least_or d xs = (if xs = [] then d else Min (set xs))"

definition greatest_or :: "int \<Rightarrow> int list \<Rightarrow> int" where
  "greatest_or d xs = (if xs = [] then d else Max (set xs))"

definition parallel_execution_of ::
  "uuid \<Rightarrow> int \<Rightarrow> unit_kind \<Rightarrow> direct_execution list \<Rightarrow> unit_result list \<Rightarrow> nat \<Rightarrow> nat \<Rightarrow> parallel_execution" where
  "parallel_execution_of uid now kind attempts results unit_count peak =
     (let started = least_or now (map de_started_at_ms attempts)
      in \<lparr>pe_kind = (if kind = UnitMapItem then KindMap else KindReplication),
          pe_summary = parallel_summary_of attempts results unit_count peak,
          pe_operator_ids = uniq_first (map de_operator_id attempts), pe_id = uid, pe_state = OpRunning,
          pe_error = None, pe_started_at_ms = started,
          pe_ended_at_ms = Some (greatest_or started (map attempt_end attempts))\<rparr>)"

section \<open>The result of the node\<close>

definition map_aggregation_context :: "resolved_job \<Rightarrow> hook_context \<Rightarrow> pyval list \<Rightarrow> aggregation_context" where
  "map_aggregation_context j c outs =
     hook_context.extend c \<lparr>ag_node_id = str_or (nd_local_id (job_node j)) (nd_id (job_node j)), ag_outputs = outs\<rparr>"

definition replication_aggregation_context ::
  "resolved_job \<Rightarrow> hook_context \<Rightarrow> pyval list \<Rightarrow> aggregation_context" where
  "replication_aggregation_context j c outs =
     hook_context.extend c \<lparr>ag_node_id = str_or (nd_local_id (job_node j)) (nd_id (job_node j)), ag_outputs = outs\<rparr>"

definition custom_aggregator ::
  "resolved_job \<Rightarrow> unit_kind \<Rightarrow> (aggregation_context \<Rightarrow> user_exn + pyval) option" where
  "custom_aggregator j kind =
     (case kind of
        UnitMapItem \<Rightarrow> (case job_map_policy j of None \<Rightarrow> None | Some mp \<Rightarrow> mp_output_aggregator mp)
      | UnitReplica \<Rightarrow> (case job_replication j of None \<Rightarrow> None | Some rp \<Rightarrow> rp_output_aggregator rp)
      | UnitNormal \<Rightarrow> None)"

definition aggregate_outputs :: "resolved_job \<Rightarrow> unit_kind \<Rightarrow> pyval list \<Rightarrow> user_exn + pyval" where
  "aggregate_outputs j kind outs =
     (case custom_aggregator j kind of
        Some f \<Rightarrow> (case require_hook_context j of
            Inl e \<Rightarrow> Inl e
          | Inr c \<Rightarrow> f (if kind = UnitMapItem then map_aggregation_context j c outs
                        else replication_aggregation_context j c outs))
      | None \<Rightarrow> Inr (if kind = UnitNormal then outs ! 0 else PyList outs))"

text \<open>The text the final contract reports starts with its schema.\<close>

definition validate_final_output :: "resolved_job \<Rightarrow> pyval \<Rightarrow> string option" where
  "validate_final_output j out =
     (case nd_output_contract (job_node j) out of
        None \<Rightarrow> None
      | Some e \<Rightarrow> Some (''Node '' @ nd_id (job_node j) @ '' output does not satisfy final contract ''
          @ exn_message e))"

text \<open>The output, or the code, message and type of the error.\<close>

definition final_output :: "resolved_job \<Rightarrow> unit_kind \<Rightarrow> pyval list \<Rightarrow> (string \<times> string \<times> string) + pyval" where
  "final_output j kind outs =
     (case aggregate_outputs j kind outs of
        Inl e \<Rightarrow> Inl (''OUTPUT_AGGREGATION_FAILED'', exn_message e, exn_type e)
      | Inr v \<Rightarrow> (case validate_final_output j v of
            Some msg \<Rightarrow> Inl (''NODE_OUTPUT_INVALID'', msg, ''_NodeOutputInvalid'')
          | None \<Rightarrow> Inr v))"

definition aggregation_phase :: "resolved_job \<Rightarrow> unit_kind \<Rightarrow> pyval list \<Rightarrow> pyval option \<Rightarrow> node_message list" where
  "aggregation_phase j kind outs out =
     (if custom_aggregator j kind \<noteq> None \<and> job_event_mode j = EvFull
      then publish_phase j \<lparr>ph_name = ''aggregation.completed'',
             ph_status = (case out of None \<Rightarrow> ''failed'' | Some v \<Rightarrow> ''completed''), ph_input = PyList outs,
             ph_output = (case out of None \<Rightarrow> PyNone | Some v \<Rightarrow> v)\<rparr>
      else [])"

definition job_failed_result :: "resolved_job \<Rightarrow> runtime_error_info \<Rightarrow> node_result" where
  "job_failed_result j e = mk_result (job_id (job.truncate j)) NodeFailed PyNone (Some e)"

definition usage_of_attempts :: "nat \<Rightarrow> direct_execution list \<Rightarrow> unit_result list \<Rightarrow> resource_usage" where
  "usage_of_attempts elapsed attempts results =
     \<lparr>duration_ns = elapsed, execution_ns = sum_list (map (execution_ns \<circ> de_usage) attempts),
      concurrency_wait_ns = 0,
      thread_pool_queue_ns = sum_list (map (thread_pool_queue_ns \<circ> de_usage) attempts),
      retry_backoff_ns = sum_list (map ur_backoff_ns results),
      stream_consumption_ns = sum_list (map (stream_consumption_ns \<circ> de_usage) attempts),
      stream_reduction_ns = sum_list (map (stream_reduction_ns \<circ> de_usage) attempts)\<rparr>"

definition aggregate_unit_results ::
  "resolved_job \<Rightarrow> uuid \<Rightarrow> int \<Rightarrow> nat \<Rightarrow> unit_kind \<Rightarrow> nat \<Rightarrow> nat \<Rightarrow> unit_result list
   \<Rightarrow> node_result \<times> node_message list" where
  "aggregate_unit_results j uid now elapsed kind unit_count peak results0 =
     (let results = sort_key ur_index results0;
          attempts = sort_key de_sequence (concat (map ur_attempts results));
          usage = usage_of_attempts elapsed attempts results;
          parallel = kind \<noteq> UnitNormal;
          pe = parallel_execution_of uid now kind attempts results unit_count peak;
          finished = (\<lambda>r pe. r\<lparr>nr_usage := usage,
             nr_operator_executions := (if parallel then [Parallel pe] else map Direct attempts)\<rparr>)
      in case find (\<lambda>r. ur_error r \<noteq> None) results of
           Some failed \<Rightarrow>
             (let e = the (ur_error failed);
                  pe' = pe\<lparr>pe_state := OpFailed, pe_error := Some e,
                    pe_ended_at_ms := Some (greatest_or (pe_started_at_ms pe) (map attempt_end attempts))\<rparr>
              in (finished (job_failed_result j e) pe',
                  if parallel then publish_operator_call j (Parallel pe') else []))
         | None \<Rightarrow>
             (let pe' = pe\<lparr>pe_state := OpCompleted\<rparr>;
                  ms = (if parallel then publish_operator_call j (Parallel pe') else []);
                  outs = map ur_output results
              in case final_output j kind outs of
                   Inl (code, msg, ty) \<Rightarrow>
                     (finished (job_failed_result j (mk_error code msg
                        [(''node_id'', PyStr (nd_id (job_node j))), (''error_type'', PyStr ty)])) pe',
                      ms @ aggregation_phase j kind outs None)
                 | Inr v \<Rightarrow>
                     (finished (mk_result (job_id (job.truncate j)) NodeCompleted v None) pe',
                      ms @ aggregation_phase j kind outs (Some v))))"

section \<open>A worker task\<close>

definition call_sequence_start :: "resolved_job \<Rightarrow> nat" where
  "call_sequence_start j = sum_list (map attempt_count (ne_operator_executions (job_execution j)))"

definition executor_failed :: "resolved_job \<Rightarrow> string \<Rightarrow> node_result" where
  "executor_failed j msg = job_failed_result j (mk_error ''NODE_EXECUTOR_FAILED'' msg [])"

definition task_cancelled :: "resolved_job \<Rightarrow> node_result" where
  "task_cancelled j = mk_result (job_id (job.truncate j)) NodeCancelled PyNone
     (Some (mk_error ''NODE_EXECUTION_CANCELLED'' ''Node execution task was cancelled.'' []))"

text \<open>
  The results a task can end with, together with the progress it published: the units cannot be
  prepared, their inputs are invalid, they were executed, or the task was cancelled or raised.
\<close>

inductive job_result :: "resolved_job \<Rightarrow> node_result \<Rightarrow> node_message list \<Rightarrow> bool" for j where
  result_unprepared: "prepare_units j = Inr pu \<Longrightarrow> pu_error pu = Some e \<Longrightarrow>
    job_result j (job_failed_result j e) (pu_messages pu)"
| result_invalid: "prepare_units j = Inr pu \<Longrightarrow> pu_error pu = None \<Longrightarrow>
    validate_unit_inputs j (pu_units pu) = Inl e \<Longrightarrow> job_result j (job_failed_result j e) (pu_messages pu)"
| result_executed: "prepare_units j = Inr pu \<Longrightarrow> pu_error pu = None \<Longrightarrow>
    validate_unit_inputs j (pu_units pu) = Inr units \<Longrightarrow>
    pool_runs j (pu_kind pu) (start_pool j units
      \<lparr>cp_budget = job_max_operator_attempts j, cp_sequence = call_sequence_start j\<rparr>) p \<Longrightarrow>
    pool_ended p \<Longrightarrow> \<not> po_crashed p \<Longrightarrow>
    aggregate_unit_results j uid now elapsed (pu_kind pu) (length units) (po_peak p) (po_results p) = (r, ms) \<Longrightarrow>
    job_result j r (pu_messages pu @ po_messages p @ ms)"
| result_crashed: "prepare_units j = Inr pu \<Longrightarrow> pu_error pu = None \<Longrightarrow>
    validate_unit_inputs j (pu_units pu) = Inr units \<Longrightarrow>
    pool_runs j (pu_kind pu) (start_pool j units
      \<lparr>cp_budget = job_max_operator_attempts j, cp_sequence = call_sequence_start j\<rparr>) p \<Longrightarrow>
    pool_ended p \<Longrightarrow> po_crashed p \<Longrightarrow>
    job_result j (executor_failed j ''list index out of range'') (pu_messages pu @ po_messages p)"
| result_raised: "prepare_units j = Inl (TypeError msg) \<Longrightarrow> job_result j (executor_failed j msg) []"
| result_cancelled: "job_result j (task_cancelled j) ms"

inductive_cases job_resultE: "job_result j r ms"

lemma mk_result_fields [simp]:
  "nr_state (mk_result u st out err) = st" "nr_output (mk_result u st out err) = out"
  "nr_error (mk_result u st out err) = err" "nr_operator_executions (mk_result u st out err) = []"
  by (simp_all add: mk_result_def)

lemma job_failed_result_fields [simp]:
  "nr_execution_id (job_failed_result j e) = job_id (job.truncate j)"
  "nr_state (job_failed_result j e) = NodeFailed" "nr_error (job_failed_result j e) = Some e"
  by (simp_all add: job_failed_result_def)

lemma aggregate_fields:
  assumes "aggregate_unit_results j uid now elapsed kind n peak results = (r, ms)"
  shows "nr_execution_id r = job_id (job.truncate j)"
    "nr_state r = NodeCompleted \<and> nr_error r = None \<or> nr_state r = NodeFailed \<and> nr_error r \<noteq> None"
  using assms by (auto simp: aggregate_unit_results_def Let_def split: option.splits sum.splits)

text \<open>
  C31: A worker task answers for its own execution, and its state and error agree: it completes
  without an error, or it fails or is cancelled with one. It never answers with a wait or any
  other state, whatever the hooks, contracts, operators and interleavings do.
\<close>

theorem job_result_answers:
  assumes "job_result j r ms"
  shows "nr_execution_id r = ne_id (job_execution j)
     \<and> (nr_state r = NodeCompleted \<and> nr_error r = None
        \<or> nr_state r \<in> {NodeFailed, NodeCancelled} \<and> nr_error r \<noteq> None)"
  using assms
  by (cases rule: job_resultE)
    (auto dest: aggregate_fields simp: executor_failed_def task_cancelled_def job.truncate_def)

section \<open>Outputs in the order of the items\<close>

text \<open>Which input the attempts of a unit are made with.\<close>

definition worker_input :: "(nat \<times> pyval dict) list \<Rightarrow> worker \<Rightarrow> bool" where
  "worker_input units w \<longleftrightarrow> (\<forall>u. w = WorkerBusy u \<longrightarrow> (un_index u, un_input u) \<in> set units
     \<and> (\<forall>a \<in> set (worker_calls w). de_input a = PyDict (un_input u)))"

definition result_input :: "(nat \<times> pyval dict) list \<Rightarrow> unit_result \<Rightarrow> bool" where
  "result_input units r \<longleftrightarrow> (\<exists>inp. (ur_index r, inp) \<in> set units
     \<and> (\<forall>a \<in> set (ur_attempts r). de_input a = PyDict inp))"

definition inputs_kept :: "(nat \<times> pyval dict) list \<Rightarrow> pool \<Rightarrow> bool" where
  "inputs_kept units p \<longleftrightarrow> set (po_units p) \<subseteq> set units
     \<and> (\<forall>w \<in> set (po_workers p). worker_input units w) \<and> (\<forall>r \<in> set (po_results p). result_input units r)"

lemma worker_input_simps [simp]: "worker_input units WorkerIdle" "worker_input units WorkerEnded"
  by (simp_all add: worker_input_def)

lemma start_attempt_inputs:
  assumes "start_attempt j now uid u p = (turn, p')" and "un_current u = None"
  shows "case turn of
      UnitCalls u' \<Rightarrow> un_index u' = un_index u \<and> un_input u' = un_input u
        \<and> (\<exists>a. worker_calls (WorkerBusy u') = worker_calls (WorkerBusy u) @ [a] \<and> de_input a = PyDict (un_input u))
    | UnitDone r \<Rightarrow> ur_index r = un_index u \<and> ur_attempts r = worker_calls (WorkerBusy u)
    | UnitCrashed \<Rightarrow> True"
  using assms by (auto simp: start_attempt_def unit_done_def next_call_def new_direct_def Let_def
      split: if_splits prod.splits)

lemma end_attempt_inputs:
  assumes "end_attempt j kind now usage backoff reply a u = (turn, ms)" and "un_current u = Some a"
  shows "\<exists>a'. de_input a' = de_input a \<and> (case turn of
      UnitCalls u' \<Rightarrow> un_index u' = un_index u \<and> un_input u' = un_input u
        \<and> worker_calls (WorkerBusy u') = un_attempts u @ [a']
    | UnitDone r \<Rightarrow> ur_index r = un_index u \<and> ur_attempts r = un_attempts u @ [a']
    | UnitCrashed \<Rightarrow> False)"
  using assms by (auto simp: end_attempt_def unit_done_def direct_completed_def direct_failed_def Let_def
      split: prod.splits sum.splits)

lemma inputs_kept_turn:
  assumes "inputs_kept units p" and "(un_index u, un_input u) \<in> set units"
    and "case turn of
        UnitCalls u' \<Rightarrow> un_index u' = un_index u \<and> un_input u' = un_input u
          \<and> (\<forall>a \<in> set (worker_calls (WorkerBusy u')). de_input a = PyDict (un_input u))
      | UnitDone r \<Rightarrow> ur_index r = un_index u \<and> (\<forall>a \<in> set (ur_attempts r). de_input a = PyDict (un_input u))
      | UnitCrashed \<Rightarrow> True"
    and "q = p\<lparr>po_calls := calls, po_messages := ms\<rparr>"
  shows "inputs_kept units (apply_turn k turn q)"
proof -
  have same: "po_workers q = po_workers p" "po_results q = po_results p" "po_units q = po_units p"
    by (simp_all add: assms(4))
  have "worker_input units (WorkerBusy u')" if "turn = UnitCalls u'" for u'
    using assms(2,3) that by (simp add: worker_input_def del: worker_calls.simps)
  moreover have "result_input units r" if "turn = UnitDone r" for r
    using assms(2,3) that by (auto simp: result_input_def)
  ultimately show ?thesis using assms(1)
    by (cases turn) (auto simp: inputs_kept_def apply_turn_def same dest!: set_update_cases)
qed

lemma inputs_kept_step:
  assumes "pool_step j kind p q" and "inputs_kept units p"
  shows "inputs_kept units q"
  using assms
proof (induction rule: pool_step.induct)
  case (pool_take k p)
  have "worker_input units (WorkerBusy (new_unit i inp))" if "(i, inp) \<in> set units" for i inp
    using that by (simp add: worker_input_def new_unit_def)
  with pool_take show ?case
    by (cases "po_units p") (auto simp: inputs_kept_def take_unit_def dest!: set_update_cases)
next
  case (pool_start k p u now uid turn calls)
  have old: "(un_index u, un_input u) \<in> set units"
    "\<forall>a \<in> set (worker_calls (WorkerBusy u)). de_input a = PyDict (un_input u)"
    using pool_start.prems pool_start.hyps(1,2) nth_mem [OF pool_start.hyps(1)]
    by (auto simp: inputs_kept_def worker_input_def simp del: worker_calls.simps)
  with pool_start start_attempt_inputs [OF pool_start.hyps(4,3)] show ?case
    by (intro inputs_kept_turn [where calls = calls and ms = "po_messages p"])
      (auto simp del: worker_calls.simps split: unit_turn.splits)
next
  case (pool_end k p u a reply now usage backoff turn ms)
  have old: "(un_index u, un_input u) \<in> set units"
    "\<forall>a \<in> set (worker_calls (WorkerBusy u)). de_input a = PyDict (un_input u)"
    using pool_end.prems pool_end.hyps(1,2) nth_mem [OF pool_end.hyps(1)]
    by (auto simp: inputs_kept_def worker_input_def simp del: worker_calls.simps)
  then have "\<forall>a \<in> set (un_attempts u). de_input a = PyDict (un_input u)" "de_input a = PyDict (un_input u)"
    using pool_end.hyps(3) by auto
  with end_attempt_inputs [OF pool_end.hyps(5,3)] have "case turn of
        UnitCalls u' \<Rightarrow> un_index u' = un_index u \<and> un_input u' = un_input u
          \<and> (\<forall>a \<in> set (worker_calls (WorkerBusy u')). de_input a = PyDict (un_input u))
      | UnitDone r \<Rightarrow> ur_index r = un_index u \<and> (\<forall>a \<in> set (ur_attempts r). de_input a = PyDict (un_input u))
      | UnitCrashed \<Rightarrow> True"
    by (cases turn) (auto simp del: worker_calls.simps)
  from pool_end.prems old(1) this show ?case
    by (rule inputs_kept_turn [where calls = "po_calls p" and ms = "po_messages p @ ms"]) simp
next
  case (pool_cancel p)
  then show ?case by (auto simp: inputs_kept_def cancel_pool_def)
qed

lemma inputs_kept_runs: "pool_runs j kind (start_pool j units calls) p \<Longrightarrow> inputs_kept units p"
proof (induction rule: rtranclp_induct)
  case base
  show ?case by (auto simp: inputs_kept_def start_pool_def)
next
  case (step p q)
  then show ?case by (blast intro: inputs_kept_step)
qed

lemma sorted_results:
  assumes "pool_runs j kind (start_pool j units calls) p" and "pool_ended p"
    and "\<not> po_failed p" and "\<not> po_crashed p" and "map fst units = [0..<length units]"
  shows "map ur_index (sort_key ur_index (po_results p)) = [0..<length units]"
    "length (po_results p) = length units"
proof -
  have a: "mset (map ur_index (po_results p)) = mset (map fst units)"
    "map ur_index (sort_key ur_index (po_results p)) = sort (map fst units)"
    using all_units_answered_raw [OF assms(1-4)] by simp_all
  then show "map ur_index (sort_key ur_index (po_results p)) = [0..<length units]" by (simp add: assms(5))
  show "length (po_results p) = length units" using arg_cong [OF a(1), of size] by simp
qed


section \<open>The summary adds up\<close>

definition units_bounded :: "nat list \<Rightarrow> pool \<Rightarrow> bool" where
  "units_bounded ks p \<longleftrightarrow> mset (pool_units p) \<subseteq># mset ks
     \<and> (po_failed p \<longleftrightarrow> (\<exists>r \<in> set (po_results p). ur_error r \<noteq> None))"

lemma units_bounded_turn:
  assumes "units_bounded ks p" and k: "k < length (po_workers p)" "po_workers p ! k = WorkerBusy u"
    and "case turn of UnitCalls u' \<Rightarrow> un_index u' = un_index u | UnitDone r \<Rightarrow> ur_index r = un_index u
       | UnitCrashed \<Rightarrow> True"
    and "q = p\<lparr>po_calls := calls, po_messages := ms\<rparr>"
  shows "units_bounded ks (apply_turn k turn q)"
proof -
  have same: "po_workers q = po_workers p" "po_results q = po_results p" "po_failed q = po_failed p"
    "pool_units q = pool_units p"
    by (simp_all add: assms(5) pool_units_def)
  have "mset (pool_units (apply_turn k turn q)) \<subseteq># mset (pool_units p)"
    using apply_turn_sums(2) [of k q u turn] k assms(4)
    by (cases turn) (simp_all add: same, metis mset_subset_eq_add_left union_mset_add_mset_right add.right_neutral)
  moreover have "po_failed (apply_turn k turn q) \<longleftrightarrow> (\<exists>r \<in> set (po_results (apply_turn k turn q)). ur_error r \<noteq> None)"
    using assms(1) by (cases turn) (auto simp: units_bounded_def apply_turn_def same)
  ultimately show ?thesis using assms(1) by (auto simp: units_bounded_def intro: subset_mset.order_trans)
qed

lemma units_bounded_step:
  assumes "pool_step j kind p q" and "units_bounded ks p"
  shows "units_bounded ks q"
  using assms
proof (induction rule: pool_step.induct)
  case (pool_take k p)
  then show ?case
    using take_unit_Nil(2) [OF _ pool_take.hyps] take_unit_Cons(2) [OF _ pool_take.hyps]
    by (cases "po_units p") (auto simp: units_bounded_def take_unit_frame)
next
  case (pool_start k p u now uid turn calls)
  then show ?case
    using start_attempt_inputs [OF pool_start.hyps(4,3)]
    by (intro units_bounded_turn [where calls = calls and ms = "po_messages p"])
      (auto split: unit_turn.splits)
next
  case (pool_end k p u a reply now usage backoff turn ms)
  from end_attempt_inputs [OF pool_end.hyps(5,3)]
  have "case turn of UnitCalls u' \<Rightarrow> un_index u' = un_index u | UnitDone r \<Rightarrow> ur_index r = un_index u
      | UnitCrashed \<Rightarrow> True" by (cases turn) auto
  from pool_end.prems pool_end.hyps(1,2) this show ?case
    by (rule units_bounded_turn [where calls = "po_calls p" and ms = "po_messages p @ ms"]) simp
next
  case (pool_cancel p)
  have "mset (pool_units (cancel_pool p)) \<subseteq># mset (pool_units p)"
  proof -
    have z: "concat (map (worker_units \<circ> (\<lambda>_. WorkerEnded)) ws) = []" for ws :: "worker list"
      by (induction ws) simp_all
    show ?thesis by (simp add: pool_units_def cancel_pool_def z)
  qed
  with pool_cancel show ?case
    by (auto simp: units_bounded_def cancel_pool_def intro: subset_mset.order_trans)
qed

lemma units_bounded_runs: "pool_runs j kind (start_pool j units calls) p \<Longrightarrow> units_bounded (map fst units) p"
proof (induction rule: rtranclp_induct)
  case base
  show ?case by (simp add: units_bounded_def start_pool_def pool_units_def)
next
  case (step p q)
  then show ?case by (blast intro: units_bounded_step)
qed



section \<open>The concrete pool again\<close>


definition finished_summary :: parallel_summary where
  "finished_summary = (let rs = sort_key ur_index (po_results pool_finished)
     in parallel_summary_of (sort_key de_sequence (concat (map ur_attempts rs))) rs 2 (po_peak pool_finished))"


theorem job_result_answers_witness:
  "\<exists>r ms. job_result pool_job r ms \<and> nr_execution_id r = 0 \<and> nr_state r = NodeCompleted
     \<and> nr_output r = PyList [PyInt 10, PyInt 11]"
proof -
  define out where "out = aggregate_unit_results pool_job 9 0 0 UnitMapItem 2 (po_peak pool_finished)
    (po_results pool_finished)"
  define pu where "pu = \<lparr>pu_units = [(0, PyDict []), (1, PyDict [])], pu_kind = UnitMapItem,
      pu_error = None, pu_messages = []\<rparr>"
  have prepared: "prepare_units pool_job = Inr pu" unfolding pu_def by code_simp
  have units: "validate_unit_inputs pool_job (pu_units pu) = Inr [(0, []), (1, [])]" unfolding pu_def by code_simp
  have calls: "\<lparr>cp_budget = job_max_operator_attempts pool_job, cp_sequence = call_sequence_start pool_job\<rparr>
      = \<lparr>cp_budget = Some 3, cp_sequence = 0\<rparr>" by code_simp
  have "job_result pool_job (fst out) (pu_messages pu @ po_messages pool_finished @ snd out)"
  proof (rule result_executed [OF prepared _ units])
    show "pu_error pu = None" by (simp add: pu_def)
    show "pool_runs pool_job (pu_kind pu) (start_pool pool_job [(0, []), (1, [])]
        \<lparr>cp_budget = job_max_operator_attempts pool_job, cp_sequence = call_sequence_start pool_job\<rparr>) pool_finished"
      using pool_finished_runs unfolding pool_begin_def calls by (simp add: pu_def)
    show "pool_ended pool_finished" "\<not> po_crashed pool_finished" by code_simp+
    show "aggregate_unit_results pool_job 9 0 0 (pu_kind pu) (length [(0::nat, [] :: pyval dict), (1, [])])
        (po_peak pool_finished) (po_results pool_finished) = (fst out, snd out)"
      by (simp add: out_def pu_def numeral_2_eq_2)
  qed
  then obtain ms where r: "job_result pool_job (fst out) ms" by blast
  have "nr_state (fst out) = NodeCompleted" "nr_output (fst out) = PyList [PyInt 10, PyInt 11]"
    unfolding out_def by code_simp+
  moreover have "ne_id (job_execution pool_job) = 0" by code_simp
  ultimately show ?thesis using job_result_answers [OF r] r by (intro exI conjI) auto
qed

end
