(* ===== verification/Concurrency.thy ===== *)
theory Concurrency
  imports Invocations
begin

text \<open>
  The process-wide limit on concurrent executions of a node: \<open>core/runtime/concurrency.py\<close>. A
  slot pool is an asyncio semaphore: a counter of free slots and a queue of waiting tasks, to
  the first of which a released slot is handed. \<open>sl_holders\<close> records who is inside the slot.
\<close>

section \<open>Slots\<close>

record slot_pool =
  sl_limit :: int
  sl_free :: nat
  sl_waiters :: "nat list"
  sl_holders :: "nat list"

definition new_slot_pool :: "int \<Rightarrow> slot_pool" where
  "new_slot_pool limit = \<lparr>sl_limit = limit, sl_free = nat limit, sl_waiters = [], sl_holders = []\<rparr>"

definition acquire_slot :: "nat \<Rightarrow> slot_pool \<Rightarrow> slot_pool" where
  "acquire_slot t s =
     (if 0 < sl_free s \<and> sl_waiters s = []
      then s\<lparr>sl_free := sl_free s - 1, sl_holders := sl_holders s @ [t]\<rparr>
      else s\<lparr>sl_waiters := sl_waiters s @ [t]\<rparr>)"

definition release_slot :: "nat \<Rightarrow> slot_pool \<Rightarrow> slot_pool" where
  "release_slot t s =
     (case sl_waiters s of
        [] \<Rightarrow> s\<lparr>sl_free := sl_free s + 1, sl_holders := remove1 t (sl_holders s)\<rparr>
      | w # ws \<Rightarrow> s\<lparr>sl_waiters := ws, sl_holders := remove1 t (sl_holders s) @ [w]\<rparr>)"

definition cancel_waiter :: "nat \<Rightarrow> slot_pool \<Rightarrow> slot_pool" where
  "cancel_waiter t s = s\<lparr>sl_waiters := remove1 t (sl_waiters s)\<rparr>"

text \<open>Entering \<open>async_slot\<close>: without a limit nothing is tracked.\<close>

definition enter_slot :: "string \<Rightarrow> int option \<Rightarrow> nat \<Rightarrow> slot_pool dict \<Rightarrow> slot_pool dict res" where
  "enter_slot key limit t pools =
     (case limit of
        None \<Rightarrow> Inr pools
      | Some n \<Rightarrow>
          if n < 1 then Inl (ValueError ''Runtime concurrency limit must be at least 1.'')
          else (case dict_get pools key of
              None \<Rightarrow> Inr (dict_set key (acquire_slot t (new_slot_pool n)) pools)
            | Some s \<Rightarrow>
                if sl_limit s \<noteq> n then Inl (ValueError
                  (''Runtime concurrency key '' @ [CHR 0x27] @ key @ [CHR 0x27] @ '' was configured with ''
                   @ ''conflicting limits '' @ str_nat (nat (sl_limit s)) @ '' and '' @ str_nat (nat n) @ ''.''))
                else Inr (dict_set key (acquire_slot t s) pools)))"

inductive slot_step :: "slot_pool dict \<Rightarrow> slot_pool dict \<Rightarrow> bool" where
  slot_enter: "enter_slot key limit t pools = Inr pools' \<Longrightarrow> slot_step pools pools'"
| slot_leave: "dict_get pools key = Some s \<Longrightarrow> t \<in> set (sl_holders s) \<Longrightarrow>
    slot_step pools (dict_set key (release_slot t s) pools)"
| slot_cancelled: "dict_get pools key = Some s \<Longrightarrow> t \<in> set (sl_waiters s) \<Longrightarrow>
    slot_step pools (dict_set key (cancel_waiter t s) pools)"

definition slot_ok :: "slot_pool \<Rightarrow> bool" where
  "slot_ok s \<longleftrightarrow> 1 \<le> sl_limit s \<and> int (sl_free s + length (sl_holders s)) = sl_limit s
     \<and> (sl_waiters s \<noteq> [] \<longrightarrow> sl_free s = 0)"

lemma slot_ok_ops:
  "1 \<le> n \<Longrightarrow> slot_ok (new_slot_pool n)"
  "slot_ok s \<Longrightarrow> slot_ok (acquire_slot t s)"
  "slot_ok s \<Longrightarrow> t \<in> set (sl_holders s) \<Longrightarrow> slot_ok (release_slot t s)"
  "slot_ok s \<Longrightarrow> slot_ok (cancel_waiter t s)"
proof -
  show "slot_ok s \<Longrightarrow> t \<in> set (sl_holders s) \<Longrightarrow> slot_ok (release_slot t s)"
    using length_pos_if_in_set [of t "sl_holders s"]
    by (auto simp: slot_ok_def release_slot_def length_remove1 of_nat_diff Suc_le_eq split: list.splits)
qed (auto simp: slot_ok_def new_slot_pool_def acquire_slot_def cancel_waiter_def)

lemma slot_step_ok:
  assumes "slot_step a b" and "\<And>k s. dict_get a k = Some s \<Longrightarrow> slot_ok s"
  shows "dict_get b k = Some s \<Longrightarrow> slot_ok s"
  using assms
proof (induction rule: slot_step.induct)
  case (slot_enter key limit t pools pools')
  then show ?case
    by (auto simp: enter_slot_def intro!: slot_ok_ops split: option.splits if_splits)
qed (auto intro!: slot_ok_ops split: if_splits)


definition sample_slots :: "slot_pool dict" where
  "sample_slots = projr (foldR (\<lambda>p t. enter_slot ''n'' (Some 2) t p) [] [7, 8, 9])"


end
