(* ===== verification/Spec2Isabelle.thy ===== *)
theory Spec2Isabelle
  imports State_Deltas Runtime_Store Persistence_Books Scheduler_Totality Executor_Guarantees Compiler_Guarantees Expansion_Guarantees Node_Aggregation Concurrency Records Contexts Operators Mailbox
begin

text \<open>
  Verification of the AutoAgent workflow engine (\<open>src/autoagent/core\<close>): the compiler that turns a
  source workflow into a graph, the scheduler that decides what may run, the executor that runs it,
  the operators' attempts and results, and the runtime state it leaves behind, from records to the
  journal of differences and the queue in front of the durable store.

  HOW THE PROGRAM IS PUT TOGETHER

  An author builds a workflow of nodes and conditional edges (\<open>workflow/\<close>). \<open>compiler/\<close> flattens child
  workflows, validates nodes, edges, policies and contracts, and analyses the loops: it computes
  dominators, back edges and natural loops and rejects what is not reducible or not nested. The
  result, a \<open>WorkflowIR\<close>, is what the runtime reads. An \<open>Invocation\<close> (\<open>runtime/invocation.py\<close>) keeps
  the history of node executions, the scheduler's cursor and the contexts. \<open>WorkflowExecutor\<close>
  (\<open>executor/workflow_executor.py\<close>) loops: it takes the requests the \<open>Scheduler\<close> made ready, maps
  inputs, hands jobs to the \<open>NodeExecutor\<close> (\<open>executor/node_executor.py\<close>), reads the results from a
  mailbox, publishes output bindings into the contexts and tells the scheduler, which evaluates the
  outgoing edges, settles joins and loop boundaries, and appends new requests. A node may be one
  call, a map over a list or a replication, each unit with retries and fallbacks, all within limits
  on parallelism, attempts and process-wide concurrency. Every change is recorded as an event; in
  Full mode an event carries the difference of the state tree, and the persistence coordinator
  queues what the durable store is to write.

  WHICH THEORY MODELS WHAT

  Shared. \<open>Prelude\<close>: exceptions as values of the sum type \<open>res\<close>, loops over lists, dictionaries as
  association lists in insertion order, decimal text. \<open>Values\<close>: Python values. \<open>Python_Equality\<close>:
  Python's \<open>==\<close>.

  Runtime state (\<open>core/runtime\<close>). \<open>Scheduler_Context\<close> is \<open>scheduler.py\<close>: scopes, composite keys, the
  queues and resolutions of the cursor. \<open>Executions\<close> is \<open>execution.py\<close>, \<open>Outputs\<close> is \<open>output.py\<close>,
  \<open>Invocations\<close> is \<open>invocation.py\<close>, \<open>Mailbox\<close> is \<open>mailbox.py\<close>, \<open>Concurrency\<close> is \<open>concurrency.py\<close>, and
  \<open>Runtime_Events\<close> the recording of events. \<open>Contexts\<close> is the commit of isolated context copies in
  \<open>context.py\<close>. \<open>Records\<close> holds the record form of all of them with the locale \<open>codec\<close> of a writer and
  its reader, interpreted for every pair. \<open>State_Trees\<close> and \<open>Snapshots\<close> are \<open>snapshot.py\<close>, \<open>session.py\<close>
  and \<open>StateOperation\<close>: differences of trees, their application, captured images, the operations of an
  event and the reduction of a journal. \<open>Persistence\<close> is \<open>persistence.py\<close>.

  Scheduling. \<open>Workflow_IR\<close> is \<open>compiler/workflow_ir.py\<close> with the policies the runtime reads.
  \<open>Scheduler\<close> has one definition per method of \<open>scheduler/scheduler.py\<close>.

  Execution. \<open>Operators\<close> is the registry and the resolver of \<open>operators/\<close>. \<open>Dispatch\<close>, \<open>User_Events\<close>,
  \<open>Node_Calls\<close>, \<open>Node_Units\<close>, \<open>Node_Pool\<close> and \<open>Node_Aggregation\<close> are \<open>executor/node_executor.py\<close> from
  the submission of a job over the calls, attempts and workers to the result it answers with.
  \<open>Workflow_Executor\<close> is the control loop with recovery.

  Compilation. \<open>Workflow_Source\<close> is \<open>workflow/\<close> and the diagnostics. \<open>Compiler_Nodes\<close>,
  \<open>Compiler_Loops\<close>, \<open>Compiler_Policies\<close> and \<open>Compiler\<close> are \<open>compiler/compiler.py\<close> and \<open>analysis.py\<close>,
  \<open>Compiler_Expansion\<close> is \<open>compiler/expansion.py\<close>.

  WHAT IS PROVED, AND WHERE

  Scheduler. \<open>Scheduler_Routing\<close> states once, in the locale \<open>cursor_relation\<close>, what every operation
  does to the cursor. \<open>Scheduler_Safety\<close>: no node instance is requested twice, joins wait for all
  their edges, everything else is untouched. \<open>Settling\<close>, \<open>Scheduler_Returns\<close> and \<open>Scheduler_Totality\<close>:
  the scheduler returns. Its methods are mutually recursive through the finalisation of loop
  boundaries and contain work-list loops, so their definitions carry two budgets, \<open>fu_depth\<close> and
  \<open>fu_rounds\<close>; for every well-formed workflow and sound cursor some budgets suffice and the result no
  longer depends on them, because each round skips a new instance of a finite universe or moves to
  a shorter scope.

  Executor. \<open>Executor_Relations\<close> lifts relations over all its functions; \<open>Executor_Life\<close> uses them for
  the event log, the append-only history and the limits; \<open>Executor_Balance\<close>, \<open>Executor_Loop\<close>,
  \<open>Executor_Recovery\<close> and \<open>Executor_Guarantees\<close> keep the books of what is owed a result: no result
  meets an unknown execution, the loop blocks only while a task runs, and it returns with nothing
  left active, also after a crash.

  Node execution. Every unit is answered, in item order, within the attempt budget and the
  parallelism limit, and the pool terminates (\<open>Node_Pool\<close>, \<open>Node_Aggregation\<close>); limits across
  invocations hold (\<open>Concurrency\<close>); streams publish in order (\<open>User_Events\<close>).

  State. A restored invocation is the stored one (\<open>Records\<close>); a journal of differences replays to the
  image of the last state (\<open>State_Deltas\<close>); concurrent context writes are never lost (\<open>Contexts\<close>);
  the coordinator's byte count, ready queue and order of delivery are right (\<open>Persistence_Books\<close>).

  Compiler. \<open>Flow_Reachability\<close>, \<open>Compiler_Dominators\<close>: the iteration returns and computes dominance.
  \<open>Compiler_Topology\<close>, \<open>Compiler_Nesting\<close>, \<open>Compiler_Correct\<close>: forward edges are acyclic, accepted loops
  are natural, nested and entered at their header. \<open>Compiler_Guarantees\<close>: compilation returns for
  every source, and an accepted workflow whose nodes are all reachable satisfies \<open>wf_ir\<close>, the
  hypothesis of the scheduler's theorems. \<open>Expansion_Guarantees\<close>: expansion leaves a flat workflow.

  HOW THE MODEL RELATES TO THE CODE

  Values. Dictionary keys are strings and dictionaries association lists; tuples, sets and generators
  are lists; floats are not modelled, so multipliers and delays are integers; deep copies and copy on
  write are the identity. UUIDs are numbers with decimal text, taken from a supply; clock readings
  are arguments. Creation and update timestamps, elapsed times, event ids and logging are left out.
  State paths use numbers for list positions.

  Effects. A method is a function of the record of its object. An exception carries no partially
  changed state, except where the code relies on it (\<open>settle_waiting\<close>, the methods of the persistence
  coordinator). User code (operators, conditions, mappings, bindings, aggregators, hooks) is an
  argument that returns a value or an exception; concurrency is a step relation or a list of steps
  that allows at least the interleavings of the event loop. A task's id is its execution's id, and
  the messages published while tasks are abandoned are an argument.

  Compiler. Workflow objects are numbers in a store, so that recursive workflows exist; sets are
  iterated in the order of the nodes; that a hook is callable is guaranteed by the source types;
  contracts derived from callables and annotations, and the definition hash, are arguments.
  The dominator iteration is a \<open>partial_function\<close> with a theorem that it returns.

  Persistence. Every method holds the lock, so it is one step; the wake-up of the consumer is the
  exception it raises, if any; status listeners are left out.

  NOT MODELLED

  The SQL backend (\<open>runtime/backends\<close>) and artifacts are input and output over SQLAlchemy and files;
  the server, its trace views, the command line, the project loader and the model providers
  (\<open>server/\<close>, \<open>cli/\<close>, \<open>project/\<close>, \<open>ai/\<close>) are glue over HTTP and the engine; \<open>serialization.py\<close> and
  \<open>operators/contract.py\<close> inspect Python types at run time, which the value model does not have;
  \<open>app/app.py\<close> wires the parts together.
\<close>

end
